(* ===== verification/Prelude.thy ===== *)
theory Prelude
  imports Main "HOL-Library.Word"
begin

text \<open>
  Shared vocabulary of the development: the Rust result type with an explicit panic branch, the
  kinds of \<open>std::io::Error\<close> the crate distinguishes, machine-sized arithmetic with its saturation
  and wrap-around written out, and the generic list and option lemmas the component theories use.
  The collections \<open>byte_simps\<close>, \<open>utf8_simps\<close>, \<open>io_simps\<close> and \<open>budget_simps\<close> carry the automation
  of the components.
\<close>

unbundle bit_operations_syntax

named_theorems byte_simps
named_theorems utf8_simps
named_theorems io_simps
named_theorems budget_simps

section \<open>Results, panics and errors\<close>

text \<open>
  \<open>Result<T, E>\<close> of Rust, with one more constructor: \<open>Panic\<close> is the value of a computation that
  leaves through \<open>expect\<close>, \<open>unwrap\<close>, a slice out of range or a checked arithmetic failure.
\<close>

datatype ('a, 'e) result = Ok 'a | Err 'e | Panic

definition is_Ok :: "('a, 'e) result \<Rightarrow> bool" where
  "is_Ok r = (case r of Ok _ \<Rightarrow> True | _ \<Rightarrow> False)"

definition map_err :: "('e \<Rightarrow> 'f) \<Rightarrow> ('a, 'e) result \<Rightarrow> ('a, 'f) result" where
  "map_err f r = (case r of Ok x \<Rightarrow> Ok x | Err e \<Rightarrow> Err (f e) | Panic \<Rightarrow> Panic)"

lemma is_Ok_simps [simp]:
  "is_Ok (Ok x)" "\<not> is_Ok (Err e)" "\<not> is_Ok Panic"
  by (simp_all add: is_Ok_def)

lemma map_err_simps [simp]:
  "map_err f (Ok x) = Ok x" "map_err f (Err e) = Err (f e)" "map_err f Panic = Panic"
  by (simp_all add: map_err_def)

lemma map_err_eq_Ok [simp]: "map_err f r = Ok x \<longleftrightarrow> r = Ok x"
  by (cases r) simp_all

text \<open>The kinds of \<open>std::io::ErrorKind\<close> that the modelled code builds or matches on.\<close>

datatype io_error_kind =
    IoNotFound | IoPermissionDenied | IoAlreadyExists | IoInvalidInput | IoInvalidData | IoTimedOut
  | IoWriteZero | IoInterrupted | IoNotADirectory | IoIsADirectory | IoDirectoryNotEmpty | IoCrossesDevices
  | IoOutOfMemory | IoStorageFull | IoQuotaExceeded | IoUnsupported | IoWouldBlock | IoBrokenPipe
  | IoFileTooLarge | IoUnexpectedEof | IoOther

section \<open>Machine-sized arithmetic\<close>

text \<open>
  \<open>usize\<close> and \<open>u64\<close> on the 64-bit targets. Values are natural numbers; every operation that can
  leave the range says what the source does there: it saturates, or it wraps.
\<close>

type_synonym usize = nat
type_synonym u64 = nat
type_synonym instant = nat
type_synonym duration = nat

definition usize_max :: nat where
  "usize_max = 2 ^ 64 - 1"

definition saturating_sub :: "nat \<Rightarrow> nat \<Rightarrow> nat" where
  "saturating_sub a b = (if b \<le> a then a - b else 0)"

definition saturating_add :: "nat \<Rightarrow> nat \<Rightarrow> nat" where
  "saturating_add a b = (if a + b \<le> usize_max then a + b else usize_max)"

definition wrapping_add :: "nat \<Rightarrow> nat \<Rightarrow> nat" where
  "wrapping_add a b = (a + b) mod (usize_max + 1)"

definition wrapping_sub :: "nat \<Rightarrow> nat \<Rightarrow> nat" where
  "wrapping_sub a b = (a + (usize_max + 1) - b) mod (usize_max + 1)"

definition checked_add :: "nat \<Rightarrow> nat \<Rightarrow> nat option" where
  "checked_add a b = (if a + b \<le> usize_max then Some (a + b) else None)"

lemma saturating_sub_eq [simp]: "saturating_sub a b = a - b"
  by (simp add: saturating_sub_def)

lemma saturating_add_bound: "saturating_add a b \<le> usize_max"
  by (simp add: saturating_add_def)

lemma saturating_add_eq: "a + b \<le> usize_max \<Longrightarrow> saturating_add a b = a + b"
  by (simp add: saturating_add_def)

lemma wrapping_add_eq: "a + b \<le> usize_max \<Longrightarrow> wrapping_add a b = a + b"
  by (simp add: wrapping_add_def)

lemma wrapping_sub_eq:
  assumes "b \<le> a" and "a \<le> usize_max"
  shows "wrapping_sub a b = a - b"
proof -
  have "a + (usize_max + 1) - b = (a - b) + (usize_max + 1)"
    using assms by simp
  then have "wrapping_sub a b = (a - b) mod (usize_max + 1)"
    by (simp only: wrapping_sub_def mod_add_self2)
  also have "\<dots> = a - b"
    using assms by (intro mod_less) simp
  finally show ?thesis .
qed

lemma checked_add_eq_Some: "checked_add a b = Some c \<longleftrightarrow> c = a + b \<and> a + b \<le> usize_max"
  by (auto simp: checked_add_def)

section \<open>Lists\<close>

lemma fold_append_acc:
  assumes "\<And>x acc. f x acc = acc @ g x"
  shows "fold f xs acc = acc @ concat (map g xs)"
  by (induction xs arbitrary: acc) (simp_all add: assms)

lemma take_append_drop_between:
  "i \<le> j \<Longrightarrow> take i xs @ take (j - i) (drop i xs) @ drop j xs = xs"
  by (metis append.assoc append_take_drop_id drop_drop le_add_diff_inverse2)

lemma concat_map_singleton: "concat (map (\<lambda>x. [f x]) xs) = map f xs"
  by (induction xs) simp_all

end
