(* ===== verification/Utf8.thy ===== *)
theory Utf8
  imports Prelude
begin

text \<open>
  The part of the standard library's text handling that the crate calls: UTF-8 validation as
  \<^verbatim>\<open>core::str\<close> performs it (the scalars, or the error with its \<open>valid_up_to\<close> and \<open>error_len\<close>),
  \<open>char::encode_utf8\<close>, \<open>char::is_control\<close>, and UTF-16 decoding and encoding with unpaired surrogates.
  A \<open>char\<close> is its code point, a \<open>str\<close> the list of its bytes. The lemmas show that validation inverts
  the encoding and that the reported error positions are in range.
\<close>

type_synonym byte = "8 word"
type_synonym scalar = nat

section \<open>UTF-8 in the standard library\<close>

definition byte_of :: "nat \<Rightarrow> byte" where
  "byte_of n = word_of_nat n"

definition is_continuation :: "byte \<Rightarrow> bool" where
  "is_continuation b = (128 \<le> unat b \<and> unat b < 192)"

definition is_control :: "scalar \<Rightarrow> bool" where
  "is_control c = (c < 32 \<or> (127 \<le> c \<and> c < 160))"

definition is_scalar :: "scalar \<Rightarrow> bool" where
  "is_scalar c = (c < 55296 \<or> (57344 \<le> c \<and> c < 1114112))"

definition encode_utf8 :: "scalar \<Rightarrow> byte list" where
  "encode_utf8 c =
     (if c < 128 then [byte_of c]
      else if c < 2048 then [byte_of (192 + c div 64), byte_of (128 + c mod 64)]
      else if c < 65536 then
        [byte_of (224 + c div 4096), byte_of (128 + c div 64 mod 64), byte_of (128 + c mod 64)]
      else
        [byte_of (240 + c div 262144), byte_of (128 + c div 4096 mod 64),
         byte_of (128 + c div 64 mod 64), byte_of (128 + c mod 64)])"

text \<open>
  One step of \<open>core::str\<close>'s validation: the scalar at the front and its width, or the error
  length (\<open>None\<close> when the input ends inside a sequence).
\<close>

datatype utf8_step = Scalar scalar nat | Malformed "nat option"

definition second_byte_ok3 :: "nat \<Rightarrow> nat \<Rightarrow> bool" where
  "second_byte_ok3 b c =
     ((b = 224 \<and> 160 \<le> c \<and> c < 192) \<or> (225 \<le> b \<and> b \<le> 236 \<and> 128 \<le> c \<and> c < 192) \<or>
      (b = 237 \<and> 128 \<le> c \<and> c < 160) \<or> (238 \<le> b \<and> b \<le> 239 \<and> 128 \<le> c \<and> c < 192))"

definition second_byte_ok4 :: "nat \<Rightarrow> nat \<Rightarrow> bool" where
  "second_byte_ok4 b c =
     ((b = 240 \<and> 144 \<le> c \<and> c < 192) \<or> (241 \<le> b \<and> b \<le> 243 \<and> 128 \<le> c \<and> c < 192) \<or>
      (b = 244 \<and> 128 \<le> c \<and> c < 144))"

definition utf8_next2 :: "byte \<Rightarrow> byte list \<Rightarrow> utf8_step" where
  "utf8_next2 b rest =
     (case rest of
        [] \<Rightarrow> Malformed None
      | c1 # _ \<Rightarrow>
          if is_continuation c1 then Scalar ((unat b - 192) * 64 + (unat c1 - 128)) 2
          else Malformed (Some 1))"

definition utf8_next3 :: "byte \<Rightarrow> byte list \<Rightarrow> utf8_step" where
  "utf8_next3 b rest =
     (case rest of
        [] \<Rightarrow> Malformed None
      | c1 # rest1 \<Rightarrow>
          if \<not> second_byte_ok3 (unat b) (unat c1) then Malformed (Some 1)
          else (case rest1 of
             [] \<Rightarrow> Malformed None
           | c2 # _ \<Rightarrow>
               if is_continuation c2
               then Scalar ((unat b - 224) * 4096 + (unat c1 - 128) * 64 + (unat c2 - 128)) 3
               else Malformed (Some 2)))"

definition utf8_next4 :: "byte \<Rightarrow> byte list \<Rightarrow> utf8_step" where
  "utf8_next4 b rest =
     (case rest of
        [] \<Rightarrow> Malformed None
      | c1 # rest1 \<Rightarrow>
          if \<not> second_byte_ok4 (unat b) (unat c1) then Malformed (Some 1)
          else (case rest1 of
             [] \<Rightarrow> Malformed None
           | c2 # rest2 \<Rightarrow>
               if \<not> is_continuation c2 then Malformed (Some 2)
               else (case rest2 of
                  [] \<Rightarrow> Malformed None
                | c3 # _ \<Rightarrow>
                    if is_continuation c3
                    then Scalar ((unat b - 240) * 262144 + (unat c1 - 128) * 4096
                                 + (unat c2 - 128) * 64 + (unat c3 - 128)) 4
                    else Malformed (Some 3))))"

definition utf8_next :: "byte \<Rightarrow> byte list \<Rightarrow> utf8_step" where
  "utf8_next b rest =
     (if unat b < 128 then Scalar (unat b) 1
      else if 194 \<le> unat b \<and> unat b \<le> 223 then utf8_next2 b rest
      else if 224 \<le> unat b \<and> unat b \<le> 239 then utf8_next3 b rest
      else if 240 \<le> unat b \<and> unat b \<le> 244 then utf8_next4 b rest
      else Malformed (Some 1))"

lemma utf8_next_width_pos: "utf8_next b rest = Scalar c n \<Longrightarrow> 0 < n"
  by (auto simp: utf8_next_def utf8_next2_def utf8_next3_def utf8_next4_def
      split: if_splits list.splits)

text \<open>\<open>str::from_utf8\<close>: the scalars, or the error with its \<open>valid_up_to\<close> and \<open>error_len\<close>.\<close>

function from_utf8 :: "byte list \<Rightarrow> (scalar list, nat \<times> nat option) result" where
  "from_utf8 [] = Ok []"
| "from_utf8 (b # rest) =
     (case utf8_next b rest of
        Malformed e \<Rightarrow> Err (0, e)
      | Scalar c n \<Rightarrow>
          (case from_utf8 (drop n (b # rest)) of
             Ok cs \<Rightarrow> Ok (c # cs)
           | Err (v, e) \<Rightarrow> Err (n + v, e)
           | Panic \<Rightarrow> Panic))"
  by pat_completeness auto
termination
  by (relation "measure length") (auto dest: utf8_next_width_pos)

declare from_utf8.simps(2) [simp del]

section \<open>UTF-16\<close>

type_synonym unit16 = "16 word"

definition unit_of :: "nat \<Rightarrow> unit16" where
  "unit_of n = word_of_nat n"

definition is_surrogate :: "unit16 \<Rightarrow> bool" where
  "is_surrogate u = (55296 \<le> unat u \<and> unat u \<le> 57343)"

definition is_low_surrogate :: "unit16 \<Rightarrow> bool" where
  "is_low_surrogate u = (56320 \<le> unat u \<and> unat u \<le> 57343)"

text \<open>\<open>char::decode_utf16\<close>: a scalar (\<open>Inr\<close>) or an unpaired surrogate (\<open>Inl\<close>) per step.\<close>

fun decode_utf16 :: "unit16 list \<Rightarrow> (unit16 + scalar) list" where
  "decode_utf16 [] = []"
| "decode_utf16 [u] = [if is_surrogate u then Inl u else Inr (unat u)]"
| "decode_utf16 (u # u2 # rest) =
     (if \<not> is_surrogate u then Inr (unat u) # decode_utf16 (u2 # rest)
      else if is_low_surrogate u then Inl u # decode_utf16 (u2 # rest)
      else if \<not> is_low_surrogate u2 then Inl u # decode_utf16 (u2 # rest)
      else Inr (65536 + (unat u - 55296) * 1024 + (unat u2 - 56320)) # decode_utf16 rest)"

definition encode_utf16 :: "scalar \<Rightarrow> unit16 list" where
  "encode_utf16 c =
     (if c < 65536 then [unit_of c]
      else [unit_of (55296 + (c - 65536) div 1024), unit_of (56320 + (c - 65536) mod 1024)])"

section \<open>Validation inverts the encoding\<close>

lemma unat_byte_of [byte_simps]: "n < 256 \<Longrightarrow> unat (byte_of n) = n"
  by (simp add: byte_of_def unat_of_nat take_bit_eq_mod)

lemma unat_byte_bound: "unat (b :: byte) < 256"
  using unsigned_less [of b, where ?'a = nat] by simp

lemma byte_of_eq: "unat b = n \<Longrightarrow> byte_of n = b"
  by (auto simp: byte_of_def)

lemma byte_of_eq_iff: "n < 256 \<Longrightarrow> byte_of n = b \<longleftrightarrow> unat b = n"
  by (auto simp: byte_of_def unat_of_nat take_bit_eq_mod)

lemma mixed_radix_digits:
  fixes q r m :: nat
  assumes "r < m"
  shows "(q * m + r) div m = q" and "(q * m + r) mod m = r"
  using assms by simp_all

lemma utf8_next2_sound:
  assumes "utf8_next2 b rest = Scalar c n" and "194 \<le> unat b" and "unat b \<le> 223"
  shows "encode_utf8 c = take n (b # rest) \<and> n \<le> length (b # rest) \<and> is_scalar c"
proof -
  obtain c1 rest1 where rest: "rest = c1 # rest1" and c1: "is_continuation c1"
    and c: "c = (unat b - 192) * 64 + (unat c1 - 128)" and n: "n = 2"
    using assms(1) by (auto simp: utf8_next2_def split: list.splits if_splits)
  have low: "unat c1 - 128 < 64" "128 \<le> unat c1"
    using c1 by (auto simp: is_continuation_def)
  have "c div 64 = unat b - 192" "c mod 64 = unat c1 - 128"
    unfolding c by (rule mixed_radix_digits [OF low(1)])+
  moreover have "128 \<le> c" "c < 2048"
    unfolding c using assms(2,3) low by linarith+
  ultimately show ?thesis
    using assms(2) low rest n by (simp add: encode_utf8_def byte_of_eq is_scalar_def)
qed

lemma utf8_next3_sound:
  assumes "utf8_next3 b rest = Scalar c n" and "224 \<le> unat b" and "unat b \<le> 239"
  shows "encode_utf8 c = take n (b # rest) \<and> n \<le> length (b # rest) \<and> is_scalar c"
proof -
  obtain c1 c2 rest2 where rest: "rest = c1 # c2 # rest2" and c2: "is_continuation c2"
    and ok: "second_byte_ok3 (unat b) (unat c1)"
    and c: "c = (unat b - 224) * 4096 + (unat c1 - 128) * 64 + (unat c2 - 128)" and n: "n = 3"
    using assms(1) by (auto simp: utf8_next3_def split: list.splits if_splits)
  define x where "x = unat b - 224"
  define y where "y = unat c1 - 128"
  define z where "z = unat c2 - 128"
  have z: "z < 64" "unat c2 = 128 + z"
    using c2 by (auto simp: is_continuation_def z_def)
  have y: "y < 64" "unat c1 = 128 + y"
    using ok by (auto simp: second_byte_ok3_def y_def)
  have x: "x < 16" "unat b = 224 + x"
    using assms(2,3) by (auto simp: x_def)
  have c': "c = (x * 64 + y) * 64 + z"
    by (simp add: c x_def y_def z_def)
  have "c div 64 = x * 64 + y" "c mod 64 = z"
    unfolding c' by (rule mixed_radix_digits [OF z(1)])+
  moreover from this have "c div 4096 = x" "c div 64 mod 64 = y"
    using y div_mult2_eq [of c 64 64] by simp_all
  moreover have "2048 \<le> c" "c < 65536" "is_scalar c"
    unfolding c' using ok x y z
    by (auto simp: second_byte_ok3_def is_scalar_def)
  ultimately show ?thesis
    using rest n x y z by (simp add: encode_utf8_def byte_of_eq)
qed

lemma utf8_next4_sound:
  assumes "utf8_next4 b rest = Scalar c n" and "240 \<le> unat b" and "unat b \<le> 244"
  shows "encode_utf8 c = take n (b # rest) \<and> n \<le> length (b # rest) \<and> is_scalar c"
proof -
  obtain c1 c2 c3 rest3 where rest: "rest = c1 # c2 # c3 # rest3"
    and c2: "is_continuation c2" and c3: "is_continuation c3"
    and ok: "second_byte_ok4 (unat b) (unat c1)"
    and c: "c = (unat b - 240) * 262144 + (unat c1 - 128) * 4096
                  + (unat c2 - 128) * 64 + (unat c3 - 128)" and n: "n = 4"
    using assms(1) by (auto simp: utf8_next4_def split: list.splits if_splits)
  define x where "x = unat b - 240"
  define y where "y = unat c1 - 128"
  define z where "z = unat c2 - 128"
  define t where "t = unat c3 - 128"
  have t: "t < 64" "unat c3 = 128 + t"
    using c3 by (auto simp: is_continuation_def t_def)
  have z: "z < 64" "unat c2 = 128 + z"
    using c2 by (auto simp: is_continuation_def z_def)
  have y: "y < 64" "unat c1 = 128 + y"
    using ok by (auto simp: second_byte_ok4_def y_def)
  have x: "x < 5" "unat b = 240 + x"
    using assms(2,3) by (auto simp: x_def)
  have c': "c = ((x * 64 + y) * 64 + z) * 64 + t"
    by (simp add: c x_def y_def z_def t_def)
  have d1: "c div 64 = (x * 64 + y) * 64 + z" "c mod 64 = t"
    unfolding c' by (rule mixed_radix_digits [OF t(1)])+
  have d2: "c div 4096 = x * 64 + y" "c div 64 mod 64 = z"
    unfolding d1(1) using z mixed_radix_digits [OF z(1), of "x * 64 + y"] d1(1) div_mult2_eq [of c 64 64]
    by simp_all
  have d3: "c div 262144 = x" "c div 4096 mod 64 = y"
    using d2 y div_mult2_eq [of c 4096 64] by simp_all
  have "65536 \<le> c" "c < 1114112"
    unfolding c' using ok x y z t by (auto simp: second_byte_ok4_def)
  then show ?thesis
    using rest n x y z t d1 d2 d3 by (simp add: encode_utf8_def byte_of_eq is_scalar_def)
qed

lemma utf8_next_sound:
  assumes "utf8_next b rest = Scalar c n"
  shows "encode_utf8 c = take n (b # rest) \<and> n \<le> length (b # rest) \<and> is_scalar c"
proof -
  consider "unat b < 128" "c = unat b" "n = 1"
    | "utf8_next2 b rest = Scalar c n" "194 \<le> unat b" "unat b \<le> 223"
    | "utf8_next3 b rest = Scalar c n" "224 \<le> unat b" "unat b \<le> 239"
    | "utf8_next4 b rest = Scalar c n" "240 \<le> unat b" "unat b \<le> 244"
    using assms unfolding utf8_next_def by (auto split: if_splits)
  then show ?thesis
  proof cases
    case 1
    then show ?thesis by (simp add: encode_utf8_def byte_of_eq is_scalar_def)
  qed (simp_all only: utf8_next2_sound utf8_next3_sound utf8_next4_sound)
qed

lemma encode_utf8_width: "utf8_next b rest = Scalar c n \<Longrightarrow> n = length (encode_utf8 c)"
  using utf8_next_sound [of b rest c n] by simp

lemma utf8_next_error_len:
  "utf8_next b rest = Malformed (Some n) \<Longrightarrow> 0 < n \<and> n \<le> length (b # rest)"
  by (auto simp: utf8_next_def utf8_next2_def utf8_next3_def utf8_next4_def
      split: if_splits list.splits)

lemma utf8_next2_take:
  assumes "utf8_next2 b rest = Scalar c n" and "n \<le> Suc m"
  shows "utf8_next2 b (take m rest) = Scalar c n"
proof -
  have "n = 2"
    using assms(1) by (auto simp: utf8_next2_def split: list.splits if_splits)
  with assms(2) obtain k where "m = Suc k"
    by (cases m) auto
  with assms(1) show ?thesis
    by (auto simp: utf8_next2_def split: list.splits if_splits)
qed

lemma utf8_next3_take:
  assumes "utf8_next3 b rest = Scalar c n" and "n \<le> Suc m"
  shows "utf8_next3 b (take m rest) = Scalar c n"
proof -
  have "n = 3"
    using assms(1) by (auto simp: utf8_next3_def split: list.splits if_splits)
  with assms(2) obtain k where "m = Suc (Suc k)"
    by (metis Suc_le_D Suc_le_mono numeral_3_eq_3)
  with assms(1) show ?thesis
    by (auto simp: utf8_next3_def split: list.splits if_splits)
qed

lemma utf8_next4_take:
  assumes "utf8_next4 b rest = Scalar c n" and "n \<le> Suc m"
  shows "utf8_next4 b (take m rest) = Scalar c n"
proof -
  have "n = 4"
    using assms(1) by (auto simp: utf8_next4_def split: list.splits if_splits)
  then have "m = Suc (Suc (Suc (m - 3)))"
    using assms(2) by simp
  then obtain k where "m = Suc (Suc (Suc k))" ..
  with assms(1) show ?thesis
    by (auto simp: utf8_next4_def split: list.splits if_splits)
qed

lemma utf8_next_take:
  assumes "utf8_next b rest = Scalar c n" and "n \<le> Suc m"
  shows "utf8_next b (take m rest) = Scalar c n"
  using assms utf8_next2_take utf8_next3_take utf8_next4_take
  by (simp add: utf8_next_def split: if_splits)

lemma utf8_next_encode_utf8:
  assumes "is_scalar c"
  shows "\<exists>b rest. encode_utf8 c = b # rest \<and>
           (\<forall>more. utf8_next b (rest @ more) = Scalar c (length (encode_utf8 c)))"
proof -
  have digits: "c = c div 64 * 64 + c mod 64" "c div 64 = c div 4096 * 64 + c div 64 mod 64"
    "c div 4096 = c div 262144 * 64 + c div 4096 mod 64"
    by (simp_all add: div_mult2_eq [of c 64 64, simplified] div_mult2_eq [of c 4096 64, simplified])
  have digits3: "c = c div 4096 * 4096 + c div 64 mod 64 * 64 + c mod 64"
    using digits(1,2) by linarith
  have digits4: "c = c div 262144 * 262144 + c div 4096 mod 64 * 4096 + c div 64 mod 64 * 64 + c mod 64"
    using digits3 digits(3) by linarith
  have small: "c mod 64 < 64" "c div 64 mod 64 < 64" "c div 4096 mod 64 < 64" by simp_all
  consider "c < 128" | "128 \<le> c" "c < 2048" | "2048 \<le> c" "c < 65536" | "65536 \<le> c" "c < 1114112"
    using assms by (fastforce simp: is_scalar_def)
  then show ?thesis
  proof cases
    case 1
    then show ?thesis by (simp add: encode_utf8_def utf8_next_def byte_simps)
  next
    case 2
    define q r where "q = c div 64" and "r = c mod 64"
    then have "2 \<le> q" "q \<le> 31" "r < 64" "q * 64 + r = c"
      using 2 by auto
    with 2 show ?thesis
      by (simp add: encode_utf8_def utf8_next_def utf8_next2_def byte_simps is_continuation_def
          flip: q_def r_def)
  next
    case 3
    define x y z where "x = c div 4096" and "y = c div 64 mod 64" and "z = c mod 64"
    then have bounds: "y < 64" "z < 64" and c: "c = x * 4096 + y * 64 + z"
      using small digits3 by simp_all
    have x: "x < 16"
      using 3 c by linarith
    have "x = 0 \<Longrightarrow> 32 \<le> y" "x = 13 \<Longrightarrow> y < 32"
      using 3 assms bounds c unfolding is_scalar_def by linarith+
    with x bounds have "second_byte_ok3 (224 + x) (128 + y)"
      unfolding second_byte_ok3_def by linarith
    then show ?thesis
      using 3 bounds x c [symmetric]
      by (simp add: encode_utf8_def utf8_next_def utf8_next3_def byte_simps is_continuation_def
          flip: x_def y_def z_def)
  next
    case 4
    define x y z t where "x = c div 262144" and "y = c div 4096 mod 64"
      and "z = c div 64 mod 64" and "t = c mod 64"
    then have bounds: "y < 64" "z < 64" "t < 64" and c: "c = x * 262144 + y * 4096 + z * 64 + t"
      using small digits4 by simp_all
    have x: "x \<le> 4"
      using 4 c by linarith
    have "x = 0 \<Longrightarrow> 16 \<le> y" "x = 4 \<Longrightarrow> y < 16"
      using 4 bounds c by linarith+
    with x bounds have "second_byte_ok4 (240 + x) (128 + y)"
      unfolding second_byte_ok4_def by linarith
    then show ?thesis
      using 4 bounds x c [symmetric]
      by (simp add: encode_utf8_def utf8_next_def utf8_next4_def byte_simps is_continuation_def
          flip: x_def y_def z_def t_def)
  qed
qed

section \<open>Whole strings\<close>

lemma from_utf8_Cons:
  "from_utf8 (b # rest) =
     (case utf8_next b rest of
        Malformed e \<Rightarrow> Err (0, e)
      | Scalar c n \<Rightarrow>
          (case from_utf8 (drop n (b # rest)) of
             Ok cs \<Rightarrow> Ok (c # cs)
           | Err (v, e) \<Rightarrow> Err (n + v, e)
           | Panic \<Rightarrow> Panic))"
  by (rule from_utf8.simps)

lemma from_utf8_no_panic: "from_utf8 bs \<noteq> Panic"
proof (induction bs rule: from_utf8.induct)
  case (2 b rest)
  then show ?case
    by (auto simp: from_utf8_Cons split: utf8_step.split result.split)
qed simp

lemma from_utf8_sound:
  "from_utf8 bs = Ok cs \<Longrightarrow> concat (map encode_utf8 cs) = bs \<and> list_all is_scalar cs"
proof (induction bs arbitrary: cs rule: from_utf8.induct)
  case (2 b rest)
  from "2.prems" obtain c n cs' where step: "utf8_next b rest = Scalar c n"
    and rec: "from_utf8 (drop n (b # rest)) = Ok cs'" and cs: "cs = c # cs'"
    by (auto simp: from_utf8_Cons split: utf8_step.splits result.splits)
  from utf8_next_sound [OF step] "2.IH" [OF step rec] show ?case
    unfolding cs by (simp add: append_take_drop_id)
qed simp

lemma from_utf8_error:
  assumes "from_utf8 bs = Err (v, e)"
  shows "v < length bs \<and> (\<forall>n. e = Some n \<longrightarrow> 0 < n \<and> v + n \<le> length bs) \<and>
         (\<exists>cs. from_utf8 (take v bs) = Ok cs)"
  using assms
proof (induction bs arbitrary: v rule: from_utf8.induct)
  case (2 b rest)
  show ?case
  proof (cases "utf8_next b rest")
    case (Malformed e')
    with "2.prems" show ?thesis
      using utf8_next_error_len by (auto simp: from_utf8_Cons)
  next
    case (Scalar c n)
    with "2.prems" obtain w where rec: "from_utf8 (drop n (b # rest)) = Err (w, e)" and v: "v = n + w"
      by (auto simp: from_utf8_Cons split: result.splits)
    obtain m where n: "n = Suc m"
      using utf8_next_width_pos [OF Scalar] by (cases n) auto
    have "utf8_next b (take (m + w) rest) = Scalar c n"
      using Scalar n by (intro utf8_next_take) simp_all
    moreover have "drop m (take (m + w) rest) = take w (drop m rest)"
      by (simp add: drop_take)
    ultimately show ?thesis
      using "2.IH" [OF Scalar rec] n v by (auto simp: from_utf8_Cons)
  qed
qed simp

lemma from_utf8_error_len:
  assumes "from_utf8 bs = Err (v, e)"
  shows "v < length bs" and "e = Some n \<Longrightarrow> 0 < n" and "e = Some n \<Longrightarrow> v + n \<le> length bs"
  using from_utf8_error [OF assms] by simp_all

lemma from_utf8_append_scalar:
  assumes "is_scalar c"
  shows "from_utf8 (encode_utf8 c @ bs) =
    (case from_utf8 bs of
       Ok cs \<Rightarrow> Ok (c # cs)
     | Err (v, e) \<Rightarrow> Err (length (encode_utf8 c) + v, e)
     | Panic \<Rightarrow> Panic)"
proof -
  obtain b rest where enc: "encode_utf8 c = b # rest"
    and step: "utf8_next b (rest @ bs) = Scalar c (length (encode_utf8 c))"
    using utf8_next_encode_utf8 [OF assms] by blast
  have "drop (length (encode_utf8 c)) (b # rest @ bs) = bs"
    by (simp add: enc)
  with step show ?thesis
    by (cases "from_utf8 bs") (auto simp: enc from_utf8_Cons)
qed

lemma from_utf8_encode:
  "list_all is_scalar cs \<Longrightarrow> from_utf8 (concat (map encode_utf8 cs)) = Ok cs"
  by (induction cs) (simp_all add: from_utf8_append_scalar)

section \<open>UTF-16 round trip\<close>

lemma unit_of_eq: "unat u = n \<Longrightarrow> unit_of n = u"
  by (auto simp: unit_of_def)

lemma unat_unit_bound: "unat (u :: unit16) < 65536"
  using unsigned_less [of u, where ?'a = nat] by simp

text \<open>What a decoding step read: the unpaired surrogate itself, or the encoding of its scalar.\<close>

definition item_units :: "unit16 + scalar \<Rightarrow> unit16 list" where
  "item_units i = (case i of Inl u \<Rightarrow> [u] | Inr c \<Rightarrow> encode_utf16 c)"

definition item_ok :: "unit16 + scalar \<Rightarrow> bool" where
  "item_ok i = (case i of Inl u \<Rightarrow> is_surrogate u | Inr c \<Rightarrow> is_scalar c)"

lemma encode_utf16_plain: "encode_utf16 (unat u) = [u]"
  using unat_unit_bound [of u] by (simp add: encode_utf16_def unit_of_eq)

lemma encode_utf16_pair:
  assumes "is_surrogate u" and "\<not> is_low_surrogate u" and "is_low_surrogate u2"
  shows "encode_utf16 (65536 + (unat u - 55296) * 1024 + (unat u2 - 56320)) = [u, u2]"
    and "is_scalar (65536 + (unat u - 55296) * 1024 + (unat u2 - 56320))"
proof -
  define x y where "x = unat u - 55296" and "y = unat u2 - 56320"
  have x: "unat u = 55296 + x" "x < 1024" and y: "unat u2 = 56320 + y" "y < 1024"
    using assms by (auto simp: is_surrogate_def is_low_surrogate_def x_def y_def)
  have digits: "(x * 1024 + y) div 1024 = x" "(x * 1024 + y) mod 1024 = y"
    by (rule mixed_radix_digits [OF y(2)])+
  show "encode_utf16 (65536 + (unat u - 55296) * 1024 + (unat u2 - 56320)) = [u, u2]"
    unfolding x_def [symmetric] y_def [symmetric]
    using x y digits by (simp add: encode_utf16_def unit_of_eq)
  show "is_scalar (65536 + (unat u - 55296) * 1024 + (unat u2 - 56320))"
    unfolding x_def [symmetric] y_def [symmetric]
    using x y by (simp add: is_scalar_def)
qed

lemma is_scalar_plain: "\<not> is_surrogate u \<Longrightarrow> is_scalar (unat u)"
  using unat_unit_bound [of u] by (auto simp: is_surrogate_def is_scalar_def)

lemma decode_utf16_units: "concat (map item_units (decode_utf16 units)) = units"
  by (induction units rule: decode_utf16.induct)
    (simp_all add: item_units_def encode_utf16_plain encode_utf16_pair)

lemma decode_utf16_items: "list_all item_ok (decode_utf16 units)"
  by (induction units rule: decode_utf16.induct)
    (simp_all add: item_ok_def is_scalar_plain encode_utf16_pair)

end
