(* ===== verification/Path_Codec.thy ===== *)
theory Path_Codec
  imports Utf8
begin

text \<open>
  The reversible path codec of \<^verbatim>\<open>src/path/local_path_codec.rs\<close>: native names to canonical UTF-8
  text and back. A Unix \<open>OsStr\<close> is its byte list, a Windows one its list of 16-bit code units, a
  \<open>str\<close> the list of its UTF-8 bytes. The lemmas lead to the round trips in both directions on both
  platforms, to the absence of panics in the encoder, and to the shape of canonical text.
\<close>

datatype codec_error =
    InvalidEscape nat
  | NonCanonicalText
  | NativeNul
  | UnsupportedNativeEncoding
  | UnrepresentableNativeValue

section \<open>Escapes, shared by the platforms\<close>

definition uppercase_hex :: "byte \<Rightarrow> byte option" where
  "uppercase_hex b =
     (if 48 \<le> b \<and> b \<le> 57 then Some (b - 48)
      else if 65 \<le> b \<and> b \<le> 70 then Some (b - 65 + 10)
      else if 97 \<le> b \<and> b \<le> 102 then Some (b - 97 + 10)
      else None)"

fun decode_escaped_loop :: "nat \<Rightarrow> byte list \<Rightarrow> byte list \<Rightarrow> (byte list, codec_error) result" where
  "decode_escaped_loop index [] decoded = Ok decoded"
| "decode_escaped_loop index (b # rest) decoded =
     (if b \<noteq> 37 then decode_escaped_loop (index + 1) rest (decoded @ [b])
      else (case rest of
         high # low # rest' \<Rightarrow>
           (case (uppercase_hex high, uppercase_hex low) of
              (Some h, Some l) \<Rightarrow>
                decode_escaped_loop (index + 3) rest' (decoded @ [push_bit 4 h OR l])
            | _ \<Rightarrow> Err (InvalidEscape index))
       | _ \<Rightarrow> Err (InvalidEscape index)))"

definition decode_escaped_bytes :: "byte list \<Rightarrow> (byte list, codec_error) result" where
  "decode_escaped_bytes text = decode_escaped_loop 0 text []"

definition hex_table :: "byte list" where
  "hex_table = [48, 49, 50, 51, 52, 53, 54, 55, 56, 57, 65, 66, 67, 68, 69, 70]"

definition push_escaped_byte :: "byte \<Rightarrow> byte list \<Rightarrow> byte list" where
  "push_escaped_byte b text =
     text @ [37, hex_table ! unat (drop_bit 4 b), hex_table ! unat (b AND 15)]"

definition push_scalar :: "scalar \<Rightarrow> byte list \<Rightarrow> byte list" where
  "push_scalar c text =
     (if c = 37 \<or> is_control c then fold push_escaped_byte (encode_utf8 c) text
      else text @ encode_utf8 c)"

section \<open>The Unix codec\<close>

definition unix_decode_canonical_text :: "byte list \<Rightarrow> (byte list, codec_error) result" where
  "unix_decode_canonical_text text =
     (case decode_escaped_bytes text of
        Ok bytes \<Rightarrow> if 0 \<in> set bytes then Err NativeNul else Ok bytes
      | Err e \<Rightarrow> Err e
      | Panic \<Rightarrow> Panic)"

text \<open>
  The loop of the Unix \<open>encode_native_text\<close>. The \<open>expect\<close> on the valid prefix and the slice of the
  invalid bytes are the two places where it could panic.
\<close>

function encode_remaining :: "byte list \<Rightarrow> byte list \<Rightarrow> (byte list, codec_error) result" where
  "encode_remaining remaining encoded =
     (if remaining = [] then Ok encoded
      else (case from_utf8 remaining of
         Ok valid \<Rightarrow> Ok (fold push_scalar valid encoded)
       | Panic \<Rightarrow> Panic
       | Err (valid_end, error_len) \<Rightarrow>
           (case from_utf8 (take valid_end remaining) of
              Ok valid \<Rightarrow>
                (let encoded = fold push_scalar valid encoded;
                     invalid_len = (case error_len of Some n \<Rightarrow> n | None \<Rightarrow> 1);
                     stop = valid_end + invalid_len
                 in if stop \<le> length remaining then
                      encode_remaining (drop stop remaining)
                        (fold push_escaped_byte (take invalid_len (drop valid_end remaining)) encoded)
                    else Panic)
            | _ \<Rightarrow> Panic)))"
  by pat_completeness auto
termination
  by (relation "measure (length \<circ> fst)") (auto dest: from_utf8_error_len split: option.splits)

definition unix_encode_native_text :: "byte list \<Rightarrow> (byte list, codec_error) result" where
  "unix_encode_native_text native =
     (if 0 \<in> set native then Err NativeNul
      else (case from_utf8 native of
         Ok valid \<Rightarrow>
           if 37 \<notin> set valid \<and> \<not> list_ex is_control valid
           then Ok native
           else encode_remaining native []
       | _ \<Rightarrow> encode_remaining native []))"

section \<open>The Windows codec\<close>

definition wtf8_surrogate_at :: "byte list \<Rightarrow> (unit16 \<times> nat) option" where
  "wtf8_surrogate_at bytes =
     (case bytes of
        first # second # third # _ \<Rightarrow>
          if first \<noteq> 237 \<or> \<not> (160 \<le> second \<and> second \<le> 191) \<or> \<not> (128 \<le> third \<and> third \<le> 191)
          then None
          else Some (push_bit 12 (ucast (first AND 15)) OR push_bit 6 (ucast (second AND 63))
                     OR ucast (third AND 63), 3)
      | _ \<Rightarrow> None)"

definition wtf8_surrogate_bytes :: "unit16 \<Rightarrow> byte list" where
  "wtf8_surrogate_bytes s =
     [224 OR ucast (drop_bit 12 s), 128 OR ucast (drop_bit 6 s AND 63), 128 OR ucast (s AND 63)]"

function decode_wtf8_loop :: "byte list \<Rightarrow> unit16 list \<Rightarrow> (unit16 list, codec_error) result" where
  "decode_wtf8_loop bytes units =
     (if bytes = [] then Ok units
      else (case wtf8_surrogate_at bytes of
         Some (surrogate, width) \<Rightarrow> decode_wtf8_loop (drop width bytes) (units @ [surrogate])
       | None \<Rightarrow>
           (case from_utf8 bytes of
              Ok valid \<Rightarrow> Ok (units @ concat (map encode_utf16 valid))
            | Err (valid_end, _) \<Rightarrow>
                if valid_end = 0 then Err UnrepresentableNativeValue
                else (case from_utf8 (take valid_end bytes) of
                   Ok valid \<Rightarrow>
                     decode_wtf8_loop (drop valid_end bytes) (units @ concat (map encode_utf16 valid))
                 | Err _ \<Rightarrow> Err UnrepresentableNativeValue
                 | Panic \<Rightarrow> Panic)
            | Panic \<Rightarrow> Panic)))"
  by pat_completeness auto
termination
  by (relation "measure (length \<circ> fst)")
    (auto simp: wtf8_surrogate_at_def split: list.splits if_splits)

definition windows_decode_canonical_text :: "byte list \<Rightarrow> (unit16 list, codec_error) result" where
  "windows_decode_canonical_text text =
     (case decode_escaped_bytes text of
        Ok bytes \<Rightarrow>
          (case decode_wtf8_loop bytes [] of
             Ok units \<Rightarrow> if 0 \<in> set units then Err NativeNul else Ok units
           | Err e \<Rightarrow> Err e
           | Panic \<Rightarrow> Panic)
      | Err e \<Rightarrow> Err e
      | Panic \<Rightarrow> Panic)"

definition push_utf16_item :: "unit16 + scalar \<Rightarrow> byte list \<Rightarrow> byte list" where
  "push_utf16_item item encoded =
     (case item of
        Inr c \<Rightarrow> push_scalar c encoded
      | Inl s \<Rightarrow> fold push_escaped_byte (wtf8_surrogate_bytes s) encoded)"

definition windows_encode_native_text :: "unit16 list \<Rightarrow> (byte list, codec_error) result" where
  "windows_encode_native_text units =
     (if 0 \<in> set units then Err NativeNul
      else Ok (fold push_utf16_item (decode_utf16 units) []))"

section \<open>Other platforms\<close>

definition unsupported_decode_canonical_text :: "byte list \<Rightarrow> ('n, codec_error) result" where
  "unsupported_decode_canonical_text text = Err UnsupportedNativeEncoding"

definition unsupported_encode_native_text :: "'n \<Rightarrow> (byte list, codec_error) result" where
  "unsupported_encode_native_text native = Err UnsupportedNativeEncoding"

section \<open>The public codec\<close>

text \<open>
  \<open>LocalPathCodec\<close> calls the functions of the \<open>platform_codec\<close> module that the build selects; they
  are the first arguments here.
\<close>

definition encode_component ::
  "('n \<Rightarrow> (byte list, codec_error) result) \<Rightarrow> 'n \<Rightarrow> (byte list, codec_error) result" where
  "encode_component encode_native_text component = encode_native_text component"

definition decode_component ::
  "('n \<Rightarrow> (byte list, codec_error) result) \<Rightarrow> (byte list \<Rightarrow> ('n, codec_error) result) \<Rightarrow>
   byte list \<Rightarrow> ('n, codec_error) result" where
  "decode_component encode_native_text decode_canonical_text component =
     (case decode_canonical_text component of
        Ok native \<Rightarrow>
          (case encode_native_text native of
             Ok canonical \<Rightarrow> if canonical \<noteq> component then Err NonCanonicalText else Ok native
           | Err e \<Rightarrow> Err e
           | Panic \<Rightarrow> Panic)
      | Err e \<Rightarrow> Err e
      | Panic \<Rightarrow> Panic)"

declare encode_remaining.simps [simp del] decode_wtf8_loop.simps [simp del]

section \<open>Decoding inverts escaping\<close>

definition escape :: "byte \<Rightarrow> byte list" where
  "escape b = [37, hex_table ! unat (drop_bit 4 b), hex_table ! unat (b AND 15)]"

definition scalar_text :: "scalar \<Rightarrow> byte list" where
  "scalar_text c =
     (if c = 37 \<or> is_control c then concat (map escape (encode_utf8 c)) else encode_utf8 c)"

definition decodes_to :: "byte list \<Rightarrow> byte list \<Rightarrow> bool" where
  "decodes_to text bytes \<longleftrightarrow>
     (\<forall>index rest acc. \<exists>index'.
        decode_escaped_loop index (text @ rest) acc = decode_escaped_loop index' rest (acc @ bytes))"

lemma fold_push_escaped_byte: "fold push_escaped_byte bs text = text @ concat (map escape bs)"
  by (rule fold_append_acc) (simp add: push_escaped_byte_def escape_def)

lemma push_scalar_eq: "push_scalar c text = text @ scalar_text c"
  by (simp add: push_scalar_def scalar_text_def fold_push_escaped_byte)

lemma fold_push_scalar: "fold push_scalar cs text = text @ concat (map scalar_text cs)"
  by (rule fold_append_acc) (rule push_scalar_eq)

lemma uppercase_hex_table: "n < 16 \<Longrightarrow> uppercase_hex (hex_table ! n) = Some (word_of_nat n)"
  by (simp only: less_eq_Suc_le numeral_eq_Suc pred_numeral_simps BitM.simps le_Suc_eq)
    (auto simp: hex_table_def uppercase_hex_def)

lemma high_nibble_bound: "unat (drop_bit 4 (b :: byte)) < 16"
proof -
  have "unat (drop_bit 4 b) = unat b div 2 ^ 4"
    unfolding unat_drop_bit_eq by (rule drop_bit_eq_div)
  with unat_byte_bound [of b] show ?thesis by simp
qed

lemma low_nibble: "(b :: byte) AND 15 = take_bit 4 b"
  by (simp add: take_bit_eq_mask mask_eq_exp_minus_1)

lemma low_nibble_bound: "unat ((b :: byte) AND 15) < 16"
proof -
  have "unat (b AND 15) = take_bit 4 (unat b)"
    by (simp add: low_nibble unsigned_take_bit_eq)
  then show ?thesis
    by (simp add: take_bit_eq_mod)
qed

lemma join_nibbles: "push_bit 4 (drop_bit 4 b) OR (b AND 15) = (b :: byte)"
  unfolding low_nibble by (rule bit_word_eqI) (auto simp: bit_simps)

lemma decodes_to_Nil [intro]: "decodes_to [] []"
  by (auto simp: decodes_to_def)

lemma decodes_to_append [intro]:
  "decodes_to t1 b1 \<Longrightarrow> decodes_to t2 b2 \<Longrightarrow> decodes_to (t1 @ t2) (b1 @ b2)"
  unfolding decodes_to_def by (metis append.assoc)

lemma decodes_to_concat:
  "(\<And>x. x \<in> set xs \<Longrightarrow> decodes_to (f x) (g x)) \<Longrightarrow>
   decodes_to (concat (map f xs)) (concat (map g xs))"
  by (induction xs) auto

lemma decodes_to_escape: "decodes_to (escape b) [b]"
  unfolding decodes_to_def
  by (auto simp: escape_def uppercase_hex_table high_nibble_bound low_nibble_bound join_nibbles)

lemma decodes_to_literal: "37 \<notin> set bs \<Longrightarrow> decodes_to bs bs"
proof (induction bs)
  case (Cons b bs)
  have "decodes_to [b] [b]"
    using Cons.prems by (auto simp: decodes_to_def)
  with Cons show ?case
    using decodes_to_append [of "[b]" "[b]" bs bs] by simp
qed blast

lemma percent_in_encode_utf8:
  assumes "is_scalar c" and "37 \<in> set (encode_utf8 c)"
  shows "c = 37"
proof -
  have "c < 128"
    using assms by (auto simp: encode_utf8_def is_scalar_def byte_of_eq_iff eq_commute [of 37]
        split: if_splits)
  with assms(2) show ?thesis
    by (simp add: encode_utf8_def byte_of_eq_iff eq_commute [of 37])
qed

lemma decodes_to_scalar_text:
  assumes "is_scalar c"
  shows "decodes_to (scalar_text c) (encode_utf8 c)"
proof (cases "c = 37 \<or> is_control c")
  case True
  have "decodes_to (concat (map escape (encode_utf8 c))) (concat (map (\<lambda>b. [b]) (encode_utf8 c)))"
    by (rule decodes_to_concat) (rule decodes_to_escape)
  with True show ?thesis
    by (simp add: scalar_text_def)
next
  case False
  with assms percent_in_encode_utf8 have "37 \<notin> set (encode_utf8 c)" by blast
  with False show ?thesis
    by (simp add: scalar_text_def decodes_to_literal)
qed

lemma decodes_to_scalars:
  assumes "from_utf8 bs = Ok cs"
  shows "decodes_to (concat (map scalar_text cs)) bs"
proof -
  from from_utf8_sound [OF assms] have "concat (map encode_utf8 cs) = bs"
    and "\<And>c. c \<in> set cs \<Longrightarrow> is_scalar c"
    by (simp_all add: list_all_iff)
  with decodes_to_concat [of cs scalar_text encode_utf8] show ?thesis
    by (simp add: decodes_to_scalar_text)
qed

lemma decodes_to_bytes: "decodes_to (concat (map escape bs)) bs"
  using decodes_to_concat [of bs escape "\<lambda>b. [b]"] by (simp add: decodes_to_escape)

lemma decodes_to_decode: "decodes_to t bs \<Longrightarrow> decode_escaped_bytes t = Ok bs"
  unfolding decodes_to_def decode_escaped_bytes_def
  by (metis append.right_neutral append_Nil decode_escaped_loop.simps(1))

text \<open>The encoder's loop always returns, and what it appends decodes to what it consumed.\<close>

lemma encode_remaining_decodes:
  "\<exists>t. encode_remaining remaining encoded = Ok (encoded @ t) \<and> decodes_to t remaining"
proof (induction remaining encoded rule: encode_remaining.induct)
  case (1 remaining encoded)
  show ?case
  proof (cases "from_utf8 remaining")
    case (Ok valid)
    then show ?thesis
      by (cases "remaining = []")
        (auto simp: encode_remaining.simps [of remaining] encode_remaining.simps [of "[]"]
          fold_push_scalar decodes_to_scalars)
  next
    case (Err ve)
    obtain v e where ve: "ve = (v, e)" by fastforce
    with Err have err: "from_utf8 remaining = Err (v, e)" by simp
    from from_utf8_error [OF err] obtain cs where prefix: "from_utf8 (take v remaining) = Ok cs"
      and v: "v < length remaining" and e: "\<And>n. e = Some n \<Longrightarrow> 0 < n \<and> v + n \<le> length remaining"
      by blast
    define k where "k = (case e of Some n \<Rightarrow> n | None \<Rightarrow> 1)"
    define bad where "bad = take k (drop v remaining)"
    have k: "v + k \<le> length remaining"
      using v e by (auto simp: k_def split: option.split)
    have "remaining \<noteq> []" using v by auto
    with err prefix k have unfold: "encode_remaining remaining encoded =
        encode_remaining (drop (v + k) remaining)
          ((encoded @ concat (map scalar_text cs)) @ concat (map escape bad))"
      by (simp add: encode_remaining.simps [of remaining] fold_push_scalar fold_push_escaped_byte
          bad_def Let_def flip: k_def)
    from "1.IH" [OF \<open>remaining \<noteq> []\<close> err refl prefix refl refl refl]
    obtain t where t: "encode_remaining (drop (v + k) remaining)
          ((encoded @ concat (map scalar_text cs)) @ concat (map escape bad)) =
          Ok (((encoded @ concat (map scalar_text cs)) @ concat (map escape bad)) @ t)"
      and dt: "decodes_to t (drop (v + k) remaining)"
      using k by (auto simp: fold_push_scalar fold_push_escaped_byte bad_def simp flip: k_def)
    have "decodes_to (concat (map scalar_text cs) @ concat (map escape bad) @ t)
        (take v remaining @ bad @ drop (v + k) remaining)"
      by (intro decodes_to_append decodes_to_scalars decodes_to_bytes prefix dt)
    moreover have "take v remaining @ bad @ drop (v + k) remaining = remaining"
      using take_append_drop_between [of v "v + k" remaining] by (simp add: bad_def)
    ultimately show ?thesis
      using unfold t by auto
  qed (simp add: from_utf8_no_panic)
qed

lemma unix_encode_native_text_decodes:
  assumes "0 \<notin> set native"
  shows "\<exists>t. unix_encode_native_text native = Ok t \<and> decodes_to t native"
proof -
  have loop: "\<exists>t. encode_remaining native [] = Ok t \<and> decodes_to t native"
    using encode_remaining_decodes [of native "[]"] by simp
  show ?thesis
  proof (cases "from_utf8 native")
    case (Ok valid)
    have "37 \<notin> set native" if "37 \<notin> set valid"
      using from_utf8_sound [OF Ok] that percent_in_encode_utf8 by (fastforce simp: list_all_iff)
    with Ok loop assms show ?thesis
      by (auto simp: unix_encode_native_text_def decodes_to_literal)
  qed (use loop assms in \<open>simp_all add: unix_encode_native_text_def\<close>)
qed

section \<open>The shape of canonical text\<close>

definition printable :: "byte list \<Rightarrow> bool" where
  "printable text \<longleftrightarrow> (\<exists>cs. from_utf8 text = Ok cs \<and> \<not> list_ex is_control cs)"

lemma printable_scalars:
  "list_all is_scalar cs \<Longrightarrow> \<not> list_ex is_control cs \<Longrightarrow> printable (concat (map encode_utf8 cs))"
  using from_utf8_encode by (auto simp: printable_def)

lemma printableD:
  assumes "printable text"
  obtains cs where "text = concat (map encode_utf8 cs)" "list_all is_scalar cs"
    "\<not> list_ex is_control cs"
  using assms from_utf8_sound unfolding printable_def by blast

lemma printable_Nil [intro]: "printable []"
  by (simp add: printable_def)

lemma printable_append [intro]:
  assumes "printable t1" and "printable t2"
  shows "printable (t1 @ t2)"
proof -
  from assms obtain cs ds where t1: "t1 = concat (map encode_utf8 cs)"
    and t2: "t2 = concat (map encode_utf8 ds)"
    and "list_all is_scalar (cs @ ds)" and "\<not> list_ex is_control (cs @ ds)"
    by (auto elim!: printableD)
  then have "printable (concat (map encode_utf8 (cs @ ds)))"
    by (intro printable_scalars)
  with t1 t2 show ?thesis by simp
qed

lemma printable_concat:
  "(\<And>x. x \<in> set xs \<Longrightarrow> printable (f x)) \<Longrightarrow> printable (concat (map f xs))"
  by (induction xs) auto

lemma hex_table_unat: "n < 16 \<Longrightarrow> 48 \<le> unat (hex_table ! n) \<and> unat (hex_table ! n) \<le> 70"
  by (simp only: less_eq_Suc_le numeral_eq_Suc pred_numeral_simps BitM.simps le_Suc_eq)
    (auto simp: hex_table_def)

lemma encode_utf8_ascii: "unat b < 128 \<Longrightarrow> encode_utf8 (unat b) = [b]"
  by (simp add: encode_utf8_def byte_of_eq)

lemma printable_escape: "printable (escape b)"
proof -
  define h l where "h = hex_table ! unat (drop_bit 4 b)" and "l = hex_table ! unat (b AND 15)"
  have h: "48 \<le> unat h" "unat h \<le> 70" and l: "48 \<le> unat l" "unat l \<le> 70"
    using hex_table_unat high_nibble_bound low_nibble_bound by (simp_all add: h_def l_def)
  then have "printable (concat (map encode_utf8 [37, unat h, unat l]))"
    by (intro printable_scalars) (auto simp: is_scalar_def is_control_def)
  moreover have "concat (map encode_utf8 [37, unat h, unat l]) = escape b"
    using h l encode_utf8_ascii [of 37]
    by (simp add: escape_def encode_utf8_ascii flip: h_def l_def)
  ultimately show ?thesis by simp
qed

lemma printable_scalar_text: "is_scalar c \<Longrightarrow> printable (scalar_text c)"
  using printable_scalars [of "[c]"]
  by (auto simp: scalar_text_def intro: printable_concat printable_escape)

lemma printable_scalar_texts:
  "from_utf8 bs = Ok cs \<Longrightarrow> printable (concat (map scalar_text cs))"
  using from_utf8_sound [of bs cs]
  by (auto intro!: printable_concat printable_scalar_text simp: list_all_iff)

lemma encode_remaining_printable:
  "printable encoded \<Longrightarrow> encode_remaining remaining encoded = Ok t \<Longrightarrow> printable t"
proof (induction remaining encoded arbitrary: t rule: encode_remaining.induct)
  case (1 remaining encoded)
  show ?case
  proof (cases "remaining = []")
    case True
    with "1.prems" show ?thesis by (simp add: encode_remaining.simps [of "[]"])
  next
    case False
    show ?thesis
    proof (cases "from_utf8 remaining")
      case (Ok valid)
      with False "1.prems" show ?thesis
        by (auto simp: encode_remaining.simps [of remaining] fold_push_scalar printable_scalar_texts)
    next
      case (Err ve)
      obtain v e where ve: "ve = (v, e)" by fastforce
      define k where "k = (case e of Some n \<Rightarrow> n | None \<Rightarrow> 1)"
      from Err ve False "1.prems" obtain cs where prefix: "from_utf8 (take v remaining) = Ok cs"
        and k: "v + k \<le> length remaining"
        and rec: "encode_remaining (drop (v + k) remaining)
            (fold push_escaped_byte (take k (drop v remaining)) (fold push_scalar cs encoded)) = Ok t"
        by (auto simp: encode_remaining.simps [of remaining] Let_def k_def
            split: result.splits if_splits)
      have "printable (fold push_escaped_byte (take k (drop v remaining)) (fold push_scalar cs encoded))"
        using "1.prems"(1) prefix
        by (simp add: fold_push_scalar fold_push_escaped_byte printable_append printable_concat
            printable_escape printable_scalar_texts)
      from "1.IH" [OF False Err _ prefix refl k_def refl k this rec] ve show ?thesis
        by simp
    qed (simp add: from_utf8_no_panic)
  qed
qed

lemma unix_encode_native_text_printable:
  assumes "unix_encode_native_text native = Ok text"
  shows "printable text"
  using assms encode_remaining_printable [of "[]" native]
  by (auto simp: unix_encode_native_text_def printable_def split: if_splits result.splits)

section \<open>Windows: decoding WTF-8\<close>

lemma wtf8_surrogate_at_malformed:
  assumes "wtf8_surrogate_at (b # rest) = Some sw"
  shows "utf8_next b rest = Malformed (Some 1)"
proof -
  obtain c d r where rest: "rest = c # d # r" and b: "b = 237" and c: "160 \<le> c"
    using assms by (auto simp: wtf8_surrogate_at_def split: list.splits if_splits)
  have "160 \<le> unat c"
    using c by (simp add: word_le_nat_alt)
  then show ?thesis
    by (simp add: rest b utf8_next_def utf8_next3_def second_byte_ok3_def)
qed

lemma wtf8_surrogate_at_error:
  "wtf8_surrogate_at bs = Some sw \<Longrightarrow> from_utf8 bs = Err (0, Some 1)"
  by (cases bs) (auto simp: from_utf8_Cons wtf8_surrogate_at_malformed wtf8_surrogate_at_def)

lemma wtf8_surrogate_at_scalar:
  assumes "is_scalar c"
  shows "wtf8_surrogate_at (encode_utf8 c @ bs) = None"
proof (rule ccontr)
  assume "wtf8_surrogate_at (encode_utf8 c @ bs) \<noteq> None"
  then have "from_utf8 (encode_utf8 c @ bs) = Err (0, Some 1)"
    using wtf8_surrogate_at_error by blast
  moreover have "encode_utf8 c \<noteq> []"
    by (simp add: encode_utf8_def)
  ultimately show False
    by (auto simp: from_utf8_append_scalar [OF assms] split: result.splits)
qed

lemma low_six_bits: "(w :: 'a :: len word) AND 63 = take_bit 6 w"
  by (simp add: take_bit_eq_mask mask_eq_exp_minus_1)

lemma unat_take_bit_mod: "unat (take_bit n (w :: 'a :: len word)) = unat w mod 2 ^ n"
  unfolding unsigned_take_bit_eq by (rule take_bit_eq_mod)

lemma unat_drop_bit_div: "unat (drop_bit n (w :: 'a :: len word)) = unat w div 2 ^ n"
  unfolding unat_drop_bit_eq by (rule drop_bit_eq_div)

lemma unat_ucast_byte: "unat (ucast (w :: unit16) :: byte) = unat w mod 2 ^ 8"
  unfolding unsigned_ucast_eq by (simp add: take_bit_eq_mod)

lemma unat_or_128:
  assumes "unat (v :: byte) < 64"
  shows "unat (128 OR v) = 128 + unat v"
proof -
  have "v = take_bit 6 v"
    using assms by (simp only: word_unat_eq_iff unat_take_bit_mod) simp
  then have v: "v AND 63 = v"
    by (simp add: low_six_bits)
  have "128 AND (v AND 63) = (128 AND 63) AND v"
    by (simp only: ac_simps)
  then have "128 AND v = 0"
    unfolding v by simp
  then have "128 OR v = 128 + v"
    by (simp add: disjunctive_add_eq_or)
  with assms show ?thesis
    by (simp add: unat_word_ariths)
qed

lemma surrogate_bytes_AND:
  "(224 OR ucast (drop_bit 12 s) :: byte) AND 15 = take_bit 4 (ucast (drop_bit 12 s))"
  "(128 OR v :: byte) AND 63 = take_bit 6 v"
  by (simp_all add: bit.conj_disj_distrib2 low_six_bits low_nibble)

lemma surrogate_split:
  assumes "is_surrogate s"
  shows "(224 OR ucast (drop_bit 12 s) :: byte) = 237"
    and "32 \<le> unat (ucast (take_bit 6 (drop_bit 6 s)) :: byte)"
    and "unat (ucast (take_bit 6 (drop_bit 6 s)) :: byte) < 64"
    and "unat (ucast (take_bit 6 s) :: byte) < 64"
proof -
  obtain n where n: "unat s = n" and range: "55296 \<le> n" "n \<le> 57343"
    using assms by (simp add: is_surrogate_def)
  have "unat (drop_bit 12 s) = 13"
    unfolding unat_drop_bit_div n using range by simp
  then have "drop_bit 12 s = 13"
    by (simp only: word_unat_eq_iff) simp
  then show "(224 OR ucast (drop_bit 12 s) :: byte) = 237"
    by (simp only:) simp
  define r where "r = n div 64 - 832"
  have r: "n div 64 = 13 * 64 + r" "32 \<le> r" "r < 64"
    using range by (simp_all add: r_def)
  have "n div 64 mod 64 = r"
    unfolding r(1) by (rule mixed_radix_digits(2) [OF r(3)])
  then have "unat (ucast (take_bit 6 (drop_bit 6 s)) :: byte) = r"
    unfolding unat_ucast_byte unat_take_bit_mod unat_drop_bit_div n by simp
  with r show "32 \<le> unat (ucast (take_bit 6 (drop_bit 6 s)) :: byte)"
    and "unat (ucast (take_bit 6 (drop_bit 6 s)) :: byte) < 64"
    by simp_all
  have "unat (ucast (take_bit 6 s) :: byte) = n mod 64"
    unfolding unat_ucast_byte unat_take_bit_mod n by simp
  then show "unat (ucast (take_bit 6 s) :: byte) < 64"
    by simp
qed

lemma wtf8_surrogate_roundtrip:
  assumes "is_surrogate s"
  shows "wtf8_surrogate_at (wtf8_surrogate_bytes s @ bs) = Some (s, 3)"
proof -
  define v w where "v = (ucast (take_bit 6 (drop_bit 6 s)) :: byte)"
    and "w = (ucast (take_bit 6 s) :: byte)"
  have bounds: "160 \<le> 128 OR v" "128 OR v \<le> 191" "128 \<le> 128 OR w" "128 OR w \<le> 191"
    using surrogate_split(2-4) [OF assms]
    by (simp_all add: word_le_nat_alt unat_or_128 flip: v_def w_def)
  have "push_bit 12 (ucast (take_bit 4 (ucast (drop_bit 12 s) :: byte))) OR
      push_bit 6 (ucast (take_bit 6 v)) OR ucast (take_bit 6 w) = s" (is "?joined = s")
  proof (rule bit_word_eqI)
    fix n :: nat
    assume "n < LENGTH(16)"
    then have "n < 16" by simp
    then consider "n < 6" | "6 \<le> n" "n < 12" | "12 \<le> n" "n < 16" by fastforce
    then show "bit ?joined n = bit s n"
      by cases (auto simp: bit_simps v_def w_def)
  qed
  moreover have "take_bit 4 (ucast (drop_bit 12 s) :: byte) = 13"
    unfolding surrogate_bytes_AND(1) [symmetric] surrogate_split(1) [OF assms] by simp
  ultimately show ?thesis
    using bounds surrogate_split(1) [OF assms]
    by (simp add: wtf8_surrogate_bytes_def wtf8_surrogate_at_def low_six_bits
        surrogate_bytes_AND flip: v_def w_def)
qed

lemma wtf8_surrogate_bytes_length: "length (wtf8_surrogate_bytes s) = 3"
  by (simp add: wtf8_surrogate_bytes_def)

lemma decode_wtf8_surrogate:
  assumes "is_surrogate s"
  shows "decode_wtf8_loop (wtf8_surrogate_bytes s @ bs) units = decode_wtf8_loop bs (units @ [s])"
proof -
  have "wtf8_surrogate_bytes s \<noteq> []"
    by (simp add: wtf8_surrogate_bytes_def)
  then show ?thesis
    by (simp add: decode_wtf8_loop.simps [of "wtf8_surrogate_bytes s @ bs"]
        wtf8_surrogate_roundtrip [OF assms] wtf8_surrogate_bytes_length)
qed

lemma decode_wtf8_scalar:
  assumes "is_scalar c"
  shows "decode_wtf8_loop (encode_utf8 c @ bs) units = decode_wtf8_loop bs (units @ encode_utf16 c)"
proof -
  have nonempty: "encode_utf8 c \<noteq> []"
    by (simp add: encode_utf8_def)
  have surr: "wtf8_surrogate_at (encode_utf8 c @ bs) = None"
    by (rule wtf8_surrogate_at_scalar [OF assms])
  show ?thesis
  proof (cases "from_utf8 bs")
    case (Ok cs)
    then have "wtf8_surrogate_at bs = None"
      using wtf8_surrogate_at_error [of bs] by (cases "wtf8_surrogate_at bs") auto
    moreover have "bs = [] \<Longrightarrow> cs = []"
      using Ok by simp
    ultimately show ?thesis
      using Ok surr nonempty
      by (simp add: decode_wtf8_loop.simps [of "encode_utf8 c @ bs"] decode_wtf8_loop.simps [of bs]
          from_utf8_append_scalar [OF assms])
  next
    case (Err ve)
    obtain v e where ve: "ve = (v, e)" by fastforce
    with Err obtain cs where prefix: "from_utf8 (take v bs) = Ok cs" and v: "v < length bs"
      using from_utf8_error by blast
    have "decode_wtf8_loop (encode_utf8 c @ bs) units =
        decode_wtf8_loop (drop v bs) (units @ encode_utf16 c @ concat (map encode_utf16 cs))"
      using surr nonempty Err ve prefix
      by (simp add: decode_wtf8_loop.simps [of "encode_utf8 c @ bs"]
          from_utf8_append_scalar [OF assms])
    also have "\<dots> = decode_wtf8_loop bs (units @ encode_utf16 c)"
    proof (cases "v = 0")
      case True
      with prefix show ?thesis by simp
    next
      case False
      then have "wtf8_surrogate_at bs = None"
        using Err ve wtf8_surrogate_at_error [of bs] by (cases "wtf8_surrogate_at bs") auto
      with False Err ve prefix v show ?thesis
        by (auto simp: decode_wtf8_loop.simps [of bs])
    qed
    finally show ?thesis .
  qed (simp add: from_utf8_no_panic)
qed

definition item_bytes :: "unit16 + scalar \<Rightarrow> byte list" where
  "item_bytes i = (case i of Inl s \<Rightarrow> wtf8_surrogate_bytes s | Inr c \<Rightarrow> encode_utf8 c)"

definition item_text :: "unit16 + scalar \<Rightarrow> byte list" where
  "item_text i =
     (case i of Inl s \<Rightarrow> concat (map escape (wtf8_surrogate_bytes s)) | Inr c \<Rightarrow> scalar_text c)"

lemma decode_wtf8_items:
  "list_all item_ok items \<Longrightarrow>
   decode_wtf8_loop (concat (map item_bytes items)) units =
     Ok (units @ concat (map item_units items))"
  by (induction items arbitrary: units)
    (auto simp: item_ok_def item_bytes_def item_units_def decode_wtf8_scalar decode_wtf8_surrogate
      decode_wtf8_loop.simps [of "[]"] split: sum.splits)

lemma fold_push_utf16_item:
  "fold push_utf16_item items text = text @ concat (map item_text items)"
  by (rule fold_append_acc)
    (simp add: push_utf16_item_def item_text_def push_scalar_eq fold_push_escaped_byte split: sum.split)

lemma decodes_to_item: "item_ok i \<Longrightarrow> decodes_to (item_text i) (item_bytes i)"
  by (simp add: item_ok_def item_text_def item_bytes_def decodes_to_scalar_text decodes_to_bytes
      split: sum.splits)

lemma windows_encode_decodes:
  assumes "0 \<notin> set units"
  shows "\<exists>t. windows_encode_native_text units = Ok t \<and> windows_decode_canonical_text t = Ok units"
proof -
  let ?items = "decode_utf16 units"
  have "decodes_to (concat (map item_text ?items)) (concat (map item_bytes ?items))"
    using decode_utf16_items [of units]
    by (intro decodes_to_concat decodes_to_item) (simp add: list_all_iff)
  then have "decode_escaped_bytes (concat (map item_text ?items)) = Ok (concat (map item_bytes ?items))"
    by (rule decodes_to_decode)
  then show ?thesis
    using assms
    by (simp add: windows_encode_native_text_def windows_decode_canonical_text_def
        fold_push_utf16_item decode_wtf8_items decode_utf16_items decode_utf16_units)
qed

lemma windows_encode_printable:
  assumes "windows_encode_native_text units = Ok text"
  shows "printable text"
proof -
  have "printable (item_text i)" if "item_ok i" for i
    using that by (auto simp: item_ok_def item_text_def printable_scalar_text printable_escape
        intro: printable_concat split: sum.splits)
  then show ?thesis
    using assms decode_utf16_items [of units]
    by (auto simp: windows_encode_native_text_def fold_push_utf16_item list_all_iff
        intro: printable_concat split: if_splits)
qed
section \<open>The contract between the public codec and a platform codec\<close>

text \<open>
  What \<open>LocalPathCodec\<close> relies on of the selected \<open>platform_codec\<close> module: native NUL is refused in
  both directions, and decoding inverts encoding on the rest.
\<close>

locale platform_codec =
  fixes encode_native_text :: "'n \<Rightarrow> (byte list, codec_error) result"
    and decode_canonical_text :: "byte list \<Rightarrow> ('n, codec_error) result"
    and has_nul :: "'n \<Rightarrow> bool"
  assumes encode_nul: "has_nul native \<Longrightarrow> encode_native_text native = Err NativeNul"
    and encode_decode: "\<not> has_nul native \<Longrightarrow>
      \<exists>t. encode_native_text native = Ok t \<and> decode_canonical_text t = Ok native"
begin

lemma encode_OkD: "encode_native_text native = Ok t \<Longrightarrow> decode_canonical_text t = Ok native"
  using encode_nul encode_decode by (metis result.distinct(1) result.inject(1))

lemma decode_component_iff:
  "decode_component encode_native_text decode_canonical_text t = Ok native \<longleftrightarrow>
   encode_component encode_native_text native = Ok t"
  using encode_OkD
  by (fastforce simp: decode_component_def encode_component_def split: result.splits if_splits)

lemma component_roundtrip:
  "\<not> has_nul native \<Longrightarrow> \<exists>t. encode_component encode_native_text native = Ok t \<and>
     decode_component encode_native_text decode_canonical_text t = Ok native"
  using encode_decode [of native] by (auto simp: decode_component_iff encode_component_def)

lemma encode_component_inj:
  "encode_component encode_native_text x = Ok t \<Longrightarrow>
   encode_component encode_native_text y = Ok t \<Longrightarrow> x = y"
  using encode_OkD [of x] encode_OkD [of y] by (simp add: encode_component_def)

end

lemma unix_encode_decodes:
  assumes "0 \<notin> set native"
  shows "\<exists>t. unix_encode_native_text native = Ok t \<and> unix_decode_canonical_text t = Ok native"
  using unix_encode_native_text_decodes [OF assms] assms
  by (auto simp: unix_decode_canonical_text_def decodes_to_decode)

interpretation unix_codec: platform_codec unix_encode_native_text unix_decode_canonical_text
  "\<lambda>native. 0 \<in> set native"
  by unfold_locales (simp add: unix_encode_native_text_def, rule unix_encode_decodes)

interpretation windows_codec: platform_codec windows_encode_native_text
  windows_decode_canonical_text "\<lambda>units. 0 \<in> set units"
  by unfold_locales (simp add: windows_encode_native_text_def, rule windows_encode_decodes)

section \<open>Properties\<close>

text \<open>
  C1: on Unix every NUL-free byte string, valid UTF-8 or not, has a canonical text, and decoding
  that text gives the same bytes back. In particular the encoder neither fails nor panics.
\<close>

theorem unix_codec_roundtrip:
  assumes "0 \<notin> set native"
  shows "\<exists>t. encode_component unix_encode_native_text native = Ok t \<and>
    decode_component unix_encode_native_text unix_decode_canonical_text t = Ok native"
  using assms by (rule unix_codec.component_roundtrip)

theorem unix_codec_roundtrip_witness:
  "\<exists>t. encode_component unix_encode_native_text [255, 37, 97] = Ok t \<and>
    decode_component unix_encode_native_text unix_decode_canonical_text t = Ok [255, 37, 97]"
  by (rule unix_codec_roundtrip) simp

text \<open>
  C2: on Windows every NUL-free list of 16-bit code units, unpaired surrogates included, has a
  canonical text, and decoding that text gives the same units back.
\<close>

theorem windows_codec_roundtrip:
  assumes "0 \<notin> set units"
  shows "\<exists>t. encode_component windows_encode_native_text units = Ok t \<and>
    decode_component windows_encode_native_text windows_decode_canonical_text t = Ok units"
  using assms by (rule windows_codec.component_roundtrip)

theorem windows_codec_roundtrip_witness:
  "\<exists>t. encode_component windows_encode_native_text [55357, 97, 56832] = Ok t \<and>
    decode_component windows_encode_native_text windows_decode_canonical_text t =
      Ok [55357, 97, 56832]"
  by (rule windows_codec_roundtrip) simp

text \<open>
  C3: canonical text is unique. On both platforms the decoder accepts a text exactly when it is
  what the encoder produces for the decoded name, so no two texts stand for one name.
\<close>

theorem codec_canonical_unique:
  "(decode_component unix_encode_native_text unix_decode_canonical_text t = Ok bytes \<longleftrightarrow>
      encode_component unix_encode_native_text bytes = Ok t) \<and>
   (decode_component windows_encode_native_text windows_decode_canonical_text t = Ok units \<longleftrightarrow>
      encode_component windows_encode_native_text units = Ok t)"
  by (simp add: unix_codec.decode_component_iff windows_codec.decode_component_iff)

text \<open>
  Canonical text is well-formed UTF-8 and holds no control character, whatever bytes or code
  units the native name has.
\<close>

theorem codec_text_printable:
  assumes "encode_component unix_encode_native_text bytes = Ok t \<or>
    encode_component windows_encode_native_text units = Ok t"
  shows "\<exists>cs. from_utf8 t = Ok cs \<and> \<not> list_ex is_control cs"
  using assms unix_encode_native_text_printable windows_encode_printable
  unfolding encode_component_def printable_def by blast

theorem codec_text_printable_witness:
  "\<exists>t cs. encode_component unix_encode_native_text [10, 195, 40] = Ok t \<and>
     from_utf8 t = Ok cs \<and> \<not> list_ex is_control cs"
proof -
  obtain t where t: "encode_component unix_encode_native_text [10, 195, 40] = Ok t"
    using unix_codec.component_roundtrip [of "[10, 195, 40]"] by auto
  with codec_text_printable [of "[10, 195, 40]" t "[]"] show ?thesis by blast
qed

end
