(* ===== verification/Errors.thy ===== *)
theory Errors
  imports Path_Codec
begin

text \<open>
  The structured error domain of \<^verbatim>\<open>src/error\<close>: error kinds, operations, effect states, resource-limit
  facts, and \<open>LocalFileError\<close> with its context builders, its cleanup chain, and its conversions from
  and to \<open>std::io::Error\<close>. An \<open>io::Error\<close> is its kind and what its custom payload is, because the
  conversions look the payload up by type; message texts are left out. A path is its native bytes.
  A temporary-recovery handle is opaque here and stands as a number.
\<close>

type_synonym path = "byte list"
type_synonym recovery_handle = nat

datatype resource_kind =
    Depth | OpenDirectory | Entry | SeenNameBytes | PendingPathBytes | PathComponentBytes
  | CopiedBytes | SymlinkHops | SymlinkTargetBytes | PendingResolutionComponents
  | ResolvedComponents | PendingResolutionBytes | ResolvedPathBytes | AclEntries | AclBytes

record limit_error =
  le_resource :: resource_kind
  le_limit :: usize
  le_remaining :: usize
  le_requested :: usize
  le_observed :: "usize option"
  le_overflowed :: bool

definition limit_error_new :: "resource_kind \<Rightarrow> usize \<Rightarrow> usize \<Rightarrow> usize \<Rightarrow> limit_error" where
  "limit_error_new resource lim remaining requested =
     \<lparr>le_resource = resource, le_limit = lim, le_remaining = remaining,
      le_requested = requested, le_observed = None, le_overflowed = False\<rparr>"

definition with_observed :: "limit_error \<Rightarrow> usize \<Rightarrow> limit_error" where
  "with_observed e observed = e\<lparr>le_observed := Some observed, le_overflowed := False\<rparr>"

definition with_overflow :: "limit_error \<Rightarrow> limit_error" where
  "with_overflow e = e\<lparr>le_observed := None, le_overflowed := True\<rparr>"

datatype file_error_kind =
    KInvalidPath | KInvalidOptions | KInvalidState | KNotFound | KAlreadyExists | KNotDirectory
  | KIsDirectory | KTypeConflict | KPermissionDenied | KUnsupported | KRequirementNotMet
  | KResourceLimit | KDataCorruption | KInvalidEncoding | KChangedDuringRead
  | KPublicationIncomplete | KIndeterminate | KIo

datatype file_operation =
    OpConfigure | OpSetCurrentDirectory | OpCurrentDirectory | OpCapabilities | OpValidateName
  | OpGenerateName | OpBindPath | OpComposePath | OpMetadata | OpOpenRoot | OpOpenReader | OpRead
  | OpOpenWriter | OpCopy | OpList | OpCreateDirectory | OpDeleteFile | OpDeleteDirectory
  | OpRename | OpCreateTempFile | OpCreateTempDirectory | OpPersistTemp | OpCommit | OpAbort
  | OpCleanup

datatype effect_state = Unchanged | PartiallyApplied | Applied | EffectIndeterminate

datatype atomic_write_stage =
    PrepareParent | InspectDestination | CreateTemporaryFile | WriteTemporaryFile
  | ReadDestinationMetadata | ApplyDestinationMetadata | SyncTemporaryFile | ReplaceDestination
  | CleanupTemporaryFile | SyncParent

datatype destination_state = DestUnchanged | DestReplaced | DestMissing | DestIndeterminate

text \<open>An operating-system error keeps its raw code, a path error the path and the error it wraps; an
  error may also wrap another one unchanged.\<close>

datatype io_error = IoError (ioe_kind: io_error_kind) (ioe_payload: io_payload)
and io_payload =
    NoPayload
  | OsCode int
  | LimitPayload limit_error
  | FilePayload file_error
  | PathPayload path io_error
  | AtomicPayload atomic_write_error
and atomic_write_error =
  AtomicWriteError
    (aw_stage: atomic_write_stage)
    (aw_path: path)
    (aw_temporary_path: "path option")
    (aw_destination_state: destination_state)
    (aw_cleanup_error: "io_error option")
    (aw_parent_sync_error: "io_error option")
    (aw_source: io_error)
and error_source =
    InvalidEncodingSource
  | IoSource io_error
  | PathCodecSource codec_error
  | ResourceLimitSource limit_error
  | RecoverySource file_error
and file_error =
  FileError
    (fe_kind: file_error_kind)
    (fe_operation: file_operation)
    (fe_current_directory: "path option")
    (fe_path: "path option")
    (fe_target: "path option")
    (fe_reason: "string option")
    (fe_detail: "string option")
    (fe_source: "error_source option")
    (fe_effect: "effect_state option")
    (fe_cleanup: "file_error option")
    (fe_recovery: "recovery_handle option")

abbreviation io_error_of :: "io_error_kind \<Rightarrow> io_error" where
  "io_error_of k \<equiv> IoError k NoPayload"

section \<open>Constructors and builders\<close>

definition error_new :: "file_error_kind \<Rightarrow> file_operation \<Rightarrow> file_error" where
  "error_new kind op = FileError kind op None None None None None None None None None"

definition from_resource_limit ::
  "file_operation \<Rightarrow> path option \<Rightarrow> limit_error \<Rightarrow> file_error" where
  "from_resource_limit op p e =
     FileError KResourceLimit op None p None None None (Some (ResourceLimitSource e)) None None None"

definition from_path_codec ::
  "file_operation \<Rightarrow> path option \<Rightarrow> codec_error \<Rightarrow> file_error" where
  "from_path_codec op p e =
     FileError KInvalidPath op None p None None None (Some (PathCodecSource e)) None None None"

definition classify_io_error :: "io_error \<Rightarrow> file_error_kind" where
  "classify_io_error e =
     (case ioe_kind e of
        IoNotFound \<Rightarrow> KNotFound
      | IoAlreadyExists \<Rightarrow> KAlreadyExists
      | IoNotADirectory \<Rightarrow> KNotDirectory
      | IoIsADirectory \<Rightarrow> KIsDirectory
      | IoPermissionDenied \<Rightarrow> KPermissionDenied
      | IoInvalidInput \<Rightarrow> KInvalidPath
      | IoInvalidData \<Rightarrow> KDataCorruption
      | IoUnsupported \<Rightarrow> KUnsupported
      | IoOutOfMemory \<Rightarrow> KResourceLimit
      | IoStorageFull \<Rightarrow> KResourceLimit
      | IoQuotaExceeded \<Rightarrow> KResourceLimit
      | _ \<Rightarrow> KIo)"

fun with_target_option :: "path option \<Rightarrow> file_error \<Rightarrow> file_error" where
  "with_target_option t (FileError k op cwd p _ r d s eff c rec) =
     FileError k op cwd p t r d s eff c rec"

definition from_io ::
  "file_operation \<Rightarrow> path option \<Rightarrow> path option \<Rightarrow> io_error \<Rightarrow> file_error" where
  "from_io op p tgt source =
     (case ioe_payload source of
        LimitPayload limit_error \<Rightarrow> with_target_option tgt (from_resource_limit op p limit_error)
      | _ \<Rightarrow>
          FileError (classify_io_error source) op None p tgt None None (Some (IoSource source))
            None None None)"

fun with_current_directory :: "path \<Rightarrow> file_error \<Rightarrow> file_error" where
  "with_current_directory cwd (FileError k op _ p t r d s eff c rec) =
     FileError k op (Some cwd) p t r d s eff c rec"

fun with_path :: "path \<Rightarrow> file_error \<Rightarrow> file_error" where
  "with_path p (FileError k op cwd _ t r d s eff c rec) =
     FileError k op cwd (Some p) t r d s eff c rec"

fun with_target :: "path \<Rightarrow> file_error \<Rightarrow> file_error" where
  "with_target t (FileError k op cwd p _ r d s eff c rec) =
     FileError k op cwd p (Some t) r d s eff c rec"

fun replace_paths :: "path option \<Rightarrow> path option \<Rightarrow> path option \<Rightarrow> file_error \<Rightarrow> file_error" where
  "replace_paths p t cwd (FileError k op _ _ _ r d s eff c rec) =
     FileError k op cwd p t r d s eff c rec"

fun with_reason :: "string \<Rightarrow> file_error \<Rightarrow> file_error" where
  "with_reason r (FileError k op cwd p t _ d s eff c rec) =
     FileError k op cwd p t (Some r) d s eff c rec"

fun with_detail :: "string \<Rightarrow> file_error \<Rightarrow> file_error" where
  "with_detail d (FileError k op cwd p t r _ s eff c rec) =
     FileError k op cwd p t r (Some d) s eff c rec"

fun with_cleanup_error :: "file_error \<Rightarrow> file_error \<Rightarrow> file_error" where
  "with_cleanup_error c (FileError k op cwd p t r d s eff _ rec) =
     FileError k op cwd p t r d s eff (Some c) rec"

text \<open>The walk to the last empty \<open>cleanup_error\<close> slot.\<close>

fun with_additional_cleanup_error :: "file_error \<Rightarrow> file_error \<Rightarrow> file_error" where
  "with_additional_cleanup_error c (FileError k op cwd p t r d s eff None rec) =
     FileError k op cwd p t r d s eff (Some c) rec"
| "with_additional_cleanup_error c (FileError k op cwd p t r d s eff (Some existing) rec) =
     FileError k op cwd p t r d s eff (Some (with_additional_cleanup_error c existing)) rec"

fun with_temp_recovery :: "recovery_handle \<Rightarrow> file_error \<Rightarrow> file_error" where
  "with_temp_recovery rec (FileError k op cwd p t r d s eff c _) =
     FileError k op cwd p t r d s eff c (Some rec)"

fun into_temp_recovery_parts :: "file_error \<Rightarrow> file_error \<times> recovery_handle option" where
  "into_temp_recovery_parts (FileError k op cwd p t r d s eff c rec) =
     (FileError k op cwd p t r d s eff c None, rec)"

fun with_effect_state :: "effect_state \<Rightarrow> file_error \<Rightarrow> file_error" where
  "with_effect_state eff (FileError k op cwd p t r d s _ c rec) =
     FileError k op cwd p t r d s (Some eff) c rec"

fun with_kind :: "file_error_kind \<Rightarrow> file_error \<Rightarrow> file_error" where
  "with_kind k (FileError _ op cwd p t r d s eff c rec) =
     FileError k op cwd p t r d s eff c rec"

fun with_operation :: "file_operation \<Rightarrow> file_error \<Rightarrow> file_error" where
  "with_operation op (FileError k _ cwd p t r d s eff c rec) =
     FileError k op cwd p t r d s eff c rec"

section \<open>Reading an error\<close>

fun cause_kind :: "file_error \<Rightarrow> file_error_kind option" where
  "cause_kind (FileError k op cwd p t r d s eff c rec) =
     (if k \<noteq> KPublicationIncomplete \<and> k \<noteq> KIndeterminate then Some k
      else (case s of
         Some InvalidEncodingSource \<Rightarrow> Some KInvalidEncoding
       | Some (RecoverySource e) \<Rightarrow> cause_kind e
       | Some (IoSource source) \<Rightarrow> Some (classify_io_error source)
       | Some (ResourceLimitSource _) \<Rightarrow> Some KResourceLimit
       | Some (PathCodecSource _) \<Rightarrow> Some KInvalidPath
       | None \<Rightarrow> None))"

definition effect_state_of :: "file_error \<Rightarrow> effect_state option" where
  "effect_state_of e =
     (case fe_effect e of
        Some eff \<Rightarrow> Some eff
      | None \<Rightarrow>
          (case fe_kind e of
             KPublicationIncomplete \<Rightarrow> Some PartiallyApplied
           | KIndeterminate \<Rightarrow> Some EffectIndeterminate
           | _ \<Rightarrow> None))"

fun resource_limit_error :: "file_error \<Rightarrow> limit_error option" where
  "resource_limit_error (FileError k op cwd p t r d s eff c rec) =
     (case s of
        Some (ResourceLimitSource error) \<Rightarrow> Some error
      | Some (RecoverySource error) \<Rightarrow> resource_limit_error error
      | _ \<Rightarrow> None)"

definition kind_io_error_kind :: "file_error_kind \<Rightarrow> io_error_kind" where
  "kind_io_error_kind k =
     (case k of
        KAlreadyExists \<Rightarrow> IoAlreadyExists
      | KInvalidPath \<Rightarrow> IoInvalidInput
      | KInvalidOptions \<Rightarrow> IoInvalidInput
      | KInvalidState \<Rightarrow> IoInvalidInput
      | KNotDirectory \<Rightarrow> IoNotADirectory
      | KIsDirectory \<Rightarrow> IoIsADirectory
      | KNotFound \<Rightarrow> IoNotFound
      | KPermissionDenied \<Rightarrow> IoPermissionDenied
      | KResourceLimit \<Rightarrow> IoOther
      | KDataCorruption \<Rightarrow> IoInvalidData
      | KInvalidEncoding \<Rightarrow> IoInvalidData
      | KRequirementNotMet \<Rightarrow> IoUnsupported
      | KUnsupported \<Rightarrow> IoUnsupported
      | _ \<Rightarrow> IoOther)"

fun standard_io_error_kind :: "file_error \<Rightarrow> io_error_kind" where
  "standard_io_error_kind (FileError k op cwd p t r d s eff c rec) =
     (case s of
        Some (IoSource source) \<Rightarrow> ioe_kind source
      | Some InvalidEncodingSource \<Rightarrow> IoInvalidData
      | Some (RecoverySource e) \<Rightarrow> standard_io_error_kind e
      | Some (PathCodecSource _) \<Rightarrow> IoInvalidInput
      | Some (ResourceLimitSource _) \<Rightarrow> IoOther
      | None \<Rightarrow> kind_io_error_kind k)"

definition into_source :: "file_error \<Rightarrow> error_source option" where
  "into_source e = (if fe_recovery e \<noteq> None then Some (RecoverySource e) else fe_source e)"

definition into_io_error :: "file_error \<Rightarrow> io_error" where
  "into_io_error e = IoError (standard_io_error_kind e) (FilePayload e)"

definition directory_mutation_error ::
  "file_operation \<Rightarrow> path \<Rightarrow> bool \<Rightarrow> io_error \<Rightarrow> file_error" where
  "directory_mutation_error op p changed source =
     (let error = from_io op (Some p) None source
      in if changed
         then with_kind KPublicationIncomplete (with_effect_state PartiallyApplied error)
         else error)"

section \<open>Facts on construction and reading\<close>

named_theorems error_simps

lemmas [error_simps] = error_new_def from_resource_limit_def from_path_codec_def from_io_def
  effect_state_of_def directory_mutation_error_def

lemma classify_io_error_proper:
  "classify_io_error e \<noteq> KPublicationIncomplete" "classify_io_error e \<noteq> KIndeterminate"
  by (cases "ioe_kind e"; simp add: classify_io_error_def)+

lemma with_effect_state_simps [simp]:
  "fe_effect (with_effect_state eff e) = Some eff" "fe_kind (with_effect_state eff e) = fe_kind e"
  "fe_path (with_effect_state eff e) = fe_path e" "fe_source (with_effect_state eff e) = fe_source e"
  "fe_operation (with_effect_state eff e) = fe_operation e"
  by (cases e; simp)+

lemma with_kind_simps [simp]:
  "fe_kind (with_kind k e) = k" "fe_effect (with_kind k e) = fe_effect e"
  "fe_path (with_kind k e) = fe_path e" "fe_source (with_kind k e) = fe_source e"
  "fe_operation (with_kind k e) = fe_operation e"
  by (cases e; simp)+

lemma effect_state_of_with_effect_state [simp]:
  "effect_state_of (with_effect_state eff e) = Some eff"
  by (simp add: effect_state_of_def)

text \<open>The cause of an error built from an \<open>io::Error\<close>.\<close>

definition io_cause :: "io_error \<Rightarrow> file_error_kind" where
  "io_cause e = (case ioe_payload e of LimitPayload _ \<Rightarrow> KResourceLimit | _ \<Rightarrow> classify_io_error e)"

lemma from_io_fields [simp]:
  "fe_path (from_io op p t e) = p" "fe_effect (from_io op p t e) = None"
  "fe_operation (from_io op p t e) = op" "fe_kind (from_io op p t e) = io_cause e"
  by (cases "ioe_payload e"; simp add: from_io_def from_resource_limit_def io_cause_def)+

lemma io_cause_proper: "io_cause e \<noteq> KPublicationIncomplete" "io_cause e \<noteq> KIndeterminate"
  by (cases "ioe_payload e"; simp add: io_cause_def classify_io_error_proper)+

lemma cause_kind_from_io: "cause_kind (from_io op p t e) = Some (io_cause e)"
  using io_cause_proper [of e]
  by (cases "from_io op p t e") (metis cause_kind.simps file_error.sel(1) from_io_fields(4))

lemma cause_kind_incomplete:
  "cause_kind (with_kind KPublicationIncomplete (with_effect_state eff (from_io op p t e))) =
   Some (io_cause e)"
  by (cases "ioe_payload e") (simp_all add: from_io_def from_resource_limit_def io_cause_def)

section \<open>The cleanup chain\<close>

fun strip_cleanup :: "file_error \<Rightarrow> file_error" where
  "strip_cleanup (FileError k op cwd p t r d s eff _ rec) =
     FileError k op cwd p t r d s eff None rec"

text \<open>An error and its attached cleanup failures, first to last.\<close>

fun error_chain :: "file_error \<Rightarrow> file_error list" where
  "error_chain (FileError k op cwd p t r d s eff None rec) =
     [FileError k op cwd p t r d s eff None rec]"
| "error_chain (FileError k op cwd p t r d s eff (Some c) rec) =
     FileError k op cwd p t r d s eff None rec # error_chain c"

section \<open>Properties\<close>

text \<open>
  Attaching an additional cleanup error appends it, with its own chain, behind everything
  already attached; no recorded failure is dropped or reordered.
\<close>

theorem additional_cleanup_appends:
  "error_chain (with_additional_cleanup_error c e) = error_chain e @ error_chain c"
  by (induction c e rule: with_additional_cleanup_error.induct) simp_all

text \<open>
  The error of a directory mutation keeps the failed path, the cause and the resource facts of
  its source, and says \<open>PartiallyApplied\<close> exactly when an earlier entry had already changed.
\<close>

theorem directory_mutation_error_faithful:
  "cause_kind (directory_mutation_error op p changed source) = Some (io_cause source) \<and>
   effect_state_of (directory_mutation_error op p changed source) =
     (if changed then Some PartiallyApplied else None) \<and>
   fe_path (directory_mutation_error op p changed source) = Some p \<and>
   resource_limit_error (directory_mutation_error op p changed source) =
     (case ioe_payload source of LimitPayload f \<Rightarrow> Some f | _ \<Rightarrow> None)"
proof -
  have "resource_limit_error (directory_mutation_error op p changed source) =
      (case ioe_payload source of LimitPayload f \<Rightarrow> Some f | _ \<Rightarrow> None)"
    by (cases "ioe_payload source")
      (simp_all add: error_simps Let_def)
  moreover have "effect_state_of (directory_mutation_error op p changed source) =
      (if changed then Some PartiallyApplied else None)"
    using io_cause_proper [of source]
    by (auto simp: effect_state_of_def directory_mutation_error_def split: file_error_kind.split)
  ultimately show ?thesis
    by (simp add: directory_mutation_error_def Let_def cause_kind_from_io cause_kind_incomplete)
qed

end
