(* ===== verification/Delete_Tree.thy ===== *)
theory Delete_Tree
  imports Errors
begin

text \<open>
  Recursive deletion: the options of \<^verbatim>\<open>src/options/local_delete_options.rs\<close>, the resource accounting of
  \<^verbatim>\<open>src/local/internal/delete_budget.rs\<close> and the shared post-order scheduler of
  \<^verbatim>\<open>src/local/internal/delete_tree.rs\<close> over an arbitrary \<open>DeleteBackend\<close>.

  A backend is a record of its operations over a world of type \<open>'w\<close>; the clock is an operation of the
  same world. The crate \<open>qubit_budget\<close> is not part of the repository, so its \<open>ResourceBudget\<close> is a
  record of operations too, and \<open>budget_laws\<close> states the documented behaviour that the accounting
  relies on. The work stack keeps the end of the Rust vector first.
\<close>

section \<open>Options\<close>

record delete_options =
  do_recursive :: bool
  do_missing_ok :: bool
  do_max_depth :: "usize option"
  do_max_entries :: "usize option"
  do_max_pending_path_bytes :: "usize option"
  do_deadline :: "duration option"

definition delete_options_new :: delete_options where
  "delete_options_new =
     \<lparr>do_recursive = False, do_missing_ok = False, do_max_depth = None, do_max_entries = None,
      do_max_pending_path_bytes = None, do_deadline = None\<rparr>"

definition tighter :: "nat option \<Rightarrow> nat option \<Rightarrow> nat option" where
  "tighter requested ceiling =
     (case (requested, ceiling) of
        (Some a, Some b) \<Rightarrow> Some (min a b)
      | (Some a, None) \<Rightarrow> Some a
      | (None, Some b) \<Rightarrow> Some b
      | (None, None) \<Rightarrow> None)"

definition tighten_resource_limits :: "delete_options \<Rightarrow> delete_options \<Rightarrow> delete_options" where
  "tighten_resource_limits opts ceilings =
     opts\<lparr>do_max_depth := tighter (do_max_depth opts) (do_max_depth ceilings),
          do_max_entries := tighter (do_max_entries opts) (do_max_entries ceilings),
          do_max_pending_path_bytes :=
            tighter (do_max_pending_path_bytes opts) (do_max_pending_path_bytes ceilings),
          do_deadline := tighter (do_deadline opts) (do_deadline ceilings)\<rparr>"

section \<open>Budgets of the external budget crate\<close>

record insufficient_budget =
  ib_resource :: resource_kind
  ib_limit :: nat
  ib_remaining :: nat
  ib_requested :: nat

record 'b resource_budget =
  rb_new :: "resource_kind \<Rightarrow> nat \<Rightarrow> 'b"
  rb_try_consume :: "'b \<Rightarrow> nat \<Rightarrow> (unit, insufficient_budget) result \<times> 'b"
  rb_resource :: "'b \<Rightarrow> resource_kind"
  rb_limit :: "'b \<Rightarrow> nat"
  rb_remaining :: "'b \<Rightarrow> nat"

definition budget_laws :: "'b resource_budget \<Rightarrow> bool" where
  "budget_laws rb \<longleftrightarrow>
     (\<forall>k n. rb_resource rb (rb_new rb k n) = k \<and> rb_limit rb (rb_new rb k n) = n \<and>
            rb_remaining rb (rb_new rb k n) = n) \<and>
     (\<forall>b n. n \<le> rb_remaining rb b \<longrightarrow>
        fst (rb_try_consume rb b n) = Ok () \<and>
        rb_remaining rb (snd (rb_try_consume rb b n)) = rb_remaining rb b - n \<and>
        rb_limit rb (snd (rb_try_consume rb b n)) = rb_limit rb b \<and>
        rb_resource rb (snd (rb_try_consume rb b n)) = rb_resource rb b) \<and>
     (\<forall>b n. rb_remaining rb b < n \<longrightarrow>
        rb_try_consume rb b n =
          (Err \<lparr>ib_resource = rb_resource rb b, ib_limit = rb_limit rb b,
                ib_remaining = rb_remaining rb b, ib_requested = n\<rparr>, b))"

section \<open>The deletion budget\<close>

record 'b delete_budget =
  db_options :: delete_options
  db_started :: instant
  db_entries :: "'b option"
  db_pending_bytes :: usize

definition delete_budget_new ::
  "'b resource_budget \<Rightarrow> delete_options \<Rightarrow> instant \<Rightarrow> 'b delete_budget" where
  "delete_budget_new rb opts started =
     \<lparr>db_options = opts, db_started = started,
      db_entries = map_option (rb_new rb Entry) (do_max_entries opts), db_pending_bytes = 0\<rparr>"

definition resource_error :: "limit_error \<Rightarrow> io_error" where
  "resource_error e = IoError IoQuotaExceeded (LimitPayload e)"

definition delete_check_deadline ::
  "('w \<Rightarrow> instant \<times> 'w) \<Rightarrow> 'b delete_budget \<Rightarrow> 'w \<Rightarrow> (unit, io_error) result \<times> 'w" where
  "delete_check_deadline now b w =
     (case do_deadline (db_options b) of
        None \<Rightarrow> (Ok (), w)
      | Some lim \<Rightarrow>
          (case now w of
             (t, w') \<Rightarrow>
               (if lim \<le> saturating_sub t (db_started b) then Err (io_error_of IoTimedOut) else Ok (),
                w')))"

definition charge_discovered ::
  "'b resource_budget \<Rightarrow> 'b delete_budget \<Rightarrow> (unit, io_error) result \<times> 'b delete_budget" where
  "charge_discovered rb b =
     (case db_entries b of
        None \<Rightarrow> (Ok (), b)
      | Some entries \<Rightarrow>
          (case rb_try_consume rb entries 1 of
             (r, entries') \<Rightarrow>
               (map_err (\<lambda>e. resource_error (limit_error_new (ib_resource e) (ib_limit e)
                                              (ib_remaining e) (ib_requested e))) r,
                b\<lparr>db_entries := Some entries'\<rparr>)))"

definition delete_discover ::
  "'b resource_budget \<Rightarrow> ('w \<Rightarrow> instant \<times> 'w) \<Rightarrow> 'b delete_budget \<Rightarrow> usize \<Rightarrow> 'w \<Rightarrow>
   (unit, io_error) result \<times> 'b delete_budget \<times> 'w" where
  "delete_discover rb now b depth w =
     (case delete_check_deadline now b w of
        (Ok _, w') \<Rightarrow>
          (case do_max_depth (db_options b) of
             Some lim \<Rightarrow>
               if lim < depth then
                 (Err (resource_error (limit_error_new Depth lim 0 depth)), b, w')
               else (case charge_discovered rb b of (r, b') \<Rightarrow> (r, b', w'))
           | None \<Rightarrow> (case charge_discovered rb b of (r, b') \<Rightarrow> (r, b', w')))
      | (Err e, w') \<Rightarrow> (Err e, b, w')
      | (Panic, w') \<Rightarrow> (Panic, b, w'))"

definition pending_limit :: "delete_options \<Rightarrow> usize" where
  "pending_limit opts = (case do_max_pending_path_bytes opts of Some n \<Rightarrow> n | None \<Rightarrow> usize_max)"

definition reserve_path :: "'b delete_budget \<Rightarrow> path \<Rightarrow> (unit, io_error) result \<times> 'b delete_budget" where
  "reserve_path b p =
     (let requested = length p;
          lim = pending_limit (db_options b);
          remaining = saturating_sub lim (db_pending_bytes b)
      in if remaining < requested then
           (Err (resource_error (limit_error_new PendingPathBytes lim remaining requested)), b)
         else (Ok (), b\<lparr>db_pending_bytes := wrapping_add (db_pending_bytes b) requested\<rparr>))"

definition release_path :: "'b delete_budget \<Rightarrow> path \<Rightarrow> 'b delete_budget" where
  "release_path b p = b\<lparr>db_pending_bytes := wrapping_sub (db_pending_bytes b) (length p)\<rparr>"

section \<open>The backend and the scheduler\<close>

record ('w, 'p, 'm, 'r) delete_backend =
  bk_path :: "'p \<Rightarrow> path"
  bk_metadata :: "'p \<Rightarrow> 'w \<Rightarrow> ('m, io_error) result \<times> 'w"
  bk_is_directory :: "'m \<Rightarrow> bool"
  bk_open_directory :: "'p \<Rightarrow> 'w \<Rightarrow> ('r, io_error) result \<times> 'w"
  bk_next_child :: "'p \<Rightarrow> 'r \<Rightarrow> 'w \<Rightarrow> ('p option, io_error) result \<times> 'r \<times> 'w"
  bk_remove_non_directory :: "'p \<Rightarrow> 'm \<Rightarrow> 'w \<Rightarrow> (unit, io_error) result \<times> 'w"
  bk_remove_empty_directory :: "'p \<Rightarrow> 'w \<Rightarrow> (unit, io_error) result \<times> 'w"
  bk_before_remove :: "'p \<Rightarrow> 'w \<Rightarrow> (unit, io_error) result \<times> 'w"
  bk_now :: "'w \<Rightarrow> instant \<times> 'w"

datatype 'p delete_work = Inspect 'p | RemoveDirectory 'p

fun work_path :: "'p delete_work \<Rightarrow> 'p" where
  "work_path (Inspect p) = p"
| "work_path (RemoveDirectory p) = p"

definition delete_fail ::
  "('w, 'p, 'm, 'r) delete_backend \<Rightarrow> 'p \<Rightarrow> bool \<Rightarrow> io_error \<Rightarrow> file_error" where
  "delete_fail bk p changed source =
     (let error = directory_mutation_error OpDeleteDirectory (bk_path bk p) changed source
      in if changed then error else with_effect_state Unchanged error)"

definition fail_during_removal ::
  "('w, 'p, 'm, 'r) delete_backend \<Rightarrow> 'p \<Rightarrow> bool \<Rightarrow> io_error \<Rightarrow> file_error" where
  "fail_during_removal bk p changed source =
     (let error = directory_mutation_error OpDeleteDirectory (bk_path bk p) changed source
      in if changed then error else with_effect_state EffectIndeterminate error)"

record ('p, 'b) delete_state =
  ds_changed :: bool
  ds_budget :: "'b delete_budget"
  ds_work :: "('p delete_work \<times> usize) list"

text \<open>\<open>budget.discover(depth).and_then(|()| budget.reserve_path(path))\<close>.\<close>

definition discover_and_reserve ::
  "'b resource_budget \<Rightarrow> ('w, 'p, 'm, 'r) delete_backend \<Rightarrow> 'b delete_budget \<Rightarrow> usize \<Rightarrow> 'p \<Rightarrow> 'w \<Rightarrow>
   (unit, io_error) result \<times> 'b delete_budget \<times> 'w" where
  "discover_and_reserve rb bk b depth p w =
     (case delete_discover rb (bk_now bk) b depth w of
        (Ok _, b', w') \<Rightarrow> (case reserve_path b' (bk_path bk p) of (r, b'') \<Rightarrow> (r, b'', w'))
      | (Err e, b', w') \<Rightarrow> (Err e, b', w')
      | (Panic, b', w') \<Rightarrow> (Panic, b', w'))"

text \<open>
  The inner loop over the children of one directory, with fuel. The children come in the order in
  which they were read, which is the order of the stack after \<open>work[children_start..].reverse()\<close>.
\<close>

fun read_children ::
  "'b resource_budget \<Rightarrow> ('w, 'p, 'm, 'r) delete_backend \<Rightarrow> nat \<Rightarrow> 'p \<Rightarrow> usize \<Rightarrow> bool \<Rightarrow> 'r \<Rightarrow>
   'b delete_budget \<Rightarrow> ('p delete_work \<times> usize) list \<Rightarrow> 'w \<Rightarrow>
   ((('p delete_work \<times> usize) list \<times> 'b delete_budget, file_error) result \<times> 'w) option" where
  "read_children rb bk 0 p depth changed reader b children w = None"
| "read_children rb bk (Suc fuel) p depth changed reader b children w =
     (case delete_check_deadline (bk_now bk) b w of
        (Err e, w1) \<Rightarrow> Some (Err (delete_fail bk p changed e), w1)
      | (Panic, w1) \<Rightarrow> Some (Panic, w1)
      | (Ok _, w1) \<Rightarrow>
          (case bk_next_child bk p reader w1 of
             (Err e, _, w2) \<Rightarrow> Some (Err (delete_fail bk p changed e), w2)
           | (Panic, _, w2) \<Rightarrow> Some (Panic, w2)
           | (Ok None, _, w2) \<Rightarrow> Some (Ok (children, b), w2)
           | (Ok (Some child), reader', w2) \<Rightarrow>
               (case discover_and_reserve rb bk b (depth + 1) child w2 of
                  (Err e, _, w3) \<Rightarrow> Some (Err (delete_fail bk child changed e), w3)
                | (Panic, _, w3) \<Rightarrow> Some (Panic, w3)
                | (Ok _, b', w3) \<Rightarrow>
                    read_children rb bk fuel p depth changed reader' b'
                      (children @ [(Inspect child, depth + 1)]) w3)))"

datatype ('s, 'w) loop_step = Continue 's 'w | Return "(unit, file_error) result" 'w

definition inspect_directory ::
  "'b resource_budget \<Rightarrow> ('w, 'p, 'm, 'r) delete_backend \<Rightarrow> nat \<Rightarrow> ('p, 'b) delete_state \<Rightarrow> 'p \<Rightarrow>
   usize \<Rightarrow> 'w \<Rightarrow> (('p, 'b) delete_state, 'w) loop_step option" where
  "inspect_directory rb bk fuel s p depth w =
     (case delete_check_deadline (bk_now bk) (ds_budget s) w of
        (Err e, w1) \<Rightarrow> Some (Return (Err (delete_fail bk p (ds_changed s) e)) w1)
      | (Panic, w1) \<Rightarrow> Some (Return Panic w1)
      | (Ok _, w1) \<Rightarrow>
          (case bk_open_directory bk p w1 of
             (Err e, w2) \<Rightarrow> Some (Return (Err (delete_fail bk p (ds_changed s) e)) w2)
           | (Panic, w2) \<Rightarrow> Some (Return Panic w2)
           | (Ok reader, w2) \<Rightarrow>
               (case reserve_path (ds_budget s) (bk_path bk p) of
                  (Err e, _) \<Rightarrow> Some (Return (Err (delete_fail bk p (ds_changed s) e)) w2)
                | (Panic, _) \<Rightarrow> Some (Return Panic w2)
                | (Ok _, b) \<Rightarrow>
                    (case read_children rb bk fuel p depth (ds_changed s) reader b [] w2 of
                       None \<Rightarrow> None
                     | Some (Err e, w3) \<Rightarrow> Some (Return (Err e) w3)
                     | Some (Panic, w3) \<Rightarrow> Some (Return Panic w3)
                     | Some (Ok (children, b'), w3) \<Rightarrow>
                         Some (Continue
                           (s\<lparr>ds_budget := b',
                              ds_work := children @ (RemoveDirectory p, depth) # ds_work s\<rparr>) w3)))))"

definition remove_leaf ::
  "('w, 'p, 'm, 'r) delete_backend \<Rightarrow> ('p, 'b) delete_state \<Rightarrow> 'p \<Rightarrow> 'm \<Rightarrow> 'w \<Rightarrow>
   (('p, 'b) delete_state, 'w) loop_step" where
  "remove_leaf bk s p metadata w =
     (case delete_check_deadline (bk_now bk) (ds_budget s) w of
        (Err e, w1) \<Rightarrow> Return (Err (delete_fail bk p (ds_changed s) e)) w1
      | (Panic, w1) \<Rightarrow> Return Panic w1
      | (Ok _, w1) \<Rightarrow>
          (case bk_before_remove bk p w1 of
             (Err e, w2) \<Rightarrow> Return (Err (delete_fail bk p (ds_changed s) e)) w2
           | (Panic, w2) \<Rightarrow> Return Panic w2
           | (Ok _, w2) \<Rightarrow>
               (case bk_remove_non_directory bk p metadata w2 of
                  (Err e, w3) \<Rightarrow> Return (Err (fail_during_removal bk p (ds_changed s) e)) w3
                | (Panic, w3) \<Rightarrow> Return Panic w3
                | (Ok _, w3) \<Rightarrow> Continue (s\<lparr>ds_changed := True\<rparr>) w3)))"

definition inspect_entry ::
  "'b resource_budget \<Rightarrow> ('w, 'p, 'm, 'r) delete_backend \<Rightarrow> nat \<Rightarrow> ('p, 'b) delete_state \<Rightarrow> 'p \<Rightarrow>
   usize \<Rightarrow> 'w \<Rightarrow> (('p, 'b) delete_state, 'w) loop_step option" where
  "inspect_entry rb bk fuel s p depth w =
     (case bk_metadata bk p w of
        (Err e, w1) \<Rightarrow> Some (Return (Err (delete_fail bk p (ds_changed s) e)) w1)
      | (Panic, w1) \<Rightarrow> Some (Return Panic w1)
      | (Ok metadata, w1) \<Rightarrow>
          if depth = 0 \<and> \<not> bk_is_directory bk metadata then
            Some (Return (Err (delete_fail bk p (ds_changed s) (io_error_of IoNotADirectory))) w1)
          else if bk_is_directory bk metadata then inspect_directory rb bk fuel s p depth w1
          else Some (remove_leaf bk s p metadata w1))"

definition remove_directory ::
  "('w, 'p, 'm, 'r) delete_backend \<Rightarrow> ('p, 'b) delete_state \<Rightarrow> 'p \<Rightarrow> 'w \<Rightarrow>
   (('p, 'b) delete_state, 'w) loop_step" where
  "remove_directory bk s p w =
     (case bk_before_remove bk p w of
        (Err e, w1) \<Rightarrow> Return (Err (delete_fail bk p (ds_changed s) e)) w1
      | (Panic, w1) \<Rightarrow> Return Panic w1
      | (Ok _, w1) \<Rightarrow>
          (case bk_remove_empty_directory bk p w1 of
             (Err e, w2) \<Rightarrow> Return (Err (fail_during_removal bk p (ds_changed s) e)) w2
           | (Panic, w2) \<Rightarrow> Return Panic w2
           | (Ok _, w2) \<Rightarrow> Continue (s\<lparr>ds_changed := True\<rparr>) w2))"

text \<open>One iteration of \<open>while let Some((item, depth)) = work.pop()\<close>.\<close>

definition delete_step ::
  "'b resource_budget \<Rightarrow> ('w, 'p, 'm, 'r) delete_backend \<Rightarrow> nat \<Rightarrow> ('p, 'b) delete_state \<Rightarrow> 'w \<Rightarrow>
   (('p, 'b) delete_state, 'w) loop_step option" where
  "delete_step rb bk fuel s w =
     (case ds_work s of
        [] \<Rightarrow> Some (Return (Ok ()) w)
      | (item, depth) # work \<Rightarrow>
          (let p = work_path item;
               s' = s\<lparr>ds_budget := release_path (ds_budget s) (bk_path bk p), ds_work := work\<rparr>
           in case delete_check_deadline (bk_now bk) (ds_budget s') w of
                (Err e, w1) \<Rightarrow> Some (Return (Err (delete_fail bk p (ds_changed s') e)) w1)
              | (Panic, w1) \<Rightarrow> Some (Return Panic w1)
              | (Ok _, w1) \<Rightarrow>
                  (case item of
                     Inspect _ \<Rightarrow> inspect_entry rb bk fuel s' p depth w1
                   | RemoveDirectory _ \<Rightarrow> Some (remove_directory bk s' p w1))))"

fun delete_loop ::
  "'b resource_budget \<Rightarrow> ('w, 'p, 'm, 'r) delete_backend \<Rightarrow> nat \<Rightarrow> nat \<Rightarrow> ('p, 'b) delete_state \<Rightarrow> 'w \<Rightarrow>
   ((unit, file_error) result \<times> 'w) option" where
  "delete_loop rb bk cf 0 s w = None"
| "delete_loop rb bk cf (Suc fuel) s w =
     (case delete_step rb bk cf s w of
        None \<Rightarrow> None
      | Some (Return r w') \<Rightarrow> Some (r, w')
      | Some (Continue s' w') \<Rightarrow> delete_loop rb bk cf fuel s' w')"

definition remove_directory_tree ::
  "'b resource_budget \<Rightarrow> ('w, 'p, 'm, 'r) delete_backend \<Rightarrow> nat \<Rightarrow> nat \<Rightarrow> 'p \<Rightarrow> delete_options \<Rightarrow> instant \<Rightarrow>
   'w \<Rightarrow> ((unit, file_error) result \<times> 'w) option" where
  "remove_directory_tree rb bk cf fuel root opts started_at w =
     (case discover_and_reserve rb bk (delete_budget_new rb opts started_at) 0 root w of
        (Err e, _, w1) \<Rightarrow> Some (Err (delete_fail bk root False e), w1)
      | (Panic, _, w1) \<Rightarrow> Some (Panic, w1)
      | (Ok _, b, w1) \<Rightarrow>
          delete_loop rb bk cf fuel
            \<lparr>ds_changed = False, ds_budget = b, ds_work = [(Inspect root, 0)]\<rparr> w1)"

section \<open>Accounting of pending paths\<close>

definition pending_sum :: "('w, 'p, 'm, 'r) delete_backend \<Rightarrow> ('p delete_work \<times> usize) list \<Rightarrow> nat" where
  "pending_sum bk work = (\<Sum>x\<leftarrow>work. length (bk_path bk (work_path (fst x))))"

definition depth_allowed :: "delete_options \<Rightarrow> usize \<Rightarrow> bool" where
  "depth_allowed opts d = (case do_max_depth opts of None \<Rightarrow> True | Some lim \<Rightarrow> d \<le> lim)"

definition accounted ::
  "('w, 'p, 'm, 'r) delete_backend \<Rightarrow> delete_options \<Rightarrow> 'b delete_budget \<Rightarrow>
   ('p delete_work \<times> usize) list \<Rightarrow> bool" where
  "accounted bk opts b work \<longleftrightarrow>
     db_options b = opts \<and> db_pending_bytes b = pending_sum bk work \<and>
     pending_sum bk work \<le> pending_limit opts \<and> (\<forall>(_, d) \<in> set work. depth_allowed opts d)"

lemma pending_sum_simps [budget_simps]:
  "pending_sum bk [] = 0"
  "pending_sum bk (x # work) = length (bk_path bk (work_path (fst x))) + pending_sum bk work"
  "pending_sum bk (work @ work2) = pending_sum bk work + pending_sum bk work2"
  by (simp_all add: pending_sum_def)

lemma charge_discovered_frame:
  assumes "charge_discovered rb b = (r, b')"
  shows "db_options b' = db_options b \<and> db_pending_bytes b' = db_pending_bytes b \<and>
    db_started b' = db_started b"
  using assms by (auto simp: charge_discovered_def split: option.splits prod.splits)

lemma delete_discover_frame:
  assumes "delete_discover rb now b depth w = (r, b', w')"
  shows "db_options b' = db_options b \<and> db_pending_bytes b' = db_pending_bytes b \<and>
    (r = Ok () \<longrightarrow> depth_allowed (db_options b) depth)"
  using assms charge_discovered_frame [of rb b]
  by (auto simp: delete_discover_def depth_allowed_def
      split: prod.splits result.splits option.splits if_splits)

lemma reserve_path_Ok:
  assumes "reserve_path b p = (Ok u, b')" and "db_pending_bytes b \<le> pending_limit (db_options b)"
    and "pending_limit (db_options b) \<le> usize_max"
  shows "b' = b\<lparr>db_pending_bytes := db_pending_bytes b + length p\<rparr>"
    and "db_pending_bytes b + length p \<le> pending_limit (db_options b)"
  using assms by (auto simp: reserve_path_def Let_def wrapping_add_eq split: if_splits)

lemma accounted_reserve:
  assumes "accounted bk opts b work" and "reserve_path b (bk_path bk (work_path i)) = (Ok u, b')"
    and "pending_limit opts \<le> usize_max" and "depth_allowed opts d"
  shows "accounted bk opts b' ((i, d) # work)"
  using assms reserve_path_Ok [OF assms(2)]
  by (auto simp: accounted_def budget_simps add.commute)

lemma accounted_release:
  assumes "accounted bk opts b ((i, d) # work)" and "pending_limit opts \<le> usize_max"
  shows "accounted bk opts (release_path b (bk_path bk (work_path i))) work"
proof -
  have "wrapping_sub (db_pending_bytes b) (length (bk_path bk (work_path i))) = pending_sum bk work"
    using assms by (simp add: accounted_def budget_simps wrapping_sub_eq)
  with assms show ?thesis
    by (auto simp: accounted_def release_path_def budget_simps)
qed

lemma accounted_discover:
  assumes "accounted bk opts b work" and "pending_limit opts \<le> usize_max"
    and "discover_and_reserve rb bk b d p w = (Ok u, b', w')"
  shows "accounted bk opts b' ((Inspect p, d) # work)"
proof -
  obtain u' b1 w1 where disc: "delete_discover rb (bk_now bk) b d w = (Ok u', b1, w1)"
    and res: "reserve_path b1 (bk_path bk p) = (Ok u, b')"
    using assms(3) by (auto simp: discover_and_reserve_def split: prod.splits result.splits)
  from delete_discover_frame [OF disc] assms(1) have "accounted bk opts b1 work"
    and "depth_allowed opts d"
    by (auto simp: accounted_def)
  with accounted_reserve [of bk opts b1 work "Inspect p" u b' d] res assms(2) show ?thesis
    by simp
qed

lemma accounted_children:
  assumes "read_children rb bk fuel p depth changed reader b children w = Some (Ok (children', b'), w')"
    and "accounted bk opts b (children @ work)" and "pending_limit opts \<le> usize_max"
  shows "accounted bk opts b' (children' @ work)"
  using assms(1,2)
proof (induction fuel arbitrary: reader b children w)
  case (Suc fuel)
  from Suc.prems(1) consider "children' = children" "b' = b"
    | child u b1 w2 w3 reader1 where
      "discover_and_reserve rb bk b (Suc depth) child w2 = (Ok u, b1, w3)"
      "read_children rb bk fuel p depth changed reader1 b1 (children @ [(Inspect child, Suc depth)]) w3 =
        Some (Ok (children', b'), w')"
    by (auto split: prod.splits result.splits option.splits)
  then show ?case
  proof cases
    case 1
    with Suc.prems(2) show ?thesis by simp
  next
    case (2 child u b1 w2 w3 reader1)
    from accounted_discover [OF Suc.prems(2) assms(3) 2(1)]
    have "accounted bk opts b1 ((children @ [(Inspect child, Suc depth)]) @ work)"
      by (auto simp: accounted_def budget_simps)
    with 2(2) show ?thesis by (rule Suc.IH)
  qed
qed simp

lemma delete_step_accounted:
  assumes "delete_step rb bk fuel s w = Some (Continue s' w')"
    and "accounted bk opts (ds_budget s) (ds_work s)" and "pending_limit opts \<le> usize_max"
  shows "accounted bk opts (ds_budget s') (ds_work s')"
proof -
  obtain item depth work where work: "ds_work s = (item, depth) # work"
    using assms(1) by (auto simp: delete_step_def split: list.splits)
  define s1 where "s1 = s\<lparr>ds_budget := release_path (ds_budget s) (bk_path bk (work_path item)),
    ds_work := work\<rparr>"
  have s1: "accounted bk opts (ds_budget s1) (ds_work s1)" "ds_work s1 = work"
    using accounted_release [of bk opts "ds_budget s" item depth work] assms(2,3) work
    by (simp_all add: s1_def)
  have depth: "depth_allowed opts depth"
    using assms(2) work by (simp add: accounted_def)
  from assms(1) work obtain w1 where
    "(item = Inspect (work_path item) \<and>
      inspect_entry rb bk fuel s1 (work_path item) depth w1 = Some (Continue s' w')) \<or>
     remove_directory bk s1 (work_path item) w1 = Continue s' w'"
    by (auto simp: delete_step_def Let_def s1_def
        split: prod.splits result.splits delete_work.splits)
  then show ?thesis
  proof
    assume "remove_directory bk s1 (work_path item) w1 = Continue s' w'"
    with s1 show ?thesis
      by (auto simp: remove_directory_def split: prod.splits result.splits)
  next
    assume "item = Inspect (work_path item) \<and>
      inspect_entry rb bk fuel s1 (work_path item) depth w1 = Some (Continue s' w')"
    then obtain w2 m where "inspect_directory rb bk fuel s1 (work_path item) depth w2 = Some (Continue s' w') \<or>
        remove_leaf bk s1 (work_path item) m w2 = Continue s' w'"
      by (auto simp: inspect_entry_def split: prod.splits result.splits if_splits)
    then show ?thesis
    proof
      assume "remove_leaf bk s1 (work_path item) m w2 = Continue s' w'"
      with s1 show ?thesis
        by (auto simp: remove_leaf_def split: prod.splits result.splits)
    next
      assume "inspect_directory rb bk fuel s1 (work_path item) depth w2 = Some (Continue s' w')"
      then obtain u b reader w3 children b' where
        res: "reserve_path (ds_budget s1) (bk_path bk (work_path item)) = (Ok u, b)"
        and ch: "read_children rb bk fuel (work_path item) depth (ds_changed s1) reader b [] w3 =
          Some (Ok (children, b'), w')"
        and s': "s' = s1\<lparr>ds_budget := b',
          ds_work := children @ (RemoveDirectory (work_path item), depth) # ds_work s1\<rparr>"
        by (auto simp: inspect_directory_def split: prod.splits result.splits option.splits)
      have "accounted bk opts b ((RemoveDirectory (work_path item), depth) # ds_work s1)"
        using accounted_reserve [of bk opts "ds_budget s1" "ds_work s1"
            "RemoveDirectory (work_path item)" u b depth] s1(1) res assms(3) depth by simp
      with accounted_children [OF ch, of opts "(RemoveDirectory (work_path item), depth) # ds_work s1"]
      show ?thesis
        using assms(3) by (simp add: s')
    qed
  qed
qed

text \<open>The states the scheduler's loop passes through.\<close>

inductive delete_reachable ::
  "'b resource_budget \<Rightarrow> ('w, 'p, 'm, 'r) delete_backend \<Rightarrow> delete_options \<Rightarrow> instant \<Rightarrow> 'p \<Rightarrow> 'w \<Rightarrow>
   ('p, 'b) delete_state \<Rightarrow> 'w \<Rightarrow> bool"
  for rb bk opts started root w0 where
  start: "discover_and_reserve rb bk (delete_budget_new rb opts started) 0 root w0 = (Ok (), b, w1) \<Longrightarrow>
    delete_reachable rb bk opts started root w0
      \<lparr>ds_changed = False, ds_budget = b, ds_work = [(Inspect root, 0)]\<rparr> w1"
| step: "delete_reachable rb bk opts started root w0 s w \<Longrightarrow>
    delete_step rb bk fuel s w = Some (Continue s' w') \<Longrightarrow>
    delete_reachable rb bk opts started root w0 s' w'"

lemma delete_reachable_accounted:
  assumes "delete_reachable rb bk opts started root w0 s w" and "pending_limit opts \<le> usize_max"
  shows "accounted bk opts (ds_budget s) (ds_work s)"
  using assms(1)
proof induction
  case (start b w1)
  have "accounted bk opts (delete_budget_new rb opts started) []"
    by (simp add: accounted_def delete_budget_new_def budget_simps)
  from accounted_discover [OF this assms(2) start] show ?case by simp
next
  case (step s w fuel s' w')
  show ?case by (rule delete_step_accounted [OF step.hyps(2) step.IH assms(2)])
qed

section \<open>What an error says about the namespace\<close>

lemma effect_delete_fail:
  "effect_state_of (delete_fail bk p changed e) = Some (if changed then PartiallyApplied else Unchanged)"
  by (simp add: delete_fail_def directory_mutation_error_def Let_def effect_state_of_def)

lemma effect_fail_during_removal:
  "effect_state_of (fail_during_removal bk p changed e) =
     Some (if changed then PartiallyApplied else EffectIndeterminate)"
  by (simp add: fail_during_removal_def directory_mutation_error_def Let_def effect_state_of_def)

lemmas delete_effects = effect_delete_fail effect_fail_during_removal

text \<open>
  An iteration that tells the truth: an error states an effect, and it reports no effect only where
  \<open>Q\<close> still holds.
\<close>

definition honest :: "('w \<Rightarrow> bool) \<Rightarrow> (('p, 'b) delete_state, 'w) loop_step \<Rightarrow> bool" where
  "honest Q st =
     (case st of
        Continue s' w' \<Rightarrow> ds_changed s' \<or> Q w'
      | Return r w' \<Rightarrow>
          (case r of Err e \<Rightarrow> effect_state_of e \<in> {None, Some Unchanged} \<longrightarrow> Q w' | _ \<Rightarrow> True))"

lemma honest_simps [simp]:
  "honest Q (Continue s' w') \<longleftrightarrow> ds_changed s' \<or> Q w'"
  "honest Q (Return (Err e) w') \<longleftrightarrow> (effect_state_of e \<in> {None, Some Unchanged} \<longrightarrow> Q w')"
  "honest Q (Return (Ok u) w')" "honest Q (Return Panic w')"
  by (simp_all add: honest_def)

text \<open>
  The scheduler's view of a backend that only its two removal operations change: every other
  operation, and reading the clock, keeps a predicate \<open>Q\<close> of the world.
\<close>

locale delete_frame =
  fixes bk :: "('w, 'p, 'm, 'r) delete_backend" and Q :: "'w \<Rightarrow> bool"
  assumes metadata_frame: "Q w \<Longrightarrow> Q (snd (bk_metadata bk p w))"
    and open_directory_frame: "Q w \<Longrightarrow> Q (snd (bk_open_directory bk p w))"
    and next_child_frame: "Q w \<Longrightarrow> Q (snd (snd (bk_next_child bk p r w)))"
    and before_remove_frame: "Q w \<Longrightarrow> Q (snd (bk_before_remove bk p w))"
    and now_frame: "Q w \<Longrightarrow> Q (snd (bk_now bk w))"
begin

lemma frame_dests:
  "bk_metadata bk p w = (r1, w') \<Longrightarrow> Q w \<Longrightarrow> Q w'"
  "bk_open_directory bk p w = (r2, w') \<Longrightarrow> Q w \<Longrightarrow> Q w'"
  "bk_next_child bk p rd w = (r3, rd', w') \<Longrightarrow> Q w \<Longrightarrow> Q w'"
  "bk_before_remove bk p w = (r4, w') \<Longrightarrow> Q w \<Longrightarrow> Q w'"
  "bk_now bk w = (t, w') \<Longrightarrow> Q w \<Longrightarrow> Q w'"
  using metadata_frame [of w p] open_directory_frame [of w p] next_child_frame [of w p rd]
    before_remove_frame [of w p] now_frame [of w] by simp_all

lemma check_deadline_frame:
  "delete_check_deadline (bk_now bk) b w = (r, w') \<Longrightarrow> Q w \<Longrightarrow> Q w'"
  by (auto simp: delete_check_deadline_def split: option.splits prod.splits dest: frame_dests)

lemma discover_frame:
  "discover_and_reserve rb bk b d p w = (r, b', w') \<Longrightarrow> Q w \<Longrightarrow> Q w'"
  by (auto simp: discover_and_reserve_def delete_discover_def
      split: prod.splits result.splits option.splits if_splits dest: check_deadline_frame)

lemma read_children_frame:
  "read_children rb bk fuel p depth changed reader b children w = Some (r, w') \<Longrightarrow> Q w \<Longrightarrow> Q w'"
proof (induction fuel arbitrary: reader b children w)
  case (Suc fuel)
  from Suc.prems(1) show ?case
    by (auto split: prod.splits result.splits option.splits
        dest!: check_deadline_frame frame_dests(3) discover_frame intro: Suc.prems(2) Suc.IH)
qed simp

lemma read_children_effect:
  "read_children rb bk fuel p depth changed reader b children w = Some (Err e, w') \<Longrightarrow>
   effect_state_of e = Some (if changed then PartiallyApplied else Unchanged)"
proof (induction fuel arbitrary: reader b children w)
  case (Suc fuel)
  then show ?case
    by (auto simp: effect_delete_fail split: prod.splits result.splits option.splits)
qed simp

lemma inspect_directory_honest:
  assumes "inspect_directory rb bk fuel s p d w = Some st" and "ds_changed s \<or> Q w"
  shows "honest Q st"
proof (cases "ds_changed s")
  case True
  with assms(1) show ?thesis
    by (auto simp: inspect_directory_def effect_delete_fail
        split: prod.splits result.splits option.splits dest!: read_children_effect)
next
  case False
  with assms(2) have "Q w" by simp
  with False assms(1) show ?thesis
    by (auto simp: inspect_directory_def split: prod.splits result.splits option.splits
        dest!: check_deadline_frame frame_dests(2) read_children_frame)
qed

lemma remove_leaf_honest:
  assumes "ds_changed s \<or> Q w"
  shows "honest Q (remove_leaf bk s p m w)"
  using assms
  by (auto simp: remove_leaf_def delete_effects split: prod.split result.split
      dest!: check_deadline_frame frame_dests(4))

lemma remove_directory_honest:
  assumes "ds_changed s \<or> Q w"
  shows "honest Q (remove_directory bk s p w)"
  using assms
  by (auto simp: remove_directory_def delete_effects split: prod.split result.split
      dest!: frame_dests(4))

lemma inspect_entry_honest:
  assumes "inspect_entry rb bk fuel s p d w = Some st" and "ds_changed s \<or> Q w"
  shows "honest Q st"
proof (cases "bk_metadata bk p w")
  case (Pair r w1)
  then have w1: "ds_changed s \<or> Q w1"
    using assms(2) frame_dests(1) [OF Pair] by blast
  show ?thesis
  proof (cases r)
    case (Ok m)
    with Pair assms(1) w1 show ?thesis
      using inspect_directory_honest [of rb fuel s p d w1 st] remove_leaf_honest [of s w1 p m]
      by (auto simp: inspect_entry_def effect_delete_fail split: if_splits)
  next
    case (Err e)
    with Pair assms(1) have "st = Return (Err (delete_fail bk p (ds_changed s) e)) w1"
      by (simp add: inspect_entry_def)
    with w1 show ?thesis by (auto simp: effect_delete_fail)
  next
    case Panic
    with Pair assms(1) have "st = Return Panic w1"
      by (simp add: inspect_entry_def)
    then show ?thesis by simp
  qed
qed

lemma delete_step_honest:
  assumes "delete_step rb bk fuel s w = Some st" and "ds_changed s \<or> Q w"
  shows "honest Q st"
proof (cases "ds_work s")
  case Nil
  with assms(1) show ?thesis by (auto simp: delete_step_def)
next
  case (Cons x work)
  obtain item d where x: "x = (item, d)" by fastforce
  define s1 where "s1 = s\<lparr>ds_budget := release_path (ds_budget s) (bk_path bk (work_path item)),
    ds_work := work\<rparr>"
  obtain r w1 where chk: "delete_check_deadline (bk_now bk) (ds_budget s1) w = (r, w1)"
    by fastforce
  have w1: "ds_changed s1 \<or> Q w1"
    using check_deadline_frame [OF chk] assms(2) by (auto simp: s1_def)
  have step: "delete_step rb bk fuel s w =
      (case r of
         Err e \<Rightarrow> Some (Return (Err (delete_fail bk (work_path item) (ds_changed s1) e)) w1)
       | Panic \<Rightarrow> Some (Return Panic w1)
       | Ok _ \<Rightarrow>
           (case item of
              Inspect _ \<Rightarrow> inspect_entry rb bk fuel s1 (work_path item) d w1
            | RemoveDirectory _ \<Rightarrow> Some (remove_directory bk s1 (work_path item) w1)))"
    using chk unfolding s1_def by (simp add: delete_step_def Cons x Let_def)
  show ?thesis
  proof (cases r)
    case (Ok u)
    with step assms(1) w1 show ?thesis
      using inspect_entry_honest [of rb fuel s1 "work_path item" d w1 st]
        remove_directory_honest [of s1 w1 "work_path item"]
      by (cases item) auto
  next
    case (Err e)
    with step assms(1) w1 show ?thesis by (auto simp: effect_delete_fail)
  next
    case Panic
    with step assms(1) show ?thesis by auto
  qed
qed

lemma delete_loop_honest:
  "delete_loop rb bk cf fuel s w = Some (Err e, w') \<Longrightarrow> ds_changed s \<or> Q w \<Longrightarrow>
   effect_state_of e \<in> {None, Some Unchanged} \<Longrightarrow> Q w'"
proof (induction fuel arbitrary: s w)
  case (Suc fuel)
  from Suc.prems(1) consider "delete_step rb bk cf s w = Some (Return (Err e) w')"
    | s1 w1 where "delete_step rb bk cf s w = Some (Continue s1 w1)"
      "delete_loop rb bk cf fuel s1 w1 = Some (Err e, w')"
    by (auto split: option.splits loop_step.splits)
  then show ?case
  proof cases
    case 1
    with Suc.prems(2,3) show ?thesis using delete_step_honest [OF 1 Suc.prems(2)] by simp
  next
    case (2 s1 w1)
    from delete_step_honest [OF 2(1) Suc.prems(2)] have "ds_changed s1 \<or> Q w1" by simp
    with 2(2) show ?thesis using Suc.prems(3) by (rule Suc.IH)
  qed
qed simp

lemma remove_directory_tree_honest:
  assumes "remove_directory_tree rb bk cf fuel root opts started w = Some (Err e, w')" and "Q w"
    and "effect_state_of e \<in> {None, Some Unchanged}"
  shows "Q w'"
proof -
  obtain r b w1 where d: "discover_and_reserve rb bk (delete_budget_new rb opts started) 0 root w = (r, b, w1)"
    using prod_cases3 by blast
  with assms(2) have "Q w1" using discover_frame by blast
  with assms(1,3) d show ?thesis
    by (auto simp: remove_directory_tree_def split: result.splits dest: delete_loop_honest)
qed

end
end
