(* ===== verification/Host_Files.thy ===== *)
theory Host_Files
  imports Delete_Tree
begin

text \<open>
  A quiescent host file system as \<^verbatim>\<open>std::fs\<close> presents it, and the Host implementation of
  \<open>DeleteBackend\<close> from \<^verbatim>\<open>src/local/internal/host_local_file_system/delete.rs\<close> on top of it.
  The namespace is a tree of directories, files and symbolic links; an absolute path is its list of
  component names. Symbolic links are leaves: nothing here follows them.
\<close>

type_synonym name = "byte list"
type_synonym host_path = "name list"

datatype node = FileNode "byte list" | LinkNode "byte list" | DirNode "(name \<times> node) list"

fun lookup :: "node \<Rightarrow> host_path \<Rightarrow> node option" where
  "lookup n [] = Some n"
| "lookup (DirNode es) (x # xs) = (case map_of es x of None \<Rightarrow> None | Some n \<Rightarrow> lookup n xs)"
| "lookup _ (x # xs) = None"

fun remove_at :: "host_path \<Rightarrow> node \<Rightarrow> node" where
  "remove_at [x] (DirNode es) = DirNode (filter (\<lambda>e. fst e \<noteq> x) es)"
| "remove_at (x # y # ys) (DirNode es) =
     DirNode (map (\<lambda>e. (fst e, if fst e = x then remove_at (y # ys) (snd e) else snd e)) es)"
| "remove_at _ n = n"

record host_world =
  hw_root :: node
  hw_clock :: "nat \<Rightarrow> instant"
  hw_reads :: nat

definition host_now :: "host_world \<Rightarrow> instant \<times> host_world" where
  "host_now w = (hw_clock w (hw_reads w), w\<lparr>hw_reads := Suc (hw_reads w)\<rparr>)"

definition path_bytes :: "host_path \<Rightarrow> path" where
  "path_bytes p = concat (map (\<lambda>c. 47 # c) p)"

text \<open>
  Why a lookup fails: the name is missing in a directory (\<open>ENOENT\<close>), or a component in the middle is
  not a directory (\<open>ENOTDIR\<close>). Bound paths have no link in the middle, so a link there is not followed.
\<close>

fun lookup_failure :: "node \<Rightarrow> host_path \<Rightarrow> io_error_kind" where
  "lookup_failure (DirNode es) (x # xs) =
     (case map_of es x of None \<Rightarrow> IoNotFound | Some n \<Rightarrow> lookup_failure n xs)"
| "lookup_failure _ _ = IoNotADirectory"

definition symlink_metadata :: "host_path \<Rightarrow> host_world \<Rightarrow> (node, io_error) result \<times> host_world" where
  "symlink_metadata p w =
     (case lookup (hw_root w) p of
        None \<Rightarrow> (Err (io_error_of (lookup_failure (hw_root w) p)), w)
      | Some n \<Rightarrow> (Ok n, w))"

definition is_dir :: "node \<Rightarrow> bool" where
  "is_dir n = (case n of DirNode _ \<Rightarrow> True | _ \<Rightarrow> False)"

definition read_dir :: "host_path \<Rightarrow> host_world \<Rightarrow> (name list, io_error) result \<times> host_world" where
  "read_dir p w =
     (case lookup (hw_root w) p of
        None \<Rightarrow> (Err (io_error_of (lookup_failure (hw_root w) p)), w)
      | Some (DirNode es) \<Rightarrow> (Ok (map fst es), w)
      | Some _ \<Rightarrow> (Err (io_error_of IoNotADirectory), w))"

definition remove_file :: "host_path \<Rightarrow> host_world \<Rightarrow> (unit, io_error) result \<times> host_world" where
  "remove_file p w =
     (case lookup (hw_root w) p of
        None \<Rightarrow> (Err (io_error_of (lookup_failure (hw_root w) p)), w)
      | Some (DirNode _) \<Rightarrow> (Err (io_error_of IoIsADirectory), w)
      | Some _ \<Rightarrow> (Ok (), w\<lparr>hw_root := remove_at p (hw_root w)\<rparr>))"

definition remove_dir :: "host_path \<Rightarrow> host_world \<Rightarrow> (unit, io_error) result \<times> host_world" where
  "remove_dir p w =
     (case lookup (hw_root w) p of
        None \<Rightarrow> (Err (io_error_of (lookup_failure (hw_root w) p)), w)
      | Some (DirNode es) \<Rightarrow>
          if es = [] then (Ok (), w\<lparr>hw_root := remove_at p (hw_root w)\<rparr>)
          else (Err (io_error_of IoDirectoryNotEmpty), w)
      | Some _ \<Rightarrow> (Err (io_error_of IoNotADirectory), w))"

section \<open>The Host backend of the deletion scheduler\<close>

definition remove_host_non_directory ::
  "host_path \<Rightarrow> node \<Rightarrow> host_world \<Rightarrow> (unit, io_error) result \<times> host_world" where
  "remove_host_non_directory p metadata w = remove_file p w"

definition host_next_child ::
  "host_path \<Rightarrow> name list \<Rightarrow> host_world \<Rightarrow>
   (host_path option, io_error) result \<times> name list \<times> host_world" where
  "host_next_child parent reader w =
     (case reader of
        [] \<Rightarrow> (Ok None, [], w)
      | x # xs \<Rightarrow> (Ok (Some (parent @ [x])), xs, w))"

definition host_delete_backend :: "(host_world, host_path, node, name list) delete_backend" where
  "host_delete_backend =
     \<lparr>bk_path = path_bytes,
      bk_metadata = symlink_metadata,
      bk_is_directory = is_dir,
      bk_open_directory = read_dir,
      bk_next_child = host_next_child,
      bk_remove_non_directory = remove_host_non_directory,
      bk_remove_empty_directory = remove_dir,
      bk_before_remove = (\<lambda>p w. (Ok (), w)),
      bk_now = host_now\<rparr>"

lemma host_backend_simps [simp]:
  "bk_path host_delete_backend = path_bytes"
  "bk_metadata host_delete_backend = symlink_metadata"
  "bk_is_directory host_delete_backend = is_dir"
  "bk_open_directory host_delete_backend = read_dir"
  "bk_next_child host_delete_backend = host_next_child"
  "bk_remove_non_directory host_delete_backend = remove_host_non_directory"
  "bk_remove_empty_directory host_delete_backend = remove_dir"
  "bk_before_remove host_delete_backend p w = (Ok (), w)"
  "bk_now host_delete_backend = host_now"
  by (simp_all add: host_delete_backend_def)

interpretation host_frame: delete_frame host_delete_backend "\<lambda>w. hw_root w = root"
  by unfold_locales
    (auto simp: symlink_metadata_def read_dir_def host_next_child_def host_now_def
      split: option.split node.split list.split)

section \<open>The tree after a removal\<close>

lemma map_of_filter_other: "x \<noteq> y \<Longrightarrow> map_of (filter (\<lambda>e. fst e \<noteq> x) es) y = map_of es y"
  by (induction es) auto

lemma map_of_map_value:
  "map_of (map (\<lambda>e. (fst e, if fst e = x then f (snd e) else snd e)) es) y =
     (if y = x then map_option f (map_of es y) else map_of es y)"
  by (induction es) auto

lemma lookup_child: "lookup n p = Some (DirNode es) \<Longrightarrow> lookup n (p @ [x]) = map_of es x"
  by (induction n p rule: lookup.induct) (auto split: option.splits)

lemma lookup_remove_sibling:
  "x \<noteq> y \<Longrightarrow> lookup (remove_at (p @ [x]) n) (p @ [y]) = lookup n (p @ [y])"
proof (induction p arbitrary: n)
  case Nil
  then show ?case by (cases n) (simp_all add: map_of_filter_other)
next
  case (Cons z p)
  then show ?case
    by (cases n; cases p) (auto simp: map_of_map_value map_of_filter_other split: option.split)
qed

lemma lookup_remove_parent:
  "lookup n p = Some (DirNode es) \<Longrightarrow>
   lookup (remove_at (p @ [x]) n) p = Some (DirNode (filter (\<lambda>e. fst e \<noteq> x) es))"
proof (induction p arbitrary: n)
  case (Cons z p)
  then show ?case
    by (cases n; cases p) (auto simp: map_of_map_value split: option.splits)
qed simp

lemma remove_child_then_parent:
  "p \<noteq> [] \<Longrightarrow> remove_at p (remove_at (p @ [x]) n) = remove_at p n"
proof (induction p arbitrary: n)
  case (Cons z p)
  show ?case
  proof (cases p)
    case Nil
    then show ?thesis by (cases n) (auto simp: filter_map o_def intro: map_idI)
  next
    case (Cons y ys)
    with Cons.IH show ?thesis by (cases n) auto
  qed
qed simp

lemma lookup_removed: "p \<noteq> [] \<Longrightarrow> lookup (remove_at p n) p = None"
proof (induction p n rule: remove_at.induct)
  case (1 x es)
  have "map_of (filter (\<lambda>e. fst e \<noteq> x) es) x = None"
    by (induction es) auto
  then show ?case by simp
next
  case (2 x y ys es)
  then show ?case
    by (auto simp: map_of_map_value split: option.split dest: map_of_SomeD)
qed (auto simp: neq_Nil_conv)

text \<open>Paths that neither contain nor lie below the removed one are untouched.\<close>

lemma lookup_remove_unrelated:
  assumes "\<not> (\<exists>r. q = p @ r)" and "\<not> (\<exists>r. p = q @ r)"
  shows "lookup (remove_at p n) q = lookup n q"
  using assms
proof (induction p n arbitrary: q rule: remove_at.induct)
  case (1 x es)
  then show ?case by (cases q) (auto simp: map_of_filter_other split: option.split)
next
  case (2 x y ys es)
  show ?case
  proof (cases q)
    case Nil
    with "2.prems"(2) show ?thesis by simp
  next
    case (Cons z zs)
    show ?thesis
    proof (cases "z = x \<and> map_of es x \<noteq> None")
      case True
      then obtain m where m: "map_of es x = Some m" "z = x" by blast
      then have "(x, m) \<in> set es" by (simp add: map_of_SomeD)
      from "2.IH" [OF this, of zs] "2.prems" Cons m show ?thesis
        by (simp add: map_of_map_value)
    next
      case False
      with Cons show ?thesis by (auto simp: map_of_map_value split: option.split)
    qed
  qed
qed auto

section \<open>Deleting a whole tree\<close>

fun node_count :: "node \<Rightarrow> nat" where
  "node_count (DirNode es) = Suc (\<Sum>e\<leftarrow>es. node_count (snd e))"
| "node_count _ = 1"

text \<open>Iterations of the scheduler: one per leaf, two per directory.\<close>

fun delete_cost :: "node \<Rightarrow> nat" where
  "delete_cost (DirNode es) = Suc (Suc (\<Sum>e\<leftarrow>es. delete_cost (snd e)))"
| "delete_cost _ = 1"

fun tree_bytes :: "host_path \<Rightarrow> node \<Rightarrow> nat" where
  "tree_bytes p (DirNode es) = length (path_bytes p) + (\<Sum>e\<leftarrow>es. tree_bytes (p @ [fst e]) (snd e))"
| "tree_bytes p _ = length (path_bytes p)"

text \<open>The deepest entry is within the depth limit when the node itself lies at depth \<open>d\<close>.\<close>

fun depth_fits :: "delete_options \<Rightarrow> usize \<Rightarrow> node \<Rightarrow> bool" where
  "depth_fits opts d (DirNode es) =
     (depth_allowed opts d \<and> list_all (\<lambda>e. depth_fits opts (Suc d) (snd e)) es)"
| "depth_fits opts d _ = depth_allowed opts d"

fun fanout_below :: "nat \<Rightarrow> node \<Rightarrow> bool" where
  "fanout_below k (DirNode es) = (length es < k \<and> list_all (\<lambda>e. fanout_below k (snd e)) es)"
| "fanout_below k _ = True"

fun distinct_names :: "node \<Rightarrow> bool" where
  "distinct_names (DirNode es) =
     (distinct (map fst es) \<and> list_all (\<lambda>e. distinct_names (snd e)) es)"
| "distinct_names _ = True"

definition entries_ok :: "'b resource_budget \<Rightarrow> 'b delete_budget \<Rightarrow> nat \<Rightarrow> bool" where
  "entries_ok rb b k = (case db_entries b of None \<Rightarrow> True | Some e \<Rightarrow> k \<le> rb_remaining rb e)"

lemma charge_discovered_Ok:
  assumes "budget_laws rb" and "entries_ok rb b (Suc k)"
  obtains b' where "charge_discovered rb b = (Ok (), b')" "entries_ok rb b' k"
    "db_options b' = db_options b" "db_pending_bytes b' = db_pending_bytes b"
proof (cases "db_entries b")
  case None
  with assms(2) that [of b] show thesis
    by (simp add: charge_discovered_def entries_ok_def)
next
  case (Some e)
  obtain r e' where e': "rb_try_consume rb e 1 = (r, e')" by fastforce
  from Some assms(2) have "1 \<le> rb_remaining rb e" "Suc k \<le> rb_remaining rb e"
    by (simp_all add: entries_ok_def)
  with assms(1) e' have "r = Ok ()" "rb_remaining rb e' = rb_remaining rb e - 1"
    by (metis budget_laws_def fst_conv snd_conv)+
  with Some e' \<open>Suc k \<le> rb_remaining rb e\<close> that [of "b\<lparr>db_entries := Some e'\<rparr>"] show thesis
    by (simp add: charge_discovered_def entries_ok_def)
qed

lemma no_deadline:
  "do_deadline (db_options b) = None \<Longrightarrow> delete_check_deadline now b w = (Ok (), w)"
  by (simp add: delete_check_deadline_def)

lemma reserve_fits:
  assumes "db_pending_bytes b + length p \<le> pending_limit (db_options b)"
    and "pending_limit (db_options b) \<le> usize_max"
  shows "reserve_path b p = (Ok (), b\<lparr>db_pending_bytes := db_pending_bytes b + length p\<rparr>)"
  using assms by (simp add: reserve_path_def Let_def wrapping_add_eq)

lemma discover_Ok:
  assumes "budget_laws rb" and "entries_ok rb b (Suc k)" and "do_deadline (db_options b) = None"
    and "depth_allowed (db_options b) d"
    and "db_pending_bytes b + length (path_bytes p) \<le> pending_limit (db_options b)"
    and "pending_limit (db_options b) \<le> usize_max"
  obtains b' where "discover_and_reserve rb host_delete_backend b d p w = (Ok (), b', w)"
    "entries_ok rb b' k" "db_options b' = db_options b"
    "db_pending_bytes b' = db_pending_bytes b + length (path_bytes p)"
proof -
  obtain b1 where b1: "charge_discovered rb b = (Ok (), b1)" "entries_ok rb b1 k"
    "db_options b1 = db_options b" "db_pending_bytes b1 = db_pending_bytes b"
    using charge_discovered_Ok [OF assms(1,2)] by blast
  let ?b = "b1\<lparr>db_pending_bytes := db_pending_bytes b1 + length (path_bytes p)\<rparr>"
  have "delete_discover rb host_now b d w = (Ok (), b1, w)"
    using assms(3,4) b1
    by (auto simp: delete_discover_def no_deadline depth_allowed_def split: option.split)
  then have "discover_and_reserve rb host_delete_backend b d p w = (Ok (), ?b, w)"
    using b1 assms(5,6) by (simp add: discover_and_reserve_def reserve_fits)
  with b1 that [of ?b] show thesis
    by (simp add: entries_ok_def)
qed

lemma read_children_host:
  assumes "budget_laws rb" and "entries_ok rb b (length names + k)"
    and "do_deadline (db_options b) = None" and "depth_allowed (db_options b) (Suc d) \<or> names = []"
    and "db_pending_bytes b + (\<Sum>x\<leftarrow>names. length (path_bytes (p @ [x]))) \<le> pending_limit (db_options b)"
    and "pending_limit (db_options b) \<le> usize_max" and "length names < fuel"
  shows "\<exists>b'. read_children rb host_delete_backend fuel p d changed names b acc w =
      Some (Ok (acc @ map (\<lambda>x. (Inspect (p @ [x]), Suc d)) names, b'), w) \<and>
    entries_ok rb b' k \<and> db_options b' = db_options b \<and>
    db_pending_bytes b' = db_pending_bytes b + (\<Sum>x\<leftarrow>names. length (path_bytes (p @ [x])))"
  using assms(2-)
proof (induction names arbitrary: b acc fuel)
  case Nil
  then obtain f where "fuel = Suc f" by (cases fuel) auto
  with Nil show ?case by (simp add: no_deadline host_next_child_def)
next
  case (Cons x names)
  then obtain f where f: "fuel = Suc f" by (cases fuel) auto
  have "entries_ok rb b (Suc (length names + k))"
    using Cons.prems(1) by simp
  from discover_Ok [OF assms(1) this Cons.prems(2), of "Suc d" "p @ [x]"] Cons.prems
  obtain b1 where b1: "discover_and_reserve rb host_delete_backend b (Suc d) (p @ [x]) w = (Ok (), b1, w)"
    "entries_ok rb b1 (length names + k)" "db_options b1 = db_options b"
    "db_pending_bytes b1 = db_pending_bytes b + length (path_bytes (p @ [x]))"
    by auto
  have "\<exists>b'. read_children rb host_delete_backend f p d changed names b1
        (acc @ [(Inspect (p @ [x]), Suc d)]) w =
      Some (Ok ((acc @ [(Inspect (p @ [x]), Suc d)]) @ map (\<lambda>x. (Inspect (p @ [x]), Suc d)) names, b'), w) \<and>
    entries_ok rb b' k \<and> db_options b' = db_options b1 \<and>
    db_pending_bytes b' = db_pending_bytes b1 + (\<Sum>x\<leftarrow>names. length (path_bytes (p @ [x])))"
    using Cons.prems b1 f by (intro Cons.IH) auto
  with b1 f Cons.prems(2) show ?case
    by (auto simp: no_deadline host_next_child_def)
qed

text \<open>
  \<open>deletes rb cf n\<close>: wherever \<open>n\<close> lies, the scheduler turns the work item that inspects it into its
  removal, spending \<open>delete_cost n\<close> iterations and releasing all it reserved.
\<close>

definition deletes :: "'b resource_budget \<Rightarrow> nat \<Rightarrow> node \<Rightarrow> bool" where
  "deletes rb cf n \<longleftrightarrow>
     (\<forall>p d opts b changed w rest pend k fuel.
        p \<noteq> [] \<longrightarrow> lookup (hw_root w) p = Some n \<longrightarrow> (d = 0 \<longrightarrow> is_dir n) \<longrightarrow>
        db_options b = opts \<longrightarrow> do_deadline opts = None \<longrightarrow> pending_limit opts \<le> usize_max \<longrightarrow>
        db_pending_bytes b = length (path_bytes p) + pend \<longrightarrow>
        tree_bytes p n + pend \<le> pending_limit opts \<longrightarrow> entries_ok rb b (node_count n - 1 + k) \<longrightarrow>
        depth_fits opts d n \<longrightarrow> fanout_below cf n \<longrightarrow>
        (\<exists>b'. delete_loop rb host_delete_backend cf (delete_cost n + fuel)
                \<lparr>ds_changed = changed, ds_budget = b, ds_work = (Inspect p, d) # rest\<rparr> w =
              delete_loop rb host_delete_backend cf fuel
                \<lparr>ds_changed = True, ds_budget = b', ds_work = rest\<rparr>
                (w\<lparr>hw_root := remove_at p (hw_root w)\<rparr>) \<and>
              db_options b' = opts \<and> db_pending_bytes b' = pend \<and> entries_ok rb b' k))"

lemma tree_bytes_ge: "length (path_bytes p) \<le> tree_bytes p n"
  by (cases n) simp_all

lemma release_exact:
  assumes "db_pending_bytes b = length p + pend" and "db_pending_bytes b \<le> usize_max"
  shows "release_path b p = b\<lparr>db_pending_bytes := pend\<rparr>"
  using assms by (simp add: release_path_def wrapping_sub_eq)

lemma deletes_leaf:
  fixes rb :: "'b resource_budget"
  assumes "\<not> is_dir n"
  shows "deletes rb cf n"
  unfolding deletes_def
proof (intro allI impI)
  fix p d opts and b :: "'b delete_budget" and changed and w :: host_world and rest pend k fuel
  assume p: "p \<noteq> []" and n: "lookup (hw_root w) p = Some n" and d: "d = (0::nat) \<longrightarrow> is_dir n"
    and b: "db_options b = opts" "do_deadline opts = None" "pending_limit opts \<le> usize_max"
      "db_pending_bytes b = length (path_bytes p) + pend" "tree_bytes p n + pend \<le> pending_limit opts"
      "entries_ok rb b (node_count n - 1 + k)"
  have cost: "delete_cost n = 1" "node_count n - 1 = 0" "tree_bytes p n = length (path_bytes p)"
    using assms by (cases n; simp add: is_dir_def)+
  define b' where "b' = b\<lparr>db_pending_bytes := pend\<rparr>"
  have rel: "release_path b (path_bytes p) = b'"
    using b cost by (simp add: b'_def release_exact)
  have "db_options b' = opts" "db_pending_bytes b' = pend" "entries_ok rb b' k"
    using b cost by (simp_all add: b'_def entries_ok_def)
  moreover have "remove_file p w = (Ok (), w\<lparr>hw_root := remove_at p (hw_root w)\<rparr>)"
    using n assms by (cases n) (simp_all add: remove_file_def is_dir_def)
  then have "delete_step rb host_delete_backend cf
      \<lparr>ds_changed = changed, ds_budget = b, ds_work = (Inspect p, d) # rest\<rparr> w =
    Some (Continue \<lparr>ds_changed = True, ds_budget = b', ds_work = rest\<rparr>
      (w\<lparr>hw_root := remove_at p (hw_root w)\<rparr>))"
    using n d assms rel calculation(1) b(2)
    by (simp add: delete_step_def Let_def no_deadline inspect_entry_def symlink_metadata_def
        remove_leaf_def remove_host_non_directory_def)
  ultimately show "\<exists>b'. delete_loop rb host_delete_backend cf (delete_cost n + fuel)
      \<lparr>ds_changed = changed, ds_budget = b, ds_work = (Inspect p, d) # rest\<rparr> w =
    delete_loop rb host_delete_backend cf fuel \<lparr>ds_changed = True, ds_budget = b', ds_work = rest\<rparr>
      (w\<lparr>hw_root := remove_at p (hw_root w)\<rparr>) \<and>
    db_options b' = opts \<and> db_pending_bytes b' = pend \<and> entries_ok rb b' k"
    using cost by auto
qed

lemma deletesD:
  assumes "deletes rb cf n" and "p \<noteq> []" and "lookup (hw_root w) p = Some n" and "d = 0 \<longrightarrow> is_dir n"
    and "do_deadline (db_options b) = None" and "pending_limit (db_options b) \<le> usize_max"
    and "db_pending_bytes b = length (path_bytes p) + pend"
    and "tree_bytes p n + pend \<le> pending_limit (db_options b)"
    and "entries_ok rb b (node_count n - 1 + k)"
    and "depth_fits (db_options b) d n" and "fanout_below cf n"
  shows "\<exists>b'. delete_loop rb host_delete_backend cf (delete_cost n + fuel)
      \<lparr>ds_changed = changed, ds_budget = b, ds_work = (Inspect p, d) # rest\<rparr> w =
    delete_loop rb host_delete_backend cf fuel \<lparr>ds_changed = True, ds_budget = b', ds_work = rest\<rparr>
      (w\<lparr>hw_root := remove_at p (hw_root w)\<rparr>) \<and>
    db_options b' = db_options b \<and> db_pending_bytes b' = pend \<and> entries_ok rb b' k"
  by (rule assms(1) [unfolded deletes_def, rule_format, OF assms(2,3) _ refl assms(5-11)])
    (use assms(4) in simp)

definition clear_children :: "host_path \<Rightarrow> name list \<Rightarrow> node \<Rightarrow> node" where
  "clear_children p names root = fold (\<lambda>x. remove_at (p @ [x])) names root"

lemma clear_children_simps [simp]:
  "clear_children p [] root = root"
  "clear_children p (x # names) root = clear_children p names (remove_at (p @ [x]) root)"
  by (simp_all add: clear_children_def)

lemma lookup_clear_children:
  "lookup root p = Some (DirNode es) \<Longrightarrow>
   lookup (clear_children p names root) p = Some (DirNode (filter (\<lambda>e. fst e \<notin> set names) es))"
proof (induction names arbitrary: root es)
  case (Cons x names)
  from Cons.IH [OF lookup_remove_parent [OF Cons.prems, of x]] show ?case
    by simp
qed simp

lemma remove_after_clear_children:
  "p \<noteq> [] \<Longrightarrow> remove_at p (clear_children p names root) = remove_at p root"
  by (induction names arbitrary: root) (simp_all add: remove_child_then_parent)

lemma node_count_pos: "0 < node_count n"
  by (cases n) simp_all

text \<open>The children of one directory, in the order in which they were queued.\<close>

lemma deletes_children:
  assumes "\<And>e. e \<in> set es \<Longrightarrow> deletes rb cf (snd e)"
    and "distinct (map fst es)" and "\<And>e. e \<in> set es \<Longrightarrow> lookup (hw_root w) (p @ [fst e]) = Some (snd e)"
    and "do_deadline (db_options b) = None" and "pending_limit (db_options b) \<le> usize_max"
    and "db_pending_bytes b = (\<Sum>e\<leftarrow>es. length (path_bytes (p @ [fst e]))) + pend"
    and "(\<Sum>e\<leftarrow>es. tree_bytes (p @ [fst e]) (snd e)) + pend \<le> pending_limit (db_options b)"
    and "entries_ok rb b ((\<Sum>e\<leftarrow>es. node_count (snd e) - 1) + k)"
    and "\<And>e. e \<in> set es \<Longrightarrow> depth_fits (db_options b) (Suc d) (snd e)"
    and "\<And>e. e \<in> set es \<Longrightarrow> fanout_below cf (snd e)"
  shows "\<exists>b' changed'. delete_loop rb host_delete_backend cf ((\<Sum>e\<leftarrow>es. delete_cost (snd e)) + fuel)
      \<lparr>ds_changed = changed, ds_budget = b,
       ds_work = map (\<lambda>e. (Inspect (p @ [fst e]), Suc d)) es @ rest\<rparr> w =
    delete_loop rb host_delete_backend cf fuel
      \<lparr>ds_changed = changed', ds_budget = b', ds_work = rest\<rparr>
      (w\<lparr>hw_root := clear_children p (map fst es) (hw_root w)\<rparr>) \<and>
    db_options b' = db_options b \<and> db_pending_bytes b' = pend \<and> entries_ok rb b' k"
  using assms
proof (induction es arbitrary: b w changed)
  case Nil
  then show ?case by auto
next
  case (Cons e es)
  let ?pend = "(\<Sum>e\<leftarrow>es. length (path_bytes (p @ [fst e]))) + pend"
  let ?w = "w\<lparr>hw_root := remove_at (p @ [fst e]) (hw_root w)\<rparr>"
  have le: "(\<Sum>e\<leftarrow>es. length (path_bytes (p @ [fst e]))) \<le> (\<Sum>e\<leftarrow>es. tree_bytes (p @ [fst e]) (snd e))"
    by (intro sum_list_mono) (rule tree_bytes_ge)
  have "tree_bytes (p @ [fst e]) (snd e) + ?pend \<le> pending_limit (db_options b)"
    using Cons.prems(7) le by simp
  moreover have "entries_ok rb b (node_count (snd e) - 1 + ((\<Sum>e\<leftarrow>es. node_count (snd e) - 1) + k))"
    using Cons.prems(8) by (simp add: add.assoc)
  ultimately obtain b1 where
    b1: "delete_loop rb host_delete_backend cf
        (delete_cost (snd e) + ((\<Sum>e\<leftarrow>es. delete_cost (snd e)) + fuel))
        \<lparr>ds_changed = changed, ds_budget = b,
         ds_work = (Inspect (p @ [fst e]), Suc d) # map (\<lambda>e. (Inspect (p @ [fst e]), Suc d)) es @ rest\<rparr> w =
      delete_loop rb host_delete_backend cf ((\<Sum>e\<leftarrow>es. delete_cost (snd e)) + fuel)
        \<lparr>ds_changed = True, ds_budget = b1, ds_work = map (\<lambda>e. (Inspect (p @ [fst e]), Suc d)) es @ rest\<rparr> ?w"
    "db_options b1 = db_options b" "db_pending_bytes b1 = ?pend"
    "entries_ok rb b1 ((\<Sum>e\<leftarrow>es. node_count (snd e) - 1) + k)"
    using deletesD [of rb cf "snd e" "p @ [fst e]" w "Suc d" b ?pend
        "(\<Sum>e\<leftarrow>es. node_count (snd e) - 1) + k" "(\<Sum>e\<leftarrow>es. delete_cost (snd e)) + fuel" changed
        "map (\<lambda>e. (Inspect (p @ [fst e]), Suc d)) es @ rest"]
      Cons.prems(1,3,9,10) [of e] Cons.prems(4-6) by auto
  have "\<exists>b' changed'. delete_loop rb host_delete_backend cf ((\<Sum>e\<leftarrow>es. delete_cost (snd e)) + fuel)
      \<lparr>ds_changed = True, ds_budget = b1,
       ds_work = map (\<lambda>e. (Inspect (p @ [fst e]), Suc d)) es @ rest\<rparr> ?w =
    delete_loop rb host_delete_backend cf fuel
      \<lparr>ds_changed = changed', ds_budget = b', ds_work = rest\<rparr>
      (?w\<lparr>hw_root := clear_children p (map fst es) (hw_root ?w)\<rparr>) \<and>
    db_options b' = db_options b1 \<and> db_pending_bytes b' = pend \<and> entries_ok rb b' k"
  proof (rule Cons.IH)
    fix e' assume e': "e' \<in> set es"
    with Cons.prems(2) have "fst e \<noteq> fst e'" by auto
    with Cons.prems(3) [of e'] e' show "lookup (hw_root ?w) (p @ [fst e']) = Some (snd e')"
      by (simp add: lookup_remove_sibling)
  next
    show "(\<Sum>e\<leftarrow>es. tree_bytes (p @ [fst e]) (snd e)) + pend \<le> pending_limit (db_options b1)"
      using Cons.prems(7) b1(2) by simp
  qed (use Cons.prems b1 in simp_all)
  with b1 show ?case by (simp add: add.assoc)
qed

lemma deletes_dir:
  fixes rb :: "'b resource_budget"
  assumes laws: "budget_laws rb" and names: "distinct (map fst es)"
    and children: "\<And>e. e \<in> set es \<Longrightarrow> deletes rb cf (snd e)"
  shows "deletes rb cf (DirNode es)"
  unfolding deletes_def
proof (intro allI impI)
  fix p d opts and b :: "'b delete_budget" and changed and w :: host_world and rest pend k fuel
  assume p: "p \<noteq> []" and n: "lookup (hw_root w) p = Some (DirNode es)"
    and b: "db_options b = opts" "do_deadline opts = None" "pending_limit opts \<le> usize_max"
      "db_pending_bytes b = length (path_bytes p) + pend"
      "tree_bytes p (DirNode es) + pend \<le> pending_limit opts"
      "entries_ok rb b (node_count (DirNode es) - 1 + k)"
    and fits: "depth_fits opts d (DirNode es)" "fanout_below cf (DirNode es)"
  let ?sum = "\<Sum>e\<leftarrow>es. length (path_bytes (p @ [fst e]))"
  let ?own = "length (path_bytes p)"
  have le: "?sum \<le> (\<Sum>e\<leftarrow>es. tree_bytes (p @ [fst e]) (snd e))"
    by (intro sum_list_mono) (rule tree_bytes_ge)
  have count: "(\<Sum>e\<leftarrow>es. node_count (snd e)) = length es + (\<Sum>e\<leftarrow>es. node_count (snd e) - 1)"
    by (induction es) (auto simp: node_count_pos Suc_leI)
  have names_sum: "(\<Sum>x\<leftarrow>map fst es. length (path_bytes (p @ [x]))) = ?sum"
    by (simp add: o_def)
  have rel: "release_path b (path_bytes p) = b\<lparr>db_pending_bytes := pend\<rparr>"
    using b by (simp add: release_exact)
  let ?b = "b\<lparr>db_pending_bytes := pend + ?own\<rparr>"
  have res: "reserve_path (b\<lparr>db_pending_bytes := pend\<rparr>) (path_bytes p) = (Ok (), ?b)"
    using b by (simp add: reserve_fits)
  have deep: "depth_allowed opts (Suc d) \<or> map fst es = []"
  proof (cases es)
    case (Cons e es')
    with fits(1) show ?thesis by (cases "snd e") auto
  qed simp
  obtain b1 where b1: "read_children rb host_delete_backend cf p d changed (map fst es) ?b [] w =
      Some (Ok (map (\<lambda>e. (Inspect (p @ [fst e]), Suc d)) es, b1), w)"
    "entries_ok rb b1 ((\<Sum>e\<leftarrow>es. node_count (snd e) - 1) + k)" "db_options b1 = opts"
    "db_pending_bytes b1 = pend + ?own + ?sum"
    using read_children_host [OF laws, of ?b "map fst es" "(\<Sum>e\<leftarrow>es. node_count (snd e) - 1) + k" d p
        cf changed "[]" w] b fits(2) deep le count
    by (auto simp: entries_ok_def add.assoc o_def)
  let ?rest = "(RemoveDirectory p, d) # rest"
  have step1: "delete_step rb host_delete_backend cf
      \<lparr>ds_changed = changed, ds_budget = b, ds_work = (Inspect p, d) # rest\<rparr> w =
    Some (Continue \<lparr>ds_changed = changed, ds_budget = b1,
      ds_work = map (\<lambda>e. (Inspect (p @ [fst e]), Suc d)) es @ ?rest\<rparr> w)"
    using n b rel res b1(1)
    by (simp add: delete_step_def Let_def no_deadline inspect_entry_def symlink_metadata_def
        is_dir_def inspect_directory_def read_dir_def)
  let ?cost = "\<Sum>e\<leftarrow>es. delete_cost (snd e)"
  let ?w = "w\<lparr>hw_root := clear_children p (map fst es) (hw_root w)\<rparr>"
  have look: "lookup (hw_root w) (p @ [fst e]) = Some (snd e)" if "e \<in> set es" for e
    using lookup_child [OF n] names that by (simp add: map_of_eq_Some_iff)
  obtain b2 changed2 where
    loop: "delete_loop rb host_delete_backend cf (?cost + Suc fuel)
        \<lparr>ds_changed = changed, ds_budget = b1,
         ds_work = map (\<lambda>e. (Inspect (p @ [fst e]), Suc d)) es @ ?rest\<rparr> w =
      delete_loop rb host_delete_backend cf (Suc fuel)
        \<lparr>ds_changed = changed2, ds_budget = b2, ds_work = ?rest\<rparr> ?w"
    and b2: "db_options b2 = opts" "db_pending_bytes b2 = ?own + pend" "entries_ok rb b2 k"
    using deletes_children [of es rb cf w p b1 "?own + pend" k d "Suc fuel" changed ?rest]
      children names look b b1 fits by (auto simp: list_all_iff add.commute add.left_commute)
  define b3 where "b3 = b2\<lparr>db_pending_bytes := pend\<rparr>"
  have "release_path b2 (path_bytes p) = b3"
    unfolding b3_def using b b2 by (intro release_exact) auto
  moreover have "remove_dir p ?w = (Ok (), w\<lparr>hw_root := remove_at p (hw_root w)\<rparr>)"
    using lookup_clear_children [OF n, of "map fst es"] p
    by (simp add: remove_dir_def remove_after_clear_children filter_False)
  ultimately have step2: "delete_step rb host_delete_backend cf
      \<lparr>ds_changed = changed2, ds_budget = b2, ds_work = ?rest\<rparr> ?w =
    Some (Continue \<lparr>ds_changed = True, ds_budget = b3, ds_work = rest\<rparr>
      (w\<lparr>hw_root := remove_at p (hw_root w)\<rparr>))"
    using b2 b(2)
    by (simp add: delete_step_def Let_def no_deadline remove_directory_def b3_def)
  show "\<exists>b'. delete_loop rb host_delete_backend cf (delete_cost (DirNode es) + fuel)
      \<lparr>ds_changed = changed, ds_budget = b, ds_work = (Inspect p, d) # rest\<rparr> w =
    delete_loop rb host_delete_backend cf fuel \<lparr>ds_changed = True, ds_budget = b', ds_work = rest\<rparr>
      (w\<lparr>hw_root := remove_at p (hw_root w)\<rparr>) \<and>
    db_options b' = opts \<and> db_pending_bytes b' = pend \<and> entries_ok rb b' k"
    using step1 step2 loop b2
    by (intro exI [of _ b3]) (simp add: b3_def entries_ok_def)
qed

lemma deletes_node: "budget_laws rb \<Longrightarrow> distinct_names n \<Longrightarrow> deletes rb cf n"
proof (induction n)
  case (DirNode es)
  have "deletes rb cf (snd e)" if "e \<in> set es" for e
    using DirNode.IH [of e "snd e"] DirNode.prems that by (auto simp: list_all_iff snds.simps)
  with DirNode.prems show ?case by (intro deletes_dir) auto
qed (simp_all add: deletes_leaf is_dir_def)

lemma host_remove_directory_tree:
  assumes laws: "budget_laws rb" and p: "p \<noteq> []" and n: "lookup (hw_root w) p = Some n" "is_dir n"
    and names: "distinct_names n" and deadline: "do_deadline opts = None"
    and pending: "tree_bytes p n \<le> pending_limit opts" "pending_limit opts \<le> usize_max"
    and entries: "\<And>m. do_max_entries opts = Some m \<Longrightarrow> node_count n \<le> m"
    and depth: "depth_fits opts 0 n" and fuel: "fanout_below cf n" "delete_cost n < fuel"
  shows "remove_directory_tree rb host_delete_backend cf fuel p opts started w =
    Some (Ok (), w\<lparr>hw_root := remove_at p (hw_root w)\<rparr>)"
proof -
  let ?b = "delete_budget_new rb opts started"
  have "entries_ok rb ?b (node_count n)"
    using entries laws
    by (auto simp: entries_ok_def delete_budget_new_def budget_laws_def split: option.split)
  then have ok: "entries_ok rb ?b (Suc (node_count n - 1))"
    using node_count_pos [of n] by simp
  have "depth_allowed opts 0"
    using depth by (cases n) simp_all
  then obtain b where disc: "discover_and_reserve rb host_delete_backend ?b 0 p w = (Ok (), b, w)"
    and b: "entries_ok rb b (node_count n - 1 + 0)" "db_options b = opts"
      "db_pending_bytes b = length (path_bytes p) + 0"
    using discover_Ok [OF laws ok, of 0 p w] deadline pending tree_bytes_ge [of p n]
    by (auto simp: delete_budget_new_def)
  obtain k where k: "fuel = delete_cost n + Suc k"
    using fuel(2) by (metis less_imp_Suc_add add_Suc_right)
  have "tree_bytes p n + 0 \<le> pending_limit (db_options b)"
    using pending b by simp
  from deletesD [OF deletes_node [OF laws names] p n(1) _ _ _ b(3) this b(1), of 0 cf "Suc k" False "[]"]
  obtain b' where "delete_loop rb host_delete_backend cf fuel
      \<lparr>ds_changed = False, ds_budget = b, ds_work = [(Inspect p, 0)]\<rparr> w =
    delete_loop rb host_delete_backend cf (Suc k)
      \<lparr>ds_changed = True, ds_budget = b', ds_work = []\<rparr> (w\<lparr>hw_root := remove_at p (hw_root w)\<rparr>)"
    using b deadline pending depth fuel n(2) k by auto
  then show ?thesis
    by (simp add: remove_directory_tree_def disc delete_step_def)
qed

section \<open>Properties\<close>

text \<open>A budget of the external crate as a plain counter, for concrete runs.\<close>

definition counter_budget :: "(resource_kind \<times> nat \<times> nat) resource_budget" where
  "counter_budget =
     \<lparr>rb_new = (\<lambda>k n. (k, n, n)),
      rb_try_consume = (\<lambda>(k, lim, rem) n.
        if n \<le> rem then (Ok (), (k, lim, rem - n))
        else (Err \<lparr>ib_resource = k, ib_limit = lim, ib_remaining = rem, ib_requested = n\<rparr>, (k, lim, rem))),
      rb_resource = fst, rb_limit = fst \<circ> snd, rb_remaining = snd \<circ> snd\<rparr>"

lemma counter_budget_laws: "budget_laws counter_budget"
  by (auto simp: budget_laws_def counter_budget_def)

text \<open>A directory \<open>d\<close> with a file and a link, beside a file \<open>k\<close>.\<close>

definition sample_world :: host_world where
  "sample_world =
     \<lparr>hw_root = DirNode [([100], DirNode [([97], FileNode [1]), ([98], LinkNode [47, 107])]),
                        ([107], FileNode [2])],
      hw_clock = id, hw_reads = 0\<rparr>"

text \<open>
  C4: recursive deletion on the Host removes exactly the requested tree. When the tree lies within
  the configured depth, entry and pending-path limits and no deadline is set, the scheduler
  terminates with success, the directory is gone, and every path that neither contains it nor lies
  below it is what it was; links are removed, never followed.
\<close>

theorem host_delete_removes_exactly_tree:
  assumes "budget_laws rb" and "p \<noteq> []" and "lookup (hw_root w) p = Some n" and "is_dir n"
    and "distinct_names n" and "do_deadline opts = None"
    and "tree_bytes p n \<le> pending_limit opts" and "pending_limit opts \<le> usize_max"
    and "\<And>m. do_max_entries opts = Some m \<Longrightarrow> node_count n \<le> m"
    and "depth_fits opts 0 n" and "fanout_below cf n" and "delete_cost n < fuel"
  shows "\<exists>w'. remove_directory_tree rb host_delete_backend cf fuel p opts started w = Some (Ok (), w') \<and>
    lookup (hw_root w') p = None \<and>
    (\<forall>q. \<not> (\<exists>r. q = p @ r) \<longrightarrow> \<not> (\<exists>r. p = q @ r) \<longrightarrow> lookup (hw_root w') q = lookup (hw_root w) q)"
  using host_remove_directory_tree [OF assms, of started]
  by (auto simp: lookup_removed [OF assms(2)] lookup_remove_unrelated)

theorem host_delete_removes_exactly_tree_witness:
  "\<exists>w'. remove_directory_tree counter_budget host_delete_backend 3 5 [[100]]
      (delete_options_new\<lparr>do_recursive := True, do_max_depth := Some 1, do_max_entries := Some 3\<rparr>) 0
      sample_world = Some (Ok (), w') \<and>
    lookup (hw_root w') [[100]] = None \<and>
    (\<forall>q. \<not> (\<exists>r. q = [[100]] @ r) \<longrightarrow> \<not> (\<exists>r. [[100]] = q @ r) \<longrightarrow>
      lookup (hw_root w') q = lookup (hw_root sample_world) q)"
  by (rule host_delete_removes_exactly_tree
      [where n = "DirNode [([97], FileNode [1]), ([98], LinkNode [47, 107])]"])
    (simp_all add: counter_budget_laws sample_world_def is_dir_def delete_options_new_def
      pending_limit_def usize_max_def path_bytes_def depth_allowed_def)

text \<open>
  C5: an error that recursive deletion reports as \<open>Unchanged\<close> leaves the Host namespace exactly as
  it was, whichever limit, deadline or native call failed.
\<close>

theorem host_delete_unchanged_is_true:
  assumes "remove_directory_tree rb host_delete_backend cf fuel p opts started w = Some (Err e, w')"
    and "effect_state_of e = Some Unchanged"
  shows "hw_root w' = hw_root w"
  using host_frame.remove_directory_tree_honest [OF assms(1) refl] assms(2) by simp

theorem host_delete_unchanged_is_true_witness:
  "\<exists>e w'. remove_directory_tree counter_budget host_delete_backend 3 5 [[107]] delete_options_new 0
      sample_world = Some (Err e, w') \<and> effect_state_of e = Some Unchanged \<and>
    hw_root w' = hw_root sample_world"
proof -
  let ?b = "delete_budget_new counter_budget delete_options_new 0"
  obtain b where disc: "discover_and_reserve counter_budget host_delete_backend ?b 0 [[107]] sample_world =
      (Ok (), b, sample_world)" and b: "db_options b = delete_options_new"
    using discover_Ok [OF counter_budget_laws, of ?b 0 0 "[[107]]" sample_world]
    by (auto simp: entries_ok_def delete_budget_new_def delete_options_new_def depth_allowed_def
        pending_limit_def usize_max_def path_bytes_def)
  have step: "delete_step counter_budget host_delete_backend 3
      \<lparr>ds_changed = False, ds_budget = b, ds_work = [(Inspect [[107]], 0)]\<rparr> sample_world =
    Some (Return (Err (delete_fail host_delete_backend [[107]] False (io_error_of IoNotADirectory)))
      sample_world)"
    by (simp add: delete_step_def inspect_entry_def Let_def delete_check_deadline_def b
        release_path_def delete_options_new_def symlink_metadata_def sample_world_def is_dir_def)
  have "remove_directory_tree counter_budget host_delete_backend 3 (Suc 4) [[107]] delete_options_new 0
      sample_world = Some (Err (delete_fail host_delete_backend [[107]] False
        (io_error_of IoNotADirectory)), sample_world)"
    by (simp only: remove_directory_tree_def disc delete_loop.simps step prod.case result.case
        option.case loop_step.case)
  then have r: "remove_directory_tree counter_budget host_delete_backend 3 5 [[107]] delete_options_new 0
      sample_world = Some (Err (delete_fail host_delete_backend [[107]] False
        (io_error_of IoNotADirectory)), sample_world)"
    by simp
  moreover have "effect_state_of (delete_fail host_delete_backend [[107]] False
      (io_error_of IoNotADirectory)) = Some Unchanged"
    by (simp add: effect_delete_fail)
  ultimately show ?thesis
    using host_delete_unchanged_is_true by blast
qed

text \<open>
  C6: in every state the deletion scheduler reaches, over any backend, the counter of pending path
  bytes is exactly the sum of the queued paths' lengths, within the configured limit, and no queued
  entry is deeper than the depth limit. So reserving never wraps and releasing never underflows.
\<close>

theorem delete_pending_bytes_exact:
  assumes "delete_reachable rb bk opts started root w0 s w" and "pending_limit opts \<le> usize_max"
  shows "db_pending_bytes (ds_budget s) =
      (\<Sum>x\<leftarrow>ds_work s. length (bk_path bk (work_path (fst x)))) \<and>
    db_pending_bytes (ds_budget s) \<le> pending_limit opts \<and>
    (\<forall>x \<in> set (ds_work s). depth_allowed opts (snd x))"
  using delete_reachable_accounted [OF assms] by (auto simp: accounted_def pending_sum_def)

theorem delete_pending_bytes_exact_witness:
  "\<exists>s. delete_reachable counter_budget host_delete_backend delete_options_new 0 [[100]] sample_world s
      sample_world \<and> ds_work s \<noteq> [] \<and>
    db_pending_bytes (ds_budget s) =
      (\<Sum>x\<leftarrow>ds_work s. length (bk_path host_delete_backend (work_path (fst x))))"
proof -
  obtain b where "discover_and_reserve counter_budget host_delete_backend
      (delete_budget_new counter_budget delete_options_new 0) 0 [[100]] sample_world =
      (Ok (), b, sample_world)"
    using discover_Ok [OF counter_budget_laws, of "delete_budget_new counter_budget delete_options_new 0"
        0 0 "[[100]]" sample_world]
    by (auto simp: entries_ok_def delete_budget_new_def delete_options_new_def depth_allowed_def
        pending_limit_def usize_max_def path_bytes_def)
  note r = delete_reachable.start [OF this]
  have "pending_limit delete_options_new \<le> usize_max"
    by (simp add: pending_limit_def delete_options_new_def)
  from r delete_pending_bytes_exact [OF r this] show ?thesis
    by (intro exI [of _ "\<lparr>ds_changed = False, ds_budget = b, ds_work = [(Inspect [[100]], 0)]\<rparr>"]) simp
qed

end
