(* ===== verification/Host_Delete.thy ===== *)
theory Host_Delete
  imports Host_Files
begin

text \<open>
  The Host delete operations of \<^verbatim>\<open>src/local/internal/host_local_file_system/delete.rs\<close>, from the
  point where the path has been bound by \<open>resolve_host_path\<close>, and their effect on the namespace: an
  outcome says whether an entry was removed, and no run, successful or not, changes anything outside
  the requested tree.
\<close>

definition metadata_for_delete ::
  "host_path \<Rightarrow> delete_options \<Rightarrow> file_operation \<Rightarrow> host_world \<Rightarrow>
   (node option, file_error) result \<times> host_world" where
  "metadata_for_delete p opts operation w =
     (case symlink_metadata p w of
        (Ok metadata, w1) \<Rightarrow> (Ok (Some metadata), w1)
      | (Err e, w1) \<Rightarrow>
          if ioe_kind e = IoNotFound \<and> do_missing_ok opts then (Ok None, w1)
          else (Err (from_io operation (Some (path_bytes p)) None e), w1)
      | (Panic, w1) \<Rightarrow> (Panic, w1))"

text \<open>The common end of both operations: what the native removal's result means.\<close>

definition delete_outcome ::
  "file_operation \<Rightarrow> delete_options \<Rightarrow> host_path \<Rightarrow> (unit, io_error) result \<Rightarrow> (bool, file_error) result" where
  "delete_outcome operation opts bound r =
     (case r of
        Ok _ \<Rightarrow> Ok True
      | Err source \<Rightarrow>
          if do_missing_ok opts \<and> ioe_kind source = IoNotFound then Ok False
          else Err (from_io operation (Some (path_bytes bound)) None source)
      | Panic \<Rightarrow> Panic)"

definition delete_file_with_policy ::
  "host_path \<Rightarrow> delete_options \<Rightarrow> host_world \<Rightarrow> (bool, file_error) result \<times> host_world" where
  "delete_file_with_policy bound opts w =
     (case metadata_for_delete bound opts OpDeleteFile w of
        (Err e, w1) \<Rightarrow> (Err e, w1)
      | (Panic, w1) \<Rightarrow> (Panic, w1)
      | (Ok None, w1) \<Rightarrow> (Ok False, w1)
      | (Ok (Some metadata), w1) \<Rightarrow>
          if is_dir metadata then
            (Err (with_path (path_bytes bound) (error_new KIsDirectory OpDeleteFile)), w1)
          else
            (case remove_host_non_directory bound metadata w1 of
               (r, w2) \<Rightarrow> (delete_outcome OpDeleteFile opts bound r, w2)))"

definition accepted_as_missing :: "delete_options \<Rightarrow> host_path \<Rightarrow> file_error \<Rightarrow> bool" where
  "accepted_as_missing opts bound e \<longleftrightarrow>
     do_missing_ok opts \<and> effect_state_of e \<in> {None, Some Unchanged} \<and>
     cause_kind e = Some KNotFound \<and> fe_path e = Some (path_bytes bound)"

definition delete_directory_with_policy ::
  "'b resource_budget \<Rightarrow> nat \<Rightarrow> nat \<Rightarrow> host_path \<Rightarrow> delete_options \<Rightarrow> instant \<Rightarrow> host_world \<Rightarrow>
   ((bool, file_error) result \<times> host_world) option" where
  "delete_directory_with_policy rb cf fuel bound opts started_at w =
     (case metadata_for_delete bound opts OpDeleteDirectory w of
        (Err e, w1) \<Rightarrow> Some (Err e, w1)
      | (Panic, w1) \<Rightarrow> Some (Panic, w1)
      | (Ok None, w1) \<Rightarrow> Some (Ok False, w1)
      | (Ok (Some metadata), w1) \<Rightarrow>
          if \<not> is_dir metadata then
            Some (Err (with_path (path_bytes bound) (error_new KNotDirectory OpDeleteDirectory)), w1)
          else if do_recursive opts then
            (case remove_directory_tree rb host_delete_backend cf fuel bound opts started_at w1 of
               None \<Rightarrow> None
             | Some (Ok _, w2) \<Rightarrow> Some (Ok True, w2)
             | Some (Err e, w2) \<Rightarrow>
                 Some (if accepted_as_missing opts bound e then Ok False else Err e, w2)
             | Some (Panic, w2) \<Rightarrow> Some (Panic, w2))
          else
            (case remove_dir bound w1 of
               (r, w2) \<Rightarrow> Some (delete_outcome OpDeleteDirectory opts bound r, w2)))"

section \<open>Confinement of the scheduler\<close>

definition keeps_outside :: "host_path \<Rightarrow> host_world \<Rightarrow> host_world \<Rightarrow> bool" where
  "keeps_outside p w w' \<longleftrightarrow>
     (\<forall>q. \<not> (\<exists>r. q = p @ r) \<longrightarrow> \<not> (\<exists>r. p = q @ r) \<longrightarrow> lookup (hw_root w') q = lookup (hw_root w) q)"

lemma keeps_outside_refl [simp]: "hw_root w' = hw_root w \<Longrightarrow> keeps_outside p w w'"
  by (simp add: keeps_outside_def)

lemma keeps_outside_trans: "keeps_outside p w w1 \<Longrightarrow> keeps_outside p w1 w2 \<Longrightarrow> keeps_outside p w w2"
  by (simp add: keeps_outside_def)

lemma keeps_outside_remove: "keeps_outside p w (w\<lparr>hw_root := remove_at (p @ r) (hw_root w)\<rparr>)"
  unfolding keeps_outside_def
proof (intro allI impI)
  fix q
  assume q: "\<not> (\<exists>r. q = p @ r)" "\<not> (\<exists>r. p = q @ r)"
  have "\<not> (\<exists>s. q = (p @ r) @ s)" using q(1) by auto
  moreover have "\<not> (\<exists>s. p @ r = q @ s)" using q by (auto simp: append_eq_append_conv2)
  ultimately show "lookup (hw_root (w\<lparr>hw_root := remove_at (p @ r) (hw_root w)\<rparr>)) q = lookup (hw_root w) q"
    by (simp add: lookup_remove_unrelated)
qed

text \<open>
  The invariant of the work stack on the Host: every item lies in the requested tree, and the bottom
  of the stack is the requested directory itself until it has been removed.
\<close>

definition removal_last :: "host_path \<Rightarrow> (host_path delete_work \<times> usize) list \<Rightarrow> bool" where
  "removal_last p work \<longleftrightarrow> (\<exists>xs. work = xs @ [(RemoveDirectory p, 0)])"

definition bottom_ok :: "host_path \<Rightarrow> (host_path delete_work \<times> usize) list \<Rightarrow> bool" where
  "bottom_ok p work \<longleftrightarrow> work = [(Inspect p, 0)] \<or> removal_last p work"

definition confined ::
  "host_path \<Rightarrow> host_world \<Rightarrow> (host_path, 'b) delete_state \<Rightarrow> host_world \<Rightarrow> bool" where
  "confined p w0 s w \<longleftrightarrow>
     keeps_outside p w0 w \<and> (\<forall>x \<in> set (ds_work s). \<exists>r. work_path (fst x) = p @ r) \<and>
     (if ds_work s = [] then lookup (hw_root w) p = None else bottom_ok p (ds_work s))"

definition step_confined ::
  "host_path \<Rightarrow> host_world \<Rightarrow> ((host_path, 'b) delete_state, host_world) loop_step \<Rightarrow> bool" where
  "step_confined p w0 st \<longleftrightarrow>
     (case st of
        Continue s w \<Rightarrow> confined p w0 s w
      | Return r w \<Rightarrow> keeps_outside p w0 w \<and> (is_Ok r \<longrightarrow> lookup (hw_root w) p = None))"

lemma read_children_below:
  "read_children rb host_delete_backend fuel p d changed reader b children w = Some (Ok (cs, b'), w') \<Longrightarrow>
   \<exists>names. cs = children @ map (\<lambda>n. (Inspect (p @ [n]), d + 1)) names"
proof (induction fuel arbitrary: reader b children w)
  case (Suc fuel)
  from Suc.prems show ?case
    by (auto simp: host_next_child_def split: prod.splits result.splits option.splits list.splits
        dest!: Suc.IH intro: exI [of _ "_ # _"] exI [of _ "[]"])
qed simp

lemma host_root_frame:
  "delete_check_deadline host_now b w = (r, w') \<Longrightarrow> hw_root w' = hw_root w"
  "discover_and_reserve rb host_delete_backend b d p w = (r1, b', w') \<Longrightarrow> hw_root w' = hw_root w"
  "read_children rb host_delete_backend fuel p d changed reader b children w = Some (r2, w') \<Longrightarrow>
     hw_root w' = hw_root w"
  "read_dir p w = (r3, w') \<Longrightarrow> hw_root w' = hw_root w"
  using host_frame.check_deadline_frame [of b w r w' "hw_root w"]
    host_frame.discover_frame [of rb b d p w r1 b' w' "hw_root w"]
    host_frame.read_children_frame [of rb fuel p d changed reader b children w r2 w' "hw_root w"]
  by (auto simp: read_dir_def split: option.splits node.splits)

lemma step_confined_simps [simp]:
  "step_confined p w0 (Continue s w) \<longleftrightarrow> confined p w0 s w"
  "step_confined p w0 (Return (Err e) w) \<longleftrightarrow> keeps_outside p w0 w"
  "step_confined p w0 (Return Panic w) \<longleftrightarrow> keeps_outside p w0 w"
  by (simp_all add: step_confined_def is_Ok_def)

lemma keeps_outside_same: "keeps_outside p w0 w \<Longrightarrow> hw_root w' = hw_root w \<Longrightarrow> keeps_outside p w0 w'"
  by (simp add: keeps_outside_def)

lemma bottom_ok_rest: "bottom_ok p (x # rest) \<Longrightarrow> rest \<noteq> [] \<Longrightarrow> removal_last p rest"
  by (auto simp: bottom_ok_def removal_last_def Cons_eq_append_conv)

lemma removal_last_below: "removal_last p rest \<Longrightarrow> removal_last p (xs @ rest)"
  unfolding removal_last_def by (metis append_assoc)

lemma remove_file_keeps:
  "remove_file (p @ r) w = (x, w') \<Longrightarrow> keeps_outside p w w'"
  by (auto simp: remove_file_def keeps_outside_remove split: option.splits node.splits)

lemma remove_dir_keeps:
  "remove_dir (p @ r) w = (x, w') \<Longrightarrow> keeps_outside p w w'"
  by (auto simp: remove_dir_def keeps_outside_remove split: option.splits node.splits if_splits)

lemma remove_dir_gone:
  "remove_dir p w = (Ok u, w') \<Longrightarrow> p \<noteq> [] \<Longrightarrow> lookup (hw_root w') p = None"
  by (auto simp: remove_dir_def lookup_removed split: option.splits node.splits if_splits)

lemma remove_leaf_confined:
  assumes "keeps_outside p w0 w" and "\<forall>x \<in> set (ds_work s). \<exists>r. work_path (fst x) = p @ r"
    and "ds_work s \<noteq> []" and "removal_last p (ds_work s)"
  shows "step_confined p w0 (remove_leaf host_delete_backend s (p @ r) m w)"
proof -
  obtain x w1 where chk: "delete_check_deadline host_now (ds_budget s) w = (x, w1)" by fastforce
  obtain y w2 where rm: "remove_file (p @ r) w1 = (y, w2)" by fastforce
  have w1: "keeps_outside p w0 w1"
    by (rule keeps_outside_same [OF assms(1) host_root_frame(1) [OF chk]])
  have w2: "keeps_outside p w0 w2"
    by (rule keeps_outside_trans [OF w1 remove_file_keeps [OF rm]])
  show ?thesis
    using chk rm w1 w2 assms(2-4)
    by (simp add: remove_leaf_def remove_host_non_directory_def confined_def bottom_ok_def split: result.split)
qed

lemma remove_directory_confined:
  assumes "keeps_outside p w0 w" and "\<forall>x \<in> set (ds_work s). \<exists>r. work_path (fst x) = p @ r"
    and "p \<noteq> []" and "ds_work s \<noteq> [] \<Longrightarrow> removal_last p (ds_work s)" and "ds_work s = [] \<Longrightarrow> r = []"
  shows "step_confined p w0 (remove_directory host_delete_backend s (p @ r) w)"
proof -
  obtain y w2 where rm: "remove_dir (p @ r) w = (y, w2)" by fastforce
  have w2: "keeps_outside p w0 w2"
    by (rule keeps_outside_trans [OF assms(1) remove_dir_keeps [OF rm]])
  have "lookup (hw_root w2) p = None" if "ds_work s = []" "is_Ok y"
    using that rm assms(3,5) by (cases y) (auto intro: remove_dir_gone)
  then show ?thesis
    using rm w2 assms(2,4)
    by (auto simp: remove_directory_def confined_def bottom_ok_def split: result.split)
qed

lemma inspect_directory_confined:
  assumes "inspect_directory rb host_delete_backend fuel s (p @ r) d w = Some st"
    and "keeps_outside p w0 w" and "\<forall>x \<in> set (ds_work s). \<exists>r. work_path (fst x) = p @ r"
    and "ds_work s \<noteq> [] \<Longrightarrow> removal_last p (ds_work s)" and "ds_work s = [] \<Longrightarrow> r = [] \<and> d = 0"
  shows "step_confined p w0 st"
proof -
  have bottom: "bottom_ok p (cs @ (RemoveDirectory (p @ r), d) # ds_work s)" for cs
    using assms(4,5) removal_last_below [of p "ds_work s" "cs @ [(RemoveDirectory (p @ r), d)]"]
    by (cases "ds_work s = []") (auto simp: bottom_ok_def removal_last_def)
  have children: "hw_root w3 = hw_root w2 \<and> (\<exists>names. cs = map (\<lambda>n. (Inspect ((p @ r) @ [n]), d + 1)) names)"
    if "read_children rb host_delete_backend fuel (p @ r) d c reader b [] w2 = Some (Ok (cs, b'), w3)"
    for c reader b cs b' w2 w3
    using host_root_frame(3) [OF that] read_children_below [OF that] by simp
  note failed = host_root_frame(3) [of rb fuel "p @ r" d _ _ _ "[]" _ "Err _"]
    host_root_frame(3) [of rb fuel "p @ r" d _ _ _ "[]" _ Panic]
  show ?thesis
    using assms(1-3)
    by (auto simp: inspect_directory_def confined_def bottom
        split: prod.splits result.splits option.splits
        dest!: host_root_frame(1,4) children failed intro: keeps_outside_same)
qed


lemma delete_step_confined:
  assumes "delete_step rb host_delete_backend fuel s w = Some st" and "confined p w0 s w" and "p \<noteq> []"
  shows "step_confined p w0 st"
proof (cases "ds_work s")
  case Nil
  with assms(1,2) show ?thesis
    by (auto simp: delete_step_def confined_def step_confined_def)
next
  case (Cons x rest)
  obtain item d where x: "x = (item, d)" by fastforce
  define s1 where "s1 = s\<lparr>ds_budget := release_path (ds_budget s) (path_bytes (work_path item)),
    ds_work := rest\<rparr>"
  obtain res w1 where chk: "delete_check_deadline host_now (ds_budget s1) w = (res, w1)" by fastforce
  have w1: "keeps_outside p w0 w1"
    using keeps_outside_same [OF _ host_root_frame(1) [OF chk]] assms(2) by (simp add: confined_def)
  obtain r where r: "work_path item = p @ r"
    using assms(2) by (auto simp: confined_def Cons x)
  have below: "\<forall>x \<in> set (ds_work s1). \<exists>r. work_path (fst x) = p @ r"
    and bot: "bottom_ok p ((item, d) # rest)"
    using assms(2) by (auto simp: confined_def Cons x s1_def)
  have last: "ds_work s1 \<noteq> [] \<Longrightarrow> removal_last p (ds_work s1)"
    using bottom_ok_rest [OF bot] by (simp add: s1_def)
  have root: "ds_work s1 = [] \<Longrightarrow> r = [] \<and> d = 0"
    using bot r by (auto simp: bottom_ok_def removal_last_def s1_def append_eq_Cons_conv)
  have step: "st = Return (Err (delete_fail host_delete_backend (p @ r) (ds_changed s1) e)) w1"
    if "res = Err e" for e
    using assms(1) chk r that unfolding s1_def by (simp add: delete_step_def Cons x Let_def)
  have step': "delete_step rb host_delete_backend fuel s w =
      (case item of
         Inspect _ \<Rightarrow> inspect_entry rb host_delete_backend fuel s1 (p @ r) d w1
       | RemoveDirectory _ \<Rightarrow> Some (remove_directory host_delete_backend s1 (p @ r) w1))"
    if "res = Ok u" for u
    using chk r that unfolding s1_def by (cases item) (simp_all add: delete_step_def Cons x Let_def)
  show ?thesis
  proof (cases res)
    case (Err e)
    with step w1 show ?thesis by simp
  next
    case Panic
    with assms(1) chk w1 show ?thesis unfolding s1_def by (auto simp: delete_step_def Cons x Let_def)
  next
    case (Ok u)
    note st = step' [OF Ok, unfolded assms(1)]
    show ?thesis
    proof (cases item)
      case (RemoveDirectory q)
      with st remove_directory_confined [OF w1 below assms(3) last] root show ?thesis by simp
    next
      case (Inspect q)
      have leaf: "ds_work s1 \<noteq> []" if "\<not> d = 0" using root that by auto
      from st Inspect have "inspect_entry rb host_delete_backend fuel s1 (p @ r) d w1 = Some st" by simp
      then show ?thesis
        using inspect_directory_confined [OF _ w1 below last root, of rb fuel st]
          remove_leaf_confined [OF w1 below leaf last [OF leaf]] w1
        by (auto simp: inspect_entry_def symlink_metadata_def split: option.splits if_splits)
    qed
  qed
qed

lemma delete_loop_confined:
  "delete_loop rb host_delete_backend cf fuel s w = Some (r, w') \<Longrightarrow> confined p w0 s w \<Longrightarrow> p \<noteq> [] \<Longrightarrow>
   keeps_outside p w0 w' \<and> (is_Ok r \<longrightarrow> lookup (hw_root w') p = None)"
proof (induction fuel arbitrary: s w)
  case (Suc fuel)
  obtain st where st: "delete_step rb host_delete_backend cf s w = Some st"
    using Suc.prems(1) by (auto split: option.splits)
  from delete_step_confined [OF st Suc.prems(2,3)] Suc.prems(1) st show ?case
    by (cases st) (auto simp: step_confined_def dest: Suc.IH [OF _ _ Suc.prems(3)])
qed simp

lemma remove_directory_tree_confined:
  assumes "remove_directory_tree rb host_delete_backend cf fuel p opts started w = Some (r, w')"
    and "p \<noteq> []"
  shows "keeps_outside p w w' \<and> (is_Ok r \<longrightarrow> lookup (hw_root w') p = None)"
proof -
  obtain x b w1 where d: "discover_and_reserve rb host_delete_backend
      (delete_budget_new rb opts started) 0 p w = (x, b, w1)"
    using prod_cases3 by blast
  then have w1: "hw_root w1 = hw_root w" by (rule host_root_frame(2))
  then have "confined p w \<lparr>ds_changed = False, ds_budget = b, ds_work = [(Inspect p, 0)]\<rparr> w1"
    by (simp add: confined_def bottom_ok_def)
  from delete_loop_confined [OF _ this assms(2), of rb cf fuel r w'] assms(1) d w1 show ?thesis
    by (cases x) (auto simp: remove_directory_tree_def is_Ok_def)
qed


section \<open>Outcomes of the delete operations\<close>

lemma removal_outcome_unchanged:
  "remove_file p w = (r, w') \<Longrightarrow> \<not> is_Ok r \<Longrightarrow> w' = w"
  "remove_dir p w = (r, w') \<Longrightarrow> \<not> is_Ok r \<Longrightarrow> w' = w"
  by (auto simp: remove_file_def remove_dir_def is_Ok_def split: option.splits node.splits if_splits)

lemma metadata_for_delete_world: "metadata_for_delete p opts operation w = (r, w') \<Longrightarrow> w' = w"
  by (auto simp: metadata_for_delete_def symlink_metadata_def split: option.splits if_splits)

lemma delete_outcome_True: "delete_outcome operation opts p r = Ok True \<longleftrightarrow> is_Ok r"
  by (auto simp: delete_outcome_def is_Ok_def split: result.splits if_splits)

text \<open>
  C7: the boolean outcome of a Host directory deletion is the truth. \<open>deleted = true\<close> means that the
  entry no longer exists, \<open>deleted = false\<close> is returned only under \<open>missing_ok\<close> and with the namespace
  as it was, and on every exit, errors in the middle of a recursive deletion included, no path
  outside the requested tree has changed.
\<close>

theorem delete_directory_outcome:
  assumes "p \<noteq> []"
    and "delete_directory_with_policy rb cf fuel p opts started w = Some (r, w')"
  shows "keeps_outside p w w' \<and> (r = Ok True \<longrightarrow> lookup (hw_root w') p = None) \<and>
    (r = Ok False \<longrightarrow> do_missing_ok opts \<and> hw_root w' = hw_root w)"
proof -
  note defs = delete_directory_with_policy_def
  obtain md where md: "metadata_for_delete p opts OpDeleteDirectory w = (md, w)"
    using metadata_for_delete_world by (metis surj_pair)
  have none: "do_missing_ok opts" if "md = Ok None"
    using md that by (auto simp: metadata_for_delete_def symlink_metadata_def split: option.splits if_splits)
  consider (missing) "r = Ok False" "md = Ok None" "w' = w" | (failed) "\<not> is_Ok r" "w' = w"
    | (directory) m where "md = Ok (Some m)" "is_dir m"
    using assms(2) md
    by (cases md) (auto simp: defs is_Ok_def split: option.splits if_splits)
  then show ?thesis
  proof cases
    case missing
    with none show ?thesis by simp
  next
    case failed
    then show ?thesis by (auto simp: is_Ok_def)
  next
    case (directory m)
    note m = directory
    show ?thesis
    proof (cases "do_recursive opts")
      case True
      obtain t w2 where tree: "remove_directory_tree rb host_delete_backend cf fuel p opts started w = Some (t, w2)"
        using assms(2) md m True by (auto simp: defs split: option.splits)
      note conf = remove_directory_tree_confined [OF tree assms(1)]
      have same: "hw_root w2 = hw_root w" if "t = Err e" "accepted_as_missing opts p e" for e
        using host_frame.remove_directory_tree_honest [of rb cf fuel p opts started w e w2 "hw_root w"]
          tree that
        by (auto simp: accepted_as_missing_def)
      show ?thesis
        using assms(2) md m True tree conf same
        by (cases t) (auto simp: defs accepted_as_missing_def split: if_splits)
    next
      case False
      obtain t w2 where rm: "remove_dir p w = (t, w2)" by fastforce
      have "keeps_outside p w w2" using remove_dir_keeps [of p "[]" w t w2] rm by simp
      then show ?thesis
        using assms md m False rm remove_dir_gone [of p w _ w2] removal_outcome_unchanged(2) [OF rm]
        by (cases t) (auto simp: defs delete_outcome_def is_Ok_def split: if_splits)
    qed
  qed
qed


theorem delete_directory_outcome_witness:
  "\<exists>w'. delete_directory_with_policy counter_budget 3 5 [[100], [120]]
      (delete_options_new\<lparr>do_missing_ok := True\<rparr>) 0 sample_world = Some (Ok False, w') \<and>
    hw_root w' = hw_root sample_world"
proof -
  have "delete_directory_with_policy counter_budget 3 5 [[100], [120]]
      (delete_options_new\<lparr>do_missing_ok := True\<rparr>) 0 sample_world = Some (Ok False, sample_world)"
    by (simp add: delete_directory_with_policy_def metadata_for_delete_def symlink_metadata_def
        sample_world_def)
  with delete_directory_outcome [OF _ this] show ?thesis by simp
qed

section \<open>Paths that name nothing\<close>

text \<open>
  A bound path has no symbolic link before its last component. It then names nothing either because
  a regular file stands where a directory is needed, or because a name is missing in a directory.
\<close>

definition below_file :: "node \<Rightarrow> host_path \<Rightarrow> bool" where
  "below_file n p \<longleftrightarrow> (\<exists>k<length p. \<exists>bytes. lookup n (take k p) = Some (FileNode bytes))"

definition below_link :: "node \<Rightarrow> host_path \<Rightarrow> bool" where
  "below_link n p \<longleftrightarrow> (\<exists>k<length p. \<exists>target. lookup n (take k p) = Some (LinkNode target))"

lemma ex_less_Suc: "(\<exists>k<Suc m. P k) \<longleftrightarrow> P 0 \<or> (\<exists>k<m. P (Suc k))"
  using Nat.Ex_less_Suc2 by auto

lemma below_simps [simp]:
  "\<not> below_file n []" "\<not> below_link n []"
  "below_file (FileNode b) (x # xs)" "\<not> below_file (LinkNode t) (x # xs)"
  "below_link (LinkNode t) (x # xs)" "\<not> below_link (FileNode b) (x # xs)"
  "below_file (DirNode es) (x # xs) \<longleftrightarrow> (\<exists>n. map_of es x = Some n \<and> below_file n xs)"
  "below_link (DirNode es) (x # xs) \<longleftrightarrow> (\<exists>n. map_of es x = Some n \<and> below_link n xs)"
  by (auto simp: below_file_def below_link_def ex_less_Suc split: option.splits) blast+

lemma lookup_failure_kind:
  "lookup n p = None \<Longrightarrow> \<not> below_link n p \<Longrightarrow>
   lookup_failure n p = (if below_file n p then IoNotADirectory else IoNotFound)"
  by (induction n p rule: lookup.induct) (auto split: option.splits)

text \<open>
  C8: \<open>delete_file\<close> on the Host removes exactly one entry that is not a directory. On a bound path,
  which has no symbolic link before its last component, it reports \<open>deleted = true\<close> exactly when the
  path names such an entry, which is then gone with every unrelated path kept; it fails with
  \<open>IsDirectory\<close> on a directory; a name missing in a directory is \<open>deleted = false\<close> or \<open>NotFound\<close> by
  \<open>missing_ok\<close>; below a regular file it fails with \<open>NotDirectory\<close>, also under \<open>missing_ok\<close>. All but
  the first leave the namespace alone.
\<close>

theorem delete_file_outcome:
  assumes "p \<noteq> []" and "\<not> below_link (hw_root w) p"
  shows "case delete_file_with_policy p opts w of (r, w') \<Rightarrow>
    (case lookup (hw_root w) p of
       None \<Rightarrow>
         w' = w \<and>
         (if below_file (hw_root w) p
          then \<exists>e. r = Err e \<and> fe_kind e = KNotDirectory \<and> fe_path e = Some (path_bytes p)
          else if do_missing_ok opts then r = Ok False
          else \<exists>e. r = Err e \<and> fe_kind e = KNotFound \<and> fe_path e = Some (path_bytes p))
     | Some (DirNode _) \<Rightarrow>
         w' = w \<and> (\<exists>e. r = Err e \<and> fe_kind e = KIsDirectory \<and> fe_path e = Some (path_bytes p))
     | Some _ \<Rightarrow>
         r = Ok True \<and> lookup (hw_root w') p = None \<and> keeps_outside p w w')"
proof (cases "lookup (hw_root w) p")
  case None
  then show ?thesis
    by (simp add: delete_file_with_policy_def metadata_for_delete_def symlink_metadata_def from_io_def
        classify_io_error_def error_new_def lookup_failure_kind [OF None assms(2)])
next
  case (Some n)
  have "keeps_outside p w (w\<lparr>hw_root := remove_at p (hw_root w)\<rparr>)"
    using keeps_outside_remove [of p w "[]"] by simp
  with Some show ?thesis
    by (cases n) (simp_all add: delete_file_with_policy_def metadata_for_delete_def symlink_metadata_def
        is_dir_def remove_host_non_directory_def remove_file_def delete_outcome_def error_new_def
        lookup_removed [OF assms(1)])
qed

theorem delete_file_outcome_witness:
  "(case delete_file_with_policy [[100], [98]] delete_options_new sample_world of (r, w') \<Rightarrow>
     r = Ok True \<and> lookup (hw_root w') [[100], [98]] = None \<and>
     keeps_outside [[100], [98]] sample_world w') \<and>
   (case delete_file_with_policy [[107], [120]] (delete_options_new\<lparr>do_missing_ok := True\<rparr>) sample_world of
      (r, w') \<Rightarrow> w' = sample_world \<and> (\<exists>e. r = Err e \<and> fe_kind e = KNotDirectory))"
  using delete_file_outcome [of "[[100], [98]]" sample_world delete_options_new]
    delete_file_outcome [of "[[107], [120]]" sample_world "delete_options_new\<lparr>do_missing_ok := True\<rparr>"]
  by (auto simp: sample_world_def split: prod.splits)

end
