(* ===== verification/Write_Types.thy ===== *)
theory Write_Types
  imports Errors
begin

text \<open>
  The data that writers share: write options and requirements, publication methods and states,
  recovery files and the outcomes and errors of a commit
  (\<^verbatim>\<open>src/options\<close>, \<^verbatim>\<open>src/policy\<close>, \<^verbatim>\<open>src/outcome\<close>, \<^verbatim>\<open>src/recovery\<close>, \<^verbatim>\<open>src/writer\<close>).
\<close>

datatype write_mode = CreateNew | CreateOrReplace | Append

datatype metadata_policy = PreserveExisting | UseStaging

datatype atomicity = AtomRequired | AtomPreferred | AtomNotRequired

datatype durability = DurRequired | DurPreferred | DurNotRequired

datatype file_sync = SyncNotRequired | SyncPreferred | SyncRequired

record write_options =
  wo_mode :: write_mode
  wo_metadata_policy :: metadata_policy
  wo_create_parent :: bool
  wo_atomicity :: atomicity
  wo_durability :: durability
  wo_file_sync :: file_sync
  wo_open_retry_timeout :: "duration option"

definition write_options_new :: "write_mode \<Rightarrow> write_options" where
  "write_options_new mode =
     \<lparr>wo_mode = mode, wo_metadata_policy = PreserveExisting, wo_create_parent = False,
      wo_atomicity = AtomPreferred, wo_durability = DurNotRequired, wo_file_sync = SyncNotRequired,
      wo_open_retry_timeout = None\<rparr>"

datatype 'd precondition = Absent | Content 'd

datatype publication_method = AtomicRename | DirectAppend | AtomicExchange | AtomicReplaceWithBackup

datatype publication_state = NotPublished | Published | Restored | Indeterminate

datatype recovery_role = CandidateCopy | StagedCandidate | Displaced | RollbackDisplaced

datatype writer_state = WriterOpen | Committed | Aborted

datatype write_failure_state = FailNotPublished | FailPublished | FailIndeterminate

record write_outcome =
  wr_state :: writer_state
  wr_atomic :: bool
  wr_publication_method :: publication_method
  wr_durable :: bool
  wr_file_synced :: bool
  wr_bytes_written :: u64
  wr_failure_state :: "write_failure_state option"

definition write_outcome_new ::
  "writer_state \<Rightarrow> bool \<Rightarrow> publication_method \<Rightarrow> bool \<Rightarrow> u64 \<Rightarrow> write_failure_state option \<Rightarrow>
   write_outcome" where
  "write_outcome_new st at method dur bytes fs =
     \<lparr>wr_state = st, wr_atomic = at, wr_publication_method = method, wr_durable = dur,
      wr_file_synced = False, wr_bytes_written = bytes, wr_failure_state = fs\<rparr>"

definition with_file_synced :: "bool \<Rightarrow> write_outcome \<Rightarrow> write_outcome" where
  "with_file_synced b out = out\<lparr>wr_file_synced := b\<rparr>"

text \<open>A retained file: its role, where it is, and the permission to read it again.\<close>

record 'a recovery_file =
  rf_role :: recovery_role
  rf_namespace_path :: path
  rf_diagnostic_path :: "path option"
  rf_access :: 'a

section \<open>Failures of a conditional commit\<close>

datatype write_stage =
    StPrepare | StVerifyCandidate | StPrepareCandidateCopy | StVerifyCandidateCopy | StPrecheck
  | StPublish | StVerifyDisplaced | StVerifyInstalled | StRollbackPrecheck | StRollback
  | StVerifyRollback | StSync

datatype failure_reason =
    PreconditionMismatch | TargetMissing | TargetExists | ReasonInvalidOptions | ReasonUnsupported
  | ReasonInvalidState | ReasonIo | PostPublicationConflict

record 'a commit_error =
  ce_error :: file_error
  ce_reason :: failure_reason
  ce_stage :: write_stage
  ce_publication :: publication_state
  ce_recovery_files :: "'a recovery_file list"

definition with_fallback_path :: "path \<Rightarrow> 'a commit_error \<Rightarrow> 'a commit_error" where
  "with_fallback_path p e =
     (if fe_path (ce_error e) = None then e\<lparr>ce_error := with_path p (ce_error e)\<rparr> else e)"

definition with_fallback_current_directory :: "path option \<Rightarrow> 'a commit_error \<Rightarrow> 'a commit_error" where
  "with_fallback_current_directory cwd e =
     (case cwd of
        Some d \<Rightarrow>
          if fe_current_directory (ce_error e) = None
          then e\<lparr>ce_error := with_current_directory d (ce_error e)\<rparr> else e
      | None \<Rightarrow> e)"

definition retained_candidate :: "'a commit_error \<Rightarrow> 'a recovery_file option" where
  "retained_candidate e = find (\<lambda>f. rf_role f = CandidateCopy) (ce_recovery_files e)"

section \<open>The outcome of a conditional commit\<close>

record ('a, 'd) conditional_outcome =
  co_digest :: 'd
  co_write_outcome :: write_outcome
  co_retained_files :: "'a recovery_file list"
  co_cleanup_errors :: "file_error list"

definition conditional_outcome_new ::
  "'d \<Rightarrow> write_outcome \<Rightarrow> 'a recovery_file list \<Rightarrow> file_error list \<Rightarrow> path option \<Rightarrow>
   ('a, 'd) conditional_outcome" where
  "conditional_outcome_new d out retained errors cwd =
     \<lparr>co_digest = d, co_write_outcome = out, co_retained_files = retained,
      co_cleanup_errors =
        map (\<lambda>e. case (fe_current_directory e, cwd) of
                   (None, Some dir) \<Rightarrow> with_current_directory dir e
                 | _ \<Rightarrow> e) errors\<rparr>"

end
