(* ===== verification/Commit_Monad.thy ===== *)
theory Commit_Monad
  imports Errors
begin

text \<open>
  Fallible, state-passing code as functions: a program takes the state and returns its result with
  the new state, errors leave at once as \<open>?\<close> and \<open>return Err(..)\<close> do, and a panic is kept apart. The
  predicate \<open>outcome\<close> states what holds of the three exits of a program run from a state; its rules
  follow the program text, so that the properties of a long protocol are proved phase by phase.
\<close>

type_synonym ('s, 'e, 'a) prog = "'s \<Rightarrow> ('a, 'e) result \<times> 's"

definition ret :: "'a \<Rightarrow> ('s, 'e, 'a) prog" where
  "ret x s = (Ok x, s)"

definition fail :: "'e \<Rightarrow> ('s, 'e, 'a) prog" where
  "fail e s = (Err e, s)"

definition bind :: "('s, 'e, 'a) prog \<Rightarrow> ('a \<Rightarrow> ('s, 'e, 'b) prog) \<Rightarrow> ('s, 'e, 'b) prog" where
  "bind m f s =
     (case m s of
        (Ok x, s') \<Rightarrow> f x s'
      | (Err e, s') \<Rightarrow> (Err e, s')
      | (Panic, s') \<Rightarrow> (Panic, s'))"

definition modify :: "('s \<Rightarrow> 's) \<Rightarrow> ('s, 'e, unit) prog" where
  "modify f s = (Ok (), f s)"

definition gets :: "('s \<Rightarrow> 'a) \<Rightarrow> ('s, 'e, 'a) prog" where
  "gets f s = (Ok (f s), s)"

definition panic :: "('s, 'e, 'a) prog" where
  "panic s = (Panic, s)"

text \<open>\<open>m\<close> first and then \<open>k\<close>, as with \<open>Result::and_then\<close> on a unit result.\<close>

definition seq :: "('s, 'e, unit) prog \<Rightarrow> ('s, 'e, 'b) prog \<Rightarrow> ('s, 'e, 'b) prog" where
  "seq m k = bind m (\<lambda>_. k)"

text \<open>The result of \<open>m\<close> as a value, for \<open>if let Err(e) = m\<close> and \<open>match m\<close>.\<close>

definition caught :: "('s, 'e, 'a) prog \<Rightarrow> ('s, 'f, ('a, 'e) result) prog" where
  "caught m s =
     (case m s of
        (Ok x, s') \<Rightarrow> (Ok (Ok x), s')
      | (Err e, s') \<Rightarrow> (Ok (Err e), s')
      | (Panic, s') \<Rightarrow> (Panic, s'))"

text \<open>On an error of \<open>m\<close>, change the state by \<open>h\<close> and leave with the error \<open>f\<close> computes there.\<close>

definition or_fail :: "('s \<Rightarrow> 'e \<Rightarrow> 'f) \<Rightarrow> ('s \<Rightarrow> 's) \<Rightarrow> ('s, 'e, 'a) prog \<Rightarrow> ('s, 'f, 'a) prog" where
  "or_fail f h m s =
     (case m s of
        (Ok x, s') \<Rightarrow> (Ok x, s')
      | (Err e, s') \<Rightarrow> (Err (f s' e), h s')
      | (Panic, s') \<Rightarrow> (Panic, s'))"

text \<open>A computed result as a program.\<close>

definition answer :: "('x, 'e) result \<Rightarrow> ('s, 'e, 'x) prog" where
  "answer r s = (r, s)"

definition whenever :: "bool \<Rightarrow> ('s, 'e, unit) prog \<Rightarrow> ('s, 'e, unit) prog" where
  "whenever c m = (if c then m else ret ())"

section \<open>What holds of the exits\<close>

definition outcome ::
  "('s, 'e, 'a) prog \<Rightarrow> ('a \<Rightarrow> 's \<Rightarrow> bool) \<Rightarrow> ('e \<Rightarrow> 's \<Rightarrow> bool) \<Rightarrow> ('s \<Rightarrow> bool) \<Rightarrow> 's \<Rightarrow> bool" where
  "outcome m Q E P s =
     (case m s of
        (Ok x, s') \<Rightarrow> Q x s'
      | (Err e, s') \<Rightarrow> E e s'
      | (Panic, s') \<Rightarrow> P s')"

lemma outcome_ret [simp]: "outcome (ret x) Q E P s \<longleftrightarrow> Q x s"
  by (simp add: outcome_def ret_def)

lemma outcome_fail [simp]: "outcome (fail e) Q E P s \<longleftrightarrow> E e s"
  by (simp add: outcome_def fail_def)

lemma outcome_modify [simp]: "outcome (modify f) Q E P s \<longleftrightarrow> Q () (f s)"
  by (simp add: outcome_def modify_def)

lemma outcome_gets [simp]: "outcome (gets f) Q E P s \<longleftrightarrow> Q (f s) s"
  by (simp add: outcome_def gets_def)

lemma outcome_panic [simp]: "outcome panic Q E P s \<longleftrightarrow> P s"
  by (simp add: outcome_def panic_def)

lemma outcome_bind [simp]:
  "outcome (bind m f) Q E P s \<longleftrightarrow> outcome m (\<lambda>x s'. outcome (f x) Q E P s') E P s"
  by (auto simp: outcome_def bind_def split: prod.split result.split)

lemma outcome_seq [simp]:
  "outcome (seq m k) Q E P s \<longleftrightarrow> outcome m (\<lambda>_ s'. outcome k Q E P s') E P s"
  by (simp add: seq_def)

lemma outcome_caught [simp]:
  "outcome (caught m) Q E P s \<longleftrightarrow>
     outcome m (\<lambda>x s'. Q (Ok x) s') (\<lambda>e s'. Q (Err e) s') P s"
  by (auto simp: outcome_def caught_def split: prod.split result.split)

lemma outcome_or_fail [simp]:
  "outcome (or_fail f h m) Q E P s \<longleftrightarrow> outcome m Q (\<lambda>e s'. E (f s' e) (h s')) P s"
  by (auto simp: outcome_def or_fail_def split: prod.split result.split)

lemma outcome_whenever [simp]:
  "outcome (whenever c m) Q E P s \<longleftrightarrow> (if c then outcome m Q E P s else Q () s)"
  by (simp add: whenever_def)

lemma outcome_trivial [simp]: "outcome m (\<lambda>_ _. True) (\<lambda>_ _. True) (\<lambda>_. True) = (\<lambda>_. True)"
  by (rule ext) (simp add: outcome_def split: prod.split result.split)

lemma outcome_conseq:
  "outcome m Q E P s \<Longrightarrow> (\<And>x s'. Q x s' \<Longrightarrow> Q' x s') \<Longrightarrow> (\<And>e s'. E e s' \<Longrightarrow> E' e s') \<Longrightarrow>
   (\<And>s'. P s' \<Longrightarrow> P' s') \<Longrightarrow> outcome m Q' E' P' s"
  by (auto simp: outcome_def split: prod.splits result.splits)

lemma outcome_conj:
  "outcome m Q E P s \<Longrightarrow> outcome m Q' E' P' s \<Longrightarrow>
   outcome m (\<lambda>x s'. Q x s' \<and> Q' x s') (\<lambda>e s'. E e s' \<and> E' e s') (\<lambda>s'. P s' \<and> P' s') s"
  by (auto simp: outcome_def split: prod.splits result.splits)

lemma outcome_bindI:
  "outcome m R E P s \<Longrightarrow> (\<And>x s'. R x s' \<Longrightarrow> outcome (f x) Q E P s') \<Longrightarrow> outcome (bind m f) Q E P s"
  by (auto elim: outcome_conseq)

lemma outcome_seqI:
  "outcome m (\<lambda>_. R) E P s \<Longrightarrow> (\<And>s'. R s' \<Longrightarrow> outcome k Q E P s') \<Longrightarrow> outcome (seq m k) Q E P s"
  unfolding seq_def by (rule outcome_bindI)

lemma outcomeD:
  "outcome m Q E P s \<Longrightarrow> m s = (Ok x, s') \<Longrightarrow> Q x s'"
  "outcome m Q E P s \<Longrightarrow> m s = (Err e, s') \<Longrightarrow> E e s'"
  "outcome m Q E P s \<Longrightarrow> m s = (Panic, s') \<Longrightarrow> P s'"
  by (simp_all add: outcome_def)

end
