(* ===== verification/Copy_Budget.thy ===== *)
theory Copy_Budget
  imports Delete_Tree Write_Types Commit_Monad
begin

text \<open>
  Resource accounting of tree copies, \<^verbatim>\<open>src/local/internal/copy_budget.rs\<close>: the limits on depth,
  entries, copied bytes and open directories, the cooperative deadline, and the chunked copy that
  charges every byte the staging writer accepts. Readers and writers belong to the crate \<open>qubit_io\<close>,
  budgets and pools to \<open>qubit_budget\<close>; they are records of operations, and the locale
  \<open>copy_streams\<close> states the stream contract that the copy relies on. The targets are 64-bit, so a
  conversion between \<open>u64\<close> and \<open>usize\<close> is the identity.
\<close>

section \<open>Options\<close>

datatype copy_conflict = ConflictFail | ConflictOverwrite | ConflictSkip

datatype copy_type_conflict = TypeConflictFail | TypeConflictReplace | TypeConflictSkip

datatype symlink_policy = SymlinkReject | FollowWithinScope | FollowAcrossScope

definition symlink_follows :: "symlink_policy \<Rightarrow> bool" where
  "symlink_follows p = (case p of SymlinkReject \<Rightarrow> False | _ \<Rightarrow> True)"

record copy_dir_options =
  cd_conflict :: copy_conflict
  cd_type_conflict :: copy_type_conflict
  cd_symlink_policy :: symlink_policy
  cd_preserve_permissions :: bool
  cd_open_retry_timeout :: "duration option"
  cd_durability :: durability
  cd_max_depth :: "usize option"
  cd_max_entries :: "usize option"
  cd_max_bytes :: "u64 option"
  cd_max_open_directories :: "usize option"
  cd_deadline :: "duration option"
  cd_started_at :: "instant option"

definition copy_dir_options_new :: copy_dir_options where
  "copy_dir_options_new =
     \<lparr>cd_conflict = ConflictFail, cd_type_conflict = TypeConflictFail,
      cd_symlink_policy = SymlinkReject, cd_preserve_permissions = False, cd_open_retry_timeout = None,
      cd_durability = DurNotRequired, cd_max_depth = None, cd_max_entries = None, cd_max_bytes = None,
      cd_max_open_directories = None, cd_deadline = None, cd_started_at = None\<rparr>"

section \<open>The budget\<close>

definition copy_chunk_size :: usize where
  "copy_chunk_size = 64 * 1024"

text \<open>\<open>ManagedResourcePool\<close> of the budget crate: a pool that hands out permits of type \<open>'t\<close>.\<close>

record ('q, 't) managed_pool =
  mp_new :: "resource_kind \<Rightarrow> nat \<Rightarrow> 'q"
  mp_try_acquire :: "'q \<Rightarrow> nat \<Rightarrow> ('t, insufficient_budget) result \<times> 'q"

record ('b, 'q) copy_budget =
  cb_entries :: "'b option"
  cb_bytes :: "'b option"
  cb_open_directories :: "'q option"
  cb_max_depth :: "usize option"
  cb_deadline :: "(instant \<times> duration) option"

definition copy_budget_new ::
  "'b resource_budget \<Rightarrow> ('q, 't) managed_pool \<Rightarrow> ('w \<Rightarrow> instant \<times> 'w) \<Rightarrow> copy_dir_options \<Rightarrow> 'w \<Rightarrow>
   ('b, 'q) copy_budget \<times> 'w" where
  "copy_budget_new rb mp now opts w =
     (let (deadline, w') =
        (case cd_deadline opts of
           None \<Rightarrow> (None, w)
         | Some d \<Rightarrow>
             (case cd_started_at opts of
                Some started \<Rightarrow> (Some (started, d), w)
              | None \<Rightarrow> (case now w of (t, w') \<Rightarrow> (Some (t, d), w'))))
      in (\<lparr>cb_entries = map_option (rb_new rb Entry) (cd_max_entries opts),
           cb_bytes = map_option (rb_new rb CopiedBytes) (cd_max_bytes opts),
           cb_open_directories = map_option (mp_new mp OpenDirectory) (cd_max_open_directories opts),
           cb_max_depth = cd_max_depth opts, cb_deadline = deadline\<rparr>, w'))"

definition copy_deletion_options ::
  "('w \<Rightarrow> instant \<times> 'w) \<Rightarrow> ('b, 'q) copy_budget \<Rightarrow> 'w \<Rightarrow> (delete_options \<times> instant) \<times> 'w" where
  "copy_deletion_options now b w =
     (let opts = delete_options_new\<lparr>do_recursive := True\<rparr>
      in case cb_deadline b of
           Some (started, d) \<Rightarrow> ((opts\<lparr>do_deadline := Some d\<rparr>, started), w)
         | None \<Rightarrow> (case now w of (t, w') \<Rightarrow> ((opts, t), w')))"

text \<open>\<open>latest\<close> is the last instant that the platform's monotonic clock represents.\<close>

definition absolute_deadline ::
  "instant \<Rightarrow> ('b, 'q) copy_budget \<Rightarrow> (instant option, io_error) result" where
  "absolute_deadline latest b =
     (case cb_deadline b of
        None \<Rightarrow> Ok None
      | Some (started, d) \<Rightarrow>
          if started + d \<le> latest then Ok (Some (started + d)) else Err (io_error_of IoInvalidInput))"

definition copy_check_deadline ::
  "instant \<Rightarrow> ('w \<Rightarrow> instant \<times> 'w) \<Rightarrow> ('b, 'q) copy_budget \<Rightarrow> 'w \<Rightarrow> (unit, io_error) result \<times> 'w" where
  "copy_check_deadline latest now b w =
     (case absolute_deadline latest b of
        Ok None \<Rightarrow> (Ok (), w)
      | Ok (Some deadline) \<Rightarrow>
          (case now w of
             (t, w') \<Rightarrow> (if deadline \<le> t then Err (io_error_of IoTimedOut) else Ok (), w'))
      | Err e \<Rightarrow> (Err e, w)
      | Panic \<Rightarrow> (Panic, w))"

definition copy_check_depth :: "('b, 'q) copy_budget \<Rightarrow> usize \<Rightarrow> (unit, io_error) result" where
  "copy_check_depth b depth =
     (case cb_max_depth b of
        Some lim \<Rightarrow>
          if lim < depth then Err (resource_error (limit_error_new Depth lim 0 depth)) else Ok ()
      | None \<Rightarrow> Ok ())"

definition budget_error :: "insufficient_budget \<Rightarrow> io_error" where
  "budget_error e =
     resource_error (limit_error_new (ib_resource e) (ib_limit e) (ib_remaining e) (ib_requested e))"

definition copy_charge_entry ::
  "'b resource_budget \<Rightarrow> ('b, 'q) copy_budget \<Rightarrow> (unit, io_error) result \<times> ('b, 'q) copy_budget" where
  "copy_charge_entry rb b =
     (case cb_entries b of
        Some entries \<Rightarrow>
          (case rb_try_consume rb entries 1 of
             (r, entries') \<Rightarrow> (map_err budget_error r, b\<lparr>cb_entries := Some entries'\<rparr>))
      | None \<Rightarrow> (Ok (), b))"

definition acquire_directory ::
  "('q, 't) managed_pool \<Rightarrow> ('b, 'q) copy_budget \<Rightarrow>
   ('t option, io_error) result \<times> ('b, 'q) copy_budget" where
  "acquire_directory mp b =
     (case cb_open_directories b of
        None \<Rightarrow> (Ok None, b)
      | Some pool \<Rightarrow>
          (case mp_try_acquire mp pool 1 of
             (r, pool') \<Rightarrow>
               (case r of Ok t \<Rightarrow> Ok (Some t) | Err e \<Rightarrow> Err (budget_error e) | Panic \<Rightarrow> Panic,
                b\<lparr>cb_open_directories := Some pool'\<rparr>)))"

definition check_deadline_at :: "('b, 'q) copy_budget \<Rightarrow> instant \<Rightarrow> (unit, io_error) result" where
  "check_deadline_at b now =
     (case cb_deadline b of
        Some (started, d) \<Rightarrow>
          if d \<le> saturating_sub now started then Err (io_error_of IoTimedOut) else Ok ()
      | None \<Rightarrow> Ok ())"

definition remaining_bytes :: "'b resource_budget \<Rightarrow> ('b, 'q) copy_budget \<Rightarrow> u64 option" where
  "remaining_bytes rb b = map_option (rb_remaining rb) (cb_bytes b)"

definition read_capacity :: "'b resource_budget \<Rightarrow> ('b, 'q) copy_budget \<Rightarrow> usize \<Rightarrow> usize" where
  "read_capacity rb b chunk =
     (case remaining_bytes rb b of
        None \<Rightarrow> chunk
      | Some remaining \<Rightarrow> min (saturating_add remaining 1) chunk)"

definition charge_bytes ::
  "'b resource_budget \<Rightarrow> ('b, 'q) copy_budget \<Rightarrow> usize \<Rightarrow>
   (unit, io_error) result \<times> ('b, 'q) copy_budget" where
  "charge_bytes rb b amount =
     (case cb_bytes b of
        Some bytes \<Rightarrow>
          (case rb_try_consume rb bytes amount of
             (r, bytes') \<Rightarrow> (map_err budget_error r, b\<lparr>cb_bytes := Some bytes'\<rparr>))
      | None \<Rightarrow> (Ok (), b))"

text \<open>The two \<open>expect\<close> calls of \<open>copied_bytes_exhausted\<close> are its \<open>Panic\<close> exits.\<close>

definition copied_bytes_exhausted ::
  "'b resource_budget \<Rightarrow> ('b, 'q) copy_budget \<Rightarrow> usize \<Rightarrow>
   (io_error, io_error) result \<times> ('b, 'q) copy_budget" where
  "copied_bytes_exhausted rb b excess =
     (case cb_bytes b of
        None \<Rightarrow> (Panic, b)
      | Some bytes \<Rightarrow>
          (case rb_try_consume rb bytes excess of
             (Err e, bytes') \<Rightarrow> (Ok (budget_error e), b\<lparr>cb_bytes := Some bytes'\<rparr>)
           | (_, bytes') \<Rightarrow> (Panic, b\<lparr>cb_bytes := Some bytes'\<rparr>)))"

section \<open>The bounded copy\<close>

text \<open>
  \<open>st_read n\<close> is a read into a slice of \<open>n\<close> bytes and returns the bytes it filled in; \<open>st_write\<close>
  returns the number of bytes it accepted. Loops take fuel, and running out of it is an exit of its
  own, apart from every error of the code.
\<close>

record 'w copy_io =
  st_read :: "usize \<Rightarrow> 'w \<Rightarrow> (byte list, io_error) result \<times> 'w"
  st_write :: "byte list \<Rightarrow> 'w \<Rightarrow> (usize, io_error) result \<times> 'w"
  st_now :: "'w \<Rightarrow> instant \<times> 'w"

datatype stop = Raised io_error | OutOfFuel

record ('b, 'q, 'w) copy_state =
  cs_budget :: "('b, 'q) copy_budget"
  cs_copied :: u64
  cs_world :: 'w

type_synonym ('b, 'q, 'w, 'a) copy_prog = "(('b, 'q, 'w) copy_state, stop, 'a) prog"

text \<open>\<open>self.check_deadline_at(now())?\<close>.\<close>

definition copy_tick :: "'w copy_io \<Rightarrow> ('b, 'q, 'w, unit) copy_prog" where
  "copy_tick io s =
     (case st_now io (cs_world s) of
        (t, w') \<Rightarrow> (map_err Raised (check_deadline_at (cs_budget s) t), s\<lparr>cs_world := w'\<rparr>))"

definition stream_read ::
  "'w copy_io \<Rightarrow> usize \<Rightarrow> (('b, 'q, 'w) copy_state, io_error, byte list) prog" where
  "stream_read io n s = (case st_read io n (cs_world s) of (r, w') \<Rightarrow> (r, s\<lparr>cs_world := w'\<rparr>))"

definition stream_write ::
  "'w copy_io \<Rightarrow> byte list \<Rightarrow> (('b, 'q, 'w) copy_state, io_error, usize) prog" where
  "stream_write io bs s = (case st_write io bs (cs_world s) of (r, w') \<Rightarrow> (r, s\<lparr>cs_world := w'\<rparr>))"

definition charge_written :: "'b resource_budget \<Rightarrow> usize \<Rightarrow> ('b, 'q, 'w, unit) copy_prog" where
  "charge_written rb n s =
     (case charge_bytes rb (cs_budget s) n of
        (r, b') \<Rightarrow> (map_err Raised r, s\<lparr>cs_budget := b'\<rparr>))"

definition exhausted :: "'b resource_budget \<Rightarrow> usize \<Rightarrow> ('b, 'q, 'w, 'a) copy_prog" where
  "exhausted rb excess s =
     (case copied_bytes_exhausted rb (cs_budget s) excess of
        (Ok e, b') \<Rightarrow> (Err (Raised e), s\<lparr>cs_budget := b'\<rparr>)
      | (_, b') \<Rightarrow> (Panic, s\<lparr>cs_budget := b'\<rparr>))"

text \<open>
  One turn of the loop of \<open>write_all_with_deadline\<close>; the result is the source still to write.
  \<open>write_matched\<close> is the \<open>match\<close> on the result of the write and what follows it.
\<close>

definition write_matched ::
  "'b resource_budget \<Rightarrow> 'w copy_io \<Rightarrow> byte list \<Rightarrow> (usize, io_error) result \<Rightarrow>
   ('b, 'q, 'w, byte list) copy_prog" where
  "write_matched rb io source r =
     (case r of
        Ok written \<Rightarrow>
          if written = 0 then fail (Raised (io_error_of IoWriteZero))
          else
            seq (charge_written rb written)
            (seq (modify (\<lambda>s. s\<lparr>cs_copied := saturating_add (cs_copied s) written\<rparr>))
            (if written \<le> length source then seq (copy_tick io) (ret (drop written source))
             else panic))
      | Err e \<Rightarrow> if ioe_kind e = IoInterrupted then ret source else fail (Raised e)
      | Panic \<Rightarrow> panic)"

definition write_turn ::
  "'b resource_budget \<Rightarrow> 'w copy_io \<Rightarrow> byte list \<Rightarrow> ('b, 'q, 'w, byte list) copy_prog" where
  "write_turn rb io source =
     seq (copy_tick io) (bind (caught (stream_write io source)) (write_matched rb io source))"

fun write_all_with_deadline ::
  "'b resource_budget \<Rightarrow> 'w copy_io \<Rightarrow> nat \<Rightarrow> byte list \<Rightarrow> ('b, 'q, 'w, unit) copy_prog" where
  "write_all_with_deadline rb io 0 source = (if source = [] then ret () else fail OutOfFuel)"
| "write_all_with_deadline rb io (Suc fuel) source =
     (if source = [] then ret ()
      else bind (write_turn rb io source) (write_all_with_deadline rb io fuel))"

text \<open>\<open>remaining_bytes().map_or(read, |remaining| remaining.min(read))\<close>.\<close>

definition permitted_bytes :: "'b resource_budget \<Rightarrow> ('b, 'q) copy_budget \<Rightarrow> usize \<Rightarrow> usize" where
  "permitted_bytes rb b read =
     (case remaining_bytes rb b of None \<Rightarrow> read | Some remaining \<Rightarrow> min remaining read)"

text \<open>
  One turn of the loop of \<open>copy_with_now\<close>; \<open>Some\<close> is the returned count. \<open>read_matched\<close> is the
  \<open>match\<close> on the result of the read and what follows it, \<open>write_permitted\<close> its last part, from
  the bytes that the budget permits to the exhaustion error.
\<close>

definition write_permitted ::
  "'b resource_budget \<Rightarrow> 'w copy_io \<Rightarrow> nat \<Rightarrow> byte list \<Rightarrow> ('b, 'q, 'w, u64 option) copy_prog" where
  "write_permitted rb io fuel bytes =
     bind (gets (\<lambda>s. permitted_bytes rb (cs_budget s) (length bytes))) (\<lambda>permitted.
       if copy_chunk_size < permitted then panic
       else
         seq (write_all_with_deadline rb io fuel (take permitted bytes))
          (if permitted < length bytes then exhausted rb (length bytes - permitted) else ret None))"

definition read_matched ::
  "'b resource_budget \<Rightarrow> 'w copy_io \<Rightarrow> nat \<Rightarrow> (byte list, io_error) result \<Rightarrow>
   ('b, 'q, 'w, u64 option) copy_prog" where
  "read_matched rb io fuel r =
     (case r of
        Ok bytes \<Rightarrow>
          if bytes = [] then seq (copy_tick io) (gets (\<lambda>s. Some (cs_copied s)))
          else seq (copy_tick io) (write_permitted rb io fuel bytes)
      | Err e \<Rightarrow> if ioe_kind e = IoInterrupted then ret None else fail (Raised e)
      | Panic \<Rightarrow> panic)"

definition copy_turn ::
  "'b resource_budget \<Rightarrow> 'w copy_io \<Rightarrow> nat \<Rightarrow> ('b, 'q, 'w, u64 option) copy_prog" where
  "copy_turn rb io fuel =
     seq (copy_tick io)
      (bind (gets (\<lambda>s. read_capacity rb (cs_budget s) copy_chunk_size)) (\<lambda>capacity.
       bind (caught (stream_read io capacity)) (read_matched rb io fuel)))"

fun copy_with_now :: "'b resource_budget \<Rightarrow> 'w copy_io \<Rightarrow> nat \<Rightarrow> ('b, 'q, 'w, u64) copy_prog" where
  "copy_with_now rb io 0 = fail OutOfFuel"
| "copy_with_now rb io (Suc fuel) =
     bind (copy_turn rb io fuel) (\<lambda>r. case r of Some n \<Rightarrow> ret n | None \<Rightarrow> copy_with_now rb io fuel)"

definition copy_start :: "('b, 'q) copy_budget \<Rightarrow> 'w \<Rightarrow> ('b, 'q, 'w) copy_state" where
  "copy_start b w = \<lparr>cs_budget = b, cs_copied = 0, cs_world = w\<rparr>"

section \<open>Streams\<close>

text \<open>
  The contract of the byte streams: \<open>unread\<close> is what the source still has, \<open>accepted\<close> what the
  staging writer holds. A read returns at most the requested number of bytes, none only at the end
  of the source; an error of either stream moves no bytes; the clock moves none.
\<close>

locale copy_streams =
  fixes io :: "'w copy_io"
    and unread :: "'w \<Rightarrow> byte list"
    and accepted :: "'w \<Rightarrow> byte list"
  assumes read_ok: "st_read io n w = (Ok bs, w') \<Longrightarrow>
      length bs \<le> n \<and> unread w = bs @ unread w' \<and> accepted w' = accepted w"
    and read_end: "st_read io n w = (Ok [], w') \<Longrightarrow> 0 < n \<Longrightarrow> unread w = []"
    and read_err: "st_read io n w = (Err e, w') \<Longrightarrow>
      unread w' = unread w \<and> accepted w' = accepted w"
    and read_returns: "st_read io n w \<noteq> (Panic, w')"
    and write_ok: "st_write io bs w = (Ok n, w') \<Longrightarrow>
      n \<le> length bs \<and> accepted w' = accepted w @ take n bs \<and> unread w' = unread w"
    and write_err: "st_write io bs w = (Err e, w') \<Longrightarrow>
      accepted w' = accepted w \<and> unread w' = unread w"
    and write_returns: "st_write io bs w \<noteq> (Panic, w')"
    and now_moves_nothing: "st_now io w = (t, w') \<Longrightarrow> accepted w' = accepted w \<and> unread w' = unread w"

text \<open>
  Streams on which the copy makes progress: an interruption uses up one of finitely many \<open>stalls\<close>,
  no other error occurs and a write of a non-empty slice accepts something.
\<close>

locale live_streams = copy_streams io unread accepted
  for io :: "'w copy_io" and unread :: "'w \<Rightarrow> byte list" and accepted :: "'w \<Rightarrow> byte list" +
  fixes stalls :: "'w \<Rightarrow> nat"
  assumes read_stalls: "st_read io n w = (Err e, w') \<Longrightarrow>
      ioe_kind e = IoInterrupted \<and> stalls w' < stalls w"
    and write_stalls: "st_write io bs w = (Err e, w') \<Longrightarrow>
      ioe_kind e = IoInterrupted \<and> stalls w' < stalls w"
    and read_keeps_stalls: "st_read io n w = (Ok bs, w') \<Longrightarrow> stalls w' \<le> stalls w"
    and write_keeps_stalls: "st_write io bs w = (Ok n, w') \<Longrightarrow> stalls w' \<le> stalls w"
    and write_progress: "st_write io bs w = (Ok n, w') \<Longrightarrow> bs \<noteq> [] \<Longrightarrow> 0 < n"
    and now_keeps_stalls: "st_now io w = (t, w') \<Longrightarrow> stalls w' \<le> stalls w"

section \<open>What the copy keeps\<close>

text \<open>
  \<open>copied_so_far\<close> relates a state to the start of the copy: \<open>pending\<close> is read and not yet written,
  the writer holds the copied prefix, and the byte budget is down by exactly that much.
\<close>

definition bytes_charged ::
  "'b resource_budget \<Rightarrow> nat \<Rightarrow> ('b, 'q) copy_budget \<Rightarrow> ('b, 'q) copy_budget \<Rightarrow> bool" where
  "bytes_charged rb n b0 b \<longleftrightarrow>
     cb_deadline b = cb_deadline b0 \<and>
     (case (cb_bytes b0, cb_bytes b) of
        (None, None) \<Rightarrow> True
      | (Some c0, Some c) \<Rightarrow>
          n \<le> rb_remaining rb c0 \<and> rb_remaining rb c = rb_remaining rb c0 - n \<and>
          rb_limit rb c = rb_limit rb c0 \<and> rb_resource rb c = rb_resource rb c0
      | _ \<Rightarrow> False)"

definition copied_so_far ::
  "'b resource_budget \<Rightarrow> ('w \<Rightarrow> byte list) \<Rightarrow> ('w \<Rightarrow> byte list) \<Rightarrow> ('b, 'q, 'w) copy_state \<Rightarrow>
   byte list \<Rightarrow> ('b, 'q, 'w) copy_state \<Rightarrow> bool" where
  "copied_so_far rb unread accepted s0 pending s \<longleftrightarrow>
     (\<exists>written. unread (cs_world s0) = written @ pending @ unread (cs_world s) \<and>
        cs_copied s = length written \<and>
        accepted (cs_world s) = accepted (cs_world s0) @ written) \<and>
     bytes_charged rb (cs_copied s) (cs_budget s0) (cs_budget s)"

end
