(* ===== verification/Copy_Correct.thy ===== *)
theory Copy_Correct
  imports Copy_Budget Host_Files
begin

text \<open>
  Correctness of the bounded copy of \<^theory_text>\<open>Copy_Budget\<close>: the locale \<open>copy_streams\<close> carries the
  exactness of every exit, phase by phase over the program text, \<open>live_streams\<close> the termination, and
  the scripted streams at the end interpret both.
\<close>

section \<open>Budget steps\<close>

lemma budget_consume:
  assumes "budget_laws rb" and "n \<le> rb_remaining rb b"
  obtains b' where "rb_try_consume rb b n = (Ok (), b')" "rb_remaining rb b' = rb_remaining rb b - n"
    "rb_limit rb b' = rb_limit rb b" "rb_resource rb b' = rb_resource rb b"
  using assms by (cases "rb_try_consume rb b n") (auto simp: budget_laws_def, metis fst_conv snd_conv)

lemma budget_refuse:
  "budget_laws rb \<Longrightarrow> rb_remaining rb b < n \<Longrightarrow>
   rb_try_consume rb b n =
     (Err \<lparr>ib_resource = rb_resource rb b, ib_limit = rb_limit rb b,
           ib_remaining = rb_remaining rb b, ib_requested = n\<rparr>, b)"
  by (simp add: budget_laws_def)

text \<open>The limit error of a copy whose budget of \<open>b\<close> bytes is used up, with \<open>excess\<close> bytes too many.\<close>

definition over_limit :: "'b resource_budget \<Rightarrow> 'b \<Rightarrow> usize \<Rightarrow> io_error" where
  "over_limit rb b excess =
     resource_error (limit_error_new (rb_resource rb b) (rb_limit rb b) 0 excess)"

lemma bytes_charged_deadline: "bytes_charged rb n b0 b \<Longrightarrow> cb_deadline b = cb_deadline b0"
  by (simp add: bytes_charged_def)

text \<open>The bytes still to write fit the byte budget, which keeps \<open>k\<close> bytes after them.\<close>

definition fits :: "'b resource_budget \<Rightarrow> nat \<Rightarrow> byte list \<Rightarrow> ('b, 'q) copy_budget \<Rightarrow> bool" where
  "fits rb k source b =
     (case cb_bytes b of None \<Rightarrow> True | Some c \<Rightarrow> rb_remaining rb c = length source + k)"

lemma charge_bytes_fits:
  assumes "budget_laws rb" and "bytes_charged rb n b0 b" and "fits rb k source b" and "m \<le> length source"
  obtains b' where "charge_bytes rb b m = (Ok (), b')" "bytes_charged rb (n + m) b0 b'"
    "fits rb k (drop m source) b'"
proof (cases "cb_bytes b")
  case None
  then show ?thesis
    using assms that by (auto simp: charge_bytes_def bytes_charged_def fits_def split: option.splits)
next
  case (Some c)
  then have "m \<le> rb_remaining rb c"
    using assms by (simp add: fits_def)
  then obtain c' where "rb_try_consume rb c m = (Ok (), c')" "rb_remaining rb c' = rb_remaining rb c - m"
    "rb_limit rb c' = rb_limit rb c" "rb_resource rb c' = rb_resource rb c"
    using budget_consume [OF assms(1)] by metis
  then show ?thesis
    using Some assms that [of "b\<lparr>cb_bytes := Some c'\<rparr>"]
    by (auto simp: charge_bytes_def bytes_charged_def fits_def split: option.splits)
qed

context copy_streams
begin

definition stream_fault :: "io_error \<Rightarrow> bool" where
  "stream_fault e \<longleftrightarrow>
     ioe_kind e \<noteq> IoInterrupted \<and>
     ((\<exists>n w w'. st_read io n w = (Err e, w')) \<or> (\<exists>bs w w'. st_write io bs w = (Err e, w')))"

definition copy_exit ::
  "'c resource_budget \<Rightarrow> ('c, 'q, 'w) copy_state \<Rightarrow> stop \<Rightarrow> ('c, 'q, 'w) copy_state \<Rightarrow> bool" where
  "copy_exit rb s0 e s \<longleftrightarrow>
     (\<exists>pending. copied_so_far rb unread accepted s0 pending s) \<and>
     (case e of
        OutOfFuel \<Rightarrow> True
      | Raised err \<Rightarrow>
          stream_fault err \<or>
          err = io_error_of IoTimedOut \<and> cb_deadline (cs_budget s0) \<noteq> None \<or>
          err = io_error_of IoWriteZero \<and> (\<exists>bs w w'. bs \<noteq> [] \<and> st_write io bs w = (Ok 0, w')) \<or>
          (\<exists>b excess. cb_bytes (cs_budget s0) = Some b \<and> cs_copied s = rb_remaining rb b \<and>
             0 < excess \<and> rb_remaining rb b + excess \<le> length (unread (cs_world s0)) \<and>
             err = over_limit rb b excess))"

abbreviation "so_far rb s0 pending s \<equiv> copied_so_far rb unread accepted s0 pending s"

lemma tick_keeps:
  assumes "so_far rb s0 p s"
  shows "outcome (copy_tick io) (\<lambda>_ s'. so_far rb s0 p s' \<and>
        cs_budget s' = cs_budget s \<and> cs_copied s' = cs_copied s)
     (copy_exit rb s0) (\<lambda>_. False) s"
proof (cases "st_now io (cs_world s)")
  case (Pair t w')
  have "so_far rb s0 p (s\<lparr>cs_world := w'\<rparr>)"
    using assms now_moves_nothing [OF Pair] by (auto simp: copied_so_far_def)
  then show ?thesis
    using Pair assms bytes_charged_deadline [of rb "cs_copied s" "cs_budget s0" "cs_budget s"]
    by (auto simp: outcome_def copy_tick_def check_deadline_at_def copy_exit_def copied_so_far_def
        split: option.splits)
qed

lemma stream_read_keeps:
  assumes "so_far rb s0 [] s"
  shows "outcome (stream_read io n)
     (\<lambda>bs s'. so_far rb s0 bs s' \<and> length bs \<le> n \<and> (bs = [] \<longrightarrow> 0 < n \<longrightarrow> unread (cs_world s') = []))
     (\<lambda>e s'. so_far rb s0 [] s' \<and> (ioe_kind e \<noteq> IoInterrupted \<longrightarrow> stream_fault e)) (\<lambda>_. False) s"
proof (cases "st_read io n (cs_world s)")
  case (Pair r w')
  show ?thesis
  proof (cases r)
    case (Ok bs)
    then show ?thesis
      using Pair assms read_ok [of n "cs_world s" bs w'] read_end [of n "cs_world s" w']
      by (auto simp: outcome_def stream_read_def copied_so_far_def Let_def)
  next
    case (Err e)
    then show ?thesis
      using Pair assms read_err [of n "cs_world s" e w']
      by (auto simp: outcome_def stream_read_def copied_so_far_def Let_def stream_fault_def)
  next
    case Panic
    then show ?thesis using Pair read_returns by blast
  qed
qed

lemma record_write:
  assumes "budget_laws rb" and "so_far rb s0 (source @ later) s" and "fits rb k source (cs_budget s)"
    and "length (unread (cs_world s0)) \<le> usize_max"
    and "st_write io source (cs_world s) = (Ok n, w')"
  obtains b' where "charge_bytes rb (cs_budget s) n = (Ok (), b')"
    "so_far rb s0 (drop n source @ later)
       (s\<lparr>cs_world := w', cs_budget := b', cs_copied := saturating_add (cs_copied s) n\<rparr>)"
    "fits rb k (drop n source) b'"
proof -
  from assms(2) obtain written where
    w: "unread (cs_world s0) = written @ (source @ later) @ unread (cs_world s)"
      "cs_copied s = length written" "accepted (cs_world s) = accepted (cs_world s0) @ written"
      and charged: "bytes_charged rb (cs_copied s) (cs_budget s0) (cs_budget s)"
    by (auto simp: copied_so_far_def)
  have n: "n \<le> length source" "accepted w' = accepted (cs_world s) @ take n source"
    "unread w' = unread (cs_world s)"
    using write_ok [OF assms(5)] by auto
  obtain b' where b': "charge_bytes rb (cs_budget s) n = (Ok (), b')"
    "bytes_charged rb (cs_copied s + n) (cs_budget s0) b'" "fits rb k (drop n source) b'"
    using charge_bytes_fits [OF assms(1) charged assms(3) n(1)] .
  have "saturating_add (cs_copied s) n = cs_copied s + n"
    using assms(4) w(1,2) n(1) by (intro saturating_add_eq) simp
  then have "so_far rb s0 (drop n source @ later)
       (s\<lparr>cs_world := w', cs_budget := b', cs_copied := saturating_add (cs_copied s) n\<rparr>)"
    using w n b'(2) by (auto simp: copied_so_far_def intro!: exI [of _ "written @ take n source"])
  then show ?thesis
    using that b' by blast
qed

lemma write_turn_keeps:
  assumes laws: "budget_laws rb" and "source \<noteq> []" and size: "length (unread (cs_world s0)) \<le> usize_max"
    and start: "so_far rb s0 (source @ later) s" "fits rb k source (cs_budget s)"
  shows "outcome (write_turn rb io source)
     (\<lambda>rest s'. so_far rb s0 (rest @ later) s' \<and> fits rb k rest (cs_budget s')) (copy_exit rb s0)
     (\<lambda>_. False) s"
  unfolding write_turn_def
proof (rule outcome_seqI)
  show "outcome (copy_tick io)
     (\<lambda>_ s'. so_far rb s0 (source @ later) s' \<and> fits rb k source (cs_budget s'))
     (copy_exit rb s0) (\<lambda>_. False) s"
    using tick_keeps [OF start(1)] start(2) by (auto elim: outcome_conseq)
next
  fix s1 assume s1: "so_far rb s0 (source @ later) s1 \<and> fits rb k source (cs_budget s1)"
  show "outcome (bind (caught (stream_write io source)) (write_matched rb io source))
     (\<lambda>rest s'. so_far rb s0 (rest @ later) s' \<and> fits rb k rest (cs_budget s')) (copy_exit rb s0)
     (\<lambda>_. False) s1"
  proof (cases "st_write io source (cs_world s1)")
    case w: (Pair r w')
    show ?thesis
    proof (cases r)
      case (Ok n)
      obtain b' where b': "charge_bytes rb (cs_budget s1) n = (Ok (), b')"
        "so_far rb s0 (drop n source @ later)
           (s1\<lparr>cs_world := w', cs_budget := b', cs_copied := saturating_add (cs_copied s1) n\<rparr>)"
        "fits rb k (drop n source) b'"
        using record_write [OF laws _ _ size, of source later s1 k n w'] s1 w Ok by metis
      have "n \<le> length source"
        using write_ok w Ok by blast
      show ?thesis
      proof (cases "n = 0")
        case True
        then have "so_far rb s0 (source @ later) (s1\<lparr>cs_world := w'\<rparr>)"
          using s1 write_ok [of source "cs_world s1" n w'] w Ok by (auto simp: copied_so_far_def)
        then show ?thesis
          using w Ok True \<open>source \<noteq> []\<close>
          by (auto simp: outcome_def stream_write_def write_matched_def bind_def caught_def fail_def copy_exit_def)
      next
        case False
        let ?s = "s1\<lparr>cs_world := w', cs_budget := b', cs_copied := saturating_add (cs_copied s1) n\<rparr>"
        have "bind (caught (stream_write io source)) (write_matched rb io source) s1 =
           seq (copy_tick io) (ret (drop n source)) ?s"
          using w Ok False b'(1) \<open>n \<le> length source\<close>
          by (simp add: stream_write_def write_matched_def bind_def caught_def seq_def charge_written_def modify_def)
        moreover have "outcome (seq (copy_tick io) (ret (drop n source)))
          (\<lambda>rest s'. so_far rb s0 (rest @ later) s' \<and> fits rb k rest (cs_budget s')) (copy_exit rb s0)
          (\<lambda>_. False) ?s"
          using tick_keeps [OF b'(2)] b'(3) by (auto elim: outcome_conseq)
        ultimately show ?thesis
          by (simp add: outcome_def)
      qed
    next
      case (Err e)
      have "so_far rb s0 (source @ later) (s1\<lparr>cs_world := w'\<rparr>)"
        using s1 write_err [of source "cs_world s1" e w'] w Err by (auto simp: copied_so_far_def)
      moreover have "ioe_kind e \<noteq> IoInterrupted \<Longrightarrow> stream_fault e"
        using w Err by (auto simp: stream_fault_def)
      ultimately show ?thesis
        using s1 w Err
        by (auto simp: outcome_def stream_write_def write_matched_def bind_def caught_def ret_def fail_def copy_exit_def)
    next
      case Panic
      then show ?thesis using w write_returns by blast
    qed
  qed
qed

lemma write_all_keeps:
  assumes "budget_laws rb" and "length (unread (cs_world s0)) \<le> usize_max"
  shows "so_far rb s0 (source @ later) s \<Longrightarrow> fits rb k source (cs_budget s) \<Longrightarrow>
    outcome (write_all_with_deadline rb io fuel source)
      (\<lambda>_ s'. so_far rb s0 later s' \<and> fits rb k [] (cs_budget s')) (copy_exit rb s0)
      (\<lambda>_. False) s"
proof (induction fuel arbitrary: source s)
  case 0
  then show ?case by (auto simp: copy_exit_def)
next
  case (Suc fuel)
  show ?case
  proof (cases "source = []")
    case False
    show ?thesis
      unfolding write_all_with_deadline.simps if_not_P [OF False]
      by (rule outcome_bindI [OF write_turn_keeps [OF assms(1) False assms(2) Suc.prems]])
        (use Suc.IH in blast)
  qed (use Suc.prems in simp)
qed

lemma permitted_fits:
  assumes "permitted = permitted_bytes rb b (length bytes)"
  obtains k where "fits rb k (take permitted bytes) b" "permitted \<le> length bytes"
    "permitted < length bytes \<Longrightarrow> k = 0 \<and> cb_bytes b \<noteq> None"
proof (cases "cb_bytes b")
  case None
  then show ?thesis
    using assms that [of 0] by (simp add: fits_def permitted_bytes_def remaining_bytes_def)
next
  case (Some c)
  then show ?thesis
    using assms that [of "rb_remaining rb c - permitted"]
    by (auto simp: fits_def permitted_bytes_def remaining_bytes_def)
qed

lemma exhausted_exits:
  assumes laws: "budget_laws rb" and "so_far rb s0 later s" and "fits rb 0 [] (cs_budget s)"
    and "later \<noteq> []" and "cb_bytes (cs_budget s) \<noteq> None"
  shows "outcome (exhausted rb (length later)) Q (copy_exit rb s0) (\<lambda>_. False) s"
proof -
  from assms obtain c where c: "cb_bytes (cs_budget s) = Some c" "rb_remaining rb c = 0"
    by (auto simp: fits_def)
  moreover from this assms(2) obtain c0 where c0: "cb_bytes (cs_budget s0) = Some c0"
    "cs_copied s = rb_remaining rb c0" "rb_limit rb c = rb_limit rb c0"
    "rb_resource rb c = rb_resource rb c0"
    by (auto simp: copied_so_far_def bytes_charged_def split: option.splits)
  moreover have "rb_remaining rb c0 + length later \<le> length (unread (cs_world s0))"
    using assms(2) c0(2) by (auto simp: copied_so_far_def)
  then have "copy_exit rb s0 (Raised (over_limit rb c0 (length later))) s"
    using c0(1,2) assms(2,4) by (auto simp: copy_exit_def)
  moreover have same: "s\<lparr>cs_budget := cs_budget s\<lparr>cb_bytes := Some c\<rparr>\<rparr> = s"
    using c(1) by simp
  ultimately show ?thesis
    using budget_refuse [OF laws, of c "length later"] \<open>later \<noteq> []\<close>
    by (simp add: outcome_def exhausted_def copied_bytes_exhausted_def budget_error_def over_limit_def
        same)
qed

lemma write_permitted_keeps:
  assumes laws: "budget_laws rb" and size: "length (unread (cs_world s0)) \<le> usize_max"
    and start: "so_far rb s0 bytes s" "length bytes \<le> copy_chunk_size"
  shows "outcome (write_permitted rb io fuel bytes) (\<lambda>r s'. r = None \<and> so_far rb s0 [] s')
     (copy_exit rb s0) (\<lambda>_. False) s"
proof -
  define permitted where "permitted = permitted_bytes rb (cs_budget s) (length bytes)"
  obtain k where k: "fits rb k (take permitted bytes) (cs_budget s)" "permitted \<le> length bytes"
    "permitted < length bytes \<Longrightarrow> k = 0 \<and> cb_bytes (cs_budget s) \<noteq> None"
    using permitted_fits [OF permitted_def] by metis
  let ?later = "drop permitted bytes"
  have "outcome (write_all_with_deadline rb io fuel (take permitted bytes))
     (\<lambda>_ s'. so_far rb s0 ?later s' \<and> fits rb k [] (cs_budget s')) (copy_exit rb s0) (\<lambda>_. False) s"
    using write_all_keeps [OF laws size _ k(1)] start(1) by simp
  then have "outcome (seq (write_all_with_deadline rb io fuel (take permitted bytes))
          (if permitted < length bytes then exhausted rb (length bytes - permitted) else ret None))
     (\<lambda>r s'. r = None \<and> so_far rb s0 [] s') (copy_exit rb s0) (\<lambda>_. False) s"
  proof (rule outcome_seqI)
    fix s1 assume s1: "so_far rb s0 ?later s1 \<and> fits rb k [] (cs_budget s1)"
    have "(cb_bytes (cs_budget s1) = None) = (cb_bytes (cs_budget s) = None)"
      using s1 start(1) by (auto simp: copied_so_far_def bytes_charged_def split: option.splits)
    then show "outcome (if permitted < length bytes then exhausted rb (length bytes - permitted) else ret None)
     (\<lambda>r s'. r = None \<and> so_far rb s0 [] s') (copy_exit rb s0) (\<lambda>_. False) s1"
      using s1 k(2,3) exhausted_exits [OF laws, of s0 ?later s1] by auto
  qed
  then show ?thesis
    using start(2) k(2)
    by (cases "permitted < length bytes")
      (simp_all add: write_permitted_def del: outcome_seq flip: permitted_def)
qed

lemma read_matched_keeps:
  assumes laws: "budget_laws rb" and size: "length (unread (cs_world s0)) \<le> usize_max"
    and start: "so_far rb s0 bytes s" "length bytes \<le> copy_chunk_size"
      "bytes = [] \<Longrightarrow> unread (cs_world s) = []"
  shows "outcome (read_matched rb io fuel (Ok bytes))
     (\<lambda>r s'. so_far rb s0 [] s' \<and>
        (r = None \<or> r = Some (cs_copied s') \<and> cs_copied s' = length (unread (cs_world s0))))
     (copy_exit rb s0) (\<lambda>_. False) s"
proof (cases "bytes = []")
  case True
  from start(3) [OF True] start(1) have "cs_copied s = length (unread (cs_world s0))"
    by (auto simp: copied_so_far_def True)
  with tick_keeps [OF start(1)] show ?thesis
    by (auto simp: read_matched_def True elim!: outcome_conseq)
next
  case False
  have "outcome (seq (copy_tick io) (write_permitted rb io fuel bytes))
     (\<lambda>r s'. r = None \<and> so_far rb s0 [] s') (copy_exit rb s0) (\<lambda>_. False) s"
  proof (rule outcome_seqI)
    show "outcome (copy_tick io) (\<lambda>_. so_far rb s0 bytes) (copy_exit rb s0) (\<lambda>_. False) s"
      using tick_keeps [OF start(1)] by (rule outcome_conseq) simp_all
  qed (rule write_permitted_keeps [OF laws size _ start(2)])
  then show ?thesis
    unfolding read_matched_def by (auto simp: False elim!: outcome_conseq)
qed

lemma read_capacity_bounds: "0 < read_capacity rb b copy_chunk_size"
  "read_capacity rb b copy_chunk_size \<le> copy_chunk_size"
  by (auto simp: read_capacity_def copy_chunk_size_def saturating_add_def usize_max_def
      split: option.split)

lemma copy_turn_keeps:
  assumes laws: "budget_laws rb" and size: "length (unread (cs_world s0)) \<le> usize_max"
    and start: "so_far rb s0 [] s"
  shows "outcome (copy_turn rb io fuel)
     (\<lambda>r s'. so_far rb s0 [] s' \<and>
        (r = None \<or> r = Some (cs_copied s') \<and> cs_copied s' = length (unread (cs_world s0))))
     (copy_exit rb s0) (\<lambda>_. False) s"
  unfolding copy_turn_def
proof (rule outcome_seqI)
  show "outcome (copy_tick io) (\<lambda>_. so_far rb s0 []) (copy_exit rb s0) (\<lambda>_. False) s"
    using tick_keeps [OF start] by (rule outcome_conseq) simp_all
next
  fix s1 assume s1: "so_far rb s0 [] s1"
  define n where "n = read_capacity rb (cs_budget s1) copy_chunk_size"
  have n: "0 < n" "n \<le> copy_chunk_size"
    by (simp_all add: n_def read_capacity_bounds)
  have "outcome (caught (stream_read io n))
     (\<lambda>r s'. case r of Ok bs \<Rightarrow> so_far rb s0 bs s' \<and> length bs \<le> copy_chunk_size \<and>
                                 (bs = [] \<longrightarrow> unread (cs_world s') = [])
      | Err e \<Rightarrow> so_far rb s0 [] s' \<and> (ioe_kind e \<noteq> IoInterrupted \<longrightarrow> stream_fault e)
      | Panic \<Rightarrow> False) (copy_exit rb s0) (\<lambda>_. False) s1"
    using stream_read_keeps [OF s1, of n] n by (auto elim!: outcome_conseq)
  then have "outcome (bind (caught (stream_read io n)) (read_matched rb io fuel))
     (\<lambda>r s'. so_far rb s0 [] s' \<and>
        (r = None \<or> r = Some (cs_copied s') \<and> cs_copied s' = length (unread (cs_world s0))))
     (copy_exit rb s0) (\<lambda>_. False) s1"
  proof (rule outcome_bindI)
    fix r s2
    assume "case r of Ok bs \<Rightarrow> so_far rb s0 bs s2 \<and> length bs \<le> copy_chunk_size \<and>
                                 (bs = [] \<longrightarrow> unread (cs_world s2) = [])
      | Err e \<Rightarrow> so_far rb s0 [] s2 \<and> (ioe_kind e \<noteq> IoInterrupted \<longrightarrow> stream_fault e)
      | Panic \<Rightarrow> False"
    then show "outcome (read_matched rb io fuel r)
     (\<lambda>r s'. so_far rb s0 [] s' \<and>
        (r = None \<or> r = Some (cs_copied s') \<and> cs_copied s' = length (unread (cs_world s0))))
     (copy_exit rb s0) (\<lambda>_. False) s2"
      using read_matched_keeps [OF laws size]
      by (cases r) (auto simp: read_matched_def [of _ _ _ "Err _"] copy_exit_def)
  qed
  then show "outcome (bind (gets (\<lambda>s. read_capacity rb (cs_budget s) copy_chunk_size))
       (\<lambda>capacity. bind (caught (stream_read io capacity)) (read_matched rb io fuel)))
     (\<lambda>r s'. so_far rb s0 [] s' \<and>
        (r = None \<or> r = Some (cs_copied s') \<and> cs_copied s' = length (unread (cs_world s0))))
     (copy_exit rb s0) (\<lambda>_. False) s1"
    by (simp add: n_def)
qed

lemma copy_keeps:
  assumes laws: "budget_laws rb" and size: "length (unread (cs_world s0)) \<le> usize_max"
  shows "so_far rb s0 [] s \<Longrightarrow>
    outcome (copy_with_now rb io fuel)
     (\<lambda>n s'. so_far rb s0 [] s' \<and> n = cs_copied s' \<and> n = length (unread (cs_world s0)))
     (copy_exit rb s0) (\<lambda>_. False) s"
proof (induction fuel arbitrary: s)
  case 0
  then show ?case by (auto simp: copy_exit_def)
next
  case (Suc fuel)
  show ?case
    unfolding copy_with_now.simps
    by (rule outcome_bindI [OF copy_turn_keeps [OF laws size Suc.prems]])
      (use Suc.IH in \<open>auto split: option.split\<close>)
qed

end

context live_streams
begin

abbreviation "load s \<equiv> stalls (cs_world s) + length (unread (cs_world s))"

lemma tick_live:
  "outcome (copy_tick io)
     (\<lambda>_ s'. stalls (cs_world s') \<le> stalls (cs_world s) \<and> unread (cs_world s') = unread (cs_world s))
     (\<lambda>e _. e \<noteq> OutOfFuel) (\<lambda>_. True) s"
  using now_keeps_stalls [of "cs_world s"] now_moves_nothing [of "cs_world s"]
  by (auto simp: outcome_def copy_tick_def check_deadline_at_def split: prod.split option.split)

lemma write_matched_live:
  assumes "source \<noteq> []" and "st_write io source w = (r, w')" and "cs_world s = w'"
  shows "outcome (write_matched rb io source r)
     (\<lambda>rest s'. stalls (cs_world s') + length rest < stalls w + length source \<and>
        stalls (cs_world s') \<le> stalls w \<and> unread (cs_world s') = unread w)
     (\<lambda>e _. e \<noteq> OutOfFuel) (\<lambda>_. True) s"
proof (cases r)
  case (Ok n)
  have n: "0 < n" "n \<le> length source" "stalls w' \<le> stalls w" "unread w' = unread w"
    using assms(1,2) Ok write_progress write_keeps_stalls write_ok by metis+
  have "outcome (charge_written rb n) (\<lambda>_ s'. cs_world s' = w') (\<lambda>e _. e \<noteq> OutOfFuel) (\<lambda>_. True) s"
    using assms(3) by (auto simp: outcome_def charge_written_def charge_bytes_def map_err_def
        split: prod.split result.split option.split)
  then show ?thesis
    unfolding write_matched_def Ok
    using n tick_live by (auto elim!: outcome_conseq intro!: outcome_conseq [OF tick_live])
next
  case (Err e)
  then show ?thesis
    using assms write_stalls [of source w e w'] write_err [of source w e w']
    by (auto simp: write_matched_def)
qed (simp add: write_matched_def)

lemma write_turn_live:
  fixes s :: "('b, 'q, 'w) copy_state"
  assumes "source \<noteq> []"
  shows "outcome (write_turn rb io source)
     (\<lambda>rest s'. stalls (cs_world s') + length rest < stalls (cs_world s) + length source \<and>
        stalls (cs_world s') \<le> stalls (cs_world s) \<and> unread (cs_world s') = unread (cs_world s))
     (\<lambda>e _. e \<noteq> OutOfFuel) (\<lambda>_. True) s"
  unfolding write_turn_def
proof (rule outcome_seqI [OF tick_live])
  fix s1 :: "('b, 'q, 'w) copy_state"
  assume s1: "stalls (cs_world s1) \<le> stalls (cs_world s) \<and> unread (cs_world s1) = unread (cs_world s)"
  show "outcome (bind (caught (stream_write io source)) (write_matched rb io source))
     (\<lambda>rest s'. stalls (cs_world s') + length rest < stalls (cs_world s) + length source \<and>
        stalls (cs_world s') \<le> stalls (cs_world s) \<and> unread (cs_world s') = unread (cs_world s))
     (\<lambda>e _. e \<noteq> OutOfFuel) (\<lambda>_. True) s1"
  proof (cases "st_write io source (cs_world s1)")
    case (Pair r w')
    from write_matched_live [OF assms Pair, of "s1\<lparr>cs_world := w'\<rparr>" rb] s1 show ?thesis
      using Pair by (auto simp: stream_write_def outcome_def [of "stream_write io source"] elim!: outcome_conseq split: result.split)
  qed
qed

lemma write_all_live:
  "stalls (cs_world s) + length source \<le> fuel \<Longrightarrow>
   outcome (write_all_with_deadline rb io fuel source)
     (\<lambda>_ s'. stalls (cs_world s') \<le> stalls (cs_world s) \<and> unread (cs_world s') = unread (cs_world s))
     (\<lambda>e _. e \<noteq> OutOfFuel) (\<lambda>_. True) s"
proof (induction fuel arbitrary: source s)
  case (Suc fuel)
  show ?case
  proof (cases "source = []")
    case False
    show ?thesis
      unfolding write_all_with_deadline.simps if_not_P [OF False]
      by (rule outcome_bindI [OF write_turn_live [OF False]], rule outcome_conseq [OF Suc.IH])
        (use Suc.prems in auto)
  qed simp
qed simp

lemma exhausted_live: "outcome (exhausted rb n) Q (\<lambda>e _. e \<noteq> OutOfFuel) (\<lambda>_. True) s"
  by (auto simp: outcome_def exhausted_def split: prod.split result.split)

lemma read_matched_live:
  fixes s :: "('b, 'q, 'w) copy_state"
  assumes "st_read io n w = (r, w')" and "0 < n" and "cs_world s = w'"
    and "stalls w + length (unread w) \<le> fuel"
  shows "outcome (read_matched rb io fuel r)
     (\<lambda>r s'. r = None \<longrightarrow> load s' < stalls w + length (unread w)) (\<lambda>e _. e \<noteq> OutOfFuel) (\<lambda>_. True) s"
proof (cases r)
  case (Ok bs)
  have bs: "unread w = bs @ unread w'" "stalls w' \<le> stalls w"
    using assms(1) Ok read_ok read_keeps_stalls by blast+
  show ?thesis
  proof (cases "bs = []")
    case True
    then show ?thesis
      by (auto simp: read_matched_def Ok intro: outcome_conseq [OF tick_live])
  next
    case False
    then obtain m where m: "length bs = Suc m" by (cases bs) auto
    have "outcome (write_permitted rb io fuel bs) (\<lambda>_ s'. load s' < stalls w + length (unread w))
       (\<lambda>e _. e \<noteq> OutOfFuel) (\<lambda>_. True) s1"
      if s1: "stalls (cs_world s1) \<le> stalls w'" "unread (cs_world s1) = unread w'"
      for s1 :: "('b, 'q, 'w) copy_state"
    proof -
      define k where "k = permitted_bytes rb (cs_budget s1) (length bs)"
      have "stalls (cs_world s1) + length (take k bs) \<le> fuel"
        using assms(4) bs s1(1) by simp
      note write_all_live [OF this, of rb]
      then have "outcome (seq (write_all_with_deadline rb io fuel (take k bs))
            (if k < length bs then exhausted rb (length bs - k) else ret (None :: u64 option)))
         (\<lambda>_ s'. load s' < stalls w + length (unread w)) (\<lambda>e _. e \<noteq> OutOfFuel) (\<lambda>_. True) s1"
        by (rule outcome_seqI)
          (use s1 bs m exhausted_live in auto)
      then show ?thesis
        by (cases "k < length bs") (simp_all add: write_permitted_def del: outcome_seq flip: k_def)
    qed
    then have "outcome (seq (copy_tick io) (write_permitted rb io fuel bs))
       (\<lambda>_ s'. load s' < stalls w + length (unread w)) (\<lambda>e _. e \<noteq> OutOfFuel) (\<lambda>_. True) s"
      by (intro outcome_seqI [OF tick_live]) (use assms(3) in auto)
    then show ?thesis
      by (auto simp: read_matched_def Ok False elim!: outcome_conseq)
  qed
next
  case (Err e)
  then show ?thesis
    using assms read_stalls [of n w e w'] read_err [of n w e w'] by (auto simp: read_matched_def)
qed (simp add: read_matched_def)

lemma copy_turn_live:
  fixes s :: "('b, 'q, 'w) copy_state"
  assumes "load s \<le> fuel"
  shows "outcome (copy_turn rb io fuel) (\<lambda>r s'. r = None \<longrightarrow> load s' < load s)
     (\<lambda>e _. e \<noteq> OutOfFuel) (\<lambda>_. True) s"
  unfolding copy_turn_def
proof (rule outcome_seqI [OF tick_live])
  fix s1 :: "('b, 'q, 'w) copy_state"
  assume s1: "stalls (cs_world s1) \<le> stalls (cs_world s) \<and> unread (cs_world s1) = unread (cs_world s)"
  define n where "n = read_capacity rb (cs_budget s1) copy_chunk_size"
  obtain r w' where r: "st_read io n (cs_world s1) = (r, w')" by force
  have "outcome (read_matched rb io fuel r) (\<lambda>r s'. r = None \<longrightarrow> load s' < load s1)
     (\<lambda>e _. e \<noteq> OutOfFuel) (\<lambda>_. True) (s1\<lparr>cs_world := w'\<rparr>)"
    using read_matched_live [OF r, of "s1\<lparr>cs_world := w'\<rparr>" fuel rb]
      read_capacity_bounds(1) [of rb "cs_budget s1"] s1 assms
    by (simp add: n_def)
  then have "outcome (read_matched rb io fuel r) (\<lambda>r s'. r = None \<longrightarrow> load s' < load s)
     (\<lambda>e _. e \<noteq> OutOfFuel) (\<lambda>_. True) (s1\<lparr>cs_world := w'\<rparr>)"
    using s1 by (auto elim!: outcome_conseq)
  then show "outcome (bind (gets (\<lambda>s. read_capacity rb (cs_budget s) copy_chunk_size))
       (\<lambda>capacity. bind (caught (stream_read io capacity)) (read_matched rb io fuel)))
     (\<lambda>r s'. r = None \<longrightarrow> load s' < load s) (\<lambda>e _. e \<noteq> OutOfFuel) (\<lambda>_. True) s1"
    using r by (cases r) (simp_all add: outcome_def [of "stream_read io n"] stream_read_def flip: n_def)
qed

lemma copy_live:
  "load s < fuel \<Longrightarrow>
   outcome (copy_with_now rb io fuel) (\<lambda>_ _. True) (\<lambda>e _. e \<noteq> OutOfFuel) (\<lambda>_. True) s"
proof (induction fuel arbitrary: s)
  case (Suc fuel)
  show ?case
    unfolding copy_with_now.simps
    by (rule outcome_bindI [OF copy_turn_live])
      (use Suc in \<open>auto split: option.split\<close>)
qed simp

lemma no_fault: "\<not> stream_fault e"
  using read_stalls write_stalls by (auto simp: stream_fault_def)

end

section \<open>Scripted streams\<close>

text \<open>
  Streams that follow a schedule: each read and each write takes the next event, which transfers a
  bounded number of bytes or is an interruption; an empty schedule transfers all it can. The clock
  follows its own list of instants and then stands still.
\<close>

datatype io_event = Transfer nat | Interrupt

record script =
  sc_source :: "byte list"
  sc_sink :: "byte list"
  sc_reads :: "io_event list"
  sc_writes :: "io_event list"
  sc_clock :: "instant list"

definition scripted_read :: "usize \<Rightarrow> script \<Rightarrow> (byte list, io_error) result \<times> script" where
  "scripted_read n w =
     (case sc_reads w of
        Interrupt # es \<Rightarrow> (Err (io_error_of IoInterrupted), w\<lparr>sc_reads := es\<rparr>)
      | Transfer k # es \<Rightarrow>
          (Ok (take (min n (Suc k)) (sc_source w)),
           w\<lparr>sc_reads := es, sc_source := drop (min n (Suc k)) (sc_source w)\<rparr>)
      | [] \<Rightarrow> (Ok (take n (sc_source w)), w\<lparr>sc_source := drop n (sc_source w)\<rparr>))"

definition scripted_write :: "byte list \<Rightarrow> script \<Rightarrow> (usize, io_error) result \<times> script" where
  "scripted_write bs w =
     (case sc_writes w of
        Interrupt # es \<Rightarrow> (Err (io_error_of IoInterrupted), w\<lparr>sc_writes := es\<rparr>)
      | Transfer k # es \<Rightarrow>
          (Ok (min (length bs) (Suc k)),
           w\<lparr>sc_writes := es, sc_sink := sc_sink w @ take (min (length bs) (Suc k)) bs\<rparr>)
      | [] \<Rightarrow> (Ok (length bs), w\<lparr>sc_sink := sc_sink w @ bs\<rparr>))"

definition scripted_now :: "script \<Rightarrow> instant \<times> script" where
  "scripted_now w =
     (case sc_clock w of
        t # t' # ts \<Rightarrow> (t, w\<lparr>sc_clock := t' # ts\<rparr>)
      | [t] \<Rightarrow> (t, w)
      | [] \<Rightarrow> (0, w))"

definition scripted_io :: "script copy_io" where
  "scripted_io = \<lparr>st_read = scripted_read, st_write = scripted_write, st_now = scripted_now\<rparr>"

definition schedule :: "script \<Rightarrow> nat" where
  "schedule w = length (sc_reads w) + length (sc_writes w)"

interpretation scripted: live_streams scripted_io sc_source sc_sink schedule
  by unfold_locales
    (auto simp: scripted_io_def scripted_read_def scripted_write_def scripted_now_def schedule_def
      split: list.splits io_event.splits if_splits)

lemma start_so_far:
  "copied_so_far rb unread accepted (copy_start b w) [] (copy_start b w)"
  by (auto simp: copied_so_far_def copy_start_def bytes_charged_def split: option.split)

lemma copy_start_simps [simp]:
  "cs_world (copy_start b w) = w" "cs_budget (copy_start b w) = b" "cs_copied (copy_start b w) = 0"
  by (simp_all add: copy_start_def)

lemma charged_remaining:
  assumes "bytes_charged rb n b0 b"
  shows "remaining_bytes rb b = map_option (\<lambda>r. r - n) (remaining_bytes rb b0)"
    and "remaining_bytes rb b0 = Some r \<Longrightarrow> n \<le> r"
  using assms by (auto simp: bytes_charged_def remaining_bytes_def split: option.splits)

section \<open>Concrete runs\<close>

definition sample_script :: script where
  "sample_script =
     \<lparr>sc_source = [1, 2, 3, 4, 5], sc_sink = [9], sc_reads = [Transfer 1, Interrupt],
      sc_writes = [Transfer 0, Interrupt], sc_clock = [0, 0, 0, 7]\<rparr>"

definition byte_limit ::
  "u64 option \<Rightarrow> (instant \<times> duration) option \<Rightarrow> (resource_kind \<times> nat \<times> nat, unit) copy_budget" where
  "byte_limit lim deadline =
     \<lparr>cb_entries = None, cb_bytes = map_option (rb_new counter_budget CopiedBytes) lim,
      cb_open_directories = None, cb_max_depth = None, cb_deadline = deadline\<rparr>"


lemmas copy_run =
  copy_turn_def read_matched_def write_permitted_def write_turn_def write_matched_def copy_tick_def
  stream_read_def stream_write_def charge_written_def charge_bytes_def exhausted_def
  copied_bytes_exhausted_def permitted_bytes_def remaining_bytes_def read_capacity_def
  check_deadline_at_def budget_error_def bind_def seq_def caught_def ret_def fail_def modify_def
  gets_def panic_def scripted_io_def scripted_read_def scripted_write_def scripted_now_def
  copy_chunk_size_def saturating_add_def usize_max_def counter_budget_def copy_start_def
  sample_script_def byte_limit_def

lemma sample_copy_ok:
  "\<exists>s. copy_with_now counter_budget scripted_io (Suc (Suc (Suc (Suc (Suc (Suc 0))))))
     (copy_start (byte_limit (Some 5) None) sample_script) = (Ok 5, s)"
  by (simp add: copy_run)

lemma sample_copy_late:
  "\<exists>s. copy_with_now counter_budget scripted_io (Suc (Suc (Suc (Suc (Suc (Suc 0))))))
     (copy_start (byte_limit (Some 5) (Some (0, 7))) sample_script) =
     (Err (Raised (io_error_of IoTimedOut)), s)"
  by (simp add: copy_run)

section \<open>Properties\<close>

text \<open>
  C15: a successful copy is exact. On streams that keep the stream contract, when \<open>copy_with_now\<close>
  returns \<open>Ok n\<close>, the staging writer holds all bytes of the source in order after what it held
  before, the source is exhausted, \<open>n\<close> is the number of those bytes, they fit the byte limit, and the
  budget is charged with exactly \<open>n\<close>, whatever the sizes of partial reads and writes, interruptions
  included.
\<close>

theorem copy_ok_exact:
  assumes "copy_streams io unread accepted" and "budget_laws rb"
    and "length (unread w) \<le> usize_max"
    and "copy_with_now rb io fuel (copy_start b w) = (Ok n, s)"
  shows "accepted (cs_world s) = accepted w @ unread w \<and> unread (cs_world s) = [] \<and>
    n = length (unread w) \<and>
    remaining_bytes rb (cs_budget s) = map_option (\<lambda>r. r - n) (remaining_bytes rb b) \<and>
    (\<forall>r. remaining_bytes rb b = Some r \<longrightarrow> n \<le> r)"
proof -
  have size: "length (unread (cs_world (copy_start b w))) \<le> usize_max"
    using assms(3) by simp
  from outcomeD(1) [OF copy_streams.copy_keeps [OF assms(1,2) size start_so_far] assms(4)]
  have so_far: "copied_so_far rb unread accepted (copy_start b w) [] s"
    and n: "n = cs_copied s" "n = length (unread w)"
    by auto
  moreover from this have "bytes_charged rb n b (cs_budget s)"
    by (simp add: copied_so_far_def)
  ultimately show ?thesis
    using charged_remaining [of rb n b "cs_budget s"] by (auto simp: copied_so_far_def)
qed

theorem copy_ok_exact_witness:
  "\<exists>s. copy_with_now counter_budget scripted_io (Suc (Suc (Suc (Suc (Suc (Suc 0))))))
     (copy_start (byte_limit (Some 5) None) sample_script) = (Ok 5, s) \<and>
   sc_sink (cs_world s) = [9, 1, 2, 3, 4, 5] \<and> sc_source (cs_world s) = []"
proof -
  from sample_copy_ok obtain s where
    run: "copy_with_now counter_budget scripted_io (Suc (Suc (Suc (Suc (Suc (Suc 0))))))
     (copy_start (byte_limit (Some 5) None) sample_script) = (Ok 5, s)" by blast
  have "length (sc_source sample_script) \<le> usize_max"
    by (simp add: sample_script_def usize_max_def)
  from copy_ok_exact [OF scripted.copy_streams_axioms counter_budget_laws this run] run show ?thesis
    by (simp add: sample_script_def)
qed

text \<open>
  C16: a failed copy stages a prefix. When \<open>copy_with_now\<close> returns an error, for whatever reason, the
  writer holds a prefix of the source of some length \<open>k\<close> within the byte limit after what it held
  before, and the budget is charged with exactly \<open>k\<close>: no byte is duplicated, reordered, lost in
  between or written over the limit. The copy never panics: neither of the two expectations of the
  exhaustion path fails and no slice is out of range.
\<close>

theorem copy_failure_prefix:
  assumes "copy_streams io unread accepted" and "budget_laws rb"
    and "length (unread w) \<le> usize_max"
  shows "case copy_with_now rb io fuel (copy_start b w) of
      (Ok _, _) \<Rightarrow> True
    | (Err _, s) \<Rightarrow>
        (\<exists>k \<le> length (unread w).
           accepted (cs_world s) = accepted w @ take k (unread w) \<and>
           remaining_bytes rb (cs_budget s) = map_option (\<lambda>r. r - k) (remaining_bytes rb b) \<and>
           (\<forall>r. remaining_bytes rb b = Some r \<longrightarrow> k \<le> r))
    | (Panic, _) \<Rightarrow> False"
proof -
  have size: "length (unread (cs_world (copy_start b w))) \<le> usize_max"
    using assms(3) by simp
  have prefix: "\<exists>k \<le> length (unread w).
           accepted (cs_world s) = accepted w @ take k (unread w) \<and>
           remaining_bytes rb (cs_budget s) = map_option (\<lambda>r. r - k) (remaining_bytes rb b) \<and>
           (\<forall>r. remaining_bytes rb b = Some r \<longrightarrow> k \<le> r)"
    if "copied_so_far rb unread accepted (copy_start b w) p s" for p s
    using that charged_remaining [of rb "cs_copied s" b "cs_budget s"]
    by (intro exI [of _ "cs_copied s"]) (auto simp: copied_so_far_def)
  from copy_streams.copy_keeps [OF assms(1,2) size start_so_far, of fuel] show ?thesis
    using prefix copy_streams.copy_exit_def [OF assms(1)]
    by (fastforce simp: outcome_def split: prod.splits result.splits)
qed

theorem copy_failure_prefix_witness:
  "\<exists>s k. copy_with_now counter_budget scripted_io (Suc (Suc (Suc (Suc (Suc (Suc 0))))))
     (copy_start (byte_limit (Some 5) (Some (0, 7))) sample_script) =
     (Err (Raised (io_error_of IoTimedOut)), s) \<and>
   k \<le> 5 \<and> sc_sink (cs_world s) = [9] @ take k [1, 2, 3, 4, 5]"
proof -
  from sample_copy_late obtain s where
    run: "copy_with_now counter_budget scripted_io (Suc (Suc (Suc (Suc (Suc (Suc 0))))))
     (copy_start (byte_limit (Some 5) (Some (0, 7))) sample_script) =
     (Err (Raised (io_error_of IoTimedOut)), s)" by blast
  have "length (sc_source sample_script) \<le> usize_max"
    by (simp add: sample_script_def usize_max_def)
  from copy_failure_prefix [OF scripted.copy_streams_axioms counter_budget_laws this,
      of "byte_limit (Some 5) (Some (0, 7))" "Suc (Suc (Suc (Suc (Suc (Suc 0)))))"]
  have "\<exists>k \<le> length (sc_source sample_script).
      sc_sink (cs_world s) = sc_sink sample_script @ take k (sc_source sample_script)"
    unfolding run by auto
  then have "\<exists>k \<le> 5. sc_sink (cs_world s) = [9] @ take k [1, 2, 3, 4, 5]"
    by (simp add: sample_script_def eval_nat_numeral)
  with run show ?thesis by blast
qed

text \<open>
  C17: without a deadline and on streams that make progress, the copy ends and the byte limit alone
  decides: with fuel for the bytes and the interruptions, a source within the limit (or without one)
  is copied and its length returned; a longer one stops with a copied-bytes limit error that carries
  the resource, the limit and the excess, after exactly the permitted bytes.
\<close>

theorem copy_limit_decides:
  assumes "live_streams io unread accepted stalls" and "budget_laws rb"
    and "length (unread w) \<le> usize_max" and "cb_deadline b = None"
    and "stalls w + length (unread w) < fuel"
  shows "case cb_bytes b of
      None \<Rightarrow> fst (copy_with_now rb io fuel (copy_start b w)) = Ok (length (unread w))
    | Some c \<Rightarrow>
        if length (unread w) \<le> rb_remaining rb c then
          fst (copy_with_now rb io fuel (copy_start b w)) = Ok (length (unread w))
        else \<exists>excess s. 0 < excess \<and>
          copy_with_now rb io fuel (copy_start b w) =
            (Err (Raised (resource_error
                 (limit_error_new (rb_resource rb c) (rb_limit rb c) 0 excess))), s) \<and>
          accepted (cs_world s) = accepted w @ take (rb_remaining rb c) (unread w)"
proof -
  have streams: "copy_streams io unread accepted"
    using assms(1) by (simp add: live_streams_def)
  have size: "length (unread (cs_world (copy_start b w))) \<le> usize_max"
    using assms(3) by simp
  obtain r s where run: "copy_with_now rb io fuel (copy_start b w) = (r, s)" by force
  have keeps: "outcome (copy_with_now rb io fuel)
     (\<lambda>n s'. copied_so_far rb unread accepted (copy_start b w) [] s' \<and>
        n = cs_copied s' \<and> n = length (unread w))
     (\<lambda>e s'. copy_streams.copy_exit io unread accepted rb (copy_start b w) e s' \<and> e \<noteq> OutOfFuel)
     (\<lambda>_. False) (copy_start b w)"
    using outcome_conj [OF copy_streams.copy_keeps [OF streams assms(2) size start_so_far, of fuel]
        live_streams.copy_live [OF assms(1), of "copy_start b w" fuel rb]] assms(5)
    by (auto elim!: outcome_conseq)
  show ?thesis
  proof (cases r)
    case (Ok n)
    have "copied_so_far rb unread accepted (copy_start b w) [] s" "n = cs_copied s" "n = length (unread w)"
      using outcomeD(1) [OF keeps run [unfolded Ok]] by auto
    then show ?thesis
      using run Ok by (auto simp: copied_so_far_def bytes_charged_def split: option.splits)
  next
    case (Err e)
    have "copy_streams.copy_exit io unread accepted rb (copy_start b w) e s" "e \<noteq> OutOfFuel"
      using outcomeD(2) [OF keeps run [unfolded Err]] by auto
    then obtain p c excess where "copied_so_far rb unread accepted (copy_start b w) p s"
      "cb_bytes b = Some c" "cs_copied s = rb_remaining rb c" "0 < excess"
      "rb_remaining rb c + excess \<le> length (unread w)" "e = Raised (over_limit rb c excess)"
      using live_streams.no_fault [OF assms(1)] live_streams.write_progress [OF assms(1)] assms(4)
      by (fastforce simp: copy_streams.copy_exit_def [OF streams] split: stop.splits)
    then show ?thesis
      using run Err by (auto simp: copied_so_far_def over_limit_def)
  qed (use outcomeD(3) [OF keeps] run in auto)
qed

theorem copy_limit_decides_witness:
  "\<exists>excess s. 0 < excess \<and>
     copy_with_now counter_budget scripted_io 10 (copy_start (byte_limit (Some 3) None) sample_script) =
       (Err (Raised (resource_error (limit_error_new CopiedBytes 3 0 excess))), s) \<and>
     sc_sink (cs_world s) = [9, 1, 2, 3]"
  using copy_limit_decides [OF scripted.live_streams_axioms counter_budget_laws,
      of sample_script "byte_limit (Some 3) None" 10]
  by (simp add: sample_script_def byte_limit_def usize_max_def schedule_def counter_budget_def)

end
