(* ===== verification/Writer_Session.thy ===== *)
theory Writer_Session
  imports Write_Types Commit_Monad
begin

text \<open>
  What the two public writers share: the checked byte count of
  \<^verbatim>\<open>src/writer/internal/writer_byte_count.rs\<close>, and the abstract session that a writer promises to its
  caller, a machine with three phases and a count of accepted bytes. The locale \<open>writer_session\<close> states
  the promise as laws on the operations of a writer and proves what a caller may conclude about any
  sequence of operations; both writers are interpretations of it.
\<close>

section \<open>The byte count\<close>

definition file_too_large :: io_error where
  "file_too_large = io_error_of IoFileTooLarge"

text \<open>On the 64-bit targets the conversion of a \<open>usize\<close> to \<open>u64\<close> is the identity.\<close>

definition check_request :: "u64 \<Rightarrow> usize \<Rightarrow> (unit, io_error) result" where
  "check_request count requested =
     (case checked_add count requested of Some _ \<Rightarrow> Ok () | None \<Rightarrow> Err file_too_large)"

fun checked_total_len :: "usize \<Rightarrow> usize list \<Rightarrow> (usize, io_error) result" where
  "checked_total_len acc [] = Ok acc"
| "checked_total_len acc (n # ns) =
     (case checked_add acc n of
        Some acc' \<Rightarrow> checked_total_len acc' ns
      | None \<Rightarrow> Err file_too_large)"

definition check_vectored_request :: "u64 \<Rightarrow> byte list list \<Rightarrow> (unit, io_error) result" where
  "check_vectored_request count slices =
     (case checked_total_len 0 (map length slices) of
        Ok requested \<Rightarrow> check_request count requested
      | Err e \<Rightarrow> Err e
      | Panic \<Rightarrow> Panic)"

definition record_written :: "u64 \<Rightarrow> usize \<Rightarrow> u64 option" where
  "record_written count written = checked_add count written"

text \<open>A successful write adds to the count, and the sum that does not fit panics.\<close>

definition record_result ::
  "u64 \<Rightarrow> (usize, io_error) result \<Rightarrow> (usize, io_error) result \<times> u64" where
  "record_result count r =
     (case r of
        Ok written \<Rightarrow>
          (case record_written count written of
             Some count' \<Rightarrow> (Ok written, count')
           | None \<Rightarrow> (Panic, count))
      | Err e \<Rightarrow> (Err e, count)
      | Panic \<Rightarrow> (Panic, count))"

lemma check_request_Ok: "check_request count n = Ok () \<longleftrightarrow> count + n \<le> usize_max"
  by (simp add: check_request_def checked_add_def)

lemma check_request_cases:
  "check_request count n = Ok () \<or> check_request count n = Err file_too_large"
  by (simp add: check_request_def split: option.split)

lemma checked_total_len_cases:
  "acc \<le> usize_max \<Longrightarrow> checked_total_len acc ns =
     (if acc + sum_list ns \<le> usize_max then Ok (acc + sum_list ns) else Err file_too_large)"
  by (induction ns arbitrary: acc) (auto simp: checked_add_def)

lemma check_vectored_request_eq:
  "check_vectored_request count slices = check_request count (length (concat slices))"
proof (cases "length (concat slices) \<le> usize_max")
  case True
  then show ?thesis
    by (simp add: check_vectored_request_def checked_total_len_cases length_concat)
next
  case False
  then have "\<not> count + length (concat slices) \<le> usize_max"
    by simp
  with False show ?thesis
    by (simp add: check_vectored_request_def checked_total_len_cases length_concat check_request_def
        checked_add_def)
qed

lemma record_result_checked:
  assumes "check_request count n = Ok ()" and "\<And>k. r = Ok k \<Longrightarrow> k \<le> n" and "r \<noteq> Panic"
  shows "record_result count r = (r, count + (case r of Ok k \<Rightarrow> k | _ \<Rightarrow> 0))"
  using assms by (cases r) (auto simp: record_result_def record_written_def check_request_Ok checked_add_def)

section \<open>The abstract session\<close>

datatype phase = Accepting | Failed | Finished

datatype session_op = Write "byte list" | WriteVectored "byte list list" | Flush | Abort

datatype session_result =
    Wrote "(usize, io_error) result"
  | Flushed "(unit, io_error) result"
  | Ended "(write_outcome, file_error) result"

definition retryable :: "io_error \<Rightarrow> bool" where
  "retryable e = (ioe_kind e = IoInterrupted \<or> ioe_kind e = IoWouldBlock)"

text \<open>
  A request that the count or the memory cannot take is refused before it reaches the backend and
  leaves the session as it was; so does a retryable failure. Any other failure ends the acceptance of
  bytes for good: what is left is to abort.
\<close>

inductive session_step :: "phase \<times> nat \<Rightarrow> session_result \<Rightarrow> phase \<times> nat \<Rightarrow> bool" where
  accept: "n + k \<le> usize_max \<Longrightarrow> session_step (Accepting, n) (Wrote (Ok k)) (Accepting, n + k)"
| write_again: "retryable e \<or> e \<in> {file_too_large, io_error_of IoOutOfMemory} \<Longrightarrow>
    session_step (Accepting, n) (Wrote (Err e)) (Accepting, n)"
| write_fatal: "\<not> retryable e \<Longrightarrow> session_step (Accepting, n) (Wrote (Err e)) (Failed, n)"
| flushed: "session_step (Accepting, n) (Flushed (Ok ())) (Accepting, n)"
| flush_again: "retryable e \<Longrightarrow> session_step (Accepting, n) (Flushed (Err e)) (Accepting, n)"
| flush_fatal: "\<not> retryable e \<Longrightarrow> session_step (Accepting, n) (Flushed (Err e)) (Failed, n)"
| write_refused: "p \<noteq> Accepting \<Longrightarrow> ioe_kind e = IoBrokenPipe \<Longrightarrow> session_step (p, n) (Wrote (Err e)) (p, n)"
| flush_refused: "p \<noteq> Accepting \<Longrightarrow> ioe_kind e = IoBrokenPipe \<Longrightarrow> session_step (p, n) (Flushed (Err e)) (p, n)"
| aborted: "p \<noteq> Finished \<Longrightarrow> wr_state out = Aborted \<Longrightarrow> wr_bytes_written out = n \<Longrightarrow>
    session_step (p, n) (Ended (Ok out)) (Finished, n)"
| abort_failed: "p \<noteq> Finished \<Longrightarrow> p' \<in> {p, Failed} \<Longrightarrow> session_step (p, n) (Ended (Err e)) (p', n)"
| abort_refused: "fe_kind e = KInvalidState \<Longrightarrow> session_step (Finished, n) (Ended (Err e)) (Finished, n)"

inductive_cases session_step_wroteE: "session_step s (Wrote r) s'"
inductive_cases session_step_flushedE: "session_step s (Flushed r) s'"
inductive_cases session_step_endedE: "session_step s (Ended r) s'"

fun accepted :: "session_result \<Rightarrow> nat" where
  "accepted (Wrote (Ok k)) = k"
| "accepted _ = 0"

fun no_panic :: "session_result \<Rightarrow> bool" where
  "no_panic (Wrote r) = (r \<noteq> Panic)"
| "no_panic (Flushed r) = (r \<noteq> Panic)"
| "no_panic (Ended r) = (r \<noteq> Panic)"

text \<open>
  The results after which a session accepts nothing more: a write or flush failure that is neither
  retryable nor a refusal of the request itself, and a completed abort; and how a stream operation is
  refused from then on.
\<close>

fun fatal :: "session_result \<Rightarrow> bool" where
  "fatal (Wrote (Err e)) = (\<not> retryable e \<and> e \<notin> {file_too_large, io_error_of IoOutOfMemory})"
| "fatal (Flushed (Err e)) = (\<not> retryable e)"
| "fatal (Ended (Ok out)) = True"
| "fatal _ = False"

fun refused :: "session_result \<Rightarrow> bool" where
  "refused (Wrote r) = (\<exists>e. r = Err e \<and> ioe_kind e = IoBrokenPipe)"
| "refused (Flushed r) = (\<exists>e. r = Err e \<and> ioe_kind e = IoBrokenPipe)"
| "refused (Ended r) = True"

fun ended :: "session_result \<Rightarrow> bool" where
  "ended (Ended (Ok out)) = True"
| "ended _ = False"

lemma session_step_stops:
  "session_step (p, n) r (p', n') \<Longrightarrow>
   (fatal r \<longrightarrow> p' \<noteq> Accepting) \<and> (p \<noteq> Accepting \<longrightarrow> refused r \<and> p' \<noteq> Accepting) \<and>
   (ended r \<or> p = Finished \<longrightarrow> p' = Finished)"
  by (induction "(p, n)" r "(p', n')" rule: session_step.induct) auto

lemma session_step_count:
  "session_step (p, n) r (p', n') \<Longrightarrow> n \<le> usize_max \<Longrightarrow>
   n' = n + accepted r \<and> n' \<le> usize_max \<and> no_panic r \<and> (p \<noteq> Accepting \<longrightarrow> p' \<noteq> Accepting \<and> n' = n) \<and>
   (p = Finished \<longrightarrow> p' = Finished)"
  by (induction "(p, n)" r "(p', n')" rule: session_step.induct) auto

fun run_session ::
  "(session_op \<Rightarrow> 's \<Rightarrow> 'w \<Rightarrow> session_result \<times> 's \<times> 'w) \<Rightarrow> session_op list \<Rightarrow> 's \<Rightarrow> 'w \<Rightarrow>
   session_result list \<times> 's \<times> 'w" where
  "run_session exec [] s w = ([], s, w)"
| "run_session exec (op # ops) s w =
     (case exec op s w of
        (r, s', w') \<Rightarrow> (case run_session exec ops s' w' of (rs, s'', w'') \<Rightarrow> (r # rs, s'', w'')))"

text \<open>
  The contract of a writer: \<open>ok\<close> is the writer's own invariant. An operation is a step of the
  abstract session, and the backend is left alone by a stream operation that is refused and by an abort
  of a finished session.
\<close>

locale writer_session =
  fixes exec :: "session_op \<Rightarrow> 's \<Rightarrow> 'w \<Rightarrow> session_result \<times> 's \<times> 'w"
    and phase_of :: "'s \<Rightarrow> phase"
    and count_of :: "'s \<Rightarrow> nat"
    and ok :: "'s \<Rightarrow> bool"
  assumes step: "ok s \<Longrightarrow> count_of s \<le> usize_max \<Longrightarrow> exec op s w = (r, s', w') \<Longrightarrow>
      ok s' \<and> session_step (phase_of s, count_of s) r (phase_of s', count_of s')"
    and idle: "ok s \<Longrightarrow> phase_of s \<noteq> Accepting \<Longrightarrow> op \<noteq> Abort \<or> phase_of s = Finished \<Longrightarrow>
      exec op s w = (r, s', w') \<Longrightarrow> w' = w"
begin

lemma run_counts:
  "ok s \<Longrightarrow> count_of s \<le> usize_max \<Longrightarrow> run_session exec ops s w = (rs, s', w') \<Longrightarrow>
   ok s' \<and> count_of s' = count_of s + sum_list (map accepted rs) \<and> count_of s' \<le> usize_max \<and>
   list_all no_panic rs \<and> length rs = length ops"
proof (induction ops arbitrary: s w rs)
  case (Cons op ops)
  obtain r s1 w1 where one: "exec op s w = (r, s1, w1)" by (metis prod_cases3)
  note first = step [OF Cons.prems(1,2) one]
  obtain rs1 where rest: "run_session exec ops s1 w1 = (rs1, s', w')" and rs: "rs = r # rs1"
    using Cons.prems(3) one by (auto split: prod.splits)
  note counted = session_step_count [OF conjunct2 [OF first] Cons.prems(2)]
  show ?case
    using Cons.IH [OF conjunct1 [OF first] _ rest] counted rs by auto
qed simp

lemma run_idle:
  "ok s \<Longrightarrow> count_of s \<le> usize_max \<Longrightarrow> phase_of s \<noteq> Accepting \<Longrightarrow>
   phase_of s = Finished \<or> Abort \<notin> set ops \<Longrightarrow> run_session exec ops s w = (rs, s', w') \<Longrightarrow>
   w' = w \<and> count_of s' = count_of s \<and> phase_of s' \<noteq> Accepting"
proof (induction ops arbitrary: s w rs)
  case (Cons op ops)
  obtain r s1 w1 where one: "exec op s w = (r, s1, w1)" by (metis prod_cases3)
  note first = step [OF Cons.prems(1,2) one]
  obtain rs1 where rest: "run_session exec ops s1 w1 = (rs1, s', w')"
    using Cons.prems(5) one by (auto split: prod.splits)
  note counted = session_step_count [OF conjunct2 [OF first] Cons.prems(2)]
  have "w1 = w"
    using idle [OF Cons.prems(1,3) _ one] Cons.prems(4) by auto
  then show ?case
    using Cons.IH [OF conjunct1 [OF first] _ _ _ rest] counted Cons.prems(3,4) by auto
qed simp

lemma run_still:
  "ok s \<Longrightarrow> count_of s \<le> usize_max \<Longrightarrow> phase_of s \<noteq> Accepting \<Longrightarrow>
   run_session exec ops s w = (rs, s', w') \<Longrightarrow> count_of s' = count_of s"
proof (induction ops arbitrary: s w rs)
  case (Cons op ops)
  obtain r s1 w1 where one: "exec op s w = (r, s1, w1)" by (metis prod_cases3)
  note first = step [OF Cons.prems(1,2) one]
  obtain rs1 where rest: "run_session exec ops s1 w1 = (rs1, s', w')"
    using Cons.prems(4) one by (auto split: prod.splits)
  show ?case
    using Cons.IH [OF conjunct1 [OF first] _ _ rest] Cons.prems(2,3)
      session_step_count [OF conjunct2 [OF first] Cons.prems(2)] by auto
qed simp

lemma run_stops:
  assumes "\<And>op s w r s' w'. ok s \<Longrightarrow> count_of s \<le> usize_max \<Longrightarrow> exec op s w = (r, s', w') \<Longrightarrow> ends r \<Longrightarrow>
      phase_of s' \<noteq> Accepting"
  shows "ok s \<Longrightarrow> count_of s \<le> usize_max \<Longrightarrow> run_session exec ops s w = (rs, s', w') \<Longrightarrow>
   sorted_wrt (\<lambda>r r'. ends r \<longrightarrow> refused r') rs \<and>
   (phase_of s \<noteq> Accepting \<longrightarrow> list_all refused rs) \<and>
   (phase_of s \<noteq> Accepting \<or> list_ex ends rs \<longrightarrow> phase_of s' \<noteq> Accepting) \<and>
   (phase_of s = Finished \<or> list_ex ended rs \<longrightarrow> phase_of s' = Finished)"
proof (induction ops arbitrary: s w rs)
  case (Cons op ops)
  obtain r s1 w1 where one: "exec op s w = (r, s1, w1)" by (metis prod_cases3)
  note first = step [OF Cons.prems(1,2) one]
  obtain rs1 where rest: "run_session exec ops s1 w1 = (rs1, s', w')" and rs: "rs = r # rs1"
    using Cons.prems(3) one by (auto split: prod.splits)
  note counted = session_step_count [OF conjunct2 [OF first] Cons.prems(2)]
  show ?case
    using Cons.IH [OF conjunct1 [OF first] _ rest] counted rs session_step_stops [OF conjunct2 [OF first]]
      assms [OF Cons.prems(1,2) one]
    by (auto simp: list_all_iff)
qed simp

lemma fatal_stops:
  "ok s \<Longrightarrow> count_of s \<le> usize_max \<Longrightarrow> exec op s w = (r, s', w') \<Longrightarrow> fatal r \<Longrightarrow> phase_of s' \<noteq> Accepting"
  using step session_step_stops by blast

end

end
