(* ===== verification/Std_Path.thy ===== *)
theory Std_Path
  imports Errors
begin

text \<open>
  The part of \<open>std::path\<close> that the crate uses on Unix: the components of a path and its parent. A
  path is its native bytes; \<open>47\<close> is the separator and \<open>46\<close> the dot.
\<close>

datatype component = RootDir | CurDir | ParentDir | Normal "byte list"

fun split_slash :: "byte list \<Rightarrow> byte list list" where
  "split_slash [] = [[]]"
| "split_slash (b # bs) =
     (if b = 47 then [] # split_slash bs
      else (case split_slash bs of c # cs \<Rightarrow> (b # c) # cs | [] \<Rightarrow> [[b]]))"

fun join_slash :: "byte list list \<Rightarrow> byte list" where
  "join_slash [] = []"
| "join_slash [c] = c"
| "join_slash (c # cs) = c @ 47 # join_slash cs"

text \<open>Empty components and dots inside a path are not components.\<close>

definition redundant :: "byte list \<Rightarrow> bool" where
  "redundant c = (c = [] \<or> c = [46])"

definition as_component :: "byte list \<Rightarrow> component" where
  "as_component c = (if c = [46, 46] then ParentDir else Normal c)"

definition body_components :: "byte list list \<Rightarrow> component list" where
  "body_components cs = map as_component (filter (\<lambda>c. \<not> redundant c) cs)"

definition components :: "path \<Rightarrow> component list" where
  "components p =
     (case split_slash p of
        [] \<Rightarrow> []
      | c # cs \<Rightarrow>
          if c = [] \<and> cs \<noteq> [] then RootDir # body_components cs
          else if c = [46] then CurDir # body_components cs
          else body_components (c # cs))"

definition is_absolute :: "path \<Rightarrow> bool" where
  "is_absolute p = (case p of [] \<Rightarrow> False | b # _ \<Rightarrow> b = 47)"

text \<open>
  \<open>Path::parent\<close>: the last component goes, and redundant components and separators before and after
  it. The text before the body is the root or a leading dot.
\<close>

definition trim_components :: "byte list list \<Rightarrow> byte list list" where
  "trim_components cs = rev (dropWhile redundant (rev cs))"

definition path_parent :: "path \<Rightarrow> path option" where
  "path_parent p =
     (case split_slash p of
        [] \<Rightarrow> None
      | c # cs \<Rightarrow>
          if c = [] \<and> cs \<noteq> [] then
            (case trim_components cs of
               [] \<Rightarrow> None
             | ds \<Rightarrow> Some (47 # join_slash (trim_components (butlast ds))))
          else if c = [46] then
            (case trim_components cs of
               [] \<Rightarrow> Some []
             | ds \<Rightarrow>
                 (case trim_components (butlast ds) of
                    [] \<Rightarrow> Some [46]
                  | es \<Rightarrow> Some ([46, 47] @ join_slash es)))
          else
            (case trim_components (c # cs) of
               [] \<Rightarrow> None
             | ds \<Rightarrow> Some (join_slash (trim_components (butlast ds)))))"

definition path_join :: "path \<Rightarrow> path \<Rightarrow> path" where
  "path_join dir p =
     (if is_absolute p then p
      else if dir = [] \<or> last dir = 47 then dir @ p else dir @ 47 # p)"

definition path_file_name :: "path \<Rightarrow> byte list option" where
  "path_file_name p = (case rev (components p) of Normal name # _ \<Rightarrow> Some name | _ \<Rightarrow> None)"

lemma split_slash_nonempty [simp]: "split_slash p \<noteq> []"
  by (induction p) (auto split: list.split)

lemma join_split_slash: "join_slash (split_slash p) = p"
proof (induction p)
  case (Cons b bs)
  then show ?case
    by (cases "split_slash bs" rule: join_slash.cases) auto
qed simp

lemma split_slash_no_slash: "47 \<notin> set p \<Longrightarrow> split_slash p = [p]"
  by (induction p) auto

lemma split_slash_slash: "47 \<in> set p \<Longrightarrow> 2 \<le> length (split_slash p)"
  by (induction p) (auto split: list.split)

lemma components_single:
  "47 \<notin> set p \<Longrightarrow> p \<noteq> [] \<Longrightarrow> p \<noteq> [46] \<Longrightarrow> p \<noteq> [46, 46] \<Longrightarrow> components p = [Normal p]"
  by (simp add: components_def split_slash_no_slash body_components_def redundant_def as_component_def)

lemma length_join_slash: "length (join_slash cs) = sum_list (map length cs) + (length cs - 1)"
  by (induction cs rule: join_slash.induct) simp_all

lemma trim_components_prefix: "\<exists>ds. cs = trim_components cs @ ds"
proof -
  have "cs = rev (takeWhile redundant (rev cs) @ dropWhile redundant (rev cs))"
    by simp
  then show ?thesis
    unfolding trim_components_def rev_append by blast
qed

lemma length_join_trim: "length (join_slash (trim_components cs)) \<le> length (join_slash cs)"
proof -
  obtain ds where ds: "cs = trim_components cs @ ds"
    using trim_components_prefix by blast
  have "sum_list (map length cs) = sum_list (map length (trim_components cs)) + sum_list (map length ds)"
    by (subst ds) simp
  moreover have "length cs = length (trim_components cs) + length ds"
    by (subst ds) simp
  ultimately show ?thesis
    by (simp add: length_join_slash)
qed

lemma last_trim_components: "trim_components cs \<noteq> [] \<Longrightarrow> last (trim_components cs) \<noteq> []"
  using hd_dropWhile [of redundant "rev cs"] by (auto simp: trim_components_def last_rev redundant_def)

lemma length_join_butlast:
  assumes "ds \<noteq> []" and "last ds \<noteq> []"
  shows "length (join_slash (butlast ds)) < length (join_slash ds)"
proof -
  from assms obtain es e b where "ds = es @ [b # e]"
    by (metis append_butlast_last_id neq_Nil_conv)
  then show ?thesis
    by (simp add: length_join_slash)
qed

lemma length_join_parent:
  assumes "trim_components cs = ds" and "ds \<noteq> []"
  shows "length (join_slash (trim_components (butlast ds))) < length (join_slash cs)"
  using length_join_trim [of "butlast ds"] length_join_butlast [of ds] length_join_trim [of cs]
    last_trim_components [of cs] assms by fastforce

lemma path_parent_shorter:
  assumes "path_parent p = Some q"
  shows "length q < length p"
proof -
  obtain c cs where p: "split_slash p = c # cs"
    by (cases "split_slash p") simp_all
  have len: "length p = length (join_slash (c # cs))"
    using join_split_slash [of p] p by simp
  have tail: "cs \<noteq> [] \<Longrightarrow> length p = length c + 1 + length (join_slash cs)"
    using len by (cases cs) simp_all
  show ?thesis
  proof (cases "cs = []")
    case True
    then show ?thesis
      using assms len length_join_parent [of "[c]"]
      by (auto simp: path_parent_def p trim_components_def redundant_def split: if_splits list.splits)
  next
    case False
    then show ?thesis
      using assms tail len length_join_parent [of cs] length_join_parent [of "c # cs"]
      by (fastforce simp: path_parent_def p split: if_splits list.splits)
  qed
qed

end
