(* ===== verification/File_Names.thy ===== *)
theory File_Names
  imports Std_Path
begin

text \<open>
  Filename policies and generated names: \<^verbatim>\<open>src/path/local_file_names.rs\<close>,
  \<^verbatim>\<open>src/local/internal/file_name_validation.rs\<close> and \<^verbatim>\<open>src/local/internal/file_name_generation.rs\<close>, for
  Unix. A native name is its bytes and a Rust string its UTF-8 bytes. The random source, the clock and
  the process id are operations of the world \<open>'w\<close>.
\<close>

section \<open>Policies\<close>

datatype name_policy = Portable | Native

record file_names =
  fn_policy :: name_policy
  fn_max_component_bytes :: "usize option"

definition names_portable :: file_names where
  "names_portable = \<lparr>fn_policy = Portable, fn_max_component_bytes = None\<rparr>"

definition names_native :: file_names where
  "names_native = \<lparr>fn_policy = Native, fn_max_component_bytes = None\<rparr>"

definition invalid_name_error :: file_error where
  "invalid_name_error = error_new KInvalidPath OpValidateName"

definition component_limit_error :: "usize \<Rightarrow> usize \<Rightarrow> file_error" where
  "component_limit_error requested lim =
     from_resource_limit OpValidateName None (limit_error_new PathComponentBytes lim lim requested)"

definition with_max_component_bytes :: "usize \<Rightarrow> file_names \<Rightarrow> (file_names, file_error) result" where
  "with_max_component_bytes maximum names =
     (if maximum = 0 then Err (component_limit_error 1 maximum)
      else Ok (names\<lparr>fn_max_component_bytes := Some maximum\<rparr>))"

definition without_max_component_bytes :: "file_names \<Rightarrow> file_names" where
  "without_max_component_bytes names = names\<lparr>fn_max_component_bytes := None\<rparr>"

text \<open>\<open>eq_ignore_ascii_case\<close> on scalar values.\<close>

definition ascii_lowercase :: "scalar \<Rightarrow> scalar" where
  "ascii_lowercase c = (if 65 \<le> c \<and> c \<le> 90 then c + 32 else c)"

definition eq_ignore_ascii_case :: "scalar list \<Rightarrow> scalar list \<Rightarrow> bool" where
  "eq_ignore_ascii_case a b = (map ascii_lowercase a = map ascii_lowercase b)"

definition trim_end :: "scalar list \<Rightarrow> scalar list" where
  "trim_end cs = rev (dropWhile (\<lambda>c. c = 32 \<or> c = 46) (rev cs))"

text \<open>The device names are spelled as scalar values: CON, PRN, AUX, NUL, CONIN$, CONOUT$.\<close>

definition device_names :: "scalar list list" where
  "device_names =
     [[67, 79, 78], [80, 82, 78], [65, 85, 88], [78, 85, 76], [67, 79, 78, 73, 78, 36],
      [67, 79, 78, 79, 85, 84, 36]]"

definition is_windows_reserved_file_name :: "scalar list \<Rightarrow> bool" where
  "is_windows_reserved_file_name name =
     (let base = trim_end (takeWhile (\<lambda>c. c \<noteq> 46) name)
      in if list_ex (eq_ignore_ascii_case base) device_names then True
         else if base = [] then False
         else (eq_ignore_ascii_case (butlast base) [67, 79, 77] \<or>
               eq_ignore_ascii_case (butlast base) [76, 80, 84]) \<and>
              (49 \<le> last base \<and> last base \<le> 57 \<or> last base \<in> {178, 179, 185}))"

definition forbidden_portable :: "scalar \<Rightarrow> bool" where
  "forbidden_portable c = (is_control c \<or> c \<in> {47, 92, 60, 62, 58, 34, 124, 63, 42})"

definition validate_portable_component :: "scalar list \<Rightarrow> (unit, file_error) result" where
  "validate_portable_component name =
     (if name = [] \<or> name = [46] \<or> name = [46, 46] \<or> last name \<in> {32, 46} \<or>
         list_ex forbidden_portable name \<or> is_windows_reserved_file_name name
      then Err invalid_name_error else Ok ())"

definition validate_native_component :: "byte list \<Rightarrow> (unit, file_error) result" where
  "validate_native_component name =
     (if name = [] \<or> 0 \<in> set name \<or> 47 \<in> set name then Err invalid_name_error
      else (case components name of [Normal _] \<Rightarrow> Ok () | _ \<Rightarrow> Err invalid_name_error))"

definition validate_name :: "file_names \<Rightarrow> byte list \<Rightarrow> (unit, file_error) result" where
  "validate_name names name =
     (let encoded =
        (case fn_policy names of
           Portable \<Rightarrow>
             (case from_utf8 name of
                Ok chars \<Rightarrow>
                  (case validate_portable_component chars of
                     Ok _ \<Rightarrow> Ok (length name)
                   | Err e \<Rightarrow> Err e
                   | Panic \<Rightarrow> Panic)
              | _ \<Rightarrow> Err invalid_name_error)
         | Native \<Rightarrow>
             (case validate_native_component name of
                Ok _ \<Rightarrow> Ok (length name)
              | Err e \<Rightarrow> Err e
              | Panic \<Rightarrow> Panic))
      in case encoded of
           Ok encoded_bytes \<Rightarrow>
             (case fn_max_component_bytes names of
                Some maximum \<Rightarrow>
                  if maximum < encoded_bytes then Err (component_limit_error encoded_bytes maximum)
                  else Ok ()
              | None \<Rightarrow> Ok ())
         | Err e \<Rightarrow> Err e
         | Panic \<Rightarrow> Panic)"

section \<open>Generated names\<close>

definition hex_digit :: "nat \<Rightarrow> byte" where
  "hex_digit n = byte_of (if n < 10 then 48 + n else 87 + n)"

definition encode_hex :: "byte list \<Rightarrow> byte list" where
  "encode_hex bytes =
     concat (map (\<lambda>b. [hex_digit (unat (drop_bit 4 b)), hex_digit (unat (b AND 15))]) bytes)"

text \<open>\<open>"qubit-local-files-"\<close>.\<close>

definition default_prefix :: "byte list" where
  "default_prefix =
     [113, 117, 98, 105, 116, 45, 108, 111, 99, 97, 108, 45, 102, 105, 108, 101, 115, 45]"

text \<open>\<open>fill\<close> is \<open>getrandom::fill\<close> on an array of \<open>RANDOM_NAME_BYTES\<close>.\<close>

definition random_name_bytes :: usize where
  "random_name_bytes = 16"

definition random_name_with ::
  "('w \<Rightarrow> (byte list, unit) result \<times> 'w) \<Rightarrow> file_names \<Rightarrow> byte list option \<Rightarrow> byte list option \<Rightarrow> 'w \<Rightarrow>
   (byte list, file_error) result \<times> 'w" where
  "random_name_with fill names prefix suffix w =
     (case fill w of
        (Ok random, w') \<Rightarrow>
          (let name = (case prefix of None \<Rightarrow> default_prefix | Some p \<Rightarrow> p) @ encode_hex random @
                      (case suffix of None \<Rightarrow> [] | Some s \<Rightarrow> s)
           in (case validate_name names name of
                 Ok _ \<Rightarrow> Ok name | Err e \<Rightarrow> Err e | Panic \<Rightarrow> Panic, w'))
      | (Err _, w') \<Rightarrow> (Err (from_io OpGenerateName None None (io_error_of IoOther)), w')
      | (Panic, w') \<Rightarrow> (Panic, w'))"

definition random_name ::
  "('w \<Rightarrow> (byte list, unit) result \<times> 'w) \<Rightarrow> file_names \<Rightarrow> 'w \<Rightarrow> (byte list, file_error) result \<times> 'w" where
  "random_name fill names = random_name_with fill names None None"

definition validate_file_name_fragment :: "byte list \<Rightarrow> (unit, io_error) result" where
  "validate_file_name_fragment fragment =
     (if 0 \<in> set fragment then Err (io_error_of IoInvalidInput)
      else if 47 \<in> set fragment \<or> 92 \<in> set fragment then Err (io_error_of IoInvalidInput)
      else if list_ex (\<lambda>c. c = RootDir \<or> c = ParentDir) (components fragment)
      then Err (io_error_of IoInvalidInput)
      else Ok ())"

definition validate_portable_generated_component :: "byte list \<Rightarrow> (unit, io_error) result" where
  "validate_portable_generated_component name =
     map_err (\<lambda>_. io_error_of IoInvalidInput) (validate_name names_portable name)"

text \<open>The format \<open>{:x}\<close> of an unsigned integer.\<close>

fun lower_hex :: "nat \<Rightarrow> byte list" where
  "lower_hex n = (if n < 16 then [hex_digit n] else lower_hex (n div 16) @ [hex_digit (n mod 16)])"

record 'w name_source =
  ns_fill :: "'w \<Rightarrow> (byte list, unit) result \<times> 'w"
  ns_timestamp :: "'w \<Rightarrow> nat \<times> 'w"
  ns_process_id :: nat

definition try_random_file_name ::
  "'w name_source \<Rightarrow> byte list \<Rightarrow> byte list option \<Rightarrow> byte list option \<Rightarrow> 'w \<Rightarrow>
   (byte list, io_error) result \<times> 'w" where
  "try_random_file_name src def_prefix prefix suffix w =
     (let prefix = (case prefix of None \<Rightarrow> def_prefix | Some p \<Rightarrow> p);
          suffix = (case suffix of None \<Rightarrow> [] | Some s \<Rightarrow> s)
      in case validate_file_name_fragment prefix of
           Ok _ \<Rightarrow>
             (case validate_file_name_fragment suffix of
                Ok _ \<Rightarrow>
                  (case ns_timestamp src w of
                     (timestamp, w1) \<Rightarrow>
                       (case ns_fill src w1 of
                          (Ok random, w2) \<Rightarrow>
                            (let name = prefix @ lower_hex timestamp @ 45 #
                                        lower_hex (ns_process_id src) @ 45 #
                                        encode_hex random @ suffix
                             in (case validate_portable_generated_component name of
                                   Ok _ \<Rightarrow> Ok name | Err e \<Rightarrow> Err e | Panic \<Rightarrow> Panic, w2))
                        | (Err _, w2) \<Rightarrow> (Err (io_error_of IoOther), w2)
                        | (Panic, w2) \<Rightarrow> (Panic, w2)))
              | Err e \<Rightarrow> (Err e, w)
              | Panic \<Rightarrow> (Panic, w))
         | Err e \<Rightarrow> (Err e, w)
         | Panic \<Rightarrow> (Panic, w))"

declare lower_hex.simps [simp del]

section \<open>A validated name is one component\<close>

lemma encode_utf8_ascii_byte:
  assumes "is_scalar c" and "b \<in> set (encode_utf8 c)" and "unat b < 128"
  shows "unat b = c"
proof (cases "c < 128")
  case True
  then show ?thesis
    using assms(2) by (simp add: encode_utf8_def unat_byte_of)
next
  case False
  have "c < 1114112"
    using assms(1) by (auto simp: is_scalar_def)
  then have "192 + c div 64 < 256 \<or> \<not> c < 2048" "224 + c div 4096 < 256 \<or> \<not> c < 65536"
    "240 + c div 262144 < 256"
    by auto
  moreover have "128 + n mod 64 < 256" for n :: nat
    by (rule order.strict_trans2 [of _ "128 + 64"]) simp_all
  ultimately show ?thesis
    using False assms(2,3) by (auto simp: encode_utf8_def unat_byte_of split: if_splits)
qed

lemma ascii_byte_in_utf8:
  assumes "from_utf8 bs = Ok cs" and "b \<in> set bs" and "unat b < 128"
  shows "unat b \<in> set cs"
proof -
  have "bs = concat (map encode_utf8 cs)" "list_all is_scalar cs"
    using from_utf8_sound [OF assms(1)] by auto
  then obtain c where "c \<in> set cs" "b \<in> set (encode_utf8 c)" "is_scalar c"
    using assms(2) by (auto simp: list_all_iff)
  then show ?thesis
    using encode_utf8_ascii_byte assms(3) by metis
qed

lemma from_utf8_ascii: "list_all (\<lambda>b. unat b < 128) bs \<Longrightarrow> from_utf8 bs = Ok (map unat bs)"
  by (induction bs) (simp_all add: from_utf8_Cons utf8_next_def)

lemma validate_name_portable_Ok:
  "validate_name names_portable name = Ok () \<longleftrightarrow>
     (\<exists>chars. from_utf8 name = Ok chars \<and> validate_portable_component chars = Ok ())"
  by (auto simp: validate_name_def names_portable_def Let_def split: result.splits)

lemma portable_component_single:
  assumes "from_utf8 name = Ok chars" and "validate_portable_component chars = Ok ()"
  shows "name \<noteq> []" and "0 \<notin> set name" and "47 \<notin> set name" and "92 \<notin> set name"
    and "name \<noteq> [46]" and "name \<noteq> [46, 46]"
proof -
  have ok: "chars \<noteq> []" "chars \<noteq> [46]" "chars \<noteq> [46, 46]" "\<not> list_ex forbidden_portable chars"
    using assms(2) by (auto simp: validate_portable_component_def split: if_splits)
  show "name \<noteq> []" "name \<noteq> [46]" "name \<noteq> [46, 46]"
    using assms(1) ok(1,2,3) from_utf8_ascii [of "[46]"] from_utf8_ascii [of "[46, 46]"] by auto
  have "b \<notin> set name" if "unat b < 128" "forbidden_portable (unat b)" for b
    using ascii_byte_in_utf8 [OF assms(1) _ that(1)] ok(4) that(2) by (auto simp: list_ex_iff)
  from this [of 0] this [of 47] this [of 92]
  show "0 \<notin> set name" "47 \<notin> set name" "92 \<notin> set name"
    by (simp_all add: forbidden_portable_def is_control_def)
qed

lemma validate_name_bound:
  assumes "validate_name names name = Ok ()" and "fn_max_component_bytes names = Some maximum"
  shows "length name \<le> maximum"
  using assms
  by (auto simp: validate_name_def Let_def split: result.splits name_policy.splits if_splits)

lemma validate_name_single:
  assumes "validate_name names name = Ok ()"
  shows "components name = [Normal name]" and "0 \<notin> set name" and "47 \<notin> set name" and "name \<noteq> []"
proof -
  have "name \<noteq> [] \<and> 0 \<notin> set name \<and> 47 \<notin> set name \<and> name \<noteq> [46] \<and> name \<noteq> [46, 46]"
  proof (cases "fn_policy names")
    case Portable
    then obtain chars where "from_utf8 name = Ok chars" "validate_portable_component chars = Ok ()"
      using assms by (auto simp: validate_name_def Let_def split: result.splits)
    from portable_component_single [OF this] show ?thesis by blast
  next
    case Native
    then show ?thesis
      using assms
      by (auto simp: validate_name_def Let_def validate_native_component_def components_def
          body_components_def as_component_def redundant_def
          split: result.splits if_splits)
  qed
  then show "components name = [Normal name]" and "0 \<notin> set name" and "47 \<notin> set name" and "name \<noteq> []"
    by (simp_all add: components_single)
qed

section \<open>Generated names are valid and tell their randomness\<close>

lemma hex_digit_cases:
  assumes "n < 16"
  shows "unat (hex_digit n) = (if n < 10 then 48 + n else 87 + n)"
  using assms by (simp add: hex_digit_def unat_byte_of)

lemma hex_digit_inj: "m < 16 \<Longrightarrow> n < 16 \<Longrightarrow> hex_digit m = hex_digit n \<Longrightarrow> m = n"
  by (drule arg_cong [of _ _ unat]) (auto simp: hex_digit_cases split: if_splits)

lemma nibbles: "unat (drop_bit 4 (b :: byte)) = unat b div 16" "unat (b AND 15) = unat b mod 16"
proof -
  show "unat (drop_bit 4 b) = unat b div 16"
    by (simp add: drop_bit_eq_div unat_div_distrib)
  have "b AND 15 = take_bit 4 b"
    by (simp add: take_bit_eq_mask mask_eq_exp_minus_1)
  then show "unat (b AND 15) = unat b mod 16"
    by (simp add: take_bit_eq_mod unat_mod_distrib)
qed

lemma encode_hex_Cons:
  "encode_hex (b # bs) = hex_digit (unat b div 16) # hex_digit (unat b mod 16) # encode_hex bs"
  by (simp add: encode_hex_def nibbles)

lemma encode_hex_Nil [simp]: "encode_hex [] = []"
  by (simp add: encode_hex_def)

lemma nibble_bounds: "unat (b :: byte) div 16 < 16" "unat (b :: byte) mod 16 < 16"
  using unat_byte_bound [of b] by auto

lemma encode_hex_inj: "encode_hex xs = encode_hex ys \<Longrightarrow> xs = ys"
proof (induction xs arbitrary: ys)
  case Nil
  then show ?case by (cases ys) (simp_all add: encode_hex_Cons)
next
  case (Cons x xs)
  then obtain y ys' where ys: "ys = y # ys'"
    by (cases ys) (auto simp: encode_hex_Cons)
  have "unat x div 16 = unat y div 16" "unat x mod 16 = unat y mod 16" "xs = ys'"
    using Cons ys hex_digit_inj nibble_bounds by (auto simp: encode_hex_Cons)
  then have "unat x = unat y"
    by (metis div_mult_mod_eq)
  then show ?case
    using ys \<open>xs = ys'\<close> by (metis byte_of_eq)
qed

lemma length_encode_hex: "length (encode_hex bs) = 2 * length bs"
  by (induction bs) (simp_all add: encode_hex_Cons)

definition is_hex :: "byte \<Rightarrow> bool" where
  "is_hex b = (48 \<le> unat b \<and> unat b \<le> 57 \<or> 97 \<le> unat b \<and> unat b \<le> 102)"

lemma encode_hex_digits: "list_all is_hex (encode_hex bs)"
proof (induction bs)
  case (Cons b bs)
  have "is_hex (hex_digit n)" if "n < 16" for n
    using that by (auto simp: is_hex_def hex_digit_cases)
  then show ?case
    using Cons nibble_bounds [of b] by (simp add: encode_hex_Cons)
qed simp

lemma default_name_chars:
  assumes "length bytes = random_name_bytes"
  shows "from_utf8 (default_prefix @ encode_hex bytes) = Ok (map unat (default_prefix @ encode_hex bytes))"
    and "validate_portable_component (map unat (default_prefix @ encode_hex bytes)) = Ok ()"
proof -
  let ?name = "default_prefix @ encode_hex bytes"
  have hex: "list_all is_hex (encode_hex bytes)"
    by (rule encode_hex_digits)
  have name_byte: "is_hex b \<or> b \<in> set default_prefix" if "b \<in> set ?name" for b
    using that hex by (auto simp: list_all_iff)
  have ascii: "unat b < 128 \<and> \<not> forbidden_portable (unat b) \<and> unat b \<notin> {32, 46}"
    if "b \<in> set ?name" for b
    using name_byte [OF that]
    by (auto simp: is_hex_def default_prefix_def forbidden_portable_def is_control_def)
  show "from_utf8 ?name = Ok (map unat ?name)"
    by (rule from_utf8_ascii) (use ascii in \<open>auto simp: list_all_iff\<close>)
  have len: "length ?name = 50"
    using assms by (simp add: length_encode_hex random_name_bytes_def default_prefix_def)
  then have "last ?name \<in> set ?name"
    by (intro last_in_set) auto
  then have last: "last (map unat ?name) \<notin> {32, 46}"
    using ascii len by (subst last_map) auto
  have no_dot: "takeWhile (\<lambda>c. c \<noteq> 46) (map unat ?name) = map unat ?name"
    using ascii by (intro takeWhile_eq_all_conv [THEN iffD2]) auto
  have base: "trim_end (map unat ?name) = map unat ?name"
    using last len unfolding trim_end_def
    by (cases "map unat ?name" rule: rev_cases) auto
  have "\<not> is_windows_reserved_file_name (map unat ?name)"
    unfolding is_windows_reserved_file_name_def no_dot base Let_def
    using len by (auto simp: device_names_def eq_ignore_ascii_case_def dest: arg_cong [of _ _ length])
  then show "validate_portable_component (map unat ?name) = Ok ()"
    using ascii last len unfolding validate_portable_component_def by (auto simp: list_ex_iff)
qed

section \<open>Properties\<close>

text \<open>
  C18: a validated name is one native path component, under either policy: \<open>std::path\<close> reads it as a
  single normal component with the same bytes, it has no separator and no NUL, its length keeps the
  configured limit, and what the portable policy accepts the native policy accepts too.
\<close>

theorem valid_name_is_component:
  assumes "validate_name names name = Ok ()"
  shows "components name = [Normal name] \<and> 0 \<notin> set name \<and> 47 \<notin> set name \<and>
    (\<forall>maximum. fn_max_component_bytes names = Some maximum \<longrightarrow> length name \<le> maximum) \<and>
    validate_name (names\<lparr>fn_policy := Native\<rparr>) name = Ok ()"
proof -
  note single = validate_name_single [OF assms]
  have "validate_native_component name = Ok ()"
    using single by (simp add: validate_native_component_def)
  then have "validate_name (names\<lparr>fn_policy := Native\<rparr>) name = Ok ()"
    using validate_name_bound [OF assms]
    by (auto simp: validate_name_def [of "names\<lparr>fn_policy := Native\<rparr>"] not_less split: option.split)
  then show ?thesis
    using single validate_name_bound [OF assms] by blast
qed

text \<open>The name \<open>a.b\<close> under the portable policy.\<close>

theorem valid_name_is_component_witness:
  "validate_name names_portable [97, 46, 98] = Ok () \<and> components [97, 46, 98] = [Normal [97, 46, 98]]"
proof -
  have "from_utf8 [97, 46, 98] = Ok [97, 46, 98]"
    using from_utf8_ascii [of "[97, 46, 98]"] by simp
  then have "validate_name names_portable [97, 46, 98] = Ok ()"
    unfolding validate_name_portable_Ok
    by (simp add: validate_portable_component_def is_windows_reserved_file_name_def trim_end_def
        device_names_def eq_ignore_ascii_case_def ascii_lowercase_def forbidden_portable_def is_control_def)
  with valid_name_is_component [OF this] show ?thesis
    by blast
qed

text \<open>
  Name generation does not fail on its own. When the random source yields its 16 bytes, the default
  name \<open>qubit-local-files-\<close> followed by their hexadecimal digits passes both policies, unless a
  component limit below its 50 bytes is configured.
\<close>

theorem random_name_succeeds:
  assumes "fill w = (Ok bytes, w')" and "length bytes = random_name_bytes"
    and "\<forall>maximum. fn_max_component_bytes names = Some maximum \<longrightarrow> 50 \<le> maximum"
  shows "random_name fill names w = (Ok (default_prefix @ encode_hex bytes), w')"
proof -
  let ?name = "default_prefix @ encode_hex bytes"
  have len: "length ?name = 50"
    using assms(2) by (simp add: length_encode_hex random_name_bytes_def default_prefix_def)
  have portable: "validate_name names_portable ?name = Ok ()"
    using default_name_chars [OF assms(2)] by (simp add: validate_name_portable_Ok)
  have native: "validate_native_component ?name = Ok ()"
    using validate_name_single [OF portable] by (simp add: validate_native_component_def)
  have "validate_name names ?name = Ok ()"
    using default_name_chars [OF assms(2)] native assms(3) len
    by (auto simp: validate_name_def split: name_policy.split option.split)
  then show ?thesis
    using assms(1) by (simp add: random_name_def random_name_with_def)
qed

theorem random_name_succeeds_witness:
  "random_name (\<lambda>w. (Ok (replicate 16 w), w)) names_portable 7 =
     (Ok (default_prefix @ encode_hex (replicate 16 7)), 7)"
  by (rule random_name_succeeds) (simp_all add: random_name_bytes_def names_portable_def)

text \<open>
  C19: generated temporary names separate. Two successful generations with the same affixes that drew
  different random bytes give different names, whatever the clock and the process id were, and each
  name is a single path component.
\<close>

theorem generated_names_separate:
  assumes "try_random_file_name src1 def prefix suffix w1 = (Ok name1, w1')"
    and "try_random_file_name src2 def prefix suffix w2 = (Ok name2, w2')"
    and "ns_fill src1 (snd (ns_timestamp src1 w1)) = (Ok bytes1, w1')"
    and "ns_fill src2 (snd (ns_timestamp src2 w2)) = (Ok bytes2, w2')"
    and "length bytes1 = length bytes2" and "bytes1 \<noteq> bytes2"
  shows "name1 \<noteq> name2 \<and> components name1 = [Normal name1] \<and> components name2 = [Normal name2]"
proof -
  let ?sfx = "case suffix of None \<Rightarrow> [] | Some s \<Rightarrow> s"
  have shape: "(\<exists>front. name = front @ encode_hex bytes @ ?sfx) \<and> validate_name names_portable name = Ok ()"
    if "try_random_file_name src def prefix suffix w = (Ok name, w')"
      and "ns_fill src (snd (ns_timestamp src w)) = (Ok bytes, w')" for src w w' name bytes
    using that
    by (auto simp: try_random_file_name_def Let_def validate_portable_generated_component_def
        split: result.splits prod.splits)
  obtain front1 front2 where "name1 = front1 @ encode_hex bytes1 @ ?sfx"
    "name2 = front2 @ encode_hex bytes2 @ ?sfx"
    using shape [OF assms(1,3)] shape [OF assms(2,4)] by blast
  moreover have "length (encode_hex bytes1) = length (encode_hex bytes2)"
    using assms(5) by (simp add: length_encode_hex)
  ultimately have "name1 = name2 \<Longrightarrow> encode_hex bytes1 = encode_hex bytes2"
    by simp
  then show ?thesis
    using encode_hex_inj assms(6) shape [OF assms(1,3)] shape [OF assms(2,4)]
      validate_name_single(1) by blast
qed

text \<open>Names \<open>a0-0-01\<close> and \<open>a0-0-02\<close>.\<close>

definition sample_source :: "byte \<Rightarrow> unit name_source" where
  "sample_source b = \<lparr>ns_fill = (\<lambda>w. (Ok [b], w)), ns_timestamp = (\<lambda>w. (0, w)), ns_process_id = 0\<rparr>"

lemma sample_name:
  assumes "b = 1 \<or> b = 2"
  shows "try_random_file_name (sample_source b) [] (Some [97]) None () =
    (Ok [97, 48, 45, 48, 45, 48, 48 + b], ())"
proof -
  have "from_utf8 [97, 48, 45, 48, 45, 48, 48 + b] = Ok [97, 48, 45, 48, 45, 48, 48 + unat b]"
    using assms from_utf8_ascii [of "[97, 48, 45, 48, 45, 48, 48 + b]"] by auto
  then have "validate_name names_portable [97, 48, 45, 48, 45, 48, 48 + b] = Ok ()"
    unfolding validate_name_portable_Ok using assms
    by (auto simp: validate_portable_component_def is_windows_reserved_file_name_def trim_end_def
        device_names_def eq_ignore_ascii_case_def ascii_lowercase_def forbidden_portable_def is_control_def)
  then show ?thesis
    using assms
    by (auto simp: try_random_file_name_def sample_source_def validate_file_name_fragment_def
        components_def body_components_def as_component_def redundant_def lower_hex.simps hex_digit_def
        byte_of_def encode_hex_Cons validate_portable_generated_component_def)
qed

theorem generated_names_separate_witness:
  "fst (try_random_file_name (sample_source 1) [] (Some [97]) None ()) \<noteq>
   fst (try_random_file_name (sample_source 2) [] (Some [97]) None ())"
  using generated_names_separate [of "sample_source 1" "[]" "Some [97]" None "()" _ "()"
      "sample_source 2" "()" _ "()" "[1]" "[2]"]
    sample_name [of 1] sample_name [of 2]
  by (simp add: sample_source_def)

end
