(* ===== verification/Unix_Calls.thy ===== *)
theory Unix_Calls
  imports File_Names Write_Types Commit_Monad
begin

text \<open>
  The operating-system calls that the path-based writers make on Unix, as a record of operations on a
  world \<open>'w\<close> with open handles \<open>'h\<close>, and the helpers built directly on them: parent preparation
  (\<^verbatim>\<open>src/local/internal/path_operations/path_management.rs\<close>), temporary files
  (\<^verbatim>\<open>src/local/internal/temp_entry.rs\<close>) and parent synchronization
  (\<^verbatim>\<open>src/local/internal/file_move.rs\<close>). Nothing is assumed about the calls here.
\<close>

datatype file_kind = RegularFile | Directory | Symlink | OtherKind

record file_stat =
  st_kind :: file_kind
  st_dev :: u64
  st_ino :: u64

type_synonym ('w, 'x) native = "('w, io_error, 'x) prog"

text \<open>
  \<open>ux_open_retrying\<close> opens a path read-only without following a final link, under the retry policy for
  conflicting leases; \<open>ux_preserve_metadata\<close> copies the metadata of one handle to another. \<open>ux_unlink\<close>
  serves \<open>unlinkat\<close> and \<open>fs::remove_file\<close>, \<open>ux_sync_dir\<close> opens a directory and synchronizes it.
\<close>

record ('w, 'h) unix_fs =
  ux_absolute :: "path \<Rightarrow> ('w, path) native"
  ux_metadata :: "path \<Rightarrow> ('w, file_stat) native"
  ux_symlink_metadata :: "path \<Rightarrow> ('w, file_stat) native"
  ux_create_dir_all :: "path \<Rightarrow> ('w, unit) native"
  ux_create_new :: "path \<Rightarrow> ('w, 'h) native"
  ux_open_retrying :: "path \<Rightarrow> duration option \<Rightarrow> ('w, 'h) native"
  ux_fstat :: "'h \<Rightarrow> ('w, file_stat) native"
  ux_clear_nonblocking :: "'h \<Rightarrow> ('w, unit) native"
  ux_preserve_metadata :: "'h \<Rightarrow> 'h \<Rightarrow> ('w, unit) native"
  ux_write :: "'h \<Rightarrow> byte list \<Rightarrow> ('w, usize) native"
  ux_write_vectored :: "'h \<Rightarrow> byte list list \<Rightarrow> ('w, usize) native"
  ux_flush :: "'h \<Rightarrow> ('w, unit) native"
  ux_sync_all :: "'h \<Rightarrow> ('w, unit) native"
  ux_rename :: "path \<Rightarrow> path \<Rightarrow> ('w, unit) native"
  ux_rename_noreplace :: "path \<Rightarrow> path \<Rightarrow> ('w, unit) native"
  ux_link :: "path \<Rightarrow> path \<Rightarrow> ('w, unit) native"
  ux_unlink :: "path \<Rightarrow> ('w, unit) native"
  ux_sync_dir :: "path \<Rightarrow> ('w, unit) native"
  ux_names :: "'w name_source"

definition raw_os_error :: "io_error \<Rightarrow> int option" where
  "raw_os_error e = (case ioe_payload e of OsCode n \<Rightarrow> Some n | _ \<Rightarrow> None)"

definition add_path_context :: "path \<Rightarrow> io_error \<Rightarrow> io_error" where
  "add_path_context p e = IoError (ioe_kind e) (PathPayload p e)"

section \<open>Parents\<close>

definition parent_dir_for :: "path \<Rightarrow> path" where
  "parent_dir_for p = (case path_parent p of Some q \<Rightarrow> if q = [] then [46] else q | None \<Rightarrow> [46])"

definition sync_parent_dir :: "('w, 'h) unix_fs \<Rightarrow> path \<Rightarrow> ('w, unit) native" where
  "sync_parent_dir fs p = ux_sync_dir fs (parent_dir_for p)"

text \<open>The loop over the ancestors, from the parent upwards; the missing ones come deepest first.\<close>

function missing_ancestors ::
  "('w, 'h) unix_fs \<Rightarrow> path \<Rightarrow> path list \<Rightarrow> ('w, path list) native" where
  "missing_ancestors fs current missing w =
     (case ux_metadata fs current w of
        (Ok st, w') \<Rightarrow>
          if st_kind st = Directory then (Ok missing, w') else (Err (io_error_of IoAlreadyExists), w')
      | (Err e, w') \<Rightarrow>
          if ioe_kind e = IoNotFound then
            (case path_parent current of
               Some up \<Rightarrow>
                 if up \<noteq> [] then missing_ancestors fs up (missing @ [current]) w'
                 else (Ok (missing @ [current]), w')
             | None \<Rightarrow> (Ok (missing @ [current]), w'))
          else (Err e, w')
      | (Panic, w') \<Rightarrow> (Panic, w'))"
  by pat_completeness auto
termination
  by (relation "measure (\<lambda>(fs, current, missing, w). length current)")
    (auto dest: path_parent_shorter)

definition ensure_parent_path_with_sync_dirs ::
  "('w, 'h) unix_fs \<Rightarrow> path \<Rightarrow> ('w, path list) native" where
  "ensure_parent_path_with_sync_dirs fs p =
     (case path_parent p of
        Some parent \<Rightarrow>
          if parent = [] then ret []
          else bind (missing_ancestors fs parent []) (\<lambda>missing.
               seq (ux_create_dir_all fs parent) (ret (rev missing)))
      | None \<Rightarrow> ret [])"

section \<open>Temporary files\<close>

definition should_retry_collision :: "io_error \<Rightarrow> usize \<Rightarrow> usize option \<Rightarrow> bool" where
  "should_retry_collision e attempt max_tries =
     (ioe_kind e = IoAlreadyExists \<and>
      (case max_tries of None \<Rightarrow> True | Some n \<Rightarrow> attempt < n))"

definition validate_max_tries :: "usize option \<Rightarrow> (unit, io_error) result" where
  "validate_max_tries max_tries =
     (if max_tries = Some 0 then Err (io_error_of IoInvalidInput) else Ok ())"

text \<open>Without a bound on the tries the loop has no end of its own; \<open>None\<close> is running out of fuel.\<close>

fun create_temp_loop ::
  "('w, 'h) unix_fs \<Rightarrow> path \<Rightarrow> byte list option \<Rightarrow> byte list option \<Rightarrow> usize option \<Rightarrow> nat \<Rightarrow> usize \<Rightarrow> 'w \<Rightarrow>
   ((path \<times> 'h, io_error) result \<times> 'w) option" where
  "create_temp_loop fs dir prefix suffix max_tries 0 attempt w = None"
| "create_temp_loop fs dir prefix suffix max_tries (Suc fuel) attempt w =
     (let attempt = saturating_add attempt 1
      in case try_random_file_name (ux_names fs) default_prefix prefix suffix w of
           (Ok name, w1) \<Rightarrow>
             (let p = path_join dir name
              in case ux_create_new fs p w1 of
                   (Ok h, w2) \<Rightarrow> Some (Ok (p, h), w2)
                 | (Err e, w2) \<Rightarrow>
                     if should_retry_collision e attempt max_tries
                     then create_temp_loop fs dir prefix suffix max_tries fuel attempt w2
                     else Some (Err (add_path_context p e), w2)
                 | (Panic, w2) \<Rightarrow> Some (Panic, w2))
         | (Err e, w1) \<Rightarrow> Some (Err e, w1)
         | (Panic, w1) \<Rightarrow> Some (Panic, w1))"

definition create_temp_file_in_dir ::
  "('w, 'h) unix_fs \<Rightarrow> nat \<Rightarrow> path \<Rightarrow> byte list option \<Rightarrow> byte list option \<Rightarrow> usize option \<Rightarrow> 'w \<Rightarrow>
   ((path \<times> 'h, io_error) result \<times> 'w) option" where
  "create_temp_file_in_dir fs fuel dir prefix suffix max_tries w =
     (case validate_max_tries max_tries of
        Ok _ \<Rightarrow> create_temp_loop fs dir prefix suffix max_tries fuel 0 w
      | Err e \<Rightarrow> Some (Err e, w)
      | Panic \<Rightarrow> Some (Panic, w))"

end
