(* ===== verification/Atomic_Writer.thy ===== *)
theory Atomic_Writer
  imports Unix_Calls
begin

text \<open>
  The same-directory atomic writer on Unix (Linux): the staging guard of
  \<^verbatim>\<open>src/local/internal/staged_file.rs\<close>, destination observation
  (\<^verbatim>\<open>opened_atomic_destination.rs\<close>, \<^verbatim>\<open>atomic_namespace_race.rs\<close>), installation and its recovery
  (\<^verbatim>\<open>atomic_file_install.rs\<close>, \<^verbatim>\<open>atomic_install_recovery.rs\<close>), the shared commit transitions
  (\<^verbatim>\<open>atomic_commit_state.rs\<close>) and \<^verbatim>\<open>src/local/local_atomic_writer.rs\<close> itself. A commit is a program over
  the writer and the world; dropping a writer runs the cleanup of its staging guard.
\<close>

section \<open>The staging guard\<close>

record 'h staged_file =
  sf_path :: "path option"
  sf_file :: "'h option"
  sf_identity :: "(u64 \<times> u64) option"

definition file_identity :: "('w, 'h) unix_fs \<Rightarrow> 'h \<Rightarrow> 'w \<Rightarrow> (u64 \<times> u64) option \<times> 'w" where
  "file_identity fs h w =
     (case ux_fstat fs h w of
        (Ok st, w') \<Rightarrow> (Some (st_dev st, st_ino st), w')
      | (_, w') \<Rightarrow> (None, w'))"

definition path_identity :: "('w, 'h) unix_fs \<Rightarrow> path \<Rightarrow> ('w, (u64 \<times> u64) option) native" where
  "path_identity fs p w =
     (case ux_symlink_metadata fs p w of
        (Ok st, w') \<Rightarrow>
          (if st_kind st = RegularFile then Ok (Some (st_dev st, st_ino st)) else Ok None, w')
      | (Err e, w') \<Rightarrow> (if ioe_kind e = IoNotFound then Ok None else Err e, w')
      | (Panic, w') \<Rightarrow> (Panic, w'))"

definition staged_new :: "('w, 'h) unix_fs \<Rightarrow> path \<Rightarrow> 'h \<Rightarrow> 'w \<Rightarrow> 'h staged_file \<times> 'w" where
  "staged_new fs p h w =
     (case file_identity fs h w of
        (identity, w') \<Rightarrow> (\<lparr>sf_path = Some p, sf_file = Some h, sf_identity = identity\<rparr>, w'))"

definition staged_close :: "'h staged_file \<Rightarrow> 'h staged_file" where
  "staged_close sf = sf\<lparr>sf_file := None\<rparr>"

definition staged_disarm :: "'h staged_file \<Rightarrow> 'h staged_file" where
  "staged_disarm sf = sf\<lparr>sf_file := None, sf_path := None\<rparr>"

definition staged_is_open :: "'h staged_file \<Rightarrow> bool" where
  "staged_is_open sf = (sf_file sf \<noteq> None)"

definition staged_cleanup ::
  "('w, 'h) unix_fs \<Rightarrow> 'h staged_file \<Rightarrow> 'w \<Rightarrow> (unit, io_error) result \<times> 'h staged_file \<times> 'w" where
  "staged_cleanup fs sf0 w =
     (let sf = staged_close sf0
      in case sf_path sf of
           None \<Rightarrow> (Ok (), sf, w)
         | Some p \<Rightarrow>
             (case path_identity fs p w of
                (Ok current, w1) \<Rightarrow>
                  if current = None then (Ok (), sf\<lparr>sf_path := None\<rparr>, w1)
                  else if sf_identity sf = None \<or> current \<noteq> sf_identity sf then
                    (Err (io_error_of IoInvalidInput), sf, w1)
                  else
                    (case ux_unlink fs p w1 of
                       (Ok _, w2) \<Rightarrow> (Ok (), sf\<lparr>sf_path := None\<rparr>, w2)
                     | (Err e, w2) \<Rightarrow> (Err e, sf, w2)
                     | (Panic, w2) \<Rightarrow> (Panic, sf, w2))
              | (Err e, w1) \<Rightarrow> (Err e, sf, w1)
              | (Panic, w1) \<Rightarrow> (Panic, sf, w1)))"

section \<open>The writer\<close>

datatype publication_mode = PublishCreateNew | ReplaceOrCreate

record atomic_options =
  ao_create_parent :: bool
  ao_metadata_policy :: metadata_policy
  ao_open_retry_timeout :: "duration option"
  ao_replace_target_symlink :: bool
  ao_publication_mode :: publication_mode
  ao_durability :: durability
  ao_file_sync :: file_sync

definition atomic_options_new :: atomic_options where
  "atomic_options_new =
     \<lparr>ao_create_parent = False, ao_metadata_policy = PreserveExisting, ao_open_retry_timeout = None,
      ao_replace_target_symlink = False, ao_publication_mode = ReplaceOrCreate,
      ao_durability = DurRequired, ao_file_sync = SyncNotRequired\<rparr>"

record 'h atomic_writer =
  lw_metadata_policy :: metadata_policy
  lw_path :: path
  lw_operation_path :: path
  lw_parent_dirs_to_sync :: "path list"
  lw_destination_existed :: bool
  lw_destination_is_regular :: bool
  lw_durability :: durability
  lw_file_sync :: file_sync
  lw_open_retry_timeout :: "duration option"
  lw_staged_file :: "'h staged_file"

record ('w, 'h) atomic_state =
  as_writer :: "'h atomic_writer"
  as_world :: 'w

type_synonym ('w, 'h, 'x) atomic_m = "(('w, 'h) atomic_state, atomic_write_error, 'x) prog"

definition atomic_error_new ::
  "atomic_write_stage \<Rightarrow> path \<Rightarrow> path option \<Rightarrow> destination_state \<Rightarrow> io_error \<Rightarrow> atomic_write_error" where
  "atomic_error_new stage p tmp dest source = AtomicWriteError stage p tmp dest None None source"

fun with_atomic_cleanup_error :: "io_error option \<Rightarrow> atomic_write_error \<Rightarrow> atomic_write_error" where
  "with_atomic_cleanup_error c (AtomicWriteError stage p tmp dest _ ps source) =
     AtomicWriteError stage p tmp dest c ps source"

fun with_parent_sync_error :: "io_error option \<Rightarrow> atomic_write_error \<Rightarrow> atomic_write_error" where
  "with_parent_sync_error ps (AtomicWriteError stage p tmp dest c _ source) =
     AtomicWriteError stage p tmp dest c ps source"

section \<open>Calls inside a commit\<close>

definition os :: "('w, 'e, 'x) prog \<Rightarrow> (('w, 'h) atomic_state, 'e, 'x) prog" where
  "os op s = (case op (as_world s) of (r, w') \<Rightarrow> (r, s\<lparr>as_world := w'\<rparr>))"

definition on_staged ::
  "('h staged_file \<Rightarrow> 'h staged_file) \<Rightarrow> ('w, 'h) atomic_state \<Rightarrow> ('w, 'h) atomic_state" where
  "on_staged f s =
     s\<lparr>as_writer := (as_writer s)\<lparr>lw_staged_file := f (lw_staged_file (as_writer s))\<rparr>\<rparr>"

text \<open>\<open>staged_file.path()\<close> and \<open>staged_file.file()\<close>, which panic after the guard was disarmed or closed.\<close>

definition staged_path :: "(('w, 'h) atomic_state, 'e, path) prog" where
  "staged_path =
     bind (gets (\<lambda>s. sf_path (lw_staged_file (as_writer s))))
       (\<lambda>p. case p of Some p \<Rightarrow> ret p | None \<Rightarrow> panic)"

definition staged_handle :: "(('w, 'h) atomic_state, 'e, 'h) prog" where
  "staged_handle =
     bind (gets (\<lambda>s. sf_file (lw_staged_file (as_writer s))))
       (\<lambda>h. case h of Some h \<Rightarrow> ret h | None \<Rightarrow> panic)"

definition clean_staged :: "('w, 'h) unix_fs \<Rightarrow> (('w, 'h) atomic_state, io_error, unit) prog" where
  "clean_staged fs s =
     (case staged_cleanup fs (lw_staged_file (as_writer s)) (as_world s) of
        (r, sf, w') \<Rightarrow> (r, on_staged (\<lambda>_. sf) (s\<lparr>as_world := w'\<rparr>)))"

text \<open>\<open>with_atomic_context\<close>; its arguments are evaluated in order, so the staging path is read after
  the call.\<close>

definition with_atomic_context ::
  "atomic_write_stage \<Rightarrow> destination_state \<Rightarrow> (('w, 'h) atomic_state, io_error, 'x) prog \<Rightarrow>
   ('w, 'h, 'x) atomic_m" where
  "with_atomic_context stage dest op =
     bind (caught op) (\<lambda>r.
     bind staged_path (\<lambda>tmp.
     bind (gets (\<lambda>s. lw_path (as_writer s))) (\<lambda>p.
       case r of
         Ok x \<Rightarrow> ret x
       | Err e \<Rightarrow> fail (atomic_error_new stage p (Some tmp) dest e)
       | Panic \<Rightarrow> panic)))"

section \<open>Observing the destination\<close>

record 'h opened_destination =
  od_file :: "'h option"
  od_device :: u64
  od_inode :: u64

definition destination_from_file ::
  "('w, 'h) unix_fs \<Rightarrow> 'h \<Rightarrow> ('w, 'h opened_destination) native" where
  "destination_from_file fs h =
     bind (ux_fstat fs h) (\<lambda>st.
       if st_kind st \<noteq> RegularFile then fail (io_error_of IoInvalidInput)
       else seq (ux_clear_nonblocking fs h)
              (ret \<lparr>od_file = Some h, od_device = st_dev st, od_inode = st_ino st\<rparr>))"

text \<open>The codes of \<open>ELOOP\<close>, \<open>ENXIO\<close> and \<open>ENODEV\<close>.\<close>

definition open_destination_with_retry ::
  "('w, 'h) unix_fs \<Rightarrow> path \<Rightarrow> duration option \<Rightarrow> ('w, 'h opened_destination option) native" where
  "open_destination_with_retry fs p timeout =
     bind (caught (ux_open_retrying fs p timeout)) (\<lambda>r.
       case r of
         Ok h \<Rightarrow> bind (destination_from_file fs h) (\<lambda>d. ret (Some d))
       | Err e \<Rightarrow>
           if ioe_kind e = IoNotFound then ret None
           else if raw_os_error e \<in> {Some 40, Some 6, Some 19} then fail (io_error_of IoInvalidInput)
           else fail e
       | Panic \<Rightarrow> panic)"

definition open_atomic_destination ::
  "('w, 'h) unix_fs \<Rightarrow> path \<Rightarrow> duration option \<Rightarrow> metadata_policy \<Rightarrow>
   ('w, 'h opened_destination option) native" where
  "open_atomic_destination fs p timeout policy =
     (if policy = UseStaging then
        bind (caught (ux_symlink_metadata fs p)) (\<lambda>r.
          case r of
            Ok st \<Rightarrow>
              if st_kind st = RegularFile then
                ret (Some \<lparr>od_file = None, od_device = st_dev st, od_inode = st_ino st\<rparr>)
              else fail (io_error_of IoInvalidInput)
          | Err e \<Rightarrow> if ioe_kind e = IoNotFound then ret None else fail e
          | Panic \<Rightarrow> panic)
      else open_destination_with_retry fs p timeout)"

definition destination_identity_matches ::
  "('w, 'h) unix_fs \<Rightarrow> path \<Rightarrow> 'h opened_destination \<Rightarrow> ('w, bool) native" where
  "destination_identity_matches fs p d =
     bind (caught (ux_symlink_metadata fs p)) (\<lambda>r.
       case r of
         Ok st \<Rightarrow>
           ret (st_kind st = RegularFile \<and> st_dev st = od_device d \<and> st_ino st = od_inode d)
       | Err e \<Rightarrow> if ioe_kind e = IoNotFound then ret False else fail e
       | Panic \<Rightarrow> panic)"

definition destination_mismatch_state ::
  "('w, 'h) unix_fs \<Rightarrow> path \<Rightarrow> ('w, destination_state) native" where
  "destination_mismatch_state fs p =
     bind (caught (ux_symlink_metadata fs p)) (\<lambda>r.
       case r of
         Err e \<Rightarrow> ret (if ioe_kind e = IoNotFound then DestMissing else DestUnchanged)
       | Ok _ \<Rightarrow> ret DestUnchanged
       | Panic \<Rightarrow> panic)"

definition identity_error ::
  "path \<Rightarrow> io_error \<Rightarrow> destination_state \<Rightarrow> path \<Rightarrow> atomic_write_error" where
  "identity_error requested source dest tmp =
     atomic_error_new ReplaceDestination requested (Some tmp) dest source"

definition verify_atomic_destination_identity ::
  "('w, 'h) unix_fs \<Rightarrow> path \<Rightarrow> 'h opened_destination \<Rightarrow> path \<Rightarrow> path \<Rightarrow> ('w, 'h, unit) atomic_m" where
  "verify_atomic_destination_identity fs operation_path d requested tmp =
     bind (caught (os (destination_identity_matches fs operation_path d))) (\<lambda>r.
       case r of
         Ok True \<Rightarrow> ret ()
       | Ok False \<Rightarrow>
           bind (or_fail (\<lambda>_ e. identity_error requested e DestUnchanged tmp) id
                   (os (destination_mismatch_state fs operation_path))) (\<lambda>dest.
             fail (identity_error requested (io_error_of IoInvalidInput) dest tmp))
       | Err e \<Rightarrow> fail (identity_error requested e DestUnchanged tmp)
       | Panic \<Rightarrow> panic)"

section \<open>Installation\<close>

datatype staging_state = StagingPresent | StagingIndeterminate

type_synonym ('w, 'x) install = "('w, io_error \<times> destination_state \<times> staging_state, 'x) prog"

definition unchanged_error :: "io_error \<Rightarrow> io_error \<times> destination_state \<times> staging_state" where
  "unchanged_error e = (e, DestUnchanged, StagingPresent)"

definition replacement_error_state :: "io_error \<Rightarrow> destination_state" where
  "replacement_error_state e = DestUnchanged"

definition native_path :: "path \<Rightarrow> (path, io_error) result" where
  "native_path p = (if 0 \<in> set p then Err (io_error_of IoInvalidInput) else Ok p)"

text \<open>\<open>replace_file\<close> and \<open>move_file_without_replacing\<close> of \<^verbatim>\<open>file_move.rs\<close>.\<close>

definition replace_file :: "('w, 'h) unix_fs \<Rightarrow> path \<Rightarrow> path \<Rightarrow> ('w, unit) native" where
  "replace_file fs source destination = ux_rename fs source destination"

definition move_path_without_replacing :: "('w, 'h) unix_fs \<Rightarrow> path \<Rightarrow> path \<Rightarrow> ('w, unit) native" where
  "move_path_without_replacing fs source destination =
     bind (answer (native_path source)) (\<lambda>source.
     bind (answer (native_path destination)) (\<lambda>destination. ux_rename_noreplace fs source destination))"

text \<open>The loop of \<open>MAX_UNLINK_ATTEMPTS\<close> attempts; its \<open>expect\<close> is the panic of zero attempts.\<close>

fun unlink_attempts ::
  "('w, 'h) unix_fs \<Rightarrow> nat \<Rightarrow> io_error option \<Rightarrow> path \<Rightarrow> ('w, unit) install" where
  "unlink_attempts fs 0 last_error staging =
     (case last_error of
        Some e \<Rightarrow> fail (e, DestReplaced, StagingPresent)
      | None \<Rightarrow> panic)"
| "unlink_attempts fs (Suc n) last_error staging =
     bind (caught (ux_unlink fs staging)) (\<lambda>r.
       case r of
         Ok _ \<Rightarrow> ret ()
       | Err e \<Rightarrow>
           if ioe_kind e = IoNotFound then ret () else unlink_attempts fs n (Some e) staging
       | Panic \<Rightarrow> panic)"

definition link_then_unlink :: "('w, 'h) unix_fs \<Rightarrow> path \<Rightarrow> path \<Rightarrow> ('w, unit) install" where
  "link_then_unlink fs staging destination =
     seq (or_fail (\<lambda>_ e. unchanged_error e) id (ux_link fs staging destination))
       (unlink_attempts fs 2 None staging)"

text \<open>The codes of \<open>ENOSYS\<close>, \<open>EINVAL\<close> and \<open>EOPNOTSUPP\<close>.\<close>

definition install_new_atomic_file_at :: "('w, 'h) unix_fs \<Rightarrow> path \<Rightarrow> path \<Rightarrow> ('w, unit) install" where
  "install_new_atomic_file_at fs staging destination =
     bind (caught (ux_rename_noreplace fs staging destination)) (\<lambda>r.
       case r of
         Ok _ \<Rightarrow> ret ()
       | Err e \<Rightarrow>
           if raw_os_error e \<notin> {Some 38, Some 22, Some 95} then fail (unchanged_error e)
           else link_then_unlink fs staging destination
       | Panic \<Rightarrow> panic)"

definition install_new_atomic_file :: "('w, 'h) unix_fs \<Rightarrow> path \<Rightarrow> path \<Rightarrow> ('w, unit) install" where
  "install_new_atomic_file fs staging destination =
     (case native_path staging of
        Ok s \<Rightarrow>
          (case native_path destination of
             Ok d \<Rightarrow> install_new_atomic_file_at fs s d
           | Err e \<Rightarrow> fail (unchanged_error e)
           | Panic \<Rightarrow> panic)
      | Err e \<Rightarrow> fail (unchanged_error e)
      | Panic \<Rightarrow> panic)"

definition replace_existing_atomic_file :: "('w, 'h) unix_fs \<Rightarrow> path \<Rightarrow> path \<Rightarrow> ('w, unit) native" where
  "replace_existing_atomic_file fs staging destination = ux_rename fs staging destination"

definition install_atomic_file ::
  "('w, 'h) unix_fs \<Rightarrow> path \<Rightarrow> path \<Rightarrow> bool \<Rightarrow> ('w, unit) install" where
  "install_atomic_file fs staging destination existed =
     (if existed then
        or_fail (\<lambda>_ source.
          let dest = replacement_error_state source
          in (source, dest, if dest = DestUnchanged then StagingPresent else StagingIndeterminate)) id
          (replace_existing_atomic_file fs staging destination)
      else install_new_atomic_file fs staging destination)"

text \<open>
  The recovery of a failed installation, with its callbacks as programs: the two ends of the function
  first, the durability match after a recovered replacement and the final report.
\<close>

definition sync_recovered ::
  "path \<Rightarrow> path \<Rightarrow> destination_state \<Rightarrow> durability \<Rightarrow> ('s, io_error, unit) prog \<Rightarrow>
   ('s, atomic_write_error, bool) prog" where
  "sync_recovered p tmp dest durability sync_parent =
     (case durability of
        DurNotRequired \<Rightarrow> ret False
      | DurPreferred \<Rightarrow> bind (caught sync_parent) (\<lambda>r. case r of
          Ok _ \<Rightarrow> ret True | Err _ \<Rightarrow> ret False | Panic \<Rightarrow> panic)
      | DurRequired \<Rightarrow>
          seq (or_fail (\<lambda>_ e. atomic_error_new SyncParent p (Some tmp) dest e) id sync_parent)
            (ret True))"

definition report_install_error ::
  "path \<Rightarrow> path \<Rightarrow> io_error \<Rightarrow> destination_state \<Rightarrow> durability \<Rightarrow> ('s, io_error, unit) prog \<Rightarrow>
   io_error option \<Rightarrow> ('s, atomic_write_error, 'x) prog" where
  "report_install_error p tmp source dest durability sync_parent cleanup_error =
     bind (if dest = DestReplaced \<and> durability \<noteq> DurNotRequired then
             bind (caught sync_parent) (\<lambda>r. case r of
               Ok _ \<Rightarrow> ret None | Err e \<Rightarrow> ret (Some e) | Panic \<Rightarrow> panic)
           else ret None) (\<lambda>parent_sync_error.
       fail (with_parent_sync_error parent_sync_error
              (with_atomic_cleanup_error cleanup_error
                (atomic_error_new ReplaceDestination p (Some tmp) dest source))))"

definition recover_atomic_install_error ::
  "path \<Rightarrow> path \<Rightarrow> io_error \<Rightarrow> destination_state \<Rightarrow> staging_state \<Rightarrow> durability \<Rightarrow>
   ('s, io_error, unit) prog \<Rightarrow> ('s, atomic_write_error, unit) prog \<Rightarrow> ('s, io_error, unit) prog \<Rightarrow>
   ('s, atomic_write_error, bool) prog" where
  "recover_atomic_install_error p tmp source dest staging durability cleanup disarm sync_parent =
     (let report = report_install_error p tmp source dest durability sync_parent
      in case staging of
           StagingPresent \<Rightarrow>
             bind (caught cleanup) (\<lambda>r.
               case r of
                 Ok _ \<Rightarrow>
                   if dest = DestReplaced then sync_recovered p tmp dest durability sync_parent
                   else report None
               | Err e \<Rightarrow> report (Some e)
               | Panic \<Rightarrow> panic)
         | StagingIndeterminate \<Rightarrow> seq disarm (report None))"

section \<open>One commit attempt\<close>

definition staging_sync_requirement :: "durability \<Rightarrow> file_sync \<Rightarrow> file_sync" where
  "staging_sync_requirement durability sync =
     (if durability = DurRequired \<or> sync = SyncRequired then SyncRequired
      else if durability = DurPreferred \<or> sync = SyncPreferred then SyncPreferred
      else SyncNotRequired)"

definition synchronize_staging_file ::
  "durability \<Rightarrow> file_sync \<Rightarrow> (('w, 'h) atomic_state, io_error, unit) prog \<Rightarrow>
   ((('w, 'h) atomic_state, io_error, unit) prog \<Rightarrow> ('w, 'h, unit) atomic_m) \<Rightarrow> ('w, 'h, bool) atomic_m" where
  "synchronize_staging_file durability sync sync_file map_required_error =
     (case staging_sync_requirement durability sync of
        SyncNotRequired \<Rightarrow> ret False
      | SyncPreferred \<Rightarrow> bind (caught sync_file) (\<lambda>r. case r of
          Ok _ \<Rightarrow> ret True | Err _ \<Rightarrow> ret False | Panic \<Rightarrow> panic)
      | SyncRequired \<Rightarrow> seq (map_required_error sync_file) (ret True))"

definition open_destination_for_commit ::
  "('w, 'h) unix_fs \<Rightarrow> ('w, 'h, 'h opened_destination option) atomic_m" where
  "open_destination_for_commit fs =
     bind (gets as_writer) (\<lambda>wr.
       if \<not> lw_destination_is_regular wr then ret None
       else
         bind staged_path (\<lambda>tmp.
         bind (or_fail (\<lambda>_ e. atomic_error_new ReadDestinationMetadata (lw_path wr) (Some tmp)
                          DestUnchanged e) id
                 (os (open_atomic_destination fs (lw_operation_path wr) (lw_open_retry_timeout wr)
                        (lw_metadata_policy wr)))) (\<lambda>opened.
           case opened of
             Some d \<Rightarrow> ret (Some d)
           | None \<Rightarrow>
               fail (atomic_error_new ReadDestinationMetadata (lw_path wr) (Some tmp) DestMissing
                       (io_error_of IoNotFound)))))"

definition apply_destination_metadata ::
  "('w, 'h) unix_fs \<Rightarrow> 'h opened_destination option \<Rightarrow> ('w, 'h, unit) atomic_m" where
  "apply_destination_metadata fs destination =
     (case destination of
        None \<Rightarrow> ret ()
      | Some d \<Rightarrow>
          (case od_file d of
             None \<Rightarrow> ret ()
           | Some h \<Rightarrow>
               bind staged_handle (\<lambda>staged.
                 with_atomic_context ApplyDestinationMetadata DestUnchanged
                   (os (ux_preserve_metadata fs h staged)))))"

definition sync_temporary_file :: "('w, 'h) unix_fs \<Rightarrow> ('w, 'h, bool) atomic_m" where
  "sync_temporary_file fs =
     bind staged_handle (\<lambda>staged.
     bind (gets as_writer) (\<lambda>wr.
       synchronize_staging_file (lw_durability wr) (lw_file_sync wr) (os (ux_sync_all fs staged))
         (with_atomic_context SyncTemporaryFile DestUnchanged)))"

definition verify_destination_for_commit ::
  "('w, 'h) unix_fs \<Rightarrow> 'h opened_destination option \<Rightarrow> ('w, 'h, unit) atomic_m" where
  "verify_destination_for_commit fs destination =
     (case destination of
        None \<Rightarrow> ret ()
      | Some d \<Rightarrow>
          bind (gets as_writer) (\<lambda>wr. bind staged_path (\<lambda>tmp.
            verify_atomic_destination_identity fs (lw_operation_path wr) d (lw_path wr) tmp)))"

fun sync_parents :: "('w, 'h) unix_fs \<Rightarrow> path list \<Rightarrow> ('w, unit) native" where
  "sync_parents fs [] = ret ()"
| "sync_parents fs (d # ds) = seq (sync_parent_dir fs d) (sync_parents fs ds)"

definition sync_atomic_parent_chain :: "('w, 'h) unix_fs \<Rightarrow> path \<Rightarrow> path list \<Rightarrow> ('w, unit) native" where
  "sync_atomic_parent_chain fs p dirs = seq (sync_parent_dir fs p) (sync_parents fs (rev dirs))"

text \<open>What follows a successful installation: the guard is disarmed and the parents are synchronized.\<close>

definition finish_install ::
  "durability \<Rightarrow> path \<Rightarrow> path \<Rightarrow> (('w, 'h) atomic_state, io_error, unit) prog \<Rightarrow> ('w, 'h, bool) atomic_m" where
  "finish_install durability p tmp sync_parent =
     seq (modify (on_staged staged_disarm))
       (if durability = DurNotRequired then ret False
        else bind (caught sync_parent) (\<lambda>r.
          case r of
            Ok _ \<Rightarrow> ret True
          | Err e \<Rightarrow>
              if durability = DurPreferred then ret False
              else fail (atomic_error_new SyncParent p (Some tmp) DestReplaced e)
          | Panic \<Rightarrow> panic))"

definition install_and_sync_parent :: "('w, 'h) unix_fs \<Rightarrow> ('w, 'h, bool) atomic_m" where
  "install_and_sync_parent fs =
     seq (modify (on_staged staged_close))
     (bind (gets as_writer) (\<lambda>wr.
      bind staged_path (\<lambda>tmp.
      let sync_parent = os (sync_atomic_parent_chain fs (lw_operation_path wr) (lw_parent_dirs_to_sync wr))
      in
      bind (caught (os (install_atomic_file fs tmp (lw_operation_path wr) (lw_destination_existed wr))))
        (\<lambda>installed.
          case installed of
            Ok _ \<Rightarrow> finish_install (lw_durability wr) (lw_path wr) tmp sync_parent
          | Err (source, dest, staging) \<Rightarrow>
              recover_atomic_install_error (lw_path wr) tmp source dest staging (lw_durability wr)
                (clean_staged fs) (modify (on_staged staged_disarm)) sync_parent
          | Panic \<Rightarrow> panic))))"

record sync_outcome =
  so_durable :: bool
  so_file_synced :: bool

definition commit_attempt :: "('w, 'h) unix_fs \<Rightarrow> ('w, 'h, sync_outcome) atomic_m" where
  "commit_attempt fs =
     bind (open_destination_for_commit fs) (\<lambda>destination.
     seq (apply_destination_metadata fs destination)
     (bind (sync_temporary_file fs) (\<lambda>file_synced.
      seq (verify_destination_for_commit fs destination)
      (bind (install_and_sync_parent fs) (\<lambda>parent_durable.
       bind (gets as_writer) (\<lambda>wr.
         ret \<lparr>so_durable = (lw_durability wr \<noteq> DurNotRequired \<and> file_synced \<and> parent_durable),
              so_file_synced = file_synced\<rparr>))))))"

section \<open>The public operations\<close>

text \<open>Dropping a writer drops its staging guard, which cleans up and ignores the result.\<close>

definition drop_writer :: "('w, 'h) unix_fs \<Rightarrow> ('w, 'h) atomic_state \<Rightarrow> 'w" where
  "drop_writer fs s = as_world (snd (clean_staged fs s))"

text \<open>\<open>commit_recoverable_with_sync\<close> through \<open>commit_recoverably\<close>.\<close>

definition atomic_commit ::
  "('w, 'h) unix_fs \<Rightarrow> 'h atomic_writer \<Rightarrow> 'w \<Rightarrow>
   (sync_outcome, atomic_write_error \<times> 'h atomic_writer option) result \<times> 'w" where
  "atomic_commit fs wr w =
     (case commit_attempt fs \<lparr>as_writer = wr, as_world = w\<rparr> of
        (Ok out, s) \<Rightarrow> (Ok out, drop_writer fs s)
      | (Err e, s) \<Rightarrow>
          if staged_is_open (lw_staged_file (as_writer s))
          then (Err (e, Some (as_writer s)), as_world s)
          else (Err (e, None), drop_writer fs s)
      | (Panic, s) \<Rightarrow> (Panic, as_world s))"

definition atomic_abort ::
  "('w, 'h) unix_fs \<Rightarrow> 'h atomic_writer \<Rightarrow> 'w \<Rightarrow>
   (unit, atomic_write_error) result \<times> 'h atomic_writer \<times> 'w" where
  "atomic_abort fs wr w =
     (case (bind staged_path (\<lambda>tmp.
              or_fail (\<lambda>s e. atomic_error_new CleanupTemporaryFile (lw_path (as_writer s)) (Some tmp)
                         DestUnchanged e) id (clean_staged fs))) \<lparr>as_writer = wr, as_world = w\<rparr> of
        (r, s) \<Rightarrow> (r, as_writer s, as_world s))"

definition atomic_write ::
  "('w, 'h) unix_fs \<Rightarrow> 'h atomic_writer \<Rightarrow> byte list \<Rightarrow> ('w, usize) native" where
  "atomic_write fs wr bytes =
     (case sf_file (lw_staged_file wr) of None \<Rightarrow> panic | Some h \<Rightarrow> ux_write fs h bytes)"

definition atomic_write_vectored ::
  "('w, 'h) unix_fs \<Rightarrow> 'h atomic_writer \<Rightarrow> byte list list \<Rightarrow> ('w, usize) native" where
  "atomic_write_vectored fs wr slices =
     (case sf_file (lw_staged_file wr) of None \<Rightarrow> panic | Some h \<Rightarrow> ux_write_vectored fs h slices)"

definition atomic_flush :: "('w, 'h) unix_fs \<Rightarrow> 'h atomic_writer \<Rightarrow> ('w, unit) native" where
  "atomic_flush fs wr =
     (case sf_file (lw_staged_file wr) of None \<Rightarrow> panic | Some h \<Rightarrow> ux_flush fs h)"

section \<open>Opening a writer\<close>

definition existing_file_metadata ::
  "('w, 'h) unix_fs \<Rightarrow> path \<Rightarrow> bool \<Rightarrow> ('w, bool \<times> bool) native" where
  "existing_file_metadata fs p replace_target_symlink =
     bind (caught (ux_symlink_metadata fs p)) (\<lambda>r.
       case r of
         Ok st \<Rightarrow>
           if st_kind st = RegularFile then ret (True, True)
           else if replace_target_symlink \<and> st_kind st = Symlink then ret (True, False)
           else fail (io_error_of IoInvalidInput)
       | Err e \<Rightarrow> if ioe_kind e = IoNotFound then ret (False, False) else fail (add_path_context p e)
       | Panic \<Rightarrow> panic)"

definition prepare_parent ::
  "('w, 'h) unix_fs \<Rightarrow> path \<Rightarrow> atomic_options \<Rightarrow> ('w, path list) native" where
  "prepare_parent fs operation_path opts =
     (if ao_create_parent opts then ensure_parent_path_with_sync_dirs fs operation_path
      else bind (ux_metadata fs (parent_dir_for operation_path)) (\<lambda>st.
             if st_kind st = Directory then ret [] else fail (io_error_of IoNotADirectory)))"

definition inspect_destination ::
  "('w, 'h) unix_fs \<Rightarrow> path \<Rightarrow> atomic_options \<Rightarrow> ('w, bool \<times> bool) native" where
  "inspect_destination fs operation_path opts =
     (if ao_publication_mode opts = PublishCreateNew then
        bind (caught (ux_symlink_metadata fs operation_path)) (\<lambda>r.
          case r of
            Ok _ \<Rightarrow> fail (io_error_of IoAlreadyExists)
          | Err e \<Rightarrow> if ioe_kind e = IoNotFound then ret (False, False) else fail e
          | Panic \<Rightarrow> panic)
      else existing_file_metadata fs operation_path (ao_replace_target_symlink opts))"

text \<open>The prefix \<open>.atomic-write-\<close> and the suffix \<open>.tmp\<close>.\<close>

definition atomic_write_temp_prefix :: "byte list" where
  "atomic_write_temp_prefix =
     [46, 97, 116, 111, 109, 105, 99, 45, 119, 114, 105, 116, 101, 45]"

definition atomic_write_temp_suffix :: "byte list" where
  "atomic_write_temp_suffix = [46, 116, 109, 112]"

definition in_stage ::
  "atomic_write_stage \<Rightarrow> path \<Rightarrow> ('w, 'x) native \<Rightarrow> ('w, atomic_write_error, 'x) prog" where
  "in_stage stage p = or_fail (\<lambda>_ e. atomic_error_new stage p None DestUnchanged e) id"

definition atomic_writer_new ::
  "('w, 'h) unix_fs \<Rightarrow> nat \<Rightarrow> path \<Rightarrow> atomic_options \<Rightarrow> 'w \<Rightarrow>
   (('h atomic_writer, atomic_write_error) result \<times> 'w) option" where
  "atomic_writer_new fs fuel p opts w =
     (case (bind (in_stage PrepareParent p (ux_absolute fs p)) (\<lambda>operation_path.
            bind (in_stage PrepareParent p (prepare_parent fs operation_path opts)) (\<lambda>dirs.
            bind (in_stage InspectDestination p (inspect_destination fs operation_path opts)) (\<lambda>observed.
              ret (operation_path, dirs, observed))))) w of
        (Err e, w1) \<Rightarrow> Some (Err e, w1)
      | (Panic, w1) \<Rightarrow> Some (Panic, w1)
      | (Ok (operation_path, dirs, existed, regular), w1) \<Rightarrow>
          (case create_temp_file_in_dir fs fuel (parent_dir_for operation_path)
                  (Some atomic_write_temp_prefix) (Some atomic_write_temp_suffix) None w1 of
             None \<Rightarrow> None
           | Some (Err e, w2) \<Rightarrow>
               Some (Err (atomic_error_new CreateTemporaryFile p None DestUnchanged e), w2)
           | Some (Panic, w2) \<Rightarrow> Some (Panic, w2)
           | Some (Ok (tmp, h), w2) \<Rightarrow>
               (case staged_new fs tmp h w2 of
                  (sf, w3) \<Rightarrow>
                    Some (Ok \<lparr>lw_metadata_policy = ao_metadata_policy opts, lw_path = p,
                              lw_operation_path = operation_path, lw_parent_dirs_to_sync = dirs,
                              lw_destination_existed = existed, lw_destination_is_regular = regular,
                              lw_durability = ao_durability opts, lw_file_sync = ao_file_sync opts,
                              lw_open_retry_timeout = ao_open_retry_timeout opts,
                              lw_staged_file = sf\<rparr>, w3))))"

end
