(* ===== verification/Local_Writer.thy ===== *)
theory Local_Writer
  imports Writer_Session Atomic_Writer
begin

text \<open>
  The public file writer of \<^verbatim>\<open>src/writer/local_file_writer.rs\<close> over its three backends
  (\<^verbatim>\<open>src/writer/internal/local_file_writer_backend.rs\<close>): the path-based atomic writer, the
  descriptor-relative one, and a file opened for append. The calls of the two staged backends are records
  of operations; \<open>atomic_calls\<close> is the record of the path-based one. The synchronization observer counts
  calls for tests and has no place here.
\<close>

section \<open>Backends\<close>

record ('w, 'b) staged_calls =
  sc_write :: "'b \<Rightarrow> byte list \<Rightarrow> ('w, usize) native"
  sc_write_vectored :: "'b \<Rightarrow> byte list list \<Rightarrow> ('w, usize) native"
  sc_flush :: "'b \<Rightarrow> ('w, unit) native"
  sc_commit :: "'b \<Rightarrow> 'w \<Rightarrow> (sync_outcome, atomic_write_error \<times> 'b option) result \<times> 'w"
  sc_abort :: "'b \<Rightarrow> 'w \<Rightarrow> (unit, atomic_write_error) result \<times> 'b \<times> 'w"
  sc_drop :: "'b \<Rightarrow> 'w \<Rightarrow> 'w"

definition atomic_calls :: "('w, 'h) unix_fs \<Rightarrow> ('w, 'h atomic_writer) staged_calls" where
  "atomic_calls fs =
     \<lparr>sc_write = atomic_write fs, sc_write_vectored = atomic_write_vectored fs, sc_flush = atomic_flush fs,
      sc_commit = atomic_commit fs, sc_abort = atomic_abort fs,
      sc_drop = (\<lambda>wr w. drop_writer fs \<lparr>as_writer = wr, as_world = w\<rparr>)\<rparr>"

datatype ('a, 'r, 'h) writer_backend = StagedBackend 'a | RootedBackend 'r | AppendBackend 'h

record ('w, 'a, 'r, 'h) writer_calls =
  wc_staged :: "('w, 'a) staged_calls"
  wc_rooted :: "('w, 'r) staged_calls"
  wc_append_write :: "'h \<Rightarrow> byte list \<Rightarrow> ('w, usize) native"
  wc_append_write_vectored :: "'h \<Rightarrow> byte list list \<Rightarrow> ('w, usize) native"
  wc_append_flush :: "'h \<Rightarrow> ('w, unit) native"
  wc_append_sync :: "'h \<Rightarrow> ('w, unit) native"

type_synonym ('w, 'a, 'r, 'h) commit_staged_result =
  "(sync_outcome, atomic_write_error \<times> ('a, 'r, 'h) writer_backend option) result \<times> 'w"

definition commit_staged ::
  "('w, 'a, 'r, 'h) writer_calls \<Rightarrow> ('a, 'r, 'h) writer_backend \<Rightarrow> 'w \<Rightarrow>
   ('w, 'a, 'r, 'h) commit_staged_result" where
  "commit_staged calls b w =
     (case b of
        StagedBackend a \<Rightarrow>
          (case sc_commit (wc_staged calls) a w of
             (r, w') \<Rightarrow> (map_err (\<lambda>(e, retained). (e, map_option StagedBackend retained)) r, w'))
      | RootedBackend a \<Rightarrow>
          (case sc_commit (wc_rooted calls) a w of
             (r, w') \<Rightarrow> (map_err (\<lambda>(e, retained). (e, map_option RootedBackend retained)) r, w'))
      | AppendBackend _ \<Rightarrow> (Panic, w))"

definition abort_staged ::
  "('w, 'a, 'r, 'h) writer_calls \<Rightarrow> ('a, 'r, 'h) writer_backend \<Rightarrow> 'w \<Rightarrow>
   (unit, atomic_write_error) result \<times> ('a, 'r, 'h) writer_backend \<times> 'w" where
  "abort_staged calls b w =
     (case b of
        StagedBackend a \<Rightarrow> (case sc_abort (wc_staged calls) a w of (r, a', w') \<Rightarrow> (r, StagedBackend a', w'))
      | RootedBackend a \<Rightarrow> (case sc_abort (wc_rooted calls) a w of (r, a', w') \<Rightarrow> (r, RootedBackend a', w'))
      | AppendBackend _ \<Rightarrow> (Panic, b, w))"

definition backend_write ::
  "('w, 'a, 'r, 'h) writer_calls \<Rightarrow> ('a, 'r, 'h) writer_backend option \<Rightarrow> byte list \<Rightarrow> ('w, usize) native" where
  "backend_write calls b bytes =
     (case b of
        Some (StagedBackend a) \<Rightarrow> sc_write (wc_staged calls) a bytes
      | Some (RootedBackend a) \<Rightarrow> sc_write (wc_rooted calls) a bytes
      | Some (AppendBackend h) \<Rightarrow> wc_append_write calls h bytes
      | None \<Rightarrow> panic)"

definition backend_write_vectored ::
  "('w, 'a, 'r, 'h) writer_calls \<Rightarrow> ('a, 'r, 'h) writer_backend option \<Rightarrow> byte list list \<Rightarrow> ('w, usize) native" where
  "backend_write_vectored calls b slices =
     (case b of
        Some (StagedBackend a) \<Rightarrow> sc_write_vectored (wc_staged calls) a slices
      | Some (RootedBackend a) \<Rightarrow> sc_write_vectored (wc_rooted calls) a slices
      | Some (AppendBackend h) \<Rightarrow> wc_append_write_vectored calls h slices
      | None \<Rightarrow> panic)"

definition backend_flush ::
  "('w, 'a, 'r, 'h) writer_calls \<Rightarrow> ('a, 'r, 'h) writer_backend option \<Rightarrow> ('w, unit) native" where
  "backend_flush calls b =
     (case b of
        Some (StagedBackend a) \<Rightarrow> sc_flush (wc_staged calls) a
      | Some (RootedBackend a) \<Rightarrow> sc_flush (wc_rooted calls) a
      | Some (AppendBackend h) \<Rightarrow> wc_append_flush calls h
      | None \<Rightarrow> panic)"

text \<open>Dropping a backend cleans its staging; closing an append handle changes nothing here.\<close>

definition drop_backend ::
  "('w, 'a, 'r, 'h) writer_calls \<Rightarrow> ('a, 'r, 'h) writer_backend option \<Rightarrow> 'w \<Rightarrow> 'w" where
  "drop_backend calls b w =
     (case b of
        Some (StagedBackend a) \<Rightarrow> sc_drop (wc_staged calls) a w
      | Some (RootedBackend a) \<Rightarrow> sc_drop (wc_rooted calls) a w
      | _ \<Rightarrow> w)"

section \<open>The writer\<close>

record ('a, 'r, 'h) file_writer =
  fw_path :: path
  fw_diagnostic_path :: "path option"
  fw_current_directory :: "path option"
  fw_backend :: "('a, 'r, 'h) writer_backend option"
  fw_options :: write_options
  fw_state :: writer_state
  fw_bytes_written :: u64
  fw_failure_state :: "write_failure_state option"

record ('a, 'r, 'h) file_commit_error =
  fce_error :: file_error
  fce_state :: write_failure_state
  fce_writer :: "('a, 'r, 'h) file_writer option"

definition file_writer_new ::
  "path \<Rightarrow> ('a, 'r, 'h) writer_backend \<Rightarrow> write_options \<Rightarrow> ('a, 'r, 'h) file_writer" where
  "file_writer_new p b opts =
     \<lparr>fw_path = p, fw_diagnostic_path = Some p, fw_current_directory = None, fw_backend = Some b,
      fw_options = opts, fw_state = WriterOpen, fw_bytes_written = 0, fw_failure_state = None\<rparr>"

definition bind_namespace ::
  "path \<Rightarrow> path option \<Rightarrow> ('a, 'r, 'h) file_writer \<Rightarrow> ('a, 'r, 'h) file_writer" where
  "bind_namespace p cwd fw = fw\<lparr>fw_path := p, fw_current_directory := cwd\<rparr>"

definition contextualize_error :: "('a, 'r, 'h) file_writer \<Rightarrow> file_error \<Rightarrow> file_error" where
  "contextualize_error fw e =
     (case fw_current_directory fw of Some d \<Rightarrow> with_current_directory d e | None \<Rightarrow> e)"

definition atomic_destination_state :: "destination_state \<Rightarrow> write_failure_state" where
  "atomic_destination_state st =
     (case st of
        DestUnchanged \<Rightarrow> FailNotPublished
      | DestMissing \<Rightarrow> FailNotPublished
      | DestReplaced \<Rightarrow> FailPublished
      | DestIndeterminate \<Rightarrow> FailIndeterminate)"

definition writer_io_error :: "path \<Rightarrow> file_operation \<Rightarrow> io_error \<Rightarrow> file_error" where
  "writer_io_error p op e = from_io op (Some p) None e"

definition writer_atomic_error :: "path \<Rightarrow> file_operation \<Rightarrow> atomic_write_error \<Rightarrow> file_error" where
  "writer_atomic_error p op e = writer_io_error p op (IoError (ioe_kind (aw_source e)) (AtomicPayload e))"

definition writer_state_error :: "path \<Rightarrow> file_operation \<Rightarrow> writer_state \<Rightarrow> file_error" where
  "writer_state_error p op st =
     with_kind KInvalidState (from_io op (Some p) None (io_error_of IoInvalidInput))"

definition publication_error :: "file_error \<Rightarrow> write_failure_state \<Rightarrow> file_error" where
  "publication_error e st =
     (case st of
        FailNotPublished \<Rightarrow> e
      | FailPublished \<Rightarrow> with_kind KPublicationIncomplete e
      | FailIndeterminate \<Rightarrow> with_kind KIndeterminate e)"

definition is_open :: "('a, 'r, 'h) file_writer \<Rightarrow> bool" where
  "is_open fw = (fw_state fw = WriterOpen \<and> fw_failure_state fw = None)"

section \<open>Streaming\<close>

definition observe_stream_result ::
  "('x, io_error) result \<Rightarrow> ('a, 'r, 'h) file_writer \<Rightarrow> ('a, 'r, 'h) file_writer" where
  "observe_stream_result r fw =
     (case r of
        Err e \<Rightarrow>
          if ioe_kind e = IoInterrupted \<or> ioe_kind e = IoWouldBlock then fw
          else
            fw\<lparr>fw_failure_state :=
                 Some (case fw_backend fw of
                         Some (AppendBackend _) \<Rightarrow>
                           if 0 < fw_bytes_written fw then FailPublished else FailNotPublished
                       | _ \<Rightarrow> FailNotPublished)\<rparr>
      | _ \<Rightarrow> fw)"

definition record_stream ::
  "(usize, io_error) result \<Rightarrow> ('a, 'r, 'h) file_writer \<Rightarrow> (usize, io_error) result \<times> ('a, 'r, 'h) file_writer" where
  "record_stream r fw =
     (let fw' = observe_stream_result r fw
      in case record_result (fw_bytes_written fw') r of
           (r', count) \<Rightarrow> (r', fw'\<lparr>fw_bytes_written := count\<rparr>))"

definition write_once ::
  "('w, 'a, 'r, 'h) writer_calls \<Rightarrow> byte list \<Rightarrow> ('a, 'r, 'h) file_writer \<Rightarrow> 'w \<Rightarrow>
   (usize, io_error) result \<times> ('a, 'r, 'h) file_writer \<times> 'w" where
  "write_once calls buffer fw w =
     (if \<not> is_open fw then (Err (io_error_of IoBrokenPipe), fw, w)
      else case check_request (fw_bytes_written fw) (length buffer) of
             Err e \<Rightarrow> (Err e, fw, w)
           | Panic \<Rightarrow> (Panic, fw, w)
           | Ok _ \<Rightarrow>
               (case backend_write calls (fw_backend fw) buffer w of
                  (r, w') \<Rightarrow> (case record_stream r fw of (r', fw') \<Rightarrow> (r', fw', w'))))"

definition output_write_vectored ::
  "('w, 'a, 'r, 'h) writer_calls \<Rightarrow> byte list list \<Rightarrow> ('a, 'r, 'h) file_writer \<Rightarrow> 'w \<Rightarrow>
   (usize, io_error) result \<times> ('a, 'r, 'h) file_writer \<times> 'w" where
  "output_write_vectored calls slices fw w =
     (if \<not> is_open fw then (Err (io_error_of IoBrokenPipe), fw, w)
      else case check_vectored_request (fw_bytes_written fw) slices of
             Err e \<Rightarrow> (Err e, fw, w)
           | Panic \<Rightarrow> (Panic, fw, w)
           | Ok _ \<Rightarrow>
               (case backend_write_vectored calls (fw_backend fw) slices w of
                  (r, w') \<Rightarrow> (case record_stream r fw of (r', fw') \<Rightarrow> (r', fw', w'))))"

text \<open>\<open>byte_slices\<close> reserves memory for the descriptors; \<open>reserve\<close> is the allocator's answer.\<close>

definition byte_slices :: "(nat \<Rightarrow> bool) \<Rightarrow> byte list list \<Rightarrow> (byte list list, io_error) result" where
  "byte_slices reserve buffers =
     (if reserve (length buffers) then Ok buffers else Err (io_error_of IoOutOfMemory))"

definition writer_write_vectored ::
  "('w, 'a, 'r, 'h) writer_calls \<Rightarrow> (nat \<Rightarrow> bool) \<Rightarrow> byte list list \<Rightarrow> ('a, 'r, 'h) file_writer \<Rightarrow> 'w \<Rightarrow>
   (usize, io_error) result \<times> ('a, 'r, 'h) file_writer \<times> 'w" where
  "writer_write_vectored calls reserve buffers fw w =
     (if \<not> is_open fw then (Err (io_error_of IoBrokenPipe), fw, w)
      else case byte_slices reserve buffers of
             Ok slices \<Rightarrow> output_write_vectored calls slices fw w
           | Err e \<Rightarrow> (Err e, fw, w)
           | Panic \<Rightarrow> (Panic, fw, w))"

definition writer_flush ::
  "('w, 'a, 'r, 'h) writer_calls \<Rightarrow> ('a, 'r, 'h) file_writer \<Rightarrow> 'w \<Rightarrow>
   (unit, io_error) result \<times> ('a, 'r, 'h) file_writer \<times> 'w" where
  "writer_flush calls fw w =
     (if \<not> is_open fw then (Err (io_error_of IoBrokenPipe), fw, w)
      else case backend_flush calls (fw_backend fw) w of
             (r, w') \<Rightarrow> (r, observe_stream_result r fw, w'))"

section \<open>Abort\<close>

definition abort_append ::
  "('w, 'a, 'r, 'h) writer_calls \<Rightarrow> 'h \<Rightarrow> ('a, 'r, 'h) file_writer \<Rightarrow> 'w \<Rightarrow>
   (write_outcome, file_error) result \<times> ('a, 'r, 'h) file_writer \<times> 'w" where
  "abort_append calls h fw w =
     (case wc_append_flush calls h w of
        (Err e, w') \<Rightarrow> (Err (contextualize_error fw (writer_io_error (fw_path fw) OpAbort e)), fw, w')
      | (Panic, w') \<Rightarrow> (Panic, fw, w')
      | (Ok _, w') \<Rightarrow>
          (let fw' = fw\<lparr>fw_state := Aborted,
                        fw_failure_state :=
                          (case fw_failure_state fw of
                             Some st \<Rightarrow> Some st
                           | None \<Rightarrow> if 0 < fw_bytes_written fw then Some FailPublished else None)\<rparr>
           in (Ok (write_outcome_new Aborted False DirectAppend False (fw_bytes_written fw')
                     (fw_failure_state fw')), fw', w')))"

definition abort_staged_writer ::
  "('w, 'a, 'r, 'h) writer_calls \<Rightarrow> ('a, 'r, 'h) writer_backend \<Rightarrow> ('a, 'r, 'h) file_writer \<Rightarrow> 'w \<Rightarrow>
   (write_outcome, file_error) result \<times> ('a, 'r, 'h) file_writer \<times> 'w" where
  "abort_staged_writer calls b fw w =
     (case abort_staged calls b w of
        (Err e, b', w') \<Rightarrow>
          (Err (contextualize_error fw (writer_atomic_error (fw_path fw) OpAbort e)),
           fw\<lparr>fw_backend := Some b',
              fw_failure_state :=
                (case fw_failure_state fw of Some st \<Rightarrow> Some st | None \<Rightarrow> Some FailNotPublished)\<rparr>, w')
      | (Panic, b', w') \<Rightarrow> (Panic, fw\<lparr>fw_backend := Some b'\<rparr>, w')
      | (Ok _, b', w') \<Rightarrow>
          (Ok (write_outcome_new Aborted False AtomicRename False (fw_bytes_written fw)
                 (fw_failure_state fw)),
           fw\<lparr>fw_backend := Some b', fw_state := Aborted\<rparr>, w'))"

definition writer_abort ::
  "('w, 'a, 'r, 'h) writer_calls \<Rightarrow> ('a, 'r, 'h) file_writer \<Rightarrow> 'w \<Rightarrow>
   (write_outcome, file_error) result \<times> ('a, 'r, 'h) file_writer \<times> 'w" where
  "writer_abort calls fw w =
     (if fw_state fw \<noteq> WriterOpen then
        (Err (contextualize_error fw (writer_state_error (fw_path fw) OpAbort (fw_state fw))), fw, w)
      else
        (case fw_backend fw of
           None \<Rightarrow> (Panic, fw, w)
         | Some (AppendBackend h) \<Rightarrow> abort_append calls h fw w
         | Some b \<Rightarrow> abort_staged_writer calls b fw w))"

section \<open>Commit\<close>

definition retain_backend ::
  "('a, 'r, 'h) file_writer \<Rightarrow> ('a, 'r, 'h) writer_backend \<Rightarrow> ('a, 'r, 'h) file_writer" where
  "retain_backend fw b = fw\<lparr>fw_backend := Some b\<rparr>"

definition commit_failure ::
  "('a, 'r, 'h) file_writer \<Rightarrow> file_error \<Rightarrow> write_failure_state \<Rightarrow> ('a, 'r, 'h) file_writer option \<Rightarrow>
   ('a, 'r, 'h) file_commit_error" where
  "commit_failure fw e st retained =
     \<lparr>fce_error = contextualize_error fw (publication_error e st), fce_state = st, fce_writer = retained\<rparr>"

definition commit_staged_backend ::
  "('w, 'a, 'r, 'h) writer_calls \<Rightarrow> ('a, 'r, 'h) writer_backend \<Rightarrow> ('a, 'r, 'h) file_writer \<Rightarrow> 'w \<Rightarrow>
   (write_outcome, ('a, 'r, 'h) file_commit_error) result \<times> 'w" where
  "commit_staged_backend calls b fw w =
     (case commit_staged calls b w of
        (Ok out, w') \<Rightarrow>
          (Ok (with_file_synced (so_file_synced out)
                 (write_outcome_new Committed True AtomicRename (so_durable out) (fw_bytes_written fw)
                    (fw_failure_state fw))), w')
      | (Err (e, retained), w') \<Rightarrow>
          (Err (commit_failure fw (writer_atomic_error (fw_path fw) OpCommit e)
                  (atomic_destination_state (aw_destination_state e))
                  (map_option (retain_backend fw) retained)), w')
      | (Panic, w') \<Rightarrow> (Panic, w'))"

definition append_commit_outcome :: "('a, 'r, 'h) file_writer \<Rightarrow> bool \<Rightarrow> bool \<Rightarrow> write_outcome" where
  "append_commit_outcome fw durable file_synced =
     with_file_synced file_synced
       (write_outcome_new Committed False DirectAppend durable (fw_bytes_written fw) (fw_failure_state fw))"

definition sync_append ::
  "('w, 'a, 'r, 'h) writer_calls \<Rightarrow> 'h \<Rightarrow> ('a, 'r, 'h) file_writer \<Rightarrow> 'w \<Rightarrow>
   (write_outcome, ('a, 'r, 'h) file_commit_error) result \<times> 'w" where
  "sync_append calls h fw w =
     (let durability = wo_durability (fw_options fw)
      in case staging_sync_requirement durability (wo_file_sync (fw_options fw)) of
           SyncNotRequired \<Rightarrow> (Ok (append_commit_outcome fw False False), w)
         | SyncPreferred \<Rightarrow>
             (case wc_append_sync calls h w of
                (Ok _, w') \<Rightarrow> (Ok (append_commit_outcome fw (durability = DurPreferred) True), w')
              | (Err _, w') \<Rightarrow> (Ok (append_commit_outcome fw False False), w')
              | (Panic, w') \<Rightarrow> (Panic, w'))
         | SyncRequired \<Rightarrow>
             (case wc_append_sync calls h w of
                (Ok _, w') \<Rightarrow> (Ok (append_commit_outcome fw (durability \<noteq> DurNotRequired) True), w')
              | (Err e, w') \<Rightarrow>
                  (Err (commit_failure fw (writer_io_error (fw_path fw) OpCommit e)
                          (if fw_bytes_written fw = 0 then FailNotPublished else FailPublished) None), w')
              | (Panic, w') \<Rightarrow> (Panic, w')))"

definition commit_append ::
  "('w, 'a, 'r, 'h) writer_calls \<Rightarrow> 'h \<Rightarrow> ('a, 'r, 'h) file_writer \<Rightarrow> 'w \<Rightarrow>
   (write_outcome, ('a, 'r, 'h) file_commit_error) result \<times> 'w" where
  "commit_append calls h fw w =
     (case wc_append_flush calls h w of
        (Err e, w') \<Rightarrow>
          (Err (commit_failure fw (writer_io_error (fw_path fw) OpCommit e) FailIndeterminate None), w')
      | (Panic, w') \<Rightarrow> (Panic, w')
      | (Ok _, w') \<Rightarrow> sync_append calls h fw w')"

text \<open>\<open>commit\<close> consumes the writer; a writer that may not commit is dropped with its backend.\<close>

definition writer_commit ::
  "('w, 'a, 'r, 'h) writer_calls \<Rightarrow> ('a, 'r, 'h) file_writer \<Rightarrow> 'w \<Rightarrow>
   (write_outcome, ('a, 'r, 'h) file_commit_error) result \<times> 'w" where
  "writer_commit calls fw w =
     (if \<not> is_open fw then
        (Err (commit_failure fw (writer_state_error (fw_path fw) OpCommit (fw_state fw))
                (case fw_failure_state fw of Some st \<Rightarrow> st | None \<Rightarrow> FailNotPublished) None),
         drop_backend calls (fw_backend fw) w)
      else
        (case fw_backend fw of
           None \<Rightarrow> (Panic, w)
         | Some (AppendBackend h) \<Rightarrow> commit_append calls h fw w
         | Some b \<Rightarrow> commit_staged_backend calls b (fw\<lparr>fw_backend := None\<rparr>) w))"

end
