(* ===== verification/Atomic_Correct.thy ===== *)
theory Atomic_Correct
  imports Atomic_Writer
begin

lemma sync_parents_each:
  "sync_parents fs ds w = (Ok u, w') \<Longrightarrow> d \<in> set ds \<Longrightarrow> \<exists>w1 w2. ux_sync_dir fs (parent_dir_for d) w1 = (Ok (), w2)"
  by (induction ds arbitrary: w)
    (auto simp: seq_def bind_def sync_parent_dir_def split: prod.splits result.splits)

text \<open>
  Correctness of the atomic writer over a namespace that keeps the documented behaviour of its calls,
  the locale \<open>unix_namespace\<close>: whatever calls fail, the reported destination state is what the
  namespace shows. The locale speaks of a namespace nobody else changes during the commit; the
  writer's own documentation excludes concurrent adversaries.
\<close>

section \<open>The namespace contract\<close>

definition leaves_names :: "('w \<Rightarrow> path \<Rightarrow> file_stat option) \<Rightarrow> ('w, 'x) native \<Rightarrow> bool" where
  "leaves_names entry op \<longleftrightarrow> (\<forall>w r w'. op w = (r, w') \<longrightarrow> entry w' = entry w \<and> r \<noteq> Panic)"

locale unix_namespace =
  fixes fs :: "('w, 'h) unix_fs"
    and entry :: "'w \<Rightarrow> path \<Rightarrow> file_stat option"
  assumes quiet_stat: "leaves_names entry (ux_symlink_metadata fs p)"
    and quiet_open: "leaves_names entry (ux_open_retrying fs p timeout)"
    and quiet_fstat: "leaves_names entry (ux_fstat fs h)"
    and quiet_clear: "leaves_names entry (ux_clear_nonblocking fs h)"
    and quiet_preserve: "leaves_names entry (ux_preserve_metadata fs h h')"
    and quiet_sync: "leaves_names entry (ux_sync_all fs h)"
    and quiet_sync_dir: "leaves_names entry (ux_sync_dir fs p)"
    and stat_ok: "ux_symlink_metadata fs p w = (Ok st, w') \<Longrightarrow> entry w p = Some st"
    and stat_missing: "ux_symlink_metadata fs p w = (Err e, w') \<Longrightarrow> ioe_kind e = IoNotFound \<Longrightarrow>
      entry w p = None"
    and rename_ok: "ux_rename fs a b w = (Ok u, w') \<Longrightarrow> a \<noteq> b \<Longrightarrow> entry w a \<noteq> entry w b \<Longrightarrow>
      entry w' = (entry w)(a := None, b := entry w a)"
    and rename_err: "ux_rename fs a b w = (Err e, w') \<Longrightarrow> entry w' = entry w"
    and rename_returns: "ux_rename fs a b w \<noteq> (Panic, w')"
    and noreplace_ok: "ux_rename_noreplace fs a b w = (Ok u, w') \<Longrightarrow> a \<noteq> b \<Longrightarrow>
      entry w b = None \<and> entry w' = (entry w)(a := None, b := entry w a)"
    and noreplace_err: "ux_rename_noreplace fs a b w = (Err e, w') \<Longrightarrow> entry w' = entry w"
    and noreplace_returns: "ux_rename_noreplace fs a b w \<noteq> (Panic, w')"
    and link_ok: "ux_link fs a b w = (Ok u, w') \<Longrightarrow>
      entry w b = None \<and> entry w' = (entry w)(b := entry w a)"
    and link_err: "ux_link fs a b w = (Err e, w') \<Longrightarrow> entry w' = entry w"
    and link_returns: "ux_link fs a b w \<noteq> (Panic, w')"
    and unlink_ok: "ux_unlink fs a w = (Ok u, w') \<Longrightarrow> entry w' = (entry w)(a := None)"
    and unlink_err: "ux_unlink fs a w = (Err e, w') \<Longrightarrow>
      entry w' = entry w \<and> (ioe_kind e = IoNotFound \<longrightarrow> entry w a = None)"
    and unlink_returns: "ux_unlink fs a w \<noteq> (Panic, w')"
begin

lemmas quiet = quiet_stat quiet_open quiet_fstat quiet_clear quiet_preserve quiet_sync quiet_sync_dir

end

text \<open>The staging name \<open>t\<close> holds the staged file \<open>st\<close>, and the destination does not.\<close>

definition ready ::
  "'h atomic_writer \<Rightarrow> path \<Rightarrow> 'h \<Rightarrow> file_stat \<Rightarrow> (path \<Rightarrow> file_stat option) \<Rightarrow> bool" where
  "ready wr t h st names \<longleftrightarrow>
     sf_path (lw_staged_file wr) = Some t \<and> sf_file (lw_staged_file wr) = Some h \<and>
     names t = Some st \<and> st_kind st = RegularFile \<and>
     t \<noteq> lw_operation_path wr \<and> names (lw_operation_path wr) \<noteq> Some st"

text \<open>Programs of calls that leave the names alone.\<close>

lemma leaves_namesD:
  "leaves_names entry op \<Longrightarrow> op w = (r, w') \<Longrightarrow> entry w' = entry w"
  "leaves_names entry op \<Longrightarrow> op w \<noteq> (Panic, w')"
  by (auto simp: leaves_names_def)

lemma leaves_names_ret [simp]: "leaves_names entry (ret x)"
  by (simp add: leaves_names_def ret_def)

lemma leaves_names_fail [simp]: "leaves_names entry (fail x)"
  by (simp add: leaves_names_def fail_def)

lemma leaves_names_bind:
  assumes "leaves_names entry m" and "\<And>x. leaves_names entry (f x)"
  shows "leaves_names entry (bind m f)"
proof (unfold leaves_names_def, intro allI impI)
  fix w r w' assume "bind m f w = (r, w')"
  moreover obtain r1 w1 where "m w = (r1, w1)" by force
  ultimately show "entry w' = entry w \<and> r \<noteq> Panic"
    using leaves_namesD [OF assms(1)] leaves_namesD [OF assms(2)]
    by (cases r1) (auto simp: bind_def)
qed

lemma leaves_names_seq:
  "leaves_names entry m \<Longrightarrow> leaves_names entry k \<Longrightarrow> leaves_names entry (seq m k)"
  unfolding seq_def by (rule leaves_names_bind)

text \<open>\<open>match\<close> on the result of a quiet call: the panic branch is never taken.\<close>

lemma leaves_names_caught:
  assumes "leaves_names entry m" and "\<And>x. leaves_names entry (f (Ok x))"
    and "\<And>e. leaves_names entry (f (Err e))"
  shows "leaves_names entry (bind (caught m) f)"
proof (unfold leaves_names_def, intro allI impI)
  fix w r w' assume "bind (caught m) f w = (r, w')"
  moreover obtain r1 w1 where "m w = (r1, w1)" by force
  ultimately show "entry w' = entry w \<and> r \<noteq> Panic"
    using leaves_namesD [OF assms(1)] leaves_namesD [OF assms(2)] leaves_namesD [OF assms(3)]
    by (cases r1) (auto simp: bind_def caught_def)
qed

lemma os_outcome:
  assumes "leaves_names entry op"
  shows "outcome (os op)
     (\<lambda>_ s'. entry (as_world s') = entry (as_world s) \<and> as_writer s' = as_writer s)
     (\<lambda>_ s'. entry (as_world s') = entry (as_world s) \<and> as_writer s' = as_writer s) (\<lambda>_. False) s"
  using assms by (auto simp: leaves_names_def os_def outcome_def split: prod.split result.split)

context unix_namespace
begin

lemma quiet_from_file: "leaves_names entry (destination_from_file fs h)"
  unfolding destination_from_file_def by (auto intro!: leaves_names_bind leaves_names_seq quiet)

lemma quiet_from_file_Some:
  "leaves_names entry (bind (destination_from_file fs h) (\<lambda>d. ret (Some d)))"
  by (rule leaves_names_bind [OF quiet_from_file]) simp

lemma quiet_destination:
  "leaves_names entry (open_atomic_destination fs p timeout policy)"
  "leaves_names entry (destination_identity_matches fs p d)"
  "leaves_names entry (destination_mismatch_state fs p)"
  unfolding open_atomic_destination_def open_destination_with_retry_def
    destination_identity_matches_def destination_mismatch_state_def
  by (auto intro!: leaves_names_caught quiet quiet_from_file_Some)

lemma quiet_parents: "leaves_names entry (sync_parents fs ds)"
  by (induction ds) (auto intro!: leaves_names_seq quiet simp: sync_parent_dir_def)

lemma quiet_parent_chain: "leaves_names entry (sync_atomic_parent_chain fs p ds)"
  unfolding sync_atomic_parent_chain_def
  by (auto intro!: leaves_names_seq quiet quiet_parents simp: sync_parent_dir_def)

text \<open>The phases before the installation change nothing and fail as unchanged or missing.\<close>

definition before :: "'h atomic_writer \<Rightarrow> (path \<Rightarrow> file_stat option) \<Rightarrow> ('w, 'h) atomic_state \<Rightarrow> bool" where
  "before wr names s \<longleftrightarrow> as_writer s = wr \<and> entry (as_world s) = names"

definition early ::
  "'h atomic_writer \<Rightarrow> (path \<Rightarrow> file_stat option) \<Rightarrow> atomic_write_error \<Rightarrow> ('w, 'h) atomic_state \<Rightarrow> bool" where
  "early wr names e s \<longleftrightarrow>
     before wr names s \<and> aw_destination_state e \<in> {DestUnchanged, DestMissing}"

lemma os_before:
  assumes "leaves_names entry op" and "before wr names s"
  shows "outcome (os op) (\<lambda>_. before wr names) (\<lambda>_. before wr names) (\<lambda>_. False) s"
  using os_outcome [OF assms(1), of s] assms(2) by (auto simp: before_def elim!: outcome_conseq)

lemma with_context_early:
  assumes "leaves_names entry op" and "before wr names s" and "sf_path (lw_staged_file wr) = Some t"
    and "dest \<in> {DestUnchanged, DestMissing}"
  shows "outcome (with_atomic_context stage dest (os op)) (\<lambda>_. before wr names) (early wr names)
     (\<lambda>_. False) s"
  using os_before [OF assms(1,2)] assms(3,4)
  by (auto simp: with_atomic_context_def staged_path_def early_def before_def atomic_error_new_def
      elim!: outcome_conseq)

lemma open_destination_early:
  assumes "before wr names s" and "sf_path (lw_staged_file wr) = Some t"
  shows "outcome (open_destination_for_commit fs) (\<lambda>_. before wr names) (early wr names) (\<lambda>_. False) s"
  unfolding open_destination_for_commit_def
  using os_before [OF quiet_destination(1) assms(1), of "lw_operation_path wr" "lw_open_retry_timeout wr"
      "lw_metadata_policy wr"] assms
  by (auto simp: staged_path_def early_def before_def atomic_error_new_def elim!: outcome_conseq
      split: option.split)

lemma apply_metadata_early:
  assumes "before wr names s" and "sf_path (lw_staged_file wr) = Some t"
    and "sf_file (lw_staged_file wr) = Some h"
  shows "outcome (apply_destination_metadata fs d) (\<lambda>_. before wr names) (early wr names) (\<lambda>_. False) s"
  using with_context_early [OF quiet_preserve assms(1,2)] assms
  by (auto simp: apply_destination_metadata_def staged_handle_def before_def split: option.split)

lemma sync_temporary_early:
  assumes "before wr names s" and "sf_path (lw_staged_file wr) = Some t"
    and "sf_file (lw_staged_file wr) = Some h"
  shows "outcome (sync_temporary_file fs) (\<lambda>_. before wr names) (early wr names) (\<lambda>_. False) s"
proof -
  have wr: "as_writer s = wr"
    using assms(1) by (simp add: before_def)
  show ?thesis
    unfolding sync_temporary_file_def
    using with_context_early [OF quiet_sync assms(1,2), of DestUnchanged SyncTemporaryFile h]
      os_before [OF quiet_sync assms(1), of h] assms(1,3) wr
    by (auto simp: staged_handle_def synchronize_staging_file_def elim!: outcome_conseq
        split: file_sync.split)
qed

lemma outcome_os:
  "outcome (os op) Q E P s \<longleftrightarrow>
     outcome op (\<lambda>x w'. Q x (s\<lparr>as_world := w'\<rparr>)) (\<lambda>e w'. E e (s\<lparr>as_world := w'\<rparr>))
       (\<lambda>w'. P (s\<lparr>as_world := w'\<rparr>)) (as_world s)"
  by (auto simp: outcome_def os_def split: prod.splits result.splits)

lemma mismatch_state_early:
  assumes "before wr names s"
  shows "outcome (os (destination_mismatch_state fs p))
     (\<lambda>dest s'. before wr names s' \<and> dest \<in> {DestUnchanged, DestMissing}) E (\<lambda>_. False) s"
  using os_before [OF quiet_stat assms, of p]
  by (auto simp: destination_mismatch_state_def outcome_os elim!: outcome_conseq)

lemma verify_destination_early:
  assumes "before wr names s" and "sf_path (lw_staged_file wr) = Some t"
  shows "outcome (verify_destination_for_commit fs d) (\<lambda>_. before wr names) (early wr names) (\<lambda>_. False) s"
proof (cases d)
  case (Some d')
  have "outcome (verify_atomic_destination_identity fs (lw_operation_path wr) d' (lw_path wr) t)
     (\<lambda>_. before wr names) (early wr names) (\<lambda>_. False) s"
    unfolding verify_atomic_destination_identity_def
  proof (rule outcome_bindI)
    show "outcome (caught (os (destination_identity_matches fs (lw_operation_path wr) d')))
       (\<lambda>r s'. before wr names s' \<and> r \<noteq> Panic) (early wr names) (\<lambda>_. False) s"
      using os_before [OF quiet_destination(2) assms(1)] by (auto elim!: outcome_conseq)
  next
    fix r :: "(bool, io_error) result" and s1
    assume s1: "before wr names s1 \<and> r \<noteq> Panic"
    then show "outcome
       (case r of
          Ok True \<Rightarrow> ret ()
        | Ok False \<Rightarrow>
            bind (or_fail (\<lambda>_ e. identity_error (lw_path wr) e DestUnchanged t) id
                    (os (destination_mismatch_state fs (lw_operation_path wr)))) (\<lambda>dest.
              fail (identity_error (lw_path wr) (io_error_of IoInvalidInput) dest t))
        | Err e \<Rightarrow> fail (identity_error (lw_path wr) e DestUnchanged t)
        | Panic \<Rightarrow> panic) (\<lambda>_. before wr names) (early wr names) (\<lambda>_. False) s1"
      using mismatch_state_early [of wr names s1]
      by (cases r) (auto simp: early_def identity_error_def atomic_error_new_def
          elim!: outcome_conseq split: bool.split)
  qed
  then show ?thesis
    using assms by (simp add: Some verify_destination_for_commit_def staged_path_def before_def)
qed (use assms in \<open>simp add: verify_destination_for_commit_def\<close>)

lemma unlink_attempts_outcome:
  assumes "entry w t = Some st" and "0 < n \<or> prev \<noteq> None"
  shows "outcome (unlink_attempts fs n prev t)
     (\<lambda>_ w'. entry w' = (entry w)(t := None))
     (\<lambda>e w'. entry w' = entry w \<and> snd e = (DestReplaced, StagingPresent)) (\<lambda>_. False) w"
  using assms
proof (induction n arbitrary: prev w)
  case 0
  then show ?case by auto
next
  case (Suc n)
  show ?case
  proof (cases "ux_unlink fs t w")
    case (Pair r w')
    show ?thesis
    proof (cases r)
      case (Ok u)
      then show ?thesis
        using Pair unlink_ok [of t w u w']
        by (simp add: outcome_def bind_def caught_def ret_def fun_upd_def)
    next
      case (Err e)
      then have w': "entry w' = entry w" "ioe_kind e \<noteq> IoNotFound"
        using Pair unlink_err [of t w e w'] Suc.prems(1) by auto
      have IH: "outcome (unlink_attempts fs n (Some e) t)
          (\<lambda>_ w''. entry w'' = (entry w)(t := None))
          (\<lambda>e w''. entry w'' = entry w \<and> snd e = (DestReplaced, StagingPresent)) (\<lambda>_. False) w'"
        using Suc.IH [of w' "Some e"] Suc.prems(1) unfolding w'(1) by blast
      have "unlink_attempts fs (Suc n) prev t w = unlink_attempts fs n (Some e) t w'"
        using Pair Err w' by (simp add: bind_def caught_def)
      then show ?thesis
        using IH unfolding outcome_def by (simp only:)
    next
      case Panic
      then show ?thesis
        using Pair unlink_returns by blast
    qed
  qed
qed

text \<open>What an installation that fails has done: nothing, or the destination is linked already.\<close>

definition install_failed ::
  "(path \<Rightarrow> file_stat option) \<Rightarrow> path \<Rightarrow> file_stat \<Rightarrow> io_error \<times> destination_state \<times> staging_state \<Rightarrow> 'w \<Rightarrow> bool" where
  "install_failed names p st e w \<longleftrightarrow>
     snd e = (DestUnchanged, StagingPresent) \<and> entry w = names \<or>
     snd e = (DestReplaced, StagingPresent) \<and> entry w = names(p := Some st) \<and> names p = None"

definition installed :: "(path \<Rightarrow> file_stat option) \<Rightarrow> path \<Rightarrow> path \<Rightarrow> file_stat \<Rightarrow> 'w \<Rightarrow> bool" where
  "installed names t p st w \<longleftrightarrow> entry w = names(t := None, p := Some st)"

lemma link_then_unlink_outcome:
  assumes "entry w t = Some st" and "t \<noteq> p"
  shows "outcome (link_then_unlink fs t p)
     (\<lambda>_ w'. installed (entry w) t p st w' \<and> entry w p = None) (install_failed (entry w) p st) (\<lambda>_. False) w"
proof (cases "ux_link fs t p w")
  case (Pair r w')
  show ?thesis
  proof (cases r)
    case (Ok u)
    then have w': "entry w p = None" "entry w' = (entry w)(p := Some st)"
      using Pair link_ok assms(1) by metis+
    have "entry w' t = Some st"
      using w' assms by simp
    from unlink_attempts_outcome [OF this, of 2 None] show ?thesis
      using Pair Ok w' assms(2)
      by (auto simp: link_then_unlink_def outcome_def [of "ux_link fs t p"] installed_def
          install_failed_def fun_upd_twist elim!: outcome_conseq)
  next
    case (Err e)
    then show ?thesis
      using Pair link_err [of t p w e w']
      by (simp add: link_then_unlink_def outcome_def [of "ux_link fs t p"] install_failed_def unchanged_error_def)
  next
    case Panic
    then show ?thesis using Pair link_returns by blast
  qed
qed

lemma install_new_outcome:
  assumes "entry w t = Some st" and "t \<noteq> p"
  shows "outcome (install_new_atomic_file fs t p)
     (\<lambda>_ w'. installed (entry w) t p st w' \<and> entry w p = None) (install_failed (entry w) p st) (\<lambda>_. False) w"
proof -
  have "outcome (install_new_atomic_file_at fs t p)
     (\<lambda>_ w'. installed (entry w) t p st w' \<and> entry w p = None) (install_failed (entry w) p st) (\<lambda>_. False) w"
  proof (cases "ux_rename_noreplace fs t p w")
    case (Pair r w')
    show ?thesis
    proof (cases r)
      case (Ok u)
      then show ?thesis
        using Pair noreplace_ok [of t p w u w'] assms
        by (simp add: install_new_atomic_file_at_def outcome_def [of "ux_rename_noreplace fs t p"] installed_def)
    next
      case (Err e)
      then have "entry w' = entry w"
        using Pair noreplace_err by blast
      with link_then_unlink_outcome [of w' t st p] show ?thesis
        using Pair Err assms
        by (simp add: install_new_atomic_file_at_def outcome_def [of "ux_rename_noreplace fs t p"]
            install_failed_def unchanged_error_def)
    next
      case Panic
      then show ?thesis using Pair noreplace_returns by blast
    qed
  qed
  then show ?thesis
    by (auto simp: install_new_atomic_file_def native_path_def install_failed_def unchanged_error_def)
qed

lemma install_outcome:
  assumes "entry w t = Some st" and "t \<noteq> p" and "entry w p \<noteq> Some st"
  shows "outcome (install_atomic_file fs t p existed)
     (\<lambda>_ w'. installed (entry w) t p st w' \<and> (existed \<or> entry w p = None))
     (install_failed (entry w) p st) (\<lambda>_. False) w"
proof (cases existed)
  case True
  have "outcome (ux_rename fs t p) (\<lambda>_. installed (entry w) t p st) (\<lambda>_ w'. entry w' = entry w)
      (\<lambda>_. False) w"
    using rename_ok [of t p w] rename_err [of t p w] rename_returns [of t p w] assms
    by (auto simp: outcome_def installed_def split: prod.split result.split)
  then show ?thesis
    by (auto simp: install_atomic_file_def replace_existing_atomic_file_def True install_failed_def
        replacement_error_state_def elim!: outcome_conseq)
next
  case False
  with install_new_outcome [OF assms(1,2)] show ?thesis
    by (auto simp: install_atomic_file_def elim!: outcome_conseq)
qed

text \<open>
  After the installation the handle is closed and the guard holds at most \<open>t\<close>; cleanup removes at most
  that name, and when it succeeds on the staged file the name is gone.
\<close>

definition closed :: "path \<Rightarrow> ('w, 'h) atomic_state \<Rightarrow> bool" where
  "closed t s \<longleftrightarrow>
     sf_file (lw_staged_file (as_writer s)) = None \<and>
     sf_path (lw_staged_file (as_writer s)) \<in> {None, Some t}"

definition cleaned :: "path \<Rightarrow> 'w \<Rightarrow> 'w \<Rightarrow> bool" where
  "cleaned t w w' \<longleftrightarrow> entry w' = entry w \<or> entry w' = (entry w)(t := None)"

lemma path_identity_outcome:
  "outcome (path_identity fs p)
     (\<lambda>r w'. entry w' = entry w \<and>
        (r = None \<longrightarrow> (\<forall>st. entry w p = Some st \<longrightarrow> st_kind st \<noteq> RegularFile)))
     (\<lambda>_ w'. entry w' = entry w) (\<lambda>_. False) w"
  using leaves_namesD [OF quiet_stat, of p w] stat_ok [of p w] stat_missing [of p w]
  by (auto simp: outcome_def path_identity_def split: prod.split result.split)

lemma clean_staged_outcome:
  assumes "sf_path (lw_staged_file (as_writer s)) \<in> {None, Some t}"
  shows "outcome (clean_staged fs)
     (\<lambda>_ s'. cleaned t (as_world s) (as_world s') \<and> closed t s' \<and>
        (sf_path (lw_staged_file (as_writer s)) = Some t \<longrightarrow>
         (\<forall>st. entry (as_world s) t = Some st \<longrightarrow> st_kind st = RegularFile \<longrightarrow>
           entry (as_world s') = (entry (as_world s))(t := None))))
     (\<lambda>_ s'. cleaned t (as_world s) (as_world s') \<and> closed t s') (\<lambda>_. False) s"
proof (cases "sf_path (lw_staged_file (as_writer s))")
  case None
  then show ?thesis
    by (simp add: outcome_def clean_staged_def staged_cleanup_def staged_close_def cleaned_def closed_def
        on_staged_def)
next
  case (Some p)
  then have "p = t" using assms by auto
  obtain r w1 where id: "path_identity fs t (as_world s) = (r, w1)" by force
  obtain r2 w2 where un: "ux_unlink fs t w1 = (r2, w2)" by force
  note stat = outcomeD [OF path_identity_outcome [of t "as_world s"]]
  note defs = outcome_def clean_staged_def staged_cleanup_def staged_close_def cleaned_def closed_def
    on_staged_def Some \<open>p = t\<close> id un Let_def
  show ?thesis
  proof (cases r)
    case (Ok current)
    then have w1: "entry w1 = entry (as_world s)"
      "current = None \<Longrightarrow> entry (as_world s) t = Some st \<Longrightarrow> st_kind st \<noteq> RegularFile" for st
      using stat(1) [OF id [unfolded Ok]] by auto
    show ?thesis
    proof (cases r2)
      case (Ok u)
      then have "entry w2 = (entry (as_world s))(t := None)"
        using unlink_ok un w1(1) by metis
      then show ?thesis
        using w1 \<open>r = Ok current\<close> Ok by (auto simp: defs)
    next
      case (Err e)
      then have "entry w2 = entry (as_world s)"
        using unlink_err un w1(1) by metis
      then show ?thesis
        using w1 \<open>r = Ok current\<close> Err by (auto simp: defs)
    next
      case Panic
      then show ?thesis using un unlink_returns by blast
    qed
  next
    case (Err e)
    then have "entry w1 = entry (as_world s)"
      using stat(2) [OF id [unfolded Err]] by auto
    then show ?thesis
      using Err by (auto simp: defs)
  next
    case Panic
    then show ?thesis using stat(3) [OF id [unfolded Panic]] by blast
  qed
qed

text \<open>What holds when the installation and its recovery end in an error.\<close>

definition late ::
  "(path \<Rightarrow> file_stat option) \<Rightarrow> path \<Rightarrow> path \<Rightarrow> file_stat \<Rightarrow> atomic_write_error \<Rightarrow> ('w, 'h) atomic_state \<Rightarrow> bool" where
  "late names t p st e s \<longleftrightarrow>
     closed t s \<and>
     (aw_destination_state e = DestUnchanged \<and> entry (as_world s) \<in> {names, names(t := None)} \<or>
      aw_destination_state e = DestReplaced \<and>
        entry (as_world s) \<in> {names(p := Some st), names(p := Some st, t := None)})"

definition settled ::
  "(path \<Rightarrow> file_stat option) \<Rightarrow> path \<Rightarrow> path \<Rightarrow> file_stat \<Rightarrow> ('w, 'h) atomic_state \<Rightarrow> bool" where
  "settled names t p st s \<longleftrightarrow> closed t s \<and> installed names t p st (as_world s)"

lemma os_keeps:
  assumes "leaves_names entry op"
    and "\<And>s'. entry (as_world s') = entry (as_world s) \<Longrightarrow> as_writer s' = as_writer s \<Longrightarrow> R s'"
  shows "outcome (os op) (\<lambda>_. R) (\<lambda>_. R) (\<lambda>_. False) s"
  using os_outcome [OF assms(1), of s] assms(2) by (auto elim!: outcome_conseq)

lemma chain_keeps_settled:
  "settled names t p st s \<Longrightarrow>
   outcome (os (sync_atomic_parent_chain fs q ds)) (\<lambda>_. settled names t p st)
     (\<lambda>_. settled names t p st) (\<lambda>_. False) s"
  by (rule os_keeps [OF quiet_parent_chain]) (auto simp: settled_def closed_def installed_def)

lemma chain_keeps_late:
  "late names t p st e s \<Longrightarrow>
   outcome (os (sync_atomic_parent_chain fs q ds)) (\<lambda>_. late names t p st e)
     (\<lambda>_. late names t p st e) (\<lambda>_. False) s"
  by (rule os_keeps [OF quiet_parent_chain]) (auto simp: late_def closed_def)

lemma dest_state_simps [simp]:
  "aw_destination_state (atomic_error_new stage p tmp dest source) = dest"
  "aw_destination_state (with_atomic_cleanup_error c e) = aw_destination_state e"
  "aw_destination_state (with_parent_sync_error c e) = aw_destination_state e"
  by (simp add: atomic_error_new_def, (cases e, simp)+)

lemma settled_late:
  assumes "settled names t p st s" and "t \<noteq> p"
  shows "late names t p st (atomic_error_new stage q tmp DestReplaced e) s"
  using assms by (auto simp: settled_def late_def installed_def fun_upd_twist)

lemma late_state:
  "late names t p st e s \<Longrightarrow> aw_destination_state e' = aw_destination_state e \<Longrightarrow> late names t p st e' s"
  by (auto simp: late_def)

lemma report_outcome:
  assumes "late names t p st (atomic_error_new ReplaceDestination q (Some tmp) dest source) s"
  shows "outcome (report_install_error q tmp source dest durability
       (os (sync_atomic_parent_chain fs r ds)) cleanup_error) Q (late names t p st) (\<lambda>_. False) s"
  unfolding report_install_error_def
  using chain_keeps_late [OF assms, of r ds] assms
  by (auto elim!: outcome_conseq elim: late_state)

lemma sync_recovered_outcome:
  assumes "settled names t p st s" and "t \<noteq> p"
  shows "outcome (sync_recovered q tmp DestReplaced durability (os (sync_atomic_parent_chain fs r ds)))
     (\<lambda>_. settled names t p st) (late names t p st) (\<lambda>_. False) s"
  unfolding sync_recovered_def
  using chain_keeps_settled [OF assms(1), of r ds] assms(1)
  by (auto elim!: outcome_conseq intro: settled_late [OF _ assms(2)] split: durability.split)

lemma recover_outcome:
  assumes failed: "install_failed names p st (source, dest, staging) (as_world s)"
    and s: "sf_path (lw_staged_file (as_writer s)) = Some t"
    and t: "names t = Some st" "st_kind st = RegularFile" "t \<noteq> p"
  shows "outcome (recover_atomic_install_error q tmp source dest staging durability (clean_staged fs)
       disarm (os (sync_atomic_parent_chain fs r ds)))
     (\<lambda>_ s'. settled names t p st s' \<and> dest = DestReplaced) (late names t p st) (\<lambda>_. False) s"
proof -
  let ?error = "atomic_error_new ReplaceDestination q (Some tmp) dest source"
  have staging: "staging = StagingPresent"
    using failed by (auto simp: install_failed_def)
  have here: "entry (as_world s) t = Some st"
    using failed t by (auto simp: install_failed_def)
  show ?thesis
    unfolding recover_atomic_install_error_def Let_def staging staging_state.case
  proof (rule outcome_bindI)
    show "outcome (caught (clean_staged fs))
       (\<lambda>r s'. closed t s' \<and> cleaned t (as_world s) (as_world s') \<and> r \<noteq> Panic \<and>
          (is_Ok r \<longrightarrow> entry (as_world s') = (entry (as_world s))(t := None)))
       (late names t p st) (\<lambda>_. False) s"
      using clean_staged_outcome [of s t] s here t(2) by (auto elim!: outcome_conseq)
  next
    fix c :: "(unit, io_error) result" and s'
    assume c: "closed t s' \<and> cleaned t (as_world s) (as_world s') \<and> c \<noteq> Panic \<and>
          (is_Ok c \<longrightarrow> entry (as_world s') = (entry (as_world s))(t := None))"
    then have "late names t p st ?error s'"
      using failed by (auto simp: late_def install_failed_def cleaned_def)
    note report = report_outcome [OF this, of durability r ds]
    have "settled names t p st s'" if "is_Ok c" "dest = DestReplaced"
      using that c failed t(3) by (auto simp: settled_def installed_def install_failed_def fun_upd_twist)
    note sync = sync_recovered_outcome [OF this t(3), of q tmp durability r ds]
    show "outcome
       (case c of
          Ok _ \<Rightarrow>
            if dest = DestReplaced
            then sync_recovered q tmp dest durability (os (sync_atomic_parent_chain fs r ds))
            else report_install_error q tmp source dest durability
                   (os (sync_atomic_parent_chain fs r ds)) None
        | Err e \<Rightarrow> report_install_error q tmp source dest durability
                   (os (sync_atomic_parent_chain fs r ds)) (Some e)
        | Panic \<Rightarrow> panic) (\<lambda>_ s'. settled names t p st s' \<and> dest = DestReplaced)
       (late names t p st) (\<lambda>_. False) s'"
      using c sync report by (cases c) (auto elim!: outcome_conseq)
  qed
qed

lemma finish_outcome:
  assumes "installed names t p st (as_world s)" and "t \<noteq> p"
  shows "outcome (finish_install durability q tmp (os (sync_atomic_parent_chain fs r ds)))
     (\<lambda>_. settled names t p st) (late names t p st) (\<lambda>_. False) s"
  unfolding finish_install_def
proof (rule outcome_seqI)
  show "outcome (modify (on_staged staged_disarm)) (\<lambda>_. settled names t p st) (late names t p st)
     (\<lambda>_. False) s"
    using assms(1) by (simp add: settled_def closed_def on_staged_def staged_disarm_def)
next
  fix s1 :: "('w, 'h) atomic_state"
  assume "settled names t p st s1"
  then show "outcome (if durability = DurNotRequired then ret False
        else bind (caught (os (sync_atomic_parent_chain fs r ds))) (\<lambda>r.
          case r of
            Ok _ \<Rightarrow> ret True
          | Err e \<Rightarrow>
              if durability = DurPreferred then ret False
              else fail (atomic_error_new SyncParent q (Some tmp) DestReplaced e)
          | Panic \<Rightarrow> panic)) (\<lambda>_. settled names t p st) (late names t p st) (\<lambda>_. False) s1"
    using chain_keeps_settled [of names t p st s1 r ds]
    by (auto elim!: outcome_conseq intro: settled_late [OF _ assms(2)])
qed

lemma install_and_sync_outcome:
  assumes "before wr names s" and ready: "ready wr t h st names"
  shows "outcome (install_and_sync_parent fs)
     (\<lambda>_ s'. settled names t (lw_operation_path wr) st s' \<and>
        (lw_destination_existed wr \<or> names (lw_operation_path wr) = None))
     (late names t (lw_operation_path wr) st) (\<lambda>_. False) s"
proof -
  let ?s = "on_staged staged_close s" and ?p = "lw_operation_path wr"
  have s: "as_writer ?s = wr\<lparr>lw_staged_file := staged_close (lw_staged_file wr)\<rparr>"
    "as_world ?s = as_world s" "entry (as_world s) = names"
    using assms(1) by (auto simp: before_def on_staged_def)
  have t: "sf_path (lw_staged_file wr) = Some t" "names t = Some st" "st_kind st = RegularFile" "t \<noteq> ?p"
    "names ?p \<noteq> Some st"
    using ready by (auto simp: ready_def)
  let ?sync = "os (sync_atomic_parent_chain fs ?p (lw_parent_dirs_to_sync wr))"
  have "outcome (bind (caught (os (install_atomic_file fs t ?p (lw_destination_existed wr)))) (\<lambda>installed.
          case installed of
            Ok _ \<Rightarrow> finish_install (lw_durability wr) (lw_path wr) t ?sync
          | Err (source, dest, staging) \<Rightarrow>
              recover_atomic_install_error (lw_path wr) t source dest staging (lw_durability wr)
                (clean_staged fs) (modify (on_staged staged_disarm)) ?sync
          | Panic \<Rightarrow> panic))
     (\<lambda>_ s'. settled names t ?p st s' \<and> (lw_destination_existed wr \<or> names ?p = None))
     (late names t ?p st) (\<lambda>_. False) ?s"
  proof (rule outcome_bindI)
    show "outcome (caught (os (install_atomic_file fs t ?p (lw_destination_existed wr))))
       (\<lambda>r s'. sf_path (lw_staged_file (as_writer s')) = Some t \<and>
          (case r of
             Ok _ \<Rightarrow> installed names t ?p st (as_world s') \<and>
                     (lw_destination_existed wr \<or> names ?p = None)
           | Err e \<Rightarrow> install_failed names ?p st e (as_world s')
           | Panic \<Rightarrow> False)) (late names t ?p st) (\<lambda>_. False) ?s"
      using install_outcome [of "as_world s" t st ?p "lw_destination_existed wr"] t s
      by (auto simp: outcome_os staged_close_def elim!: outcome_conseq)
  next
    fix r :: "(unit, io_error \<times> destination_state \<times> staging_state) result" and s' :: "('w, 'h) atomic_state"
    assume r: "sf_path (lw_staged_file (as_writer s')) = Some t \<and>
          (case r of
             Ok _ \<Rightarrow> installed names t ?p st (as_world s') \<and>
                     (lw_destination_existed wr \<or> names ?p = None)
           | Err e \<Rightarrow> install_failed names ?p st e (as_world s')
           | Panic \<Rightarrow> False)"
    show "outcome (case r of
            Ok _ \<Rightarrow> finish_install (lw_durability wr) (lw_path wr) t ?sync
          | Err (source, dest, staging) \<Rightarrow>
              recover_atomic_install_error (lw_path wr) t source dest staging (lw_durability wr)
                (clean_staged fs) (modify (on_staged staged_disarm)) ?sync
          | Panic \<Rightarrow> panic)
     (\<lambda>_ s'. settled names t ?p st s' \<and> (lw_destination_existed wr \<or> names ?p = None))
     (late names t ?p st) (\<lambda>_. False) s'"
    proof (cases r)
      case (Ok u)
      then show ?thesis
        using r finish_outcome [of names t ?p st s'] t(4) by (auto elim!: outcome_conseq)
    next
      case (Err e)
      obtain source dest staging where e: "e = (source, dest, staging)"
        by (cases e)
      have failed: "install_failed names ?p st (source, dest, staging) (as_world s')"
        using r Err e by simp
      then have "dest = DestReplaced \<Longrightarrow> names ?p = None"
        by (auto simp: install_failed_def)
      then show ?thesis
        using r by (auto simp: Err e intro!: outcome_conseq [OF recover_outcome [OF failed _ t(2,3,4)]])
    qed (use r in auto)
  qed
  then show ?thesis
    using s t(1) by (simp add: install_and_sync_parent_def staged_path_def staged_close_def Let_def)
qed

lemma commit_attempt_outcome:
  assumes "before wr names s" and ready: "ready wr t h st names"
  shows "outcome (commit_attempt fs)
     (\<lambda>_ s'. settled names t (lw_operation_path wr) st s' \<and>
        (lw_destination_existed wr \<or> names (lw_operation_path wr) = None))
     (\<lambda>e s'. early wr names e s' \<or> late names t (lw_operation_path wr) st e s') (\<lambda>_. False) s"
proof -
  have path: "sf_path (lw_staged_file wr) = Some t" and handle: "sf_file (lw_staged_file wr) = Some h"
    using ready by (auto simp: ready_def)
  let ?E = "\<lambda>e s'. early wr names e s' \<or> late names t (lw_operation_path wr) st e s'"
  have early: "outcome m Q ?E (\<lambda>_. False) s'" if "outcome m Q (early wr names) (\<lambda>_. False) s'"
    for m :: "('w, 'h, 'x) atomic_m" and Q s'
    using that by (auto elim!: outcome_conseq)
  show ?thesis
    unfolding commit_attempt_def
  proof (rule outcome_bindI [OF early [OF open_destination_early [OF assms(1) path]]],
      rule outcome_seqI [OF early [OF apply_metadata_early [OF _ path handle]]], assumption,
      rule outcome_bindI [OF early [OF sync_temporary_early [OF _ path handle]]], assumption,
      rule outcome_seqI [OF early [OF verify_destination_early [OF _ path]]], assumption,
      rule outcome_bindI)
    fix s1 assume s1: "before wr names s1"
    show "outcome (install_and_sync_parent fs)
       (\<lambda>_ s'. settled names t (lw_operation_path wr) st s' \<and>
        (lw_destination_existed wr \<or> names (lw_operation_path wr) = None)) ?E (\<lambda>_. False) s1"
      by (rule outcome_conseq [OF install_and_sync_outcome [OF s1 ready]]) auto
  qed simp
qed

text \<open>Dropping the writer afterwards removes at most the staging name.\<close>

lemma drop_cleaned: "closed t s \<Longrightarrow> cleaned t (as_world s) (drop_writer fs s)"
  using clean_staged_outcome [of s t]
  by (auto simp: closed_def drop_writer_def outcome_def split: prod.splits result.splits)

lemma settled_dropped:
  assumes "settled names t p st s" and "t \<noteq> p"
  shows "entry (drop_writer fs s) = names(t := None, p := Some st)"
  using drop_cleaned [of t s] assms
  by (auto simp: settled_def installed_def cleaned_def fun_upd_twist)

lemma late_dropped:
  assumes "late names t p st e s"
  shows "aw_destination_state e = DestUnchanged \<and> entry (drop_writer fs s) \<in> {names, names(t := None)} \<or>
    aw_destination_state e = DestReplaced \<and>
      entry (drop_writer fs s) \<in> {names(p := Some st), names(p := Some st, t := None)}"
  using drop_cleaned [of t s] assms by (auto simp: late_def cleaned_def)

lemma commit_truthful:
  assumes ready: "ready wr t h st (entry w)"
  shows "case atomic_commit fs wr w of
      (Ok _, w') \<Rightarrow>
        entry w' = (entry w)(t := None, lw_operation_path wr := Some st) \<and>
        (lw_destination_existed wr \<or> entry w (lw_operation_path wr) = None)
    | (Err (e, retained), w') \<Rightarrow>
        (case aw_destination_state e of
           DestReplaced \<Rightarrow>
             retained = None \<and>
             entry w' \<in> {(entry w)(lw_operation_path wr := Some st),
                         (entry w)(lw_operation_path wr := Some st, t := None)}
         | DestIndeterminate \<Rightarrow> False
         | _ \<Rightarrow>
             (case retained of
                Some wr' \<Rightarrow> wr' = wr \<and> entry w' = entry w
              | None \<Rightarrow> entry w' \<in> {entry w, (entry w)(t := None)}))
    | (Panic, _) \<Rightarrow> False"
proof -
  let ?s = "\<lparr>as_writer = wr, as_world = w\<rparr>" and ?p = "lw_operation_path wr"
  have "before wr (entry w) ?s"
    by (simp add: before_def)
  note run = commit_attempt_outcome [OF this ready]
  have t: "t \<noteq> ?p" and opened: "sf_file (lw_staged_file wr) = Some h"
    using ready by (auto simp: ready_def)
  obtain r s where r: "commit_attempt fs ?s = (r, s)" by force
  show ?thesis
  proof (cases r)
    case (Ok out)
    then show ?thesis
      using outcomeD(1) [OF run] r settled_dropped [OF _ t] by (fastforce simp: atomic_commit_def)
  next
    case (Err e)
    then consider "early wr (entry w) e s" | "late (entry w) t ?p st e s"
      using outcomeD(2) [OF run] r by blast
    then show ?thesis
    proof cases
      case 1
      then show ?thesis
        using r Err opened by (auto simp: atomic_commit_def early_def before_def staged_is_open_def)
    next
      case 2
      then have "\<not> staged_is_open (lw_staged_file (as_writer s))"
        by (simp add: late_def closed_def staged_is_open_def)
      then show ?thesis
        using r Err late_dropped [OF 2] by (auto simp: atomic_commit_def)
    qed
  next
    case Panic
    then show ?thesis using outcomeD(3) [OF run] r by blast
  qed
qed

end

section \<open>Opening a writer\<close>

text \<open>
  What opening may run into: a generated name that creation refused as taken while the names were
  \<open>names\<close>, \<open>fuel\<close> such names in a row, and a panic of one of the two calls that may panic.
\<close>

definition name_refused ::
  "('w, 'h) unix_fs \<Rightarrow> ('w \<Rightarrow> path \<Rightarrow> file_stat option) \<Rightarrow> (path \<Rightarrow> file_stat option) \<Rightarrow> path \<Rightarrow> byte list \<Rightarrow> bool" where
  "name_refused fs entry names dir n \<longleftrightarrow>
     (\<exists>v v' e. entry v = names \<and> ux_create_new fs (path_join dir n) v = (Err e, v') \<and>
        ioe_kind e = IoAlreadyExists)"

definition names_refused ::
  "('w, 'h) unix_fs \<Rightarrow> ('w \<Rightarrow> path \<Rightarrow> file_stat option) \<Rightarrow> (path \<Rightarrow> file_stat option) \<Rightarrow> path \<Rightarrow> nat \<Rightarrow> bool" where
  "names_refused fs entry names dir fuel \<longleftrightarrow>
     (\<exists>ns. length ns = fuel \<and> (\<forall>n \<in> set ns. name_refused fs entry names dir n))"

lemma names_refused_Suc:
  "name_refused fs entry names dir n \<Longrightarrow> names_refused fs entry names dir fuel \<Longrightarrow>
   names_refused fs entry names dir (Suc fuel)"
  unfolding names_refused_def by (metis length_Cons set_ConsD)

definition call_panicked :: "('w, 'h) unix_fs \<Rightarrow> bool" where
  "call_panicked fs \<longleftrightarrow>
     (\<exists>q v. fst (ux_create_new fs q v) = Panic) \<or> (\<exists>v. fst (ns_fill (ux_names fs) v) = Panic)"

lemma random_name_panic:
  "try_random_file_name src def prefix suffix w = (Panic, w') \<Longrightarrow> \<exists>v. fst (ns_fill src v) = Panic"
  by (auto simp: try_random_file_name_def Let_def validate_file_name_fragment_def
      validate_portable_generated_component_def validate_name_def names_portable_def
      validate_portable_component_def map_err_def
      split: result.splits prod.splits if_splits; metis fst_conv)

text \<open>
  A destination whose own name carries the staging prefix; and a writer that was opened with a fresh
  staged file, as the names before and after show.
\<close>

definition staging_named :: "path \<Rightarrow> bool" where
  "staging_named q \<longleftrightarrow> (\<exists>rest. q = path_join (parent_dir_for q) (atomic_write_temp_prefix @ rest))"

definition opened_fresh ::
  "'h atomic_writer \<Rightarrow> (path \<Rightarrow> file_stat option) \<Rightarrow> (path \<Rightarrow> file_stat option) \<Rightarrow> bool" where
  "opened_fresh wr names names' \<longleftrightarrow>
     (\<exists>t h st rest.
        t = path_join (parent_dir_for (lw_operation_path wr)) (atomic_write_temp_prefix @ rest) \<and>
        sf_path (lw_staged_file wr) = Some t \<and> sf_file (lw_staged_file wr) = Some h \<and>
        names t = None \<and> st_kind st = RegularFile \<and> st \<notin> ran names \<and> names' = names(t := Some st)) \<and>
     lw_destination_existed wr = (names (lw_operation_path wr) \<noteq> None)"

lemma opened_fresh_ready:
  assumes "opened_fresh wr names names'" and "\<not> staging_named (lw_operation_path wr)"
  shows "\<exists>t h st. ready wr t h st names'"
  using assms by (auto simp: opened_fresh_def staging_named_def ready_def ran_def)

text \<open>
  Creation of staging files: the name was free, and the new regular file is none of the files that
  have a name.
\<close>

locale unix_creation = unix_namespace fs entry
  for fs :: "('w, 'h) unix_fs" and entry :: "'w \<Rightarrow> path \<Rightarrow> file_stat option" +
  assumes quiet_absolute: "leaves_names entry (ux_absolute fs p)"
    and quiet_metadata: "leaves_names entry (ux_metadata fs p)"
    and quiet_fill: "ns_fill (ux_names fs) w = (rnd, w') \<Longrightarrow> entry w' = entry w"
    and quiet_timestamp: "ns_timestamp (ux_names fs) w = (time, w') \<Longrightarrow> entry w' = entry w"
    and create_ok: "ux_create_new fs p w = (Ok h, w') \<Longrightarrow>
      entry w p = None \<and>
      (\<exists>st. st_kind st = RegularFile \<and> st \<notin> ran (entry w) \<and> entry w' = (entry w)(p := Some st))"
    and create_err: "ux_create_new fs p w = (Err e, w') \<Longrightarrow> entry w' = entry w"
begin

lemma quiet_names:
  "try_random_file_name (ux_names fs) def prefix suffix w = (name, w') \<Longrightarrow> entry w' = entry w"
  using quiet_timestamp [of w] quiet_fill [of "snd (ns_timestamp (ux_names fs) w)"]
  by (auto simp: try_random_file_name_def Let_def split: result.splits prod.splits)

lemma random_name_shape:
  "try_random_file_name src def (Some prefix) suffix w = (Ok name, w') \<Longrightarrow> \<exists>rest. name = prefix @ rest"
  by (auto simp: try_random_file_name_def Let_def split: result.splits prod.splits)

lemma create_temp_loop_results:
  "case create_temp_loop fs dir (Some prefix) suffix tries fuel attempt w of
     None \<Rightarrow> names_refused fs entry (entry w) dir fuel
   | Some (Ok (t, h), w') \<Rightarrow>
       (\<exists>rest. t = path_join dir (prefix @ rest)) \<and> entry w t = None \<and>
       (\<exists>st. st_kind st = RegularFile \<and> st \<notin> ran (entry w) \<and> entry w' = (entry w)(t := Some st))
   | Some (Err e, w') \<Rightarrow> entry w' = entry w
   | Some (Panic, w') \<Rightarrow> call_panicked fs"
proof (induction fuel arbitrary: attempt w)
  case 0
  then show ?case by (simp add: names_refused_def)
next
  case (Suc fuel)
  obtain name w1 where name: "try_random_file_name (ux_names fs) default_prefix (Some prefix) suffix w = (name, w1)"
    by force
  have w1: "entry w1 = entry w"
    using quiet_names [OF name] .
  show ?case
  proof (cases name)
    case (Ok n)
    obtain c w2 where c: "ux_create_new fs (path_join dir n) w1 = (c, w2)" by force
    show ?thesis
    proof (cases c)
      case (Ok h')
      then show ?thesis
        using name \<open>name = Ok n\<close> c create_ok [of "path_join dir n" w1 h' w2] w1
          random_name_shape [of "ux_names fs" default_prefix prefix suffix w n w1]
        by (auto simp: Let_def fun_upd_def)
    next
      case (Err e)
      then have w2: "entry w2 = entry w"
        using c create_err w1 by metis
      show ?thesis
      proof (cases "should_retry_collision e (saturating_add attempt 1) tries")
        case True
        then have "name_refused fs entry (entry w) dir n"
          using c Err w1 by (auto simp: name_refused_def should_retry_collision_def)
        then show ?thesis
          using name \<open>name = Ok n\<close> c Err True Suc.IH [where attempt = "saturating_add attempt 1" and w = w2, unfolded w2]
          by (auto simp: Let_def intro: names_refused_Suc split: option.splits)
      qed (use name \<open>name = Ok n\<close> c Err w2 in \<open>simp add: Let_def\<close>)
    next
      case Panic
      then have "call_panicked fs" using c unfolding call_panicked_def by (metis fst_conv)
      then show ?thesis
        using name \<open>name = Ok n\<close> c Panic by (simp add: Let_def)
    qed
  next
    case Panic
    with name random_name_panic [of "ux_names fs" default_prefix "Some prefix" suffix w w1] show ?thesis
      by (auto simp: Let_def call_panicked_def)
  qed (use name w1 in \<open>simp add: Let_def\<close>)
qed

lemma quiet_inspect: "leaves_names entry (inspect_destination fs p opts)"
  unfolding inspect_destination_def existing_file_metadata_def
  by (auto intro!: leaves_names_caught quiet)

lemma quiet_prepare: "\<not> ao_create_parent opts \<Longrightarrow> leaves_names entry (prepare_parent fs p opts)"
  unfolding prepare_parent_def by (auto intro!: leaves_names_bind quiet_metadata)

lemma inspect_observes:
  "inspect_destination fs p opts w = (Ok (existed, regular), w') \<Longrightarrow>
   existed = (entry w p \<noteq> None) \<and> (regular \<longrightarrow> existed)"
  using stat_ok [of p w] stat_missing [of p w]
  by (auto simp: inspect_destination_def existing_file_metadata_def bind_def caught_def ret_def fail_def
      panic_def split: prod.splits result.splits if_splits)

lemma quiet_outcome:
  "leaves_names entry m \<Longrightarrow> entry w = names \<Longrightarrow>
   outcome m (\<lambda>_ w'. entry w' = names) (\<lambda>_ w'. entry w' = names) (\<lambda>_. False) w"
  by (auto simp: outcome_def leaves_names_def split: prod.splits result.splits)

lemma inspect_outcome:
  "entry w = names \<Longrightarrow>
   outcome (inspect_destination fs p opts)
     (\<lambda>(existed, _) w'. entry w' = names \<and> existed = (names p \<noteq> None)) (\<lambda>_ w'. entry w' = names)
     (\<lambda>_. False) w"
  using leaves_namesD [OF quiet_inspect, of p opts w] inspect_observes [of p opts w]
  by (auto simp: outcome_def split: prod.splits result.splits)

lemma staged_new_fields:
  "staged_new fs t h w = (sf, w') \<Longrightarrow> sf_path sf = Some t \<and> sf_file sf = Some h \<and> entry w' = entry w"
  using leaves_namesD(1) [OF quiet_fstat, of h w]
  by (auto simp: staged_new_def file_identity_def split: prod.splits result.splits)

lemma open_front:
  assumes "\<not> ao_create_parent opts"
  shows "outcome (bind (in_stage PrepareParent p (ux_absolute fs p)) (\<lambda>operation_path.
            bind (in_stage PrepareParent p (prepare_parent fs operation_path opts)) (\<lambda>dirs.
            bind (in_stage InspectDestination p (inspect_destination fs operation_path opts)) (\<lambda>observed.
              ret (operation_path, dirs, observed)))))
     (\<lambda>(q, dirs, existed, regular) w'. entry w' = entry w \<and> existed = (entry w q \<noteq> None))
     (\<lambda>e w'. entry w' = entry w \<and> aw_destination_state e = DestUnchanged) (\<lambda>_. False) w"
  unfolding in_stage_def outcome_bind outcome_or_fail atomic_error_new_def
  by (rule outcome_conseq [OF quiet_outcome [OF quiet_absolute refl]],
      rule outcome_conseq [OF quiet_outcome [OF quiet_prepare [OF assms]]], assumption,
      rule outcome_conseq [OF inspect_outcome], assumption) auto

lemma open_results:
  assumes "\<not> ao_create_parent opts"
  shows "case atomic_writer_new fs fuel p opts w of
      None \<Rightarrow> (\<exists>dir. names_refused fs entry (entry w) dir fuel)
    | Some (Ok wr, w') \<Rightarrow> opened_fresh wr (entry w) (entry w')
    | Some (Err e, w') \<Rightarrow> entry w' = entry w \<and> aw_destination_state e = DestUnchanged
    | Some (Panic, w') \<Rightarrow> call_panicked fs"
proof -
  let ?front = "bind (in_stage PrepareParent p (ux_absolute fs p)) (\<lambda>operation_path.
            bind (in_stage PrepareParent p (prepare_parent fs operation_path opts)) (\<lambda>dirs.
            bind (in_stage InspectDestination p (inspect_destination fs operation_path opts)) (\<lambda>observed.
              ret (operation_path, dirs, observed))))"
  obtain r w1 where front: "?front w = (r, w1)" by force
  show ?thesis
  proof (cases r)
    case (Ok x)
    then obtain q dirs existed regular where x: "r = Ok (q, dirs, existed, regular)" by (cases x) auto
    have keeps: "entry w1 = entry w" "existed = (entry w q \<noteq> None)"
      using outcomeD(1) [OF open_front [OF assms] front [unfolded x]] by auto
    define made where "made = create_temp_loop fs (parent_dir_for q) (Some atomic_write_temp_prefix)
      (Some atomic_write_temp_suffix) None fuel 0 w1"
    note results = create_temp_loop_results [where dir = "parent_dir_for q" and prefix = atomic_write_temp_prefix
      and suffix = "Some atomic_write_temp_suffix" and tries = None and fuel = fuel and attempt = 0 and w = w1, folded made_def, unfolded keeps(1)]
    have made: "create_temp_file_in_dir fs fuel (parent_dir_for q) (Some atomic_write_temp_prefix)
        (Some atomic_write_temp_suffix) None w1 = made"
      by (simp add: create_temp_file_in_dir_def validate_max_tries_def made_def)
    show ?thesis
    proof (cases "\<exists>t h w2. made = Some (Ok (t, h), w2)")
      case True
      then obtain t h w2 where ok: "made = Some (Ok (t, h), w2)" by blast
      obtain sf w3 where staged: "staged_new fs t h w2 = (sf, w3)" by force
      then show ?thesis
        using front x made ok results staged_new_fields [OF staged] keeps(2)
        by (auto simp: atomic_writer_new_def opened_fresh_def)
    next
      case False
      then show ?thesis
        using front x made results
        by (auto simp: atomic_writer_new_def atomic_error_new_def split: option.splits prod.splits result.splits)
    qed
  next
    case (Err e)
    then show ?thesis
      using front outcomeD(2) [OF open_front [OF assms] front [unfolded Err]]
      by (simp add: atomic_writer_new_def)
  next
    case Panic
    then show ?thesis
      using outcomeD(3) [OF open_front [OF assms] front [unfolded Panic]] by simp
  qed
qed

end

end
