(* ===== verification/Memory_Files.thy ===== *)
theory Memory_Files
  imports Atomic_Correct
begin

text \<open>
  A namespace in memory, for concrete runs of the path-based writers: an association list from paths
  to files, the bytes of each file by inode, and a schedule of faults. Every call takes the next fault
  of the schedule; \<open>FailWith c\<close> makes it fail with the raw code \<open>c\<close>. A handle is the identity of its
  file.
\<close>

datatype fault = NoFault | FailWith int

record memory_files =
  mf_names :: "(path \<times> file_stat) list"
  mf_bytes :: "(u64 \<times> byte list) list"
  mf_next :: u64
  mf_faults :: "fault list"

definition faulty :: "(memory_files, 'x) native \<Rightarrow> (memory_files, 'x) native" where
  "faulty op w =
     (case mf_faults w of
        [] \<Rightarrow> op w
      | NoFault # rest \<Rightarrow> op (w\<lparr>mf_faults := rest\<rparr>)
      | FailWith c # rest \<Rightarrow> (Err (IoError IoOther (OsCode c)), w\<lparr>mf_faults := rest\<rparr>))"

definition without_name :: "path \<Rightarrow> (path \<times> file_stat) list \<Rightarrow> (path \<times> file_stat) list" where
  "without_name p names = filter (\<lambda>x. fst x \<noteq> p) names"

definition mem_stat :: "path \<Rightarrow> (memory_files, file_stat) native" where
  "mem_stat p w =
     (case map_of (mf_names w) p of
        Some st \<Rightarrow> (Ok st, w)
      | None \<Rightarrow> (Err (io_error_of IoNotFound), w))"

definition mem_create :: "path \<Rightarrow> (memory_files, file_stat) native" where
  "mem_create p w =
     (if map_of (mf_names w) p \<noteq> None \<or> list_ex (\<lambda>x. st_ino (snd x) = mf_next w) (mf_names w)
      then (Err (io_error_of IoAlreadyExists), w\<lparr>mf_next := Suc (mf_next w)\<rparr>)
      else
        (let st = \<lparr>st_kind = RegularFile, st_dev = 1, st_ino = mf_next w\<rparr>
         in (Ok st, w\<lparr>mf_names := (p, st) # mf_names w, mf_bytes := (mf_next w, []) # mf_bytes w,
                      mf_next := Suc (mf_next w)\<rparr>)))"

definition mem_write :: "file_stat \<Rightarrow> byte list \<Rightarrow> (memory_files, usize) native" where
  "mem_write h bytes w =
     (Ok (length bytes),
      w\<lparr>mf_bytes := (st_ino h, (case map_of (mf_bytes w) (st_ino h) of None \<Rightarrow> [] | Some bs \<Rightarrow> bs) @ bytes) # mf_bytes w\<rparr>)"

definition mem_rename :: "path \<Rightarrow> path \<Rightarrow> (memory_files, unit) native" where
  "mem_rename a b w =
     (case map_of (mf_names w) a of
        None \<Rightarrow> (Err (io_error_of IoNotFound), w)
      | Some st \<Rightarrow>
          if map_of (mf_names w) b = Some st then (Ok (), w)
          else (Ok (), w\<lparr>mf_names := (b, st) # without_name b (without_name a (mf_names w))\<rparr>))"

definition mem_rename_noreplace :: "path \<Rightarrow> path \<Rightarrow> (memory_files, unit) native" where
  "mem_rename_noreplace a b w =
     (if map_of (mf_names w) b \<noteq> None then (Err (io_error_of IoAlreadyExists), w)
      else mem_rename a b w)"

definition mem_link :: "path \<Rightarrow> path \<Rightarrow> (memory_files, unit) native" where
  "mem_link a b w =
     (case (map_of (mf_names w) a, map_of (mf_names w) b) of
        (Some st, None) \<Rightarrow> (Ok (), w\<lparr>mf_names := (b, st) # mf_names w\<rparr>)
      | (None, _) \<Rightarrow> (Err (io_error_of IoNotFound), w)
      | _ \<Rightarrow> (Err (io_error_of IoAlreadyExists), w))"

definition mem_unlink :: "path \<Rightarrow> (memory_files, unit) native" where
  "mem_unlink a w =
     (if map_of (mf_names w) a = None then (Err (io_error_of IoNotFound), w)
      else (Ok (), w\<lparr>mf_names := without_name a (mf_names w)\<rparr>))"

definition mem_names :: "memory_files name_source" where
  "mem_names =
     \<lparr>ns_fill = (\<lambda>w. (Ok [word_of_nat (mf_next w)], w)), ns_timestamp = (\<lambda>w. (mf_next w, w)),
      ns_process_id = 1\<rparr>"

definition memory_fs :: "(memory_files, file_stat) unix_fs" where
  "memory_fs =
     \<lparr>ux_absolute = (\<lambda>p. faulty (ret p)),
      ux_metadata = (\<lambda>p. faulty (mem_stat p)),
      ux_symlink_metadata = (\<lambda>p. faulty (mem_stat p)),
      ux_create_dir_all = (\<lambda>p. faulty (ret ())),
      ux_create_new = (\<lambda>p. faulty (mem_create p)),
      ux_open_retrying = (\<lambda>p timeout. faulty (mem_stat p)),
      ux_fstat = (\<lambda>h. faulty (ret h)),
      ux_clear_nonblocking = (\<lambda>h. faulty (ret ())),
      ux_preserve_metadata = (\<lambda>h h'. faulty (ret ())),
      ux_write = (\<lambda>h bytes. faulty (mem_write h bytes)),
      ux_write_vectored = (\<lambda>h slices. faulty (mem_write h (concat slices))),
      ux_flush = (\<lambda>h. faulty (ret ())),
      ux_sync_all = (\<lambda>h. faulty (ret ())),
      ux_rename = (\<lambda>a b. faulty (mem_rename a b)),
      ux_rename_noreplace = (\<lambda>a b. faulty (mem_rename_noreplace a b)),
      ux_link = (\<lambda>a b. faulty (mem_link a b)),
      ux_unlink = (\<lambda>a. faulty (mem_unlink a)),
      ux_sync_dir = (\<lambda>p. faulty (ret ())),
      ux_names = mem_names\<rparr>"

definition mem_entry :: "memory_files \<Rightarrow> path \<Rightarrow> file_stat option" where
  "mem_entry w = map_of (mf_names w)"

lemma map_of_without_name: "map_of (without_name p xs) = (map_of xs)(p := None)"
  by (induction xs) (auto simp: without_name_def)

lemma faulty_leaves:
  assumes "\<And>w r w'. op w = (r, w') \<Longrightarrow> mf_names w' = mf_names w \<and> r \<noteq> Panic"
  shows "leaves_names mem_entry (faulty op)"
  using assms by (fastforce simp: leaves_names_def faulty_def mem_entry_def
      split: list.splits fault.splits)

lemma faulty_cases:
  assumes "faulty op w = (r, w')"
  obtains (run) w0 where "op w0 = (r, w')" "mf_names w0 = mf_names w" "mf_next w0 = mf_next w"
  | (fault) e where "r = Err e" "ioe_kind e = IoOther" "mf_names w' = mf_names w"
  using assms by (fastforce simp: faulty_def split: list.splits fault.splits)

lemma mem_stat_quiet: "mem_stat p w = (r, w') \<Longrightarrow> w' = w \<and> r \<noteq> Panic"
  by (auto simp: mem_stat_def split: option.splits)

lemma mem_stat_result:
  "mem_stat p w = (Ok st, w') \<Longrightarrow> map_of (mf_names w) p = Some st"
  "mem_stat p w = (Err e, w') \<Longrightarrow> map_of (mf_names w) p = None"
  by (auto simp: mem_stat_def split: option.splits)

lemma mem_rename_result:
  "mem_rename a b w = (Ok u, w') \<Longrightarrow> a \<noteq> b \<Longrightarrow> map_of (mf_names w) a \<noteq> map_of (mf_names w) b \<Longrightarrow>
   map_of (mf_names w') = (map_of (mf_names w))(a := None, b := map_of (mf_names w) a)"
  "mem_rename a b w = (Err e, w') \<Longrightarrow> w' = w"
  "mem_rename a b w \<noteq> (Panic, w')"
  by (auto simp: mem_rename_def map_of_without_name fun_upd_twist split: option.splits if_splits)

lemma mem_rename_noreplace_result:
  "mem_rename_noreplace a b w = (Ok u, w') \<Longrightarrow> a \<noteq> b \<Longrightarrow>
   map_of (mf_names w) b = None \<and>
   map_of (mf_names w') = (map_of (mf_names w))(a := None, b := map_of (mf_names w) a)"
  "mem_rename_noreplace a b w = (Err e, w') \<Longrightarrow> w' = w"
  "mem_rename_noreplace a b w \<noteq> (Panic, w')"
proof -
  show "map_of (mf_names w) b = None \<and>
     map_of (mf_names w') = (map_of (mf_names w))(a := None, b := map_of (mf_names w) a)"
    if "mem_rename_noreplace a b w = (Ok u, w')" "a \<noteq> b"
    using that mem_rename_result(1) [of a b w u w'] mem_rename_def [of a b w]
    by (cases "map_of (mf_names w) a") (auto simp: mem_rename_noreplace_def split: if_splits)
qed (auto simp: mem_rename_noreplace_def mem_rename_result split: if_splits)

lemma mem_link_result:
  "mem_link a b w = (Ok u, w') \<Longrightarrow>
   map_of (mf_names w) b = None \<and> map_of (mf_names w') = (map_of (mf_names w))(b := map_of (mf_names w) a)"
  "mem_link a b w = (Err e, w') \<Longrightarrow> w' = w"
  "mem_link a b w \<noteq> (Panic, w')"
  by (auto simp: mem_link_def split: option.splits)

lemma mem_unlink_result:
  "mem_unlink a w = (Ok u, w') \<Longrightarrow> map_of (mf_names w') = (map_of (mf_names w))(a := None)"
  "mem_unlink a w = (Err e, w') \<Longrightarrow> w' = w \<and> map_of (mf_names w) a = None"
  "mem_unlink a w \<noteq> (Panic, w')"
  by (auto simp: mem_unlink_def map_of_without_name split: if_splits)

lemma mem_create_ok:
  assumes "mem_create p w = (Ok h, w')"
  shows "map_of (mf_names w) p = None \<and>
    (\<exists>st. st_kind st = RegularFile \<and> st \<notin> ran (map_of (mf_names w)) \<and>
       map_of (mf_names w') = (map_of (mf_names w))(p := Some st))"
proof -
  let ?st = "\<lparr>st_kind = RegularFile, st_dev = 1, st_ino = mf_next w\<rparr>"
  have free: "map_of (mf_names w) p = None" "\<not> list_ex (\<lambda>x. st_ino (snd x) = mf_next w) (mf_names w)"
    and names: "mf_names w' = (p, ?st) # mf_names w"
    using assms by (auto simp: mem_create_def Let_def split: if_splits)
  have "?st \<notin> ran (map_of (mf_names w))"
  proof
    assume "?st \<in> ran (map_of (mf_names w))"
    then obtain q where "(q, ?st) \<in> set (mf_names w)"
      by (auto simp: ran_def dest: map_of_SomeD)
    then show False
      using free(2) by (force simp: list_ex_iff)
  qed
  then show ?thesis
    using free(1) names by (intro conjI exI [of _ ?st]) auto
qed

lemma mem_create_err: "mem_create p w = (Err e, w') \<Longrightarrow> mf_names w' = mf_names w"
  by (auto simp: mem_create_def Let_def split: if_splits)

interpretation memory: unix_creation memory_fs mem_entry
proof unfold_locales
  show "leaves_names mem_entry (ux_symlink_metadata memory_fs p)"
    "leaves_names mem_entry (ux_open_retrying memory_fs p timeout)"
    "leaves_names mem_entry (ux_metadata memory_fs p)" for p timeout
    by (auto simp: memory_fs_def intro!: faulty_leaves dest: mem_stat_quiet)
  show "leaves_names mem_entry (ux_fstat memory_fs h)"
    "leaves_names mem_entry (ux_clear_nonblocking memory_fs h)"
    "leaves_names mem_entry (ux_preserve_metadata memory_fs h h')"
    "leaves_names mem_entry (ux_sync_all memory_fs h)"
    "leaves_names mem_entry (ux_sync_dir memory_fs p)"
    "leaves_names mem_entry (ux_absolute memory_fs p)" for h h' p
    by (auto simp: memory_fs_def ret_def intro!: faulty_leaves)
  show "mem_entry w p = Some st" if "ux_symlink_metadata memory_fs p w = (Ok st, w')" for p w st w'
    using that by (auto simp: memory_fs_def mem_entry_def elim!: faulty_cases dest: mem_stat_result)
  show "mem_entry w p = None"
    if "ux_symlink_metadata memory_fs p w = (Err e, w')" "ioe_kind e = IoNotFound" for p w e w'
    using that by (auto simp: memory_fs_def mem_entry_def elim!: faulty_cases dest: mem_stat_result)
  show "mem_entry w' = (mem_entry w)(a := None, b := mem_entry w a)"
    if "ux_rename memory_fs a b w = (Ok u, w')" "a \<noteq> b" "mem_entry w a \<noteq> mem_entry w b" for a b w u w'
    using that by (auto simp: memory_fs_def mem_entry_def elim!: faulty_cases dest: mem_rename_result(1,2))
  show "mem_entry w' = mem_entry w" if "ux_rename memory_fs a b w = (Err e, w')" for a b w e w'
    using that by (auto simp: memory_fs_def mem_entry_def elim!: faulty_cases dest: mem_rename_result(1,2))
  show "ux_rename memory_fs a b w \<noteq> (Panic, w')" for a b w w'
    by (auto simp: memory_fs_def mem_rename_result elim!: faulty_cases)
  show "mem_entry w b = None \<and> mem_entry w' = (mem_entry w)(a := None, b := mem_entry w a)"
    if "ux_rename_noreplace memory_fs a b w = (Ok u, w')" "a \<noteq> b" for a b w u w'
    using that
    by (auto simp: memory_fs_def mem_entry_def elim!: faulty_cases dest: mem_rename_noreplace_result(1,2))
  show "mem_entry w' = mem_entry w" if "ux_rename_noreplace memory_fs a b w = (Err e, w')" for a b w e w'
    using that
    by (auto simp: memory_fs_def mem_entry_def elim!: faulty_cases dest: mem_rename_noreplace_result(1,2))
  show "ux_rename_noreplace memory_fs a b w \<noteq> (Panic, w')" for a b w w'
    by (auto simp: memory_fs_def mem_rename_noreplace_result elim!: faulty_cases)
  show "mem_entry w b = None \<and> mem_entry w' = (mem_entry w)(b := mem_entry w a)"
    if "ux_link memory_fs a b w = (Ok u, w')" for a b w u w'
    using that by (auto simp: memory_fs_def mem_entry_def elim!: faulty_cases dest: mem_link_result(1,2))
  show "mem_entry w' = mem_entry w" if "ux_link memory_fs a b w = (Err e, w')" for a b w e w'
    using that by (auto simp: memory_fs_def mem_entry_def elim!: faulty_cases dest: mem_link_result(1,2))
  show "ux_link memory_fs a b w \<noteq> (Panic, w')" for a b w w'
    by (auto simp: memory_fs_def mem_link_result elim!: faulty_cases)
  show "mem_entry w' = (mem_entry w)(a := None)" if "ux_unlink memory_fs a w = (Ok u, w')" for a w u w'
    using that by (auto simp: memory_fs_def mem_entry_def elim!: faulty_cases dest: mem_unlink_result(1,2))
  show "mem_entry w' = mem_entry w \<and> (ioe_kind e = IoNotFound \<longrightarrow> mem_entry w a = None)"
    if "ux_unlink memory_fs a w = (Err e, w')" for a w e w'
    using that by (auto simp: memory_fs_def mem_entry_def elim!: faulty_cases dest: mem_unlink_result(1,2))
  show "ux_unlink memory_fs a w \<noteq> (Panic, w')" for a w w'
    by (auto simp: memory_fs_def mem_unlink_result elim!: faulty_cases)
  show "mem_entry w' = mem_entry w" if "ns_fill (ux_names memory_fs) w = (r, w')" for w r w'
    using that by (auto simp: memory_fs_def mem_names_def)
  show "mem_entry w' = mem_entry w" if "ns_timestamp (ux_names memory_fs) w = (r, w')" for w r w'
    using that by (auto simp: memory_fs_def mem_names_def)
  show "mem_entry w p = None \<and>
      (\<exists>st. st_kind st = RegularFile \<and> st \<notin> ran (mem_entry w) \<and> mem_entry w' = (mem_entry w)(p := Some st))"
    if "ux_create_new memory_fs p w = (Ok h, w')" for p w h w'
    using that by (auto simp: memory_fs_def mem_entry_def elim!: faulty_cases dest!: mem_create_ok)
  show "mem_entry w' = mem_entry w" if "ux_create_new memory_fs p w = (Err e, w')" for p w e w'
    using that by (auto simp: memory_fs_def mem_entry_def elim!: faulty_cases dest: mem_create_err)
qed

end
