(* ===== verification/Atomic_Runs.thy ===== *)
theory Atomic_Runs
  imports Memory_Files
begin

text \<open>
  The properties of the atomic writer: the destination state of a commit is true of the namespace, a
  writer that was opened is ready to commit, and the synchronization flags of a successful commit are
  backed by calls that succeeded. Their witnesses run in the memory namespace.
\<close>

section \<open>Synchronization\<close>

definition keeps_writer :: "(('w, 'h) atomic_state, 'e, 'x) prog \<Rightarrow> bool" where
  "keeps_writer m \<longleftrightarrow> (\<forall>s r s'. m s = (r, s') \<longrightarrow> as_writer s' = as_writer s)"

lemma keeps_writer_ret [simp]: "keeps_writer (ret x)" "keeps_writer (fail e)" "keeps_writer panic"
  "keeps_writer (gets f)" "keeps_writer (os op)"
  by (auto simp: keeps_writer_def ret_def fail_def panic_def gets_def os_def split: prod.splits)

lemma keeps_writer_bind:
  "keeps_writer m \<Longrightarrow> (\<And>x. keeps_writer (f x)) \<Longrightarrow> keeps_writer (bind m f)"
  unfolding keeps_writer_def bind_def by (fastforce split: prod.splits result.splits)

lemma keeps_writer_seq: "keeps_writer m \<Longrightarrow> keeps_writer k \<Longrightarrow> keeps_writer (seq m k)"
  unfolding seq_def by (rule keeps_writer_bind)

lemma keeps_writer_caught: "keeps_writer m \<Longrightarrow> keeps_writer (caught m)"
  unfolding keeps_writer_def caught_def by (fastforce split: prod.splits result.splits)

lemma keeps_writer_or_fail: "keeps_writer m \<Longrightarrow> keeps_writer (or_fail f id m)"
  unfolding keeps_writer_def or_fail_def by (fastforce split: prod.splits result.splits)

lemmas keeps_writer_rules =
  keeps_writer_bind keeps_writer_seq keeps_writer_caught keeps_writer_or_fail

lemma keeps_writer_staged [simp]: "keeps_writer staged_path" "keeps_writer staged_handle"
  by (auto simp: staged_path_def staged_handle_def intro!: keeps_writer_rules split: option.split)

lemma keeps_writer_context: "keeps_writer op \<Longrightarrow> keeps_writer (with_atomic_context stage dest op)"
  unfolding with_atomic_context_def by (auto intro!: keeps_writer_rules split: result.split)

lemma keeps_writer_open: "keeps_writer (open_destination_for_commit fs)"
  unfolding open_destination_for_commit_def by (auto intro!: keeps_writer_rules split: option.split)

lemma keeps_writer_apply: "keeps_writer (apply_destination_metadata fs d)"
  unfolding apply_destination_metadata_def
  by (auto intro!: keeps_writer_rules keeps_writer_context split: option.split)

lemma keeps_writer_verify: "keeps_writer (verify_destination_for_commit fs d)"
  unfolding verify_destination_for_commit_def verify_atomic_destination_identity_def
  by (auto intro!: keeps_writer_rules split: option.split result.split bool.split)

lemma keeps_writer_outcome:
  "keeps_writer m \<Longrightarrow> as_writer s = wr \<Longrightarrow>
   outcome m (\<lambda>_ s'. as_writer s' = wr) (\<lambda>_ _. True) (\<lambda>_. True) s"
  by (auto simp: keeps_writer_def outcome_def split: prod.splits result.splits)

lemma keeps_writer_exits:
  "keeps_writer m \<Longrightarrow> as_writer s = wr \<Longrightarrow>
   outcome m (\<lambda>_ s'. as_writer s' = wr) (\<lambda>_ s'. as_writer s' = wr) (\<lambda>_. True) s"
  by (auto simp: keeps_writer_def outcome_def split: prod.splits result.splits)

text \<open>
  What a true flag stands for: calls that succeeded, on the staged handle and, one by one, on the directory of the
  destination and on the directory of every parent that was created.
\<close>

definition file_was_synced :: "('w, 'h) unix_fs \<Rightarrow> 'h atomic_writer \<Rightarrow> bool" where
  "file_was_synced fs wr \<longleftrightarrow>
     (\<exists>h w1 w2. sf_file (lw_staged_file wr) = Some h \<and> ux_sync_all fs h w1 = (Ok (), w2))"

definition parents_were_synced :: "('w, 'h) unix_fs \<Rightarrow> 'h atomic_writer \<Rightarrow> bool" where
  "parents_were_synced fs wr \<longleftrightarrow>
     (\<forall>p \<in> insert (lw_operation_path wr) (set (lw_parent_dirs_to_sync wr)).
        \<exists>w1 w2. ux_sync_dir fs (parent_dir_for p) w1 = (Ok (), w2))"

lemma chain_syncs_parents:
  "sync_atomic_parent_chain fs (lw_operation_path wr) (lw_parent_dirs_to_sync wr) w = (Ok u, w') \<Longrightarrow>
   parents_were_synced fs wr"
  by (auto simp: sync_atomic_parent_chain_def parents_were_synced_def seq_def bind_def sync_parent_dir_def
      dest: sync_parents_each split: prod.splits result.splits)

lemma outcome_backed:
  "(\<And>x s'. m s = (Ok x, s') \<Longrightarrow> Q x s') \<Longrightarrow> outcome m Q (\<lambda>_ _. True) (\<lambda>_. True) s"
  by (auto simp: outcome_def split: prod.splits result.splits)

lemma sync_temporary_claim:
  assumes "as_writer s = wr"
  shows "outcome (sync_temporary_file fs)
    (\<lambda>synced s'. as_writer s' = wr \<and> (synced \<longrightarrow> file_was_synced fs wr) \<and>
       (lw_durability wr = DurRequired \<or> lw_file_sync wr = SyncRequired \<longrightarrow> synced))
    (\<lambda>_ _. True) (\<lambda>_. True) s"
proof (rule outcome_backed)
  fix synced s'
  assume run: "sync_temporary_file fs s = (Ok synced, s')"
  then obtain h where h: "sf_file (lw_staged_file wr) = Some h"
    using assms by (auto simp: sync_temporary_file_def staged_handle_def bind_def gets_def panic_def
        split: option.splits)
  have "keeps_writer (sync_temporary_file fs)"
    unfolding sync_temporary_file_def synchronize_staging_file_def
    by (auto intro!: keeps_writer_rules keeps_writer_context split: file_sync.split result.split)
  then have keeps: "as_writer s' = wr"
    using run assms by (auto simp: keeps_writer_def)
  have "synced \<longrightarrow> (\<exists>w1 w2. ux_sync_all fs h w1 = (Ok (), w2))"
    using run assms h
    by (cases "ux_sync_all fs h (as_world s)"; cases "fst (ux_sync_all fs h (as_world s))")
      (auto simp: sync_temporary_file_def staged_handle_def synchronize_staging_file_def
        with_atomic_context_def staged_path_def
        bind_def gets_def ret_def seq_def caught_def os_def fail_def panic_def
        split: file_sync.splits option.splits)
  moreover have "lw_durability wr = DurRequired \<or> lw_file_sync wr = SyncRequired \<longrightarrow> synced"
    using run assms
    by (auto simp: sync_temporary_file_def synchronize_staging_file_def staging_sync_requirement_def
        bind_def gets_def ret_def seq_def staged_handle_def panic_def
        split: option.splits prod.splits result.splits)
  ultimately show "as_writer s' = wr \<and> (synced \<longrightarrow> file_was_synced fs wr) \<and>
       (lw_durability wr = DurRequired \<or> lw_file_sync wr = SyncRequired \<longrightarrow> synced)"
    using keeps h by (auto simp: file_was_synced_def)
qed

definition parent_claim :: "('w, 'h) unix_fs \<Rightarrow> 'h atomic_writer \<Rightarrow> bool \<Rightarrow> ('w, 'h) atomic_state \<Rightarrow> bool" where
  "parent_claim fs wr durable s \<longleftrightarrow>
     lw_durability (as_writer s) = lw_durability wr \<and> (durable \<longrightarrow> parents_were_synced fs wr) \<and>
     (lw_durability wr = DurRequired \<longrightarrow> durable)"

lemma chain_backed:
  "lw_durability (as_writer s) = lw_durability wr \<Longrightarrow>
   outcome (os (sync_atomic_parent_chain fs (lw_operation_path wr) (lw_parent_dirs_to_sync wr)))
     (\<lambda>_ s'. lw_durability (as_writer s') = lw_durability wr \<and> parents_were_synced fs wr)
     (\<lambda>_ s'. lw_durability (as_writer s') = lw_durability wr) (\<lambda>_. True) s"
  by (auto simp: outcome_def os_def dest: chain_syncs_parents split: prod.splits result.splits)

lemma clean_staged_config:
  "lw_durability (as_writer s) = d \<Longrightarrow>
   outcome (clean_staged fs) (\<lambda>_ s'. lw_durability (as_writer s') = d)
     (\<lambda>_ s'. lw_durability (as_writer s') = d) (\<lambda>_. True) s"
  by (auto simp: outcome_def clean_staged_def on_staged_def split: prod.splits result.splits)

lemma finish_install_claim:
  assumes "lw_durability (as_writer s) = lw_durability wr"
  shows "outcome (finish_install (lw_durability wr) p tmp
      (os (sync_atomic_parent_chain fs (lw_operation_path wr) (lw_parent_dirs_to_sync wr))))
    (parent_claim fs wr) (\<lambda>_ _. True) (\<lambda>_. True) s"
  using assms unfolding finish_install_def
  by (cases "lw_durability wr")
    (auto simp: parent_claim_def on_staged_def intro!: outcome_conseq [OF chain_backed])

lemma sync_recovered_claim:
  assumes "lw_durability (as_writer s) = lw_durability wr"
  shows "outcome (sync_recovered p tmp dest (lw_durability wr)
      (os (sync_atomic_parent_chain fs (lw_operation_path wr) (lw_parent_dirs_to_sync wr))))
    (parent_claim fs wr) (\<lambda>_ _. True) (\<lambda>_. True) s"
  using assms unfolding sync_recovered_def
  by (cases "lw_durability wr") (auto simp: parent_claim_def intro!: outcome_conseq [OF chain_backed])

lemma report_never_ok:
  "outcome (report_install_error p tmp source dest durability sync_parent c) (\<lambda>_ _. False)
     (\<lambda>_ _. True) (\<lambda>_. True) s"
  by (auto simp: report_install_error_def outcome_def bind_def fail_def split: prod.splits result.splits)

lemma recover_claim:
  assumes "lw_durability (as_writer s) = lw_durability wr"
  shows "outcome (recover_atomic_install_error p tmp source dest staging (lw_durability wr)
      (clean_staged fs) (modify (on_staged staged_disarm))
      (os (sync_atomic_parent_chain fs (lw_operation_path wr) (lw_parent_dirs_to_sync wr))))
    (parent_claim fs wr) (\<lambda>_ _. True) (\<lambda>_. True) s"
proof (cases staging)
  case StagingPresent
  show ?thesis
    unfolding recover_atomic_install_error_def Let_def StagingPresent staging_state.case outcome_bind
      outcome_caught result.case
    by (rule outcome_conseq [OF clean_staged_config [OF assms]])
      (auto intro!: sync_recovered_claim outcome_conseq [OF report_never_ok])
next
  case StagingIndeterminate
  then show ?thesis
    by (auto simp: recover_atomic_install_error_def intro!: outcome_conseq [OF report_never_ok])
qed

lemma install_claim:
  assumes "as_writer s = wr"
  shows "outcome (install_and_sync_parent fs) (parent_claim fs wr) (\<lambda>_ _. True) (\<lambda>_. True) s"
proof -
  have unchanged: "lw_operation_path (as_writer (on_staged staged_close s)) = lw_operation_path wr"
    "lw_parent_dirs_to_sync (as_writer (on_staged staged_close s)) = lw_parent_dirs_to_sync wr"
    "lw_durability (as_writer (on_staged staged_close s)) = lw_durability wr"
    using assms by (auto simp: on_staged_def)
  have path: "keeps_writer (staged_path :: (('w, 'h) atomic_state, atomic_write_error, path) prog)"
    by simp
  show ?thesis
    unfolding install_and_sync_parent_def outcome_seq outcome_modify outcome_bind outcome_gets
      outcome_caught Let_def unchanged
    by (rule outcome_conseq [OF keeps_writer_outcome [OF path refl]],
        rule outcome_conseq [OF keeps_writer_exits [OF keeps_writer_ret(5) refl]])
      (auto simp: unchanged intro!: finish_install_claim recover_claim split: prod.splits)
qed

text \<open>
  C22: the synchronization flags of a successful atomic commit are backed by calls. A result that says the
  file was synchronized means that the synchronization of the staged handle succeeded; a result that says
  the write is durable means that this and the synchronization of the destination's directory and of the
  directory of every created parent succeeded, and that durability was asked for. A required synchronization is never dropped: with \<open>Required\<close> durability
  a successful commit is durable, and with a required file synchronization its file was synchronized. This
  holds for every behaviour of the calls.
\<close>

theorem atomic_sync_claims:
  assumes "atomic_commit fs wr w = (Ok out, w')"
  shows "(so_file_synced out \<longrightarrow> file_was_synced fs wr) \<and>
    (so_durable out \<longrightarrow> so_file_synced out \<and> parents_were_synced fs wr \<and> lw_durability wr \<noteq> DurNotRequired) \<and>
    (lw_durability wr = DurRequired \<longrightarrow> so_durable out) \<and>
    (lw_file_sync wr = SyncRequired \<longrightarrow> so_file_synced out)"
proof -
  let ?s = "\<lparr>as_writer = wr, as_world = w\<rparr>"
  have "outcome (commit_attempt fs)
      (\<lambda>out _. (so_file_synced out \<longrightarrow> file_was_synced fs wr) \<and>
        (so_durable out \<longrightarrow> so_file_synced out \<and> parents_were_synced fs wr \<and> lw_durability wr \<noteq> DurNotRequired) \<and>
        (lw_durability wr = DurRequired \<longrightarrow> so_durable out) \<and>
        (lw_file_sync wr = SyncRequired \<longrightarrow> so_file_synced out))
      (\<lambda>_ _. True) (\<lambda>_. True) ?s"
    unfolding commit_attempt_def
    by (rule outcome_bindI, rule keeps_writer_outcome [OF keeps_writer_open], simp,
        rule outcome_seqI, rule keeps_writer_outcome [OF keeps_writer_apply], assumption,
        rule outcome_bindI, rule sync_temporary_claim, assumption,
        rule outcome_seqI, rule keeps_writer_outcome [OF keeps_writer_verify], simp,
        rule outcome_bindI, rule install_claim, assumption) (auto simp: parent_claim_def)
  then show ?thesis
    using assms by (auto simp: atomic_commit_def outcome_def split: prod.splits result.splits if_splits)
qed

section \<open>Runs in memory\<close>

text \<open>The directory \<open>/d\<close> with the file \<open>/d/f\<close>, and the staged file \<open>/d/t\<close> where there is one.\<close>

definition sample_dir :: file_stat where
  "sample_dir = \<lparr>st_kind = Directory, st_dev = 1, st_ino = 1\<rparr>"

definition sample_old :: file_stat where
  "sample_old = \<lparr>st_kind = RegularFile, st_dev = 1, st_ino = 2\<rparr>"

definition sample_new :: file_stat where
  "sample_new = \<lparr>st_kind = RegularFile, st_dev = 1, st_ino = 3\<rparr>"

definition sample_names :: "(path \<times> file_stat) list" where
  "sample_names = [([47, 100], sample_dir), ([47, 100, 47, 102], sample_old)]"

definition sample_world :: "fault list \<Rightarrow> memory_files" where
  "sample_world faults =
     \<lparr>mf_names = ([47, 100, 47, 116], sample_new) # sample_names, mf_bytes = [], mf_next = 9,
      mf_faults = faults\<rparr>"

definition sample_writer :: "path \<Rightarrow> bool \<Rightarrow> durability \<Rightarrow> file_stat atomic_writer" where
  "sample_writer p existed durability =
     \<lparr>lw_metadata_policy = PreserveExisting, lw_path = p, lw_operation_path = p,
      lw_parent_dirs_to_sync = [], lw_destination_existed = existed, lw_destination_is_regular = existed,
      lw_durability = durability, lw_file_sync = SyncNotRequired, lw_open_retry_timeout = None,
      lw_staged_file = \<lparr>sf_path = Some [47, 100, 47, 116], sf_file = Some sample_new, sf_identity = Some (1, 3)\<rparr>\<rparr>"

lemmas sample_defs = sample_dir_def sample_old_def sample_new_def sample_names_def sample_world_def
  sample_writer_def

lemma sample_ready:
  "ready (sample_writer [47, 100, 47, 102] True d) [47, 100, 47, 116] sample_new sample_new
     (mem_entry (sample_world faults))"
  "ready (sample_writer [47, 100, 47, 103] False d) [47, 100, 47, 116] sample_new sample_new
     (mem_entry (sample_world faults))"
  by (simp_all add: ready_def sample_defs mem_entry_def)

lemma sample_replaces:
  "fst (atomic_commit memory_fs (sample_writer [47, 100, 47, 102] True DurRequired) (sample_world [])) =
   Ok \<lparr>so_durable = True, so_file_synced = True\<rparr>"
  by code_simp

lemma sample_leftover:
  "(case atomic_commit memory_fs (sample_writer [47, 100, 47, 103] False DurRequired)
     (sample_world [NoFault, FailWith 38, NoFault, FailWith 5, FailWith 5, NoFault, FailWith 5]) of
      (Err (e, retained), _) \<Rightarrow> Some (aw_destination_state e, retained = None)
    | _ \<Rightarrow> None) = Some (DestReplaced, True)"
  by code_simp

section \<open>Properties\<close>




definition sample_fresh :: memory_files where
  "sample_fresh = \<lparr>mf_names = sample_names, mf_bytes = [], mf_next = 9, mf_faults = []\<rparr>"

definition sample_opened :: "(file_stat atomic_writer \<times> memory_files) option" where
  "sample_opened =
     (case atomic_writer_new memory_fs 3 [47, 100, 47, 102] atomic_options_new sample_fresh of
        Some (Ok wr, w') \<Rightarrow> Some (wr, w') | _ \<Rightarrow> None)"

text \<open>The staging name is \<open>/d/.atomic-write-9-1-09.tmp\<close>.\<close>

lemma sample_temporary_name:
  "try_random_file_name mem_names default_prefix (Some atomic_write_temp_prefix)
      (Some atomic_write_temp_suffix) sample_fresh =
   (Ok (atomic_write_temp_prefix @ [57, 45, 49, 45, 48, 57] @ atomic_write_temp_suffix), sample_fresh)"
  by code_simp

lemma sample_parent: "parent_dir_for [47, 100, 47, 102] = [47, 100]"
  by code_simp

lemma sample_path:
  "path_join [47, 100] (atomic_write_temp_prefix @ [57, 45, 49, 45, 48, 57] @ atomic_write_temp_suffix) =
   [47, 100, 47] @ atomic_write_temp_prefix @ [57, 45, 49, 45, 48, 57] @ atomic_write_temp_suffix"
  by code_simp

lemma sample_create:
  "ux_create_new memory_fs ([47, 100, 47] @ atomic_write_temp_prefix @ xs) sample_fresh =
   (Ok \<lparr>st_kind = RegularFile, st_dev = 1, st_ino = 9\<rparr>,
    sample_fresh\<lparr>mf_names := ([47, 100, 47] @ atomic_write_temp_prefix @ xs,
        \<lparr>st_kind = RegularFile, st_dev = 1, st_ino = 9\<rparr>) # sample_names,
      mf_bytes := [(9, [])], mf_next := 10\<rparr>)"
  by (simp add: memory_fs_def faulty_def sample_fresh_def mem_create_def sample_names_def sample_dir_def
      sample_old_def atomic_write_temp_prefix_def Let_def)

lemma sample_opens:
  "(case sample_opened of Some (wr, w') \<Rightarrow> lw_operation_path wr = [47, 100, 47, 102] | None \<Rightarrow> False)"
proof -
  let ?p = "[47, 100, 47, 102] :: path"
  have front: "ux_absolute memory_fs ?p sample_fresh = (Ok ?p, sample_fresh)"
    "prepare_parent memory_fs ?p atomic_options_new sample_fresh = (Ok [], sample_fresh)"
    "inspect_destination memory_fs ?p atomic_options_new sample_fresh = (Ok (True, True), sample_fresh)"
    by code_simp+
  have names: "ux_names memory_fs = mem_names"
    by (simp add: memory_fs_def)
  have loop: "create_temp_file_in_dir memory_fs 3 [47, 100] (Some atomic_write_temp_prefix)
     (Some atomic_write_temp_suffix) None sample_fresh =
     Some (Ok ([47, 100, 47] @ atomic_write_temp_prefix @ [57, 45, 49, 45, 48, 57] @ atomic_write_temp_suffix,
       \<lparr>st_kind = RegularFile, st_dev = 1, st_ino = 9\<rparr>),
       snd (ux_create_new memory_fs ([47, 100, 47] @ atomic_write_temp_prefix @
         [57, 45, 49, 45, 48, 57] @ atomic_write_temp_suffix) sample_fresh))"
    unfolding create_temp_file_in_dir_def validate_max_tries_def numeral_3_eq_3 create_temp_loop.simps names
      sample_temporary_name Let_def
    by (simp add: sample_temporary_name sample_path [simplified] sample_create [simplified])
  show ?thesis
    by (simp add: sample_opened_def atomic_writer_new_def in_stage_def or_fail_def bind_def ret_def front
        sample_parent loop [simplified] staged_new_def split: prod.split)
qed


lemma sample_not_staging: "\<not> staging_named [47, 100, 47, 102]"
  by (simp add: staging_named_def sample_parent path_join_def is_absolute_def atomic_write_temp_prefix_def)


theorem atomic_sync_claims_witness:
  "file_was_synced memory_fs (sample_writer [47, 100, 47, 102] True DurRequired) \<and>
   parents_were_synced memory_fs (sample_writer [47, 100, 47, 102] True DurRequired)"
proof -
  obtain w' where run: "atomic_commit memory_fs (sample_writer [47, 100, 47, 102] True DurRequired) (sample_world []) =
      (Ok \<lparr>so_durable = True, so_file_synced = True\<rparr>, w')"
    using sample_replaces by (metis prod.collapse)
  show ?thesis
    using atomic_sync_claims [OF run] by simp
qed

end
