(* ===== verification/Local_Writer_Correct.thy ===== *)
theory Local_Writer_Correct
  imports Local_Writer Atomic_Runs
begin

text \<open>
  The public writer keeps the session contract. The locale \<open>staged_contract\<close> is what it relies on of a
  staged backend: a usable backend streams without a panic and never accepts more than it was given, an
  armed one can be aborted, and a commit that fails returns a backend only if it is usable. The
  path-based atomic writer is proved to keep it over any system calls that return.
\<close>

section \<open>The contract of a staged backend\<close>

locale staged_contract =
  fixes calls :: "('w, 'b) staged_calls"
    and usable :: "'b \<Rightarrow> bool"
    and armed :: "'b \<Rightarrow> bool"
  assumes usable_armed: "usable b \<Longrightarrow> armed b"
    and write_returns: "usable b \<Longrightarrow> sc_write calls b bytes w = (r, w') \<Longrightarrow>
      r \<noteq> Panic \<and> (\<forall>k. r = Ok k \<longrightarrow> k \<le> length bytes)"
    and vectored_returns: "usable b \<Longrightarrow> sc_write_vectored calls b slices w = (r, w') \<Longrightarrow>
      r \<noteq> Panic \<and> (\<forall>k. r = Ok k \<longrightarrow> k \<le> length (concat slices))"
    and flush_returns: "usable b \<Longrightarrow> sc_flush calls b w = (f, w') \<Longrightarrow> f \<noteq> Panic"
    and abort_returns: "armed b \<Longrightarrow> sc_abort calls b w = (a, b', w') \<Longrightarrow>
      a \<noteq> Panic \<and> (\<forall>e. a = Err e \<longrightarrow> armed b')"
    and commit_returns: "usable b \<Longrightarrow> sc_commit calls b w = (c, w') \<Longrightarrow>
      c \<noteq> Panic \<and> (\<forall>e b'. c = Err (e, Some b') \<longrightarrow> usable b')"

locale append_contract =
  fixes calls :: "('w, 'a, 'r, 'h) writer_calls"
  assumes append_write_returns: "wc_append_write calls h bytes w = (r, w') \<Longrightarrow>
      r \<noteq> Panic \<and> (\<forall>k. r = Ok k \<longrightarrow> k \<le> length bytes)"
    and append_vectored_returns: "wc_append_write_vectored calls h slices w = (r, w') \<Longrightarrow>
      r \<noteq> Panic \<and> (\<forall>k. r = Ok k \<longrightarrow> k \<le> length (concat slices))"
    and append_flush_returns: "wc_append_flush calls h w = (f, w') \<Longrightarrow> f \<noteq> Panic"
    and append_sync_returns: "wc_append_sync calls h w = (f, w') \<Longrightarrow> f \<noteq> Panic"

section \<open>The session of a writer\<close>

definition local_phase :: "('a, 'r, 'h) file_writer \<Rightarrow> phase" where
  "local_phase fw =
     (if fw_state fw \<noteq> WriterOpen then Finished
      else if fw_failure_state fw = None then Accepting else Failed)"

definition local_exec ::
  "('w, 'a, 'r, 'h) writer_calls \<Rightarrow> (nat \<Rightarrow> bool) \<Rightarrow> session_op \<Rightarrow> ('a, 'r, 'h) file_writer \<Rightarrow> 'w \<Rightarrow>
   session_result \<times> ('a, 'r, 'h) file_writer \<times> 'w" where
  "local_exec calls reserve op fw w =
     (case op of
        Write bytes \<Rightarrow> (case write_once calls bytes fw w of (r, s) \<Rightarrow> (Wrote r, s))
      | WriteVectored slices \<Rightarrow>
          (case writer_write_vectored calls reserve slices fw w of (r, s) \<Rightarrow> (Wrote r, s))
      | Flush \<Rightarrow> (case writer_flush calls fw w of (r, s) \<Rightarrow> (Flushed r, s))
      | Abort \<Rightarrow> (case writer_abort calls fw w of (r, s) \<Rightarrow> (Ended r, s)))"

definition writer_ok ::
  "('a \<Rightarrow> bool) \<Rightarrow> ('a \<Rightarrow> bool) \<Rightarrow> ('r \<Rightarrow> bool) \<Rightarrow> ('r \<Rightarrow> bool) \<Rightarrow> ('a, 'r, 'h) file_writer \<Rightarrow> bool" where
  "writer_ok usableS armedS usableR armedR fw \<longleftrightarrow>
     fw_state fw \<noteq> WriterOpen \<or>
     (case fw_backend fw of
        None \<Rightarrow> False
      | Some (StagedBackend a) \<Rightarrow> armedS a \<and> (fw_failure_state fw = None \<longrightarrow> usableS a)
      | Some (RootedBackend a) \<Rightarrow> armedR a \<and> (fw_failure_state fw = None \<longrightarrow> usableR a)
      | Some (AppendBackend _) \<Rightarrow> True)"

locale local_writer_calls =
  staged: staged_contract "wc_staged calls" usableS armedS +
  rooted: staged_contract "wc_rooted calls" usableR armedR +
  append_contract calls
  for calls :: "('w, 'a, 'r, 'h) writer_calls"
    and usableS armedS :: "'a \<Rightarrow> bool"
    and usableR armedR :: "'r \<Rightarrow> bool" +
  fixes reserve :: "nat \<Rightarrow> bool"
begin

abbreviation good :: "('a, 'r, 'h) file_writer \<Rightarrow> bool" where
  "good \<equiv> writer_ok usableS armedS usableR armedR"

lemma good_open:
  assumes "good fw" and "is_open fw"
  obtains (staged) a where "fw_backend fw = Some (StagedBackend a)" "usableS a"
  | (rooted) a where "fw_backend fw = Some (RootedBackend a)" "usableR a"
  | (append) h where "fw_backend fw = Some (AppendBackend h)"
  using assms by (auto simp: writer_ok_def is_open_def split: option.splits writer_backend.splits)

lemma backend_write_returns:
  assumes "good fw" and "is_open fw" and "backend_write calls (fw_backend fw) bytes w = (r, w')"
  shows "r \<noteq> Panic \<and> (\<forall>k. r = Ok k \<longrightarrow> k \<le> length bytes)"
  using assms(1,2)
  by (rule good_open) (use assms(3) staged.write_returns rooted.write_returns append_write_returns
      in \<open>auto simp: backend_write_def\<close>)

lemma backend_vectored_returns:
  assumes "good fw" and "is_open fw" and "backend_write_vectored calls (fw_backend fw) slices w = (r, w')"
  shows "r \<noteq> Panic \<and> (\<forall>k. r = Ok k \<longrightarrow> k \<le> length (concat slices))"
  using assms(1,2)
  by (rule good_open) (use assms(3) staged.vectored_returns rooted.vectored_returns append_vectored_returns
      in \<open>auto simp: backend_write_vectored_def\<close>)

lemma backend_flush_returns:
  assumes "good fw" and "is_open fw" and "backend_flush calls (fw_backend fw) w = (r, w')"
  shows "r \<noteq> Panic"
  using assms(1,2)
  by (rule good_open) (use assms(3) staged.flush_returns rooted.flush_returns append_flush_returns
      in \<open>auto simp: backend_flush_def\<close>)

lemma good_observe:
  assumes "good fw"
  shows "good (observe_stream_result r fw)" "good (fw\<lparr>fw_bytes_written := n\<rparr>)"
  using assms
  by (auto simp: writer_ok_def observe_stream_result_def split: result.split option.splits writer_backend.splits)

lemma observe_fields [simp]:
  "fw_bytes_written (observe_stream_result r fw) = fw_bytes_written fw"
  "fw_state (observe_stream_result r fw) = fw_state fw"
  by (auto simp: observe_stream_result_def split: result.split)

lemma observe_phase:
  "is_open fw \<Longrightarrow> local_phase (observe_stream_result r fw) =
     (case r of Err e \<Rightarrow> if retryable e then Accepting else Failed | _ \<Rightarrow> Accepting)"
  by (auto simp: local_phase_def observe_stream_result_def retryable_def is_open_def split: result.split)

lemma phase_bytes [simp]: "local_phase (fw\<lparr>fw_bytes_written := n\<rparr>) = local_phase fw"
  by (simp add: local_phase_def)

lemma phase_open: "is_open fw \<longleftrightarrow> local_phase fw = Accepting"
  by (auto simp: local_phase_def is_open_def)

lemma open_phase: "is_open fw \<Longrightarrow> local_phase fw = Accepting"
  by (simp add: phase_open)

text \<open>A checked request whose backend answered: what recording the answer does.\<close>

lemma record_stream_step:
  assumes "good fw" and "is_open fw" and "check_request (fw_bytes_written fw) n = Ok ()"
    and "r \<noteq> Panic \<and> (\<forall>k. r = Ok k \<longrightarrow> k \<le> n)" and "record_stream r fw = (r', fw')"
  shows "good fw' \<and>
    session_step (local_phase fw, fw_bytes_written fw) (Wrote r') (local_phase fw', fw_bytes_written fw')"
proof -
  have rec: "record_result (fw_bytes_written fw) r =
      (r, fw_bytes_written fw + (case r of Ok k \<Rightarrow> k | _ \<Rightarrow> 0))"
    using assms(3,4) by (intro record_result_checked [of _ n]) auto
  then have fw': "r' = r" "fw' = (observe_stream_result r fw)\<lparr>fw_bytes_written :=
      fw_bytes_written fw + (case r of Ok k \<Rightarrow> k | _ \<Rightarrow> 0)\<rparr>"
    using assms(5) by (auto simp: record_stream_def Let_def)
  have "session_step (Accepting, fw_bytes_written fw) (Wrote r)
      (local_phase fw', fw_bytes_written fw + (case r of Ok k \<Rightarrow> k | _ \<Rightarrow> 0))"
    using assms(3,4) unfolding fw' phase_bytes observe_phase [OF assms(2)]
    by (cases r) (auto simp: check_request_Ok intro: session_step.intros)
  then show ?thesis
    using fw' good_observe(2) [OF good_observe(1) [OF assms(1)]] open_phase [OF assms(2)] by simp
qed

lemma refused_step:
  "\<not> is_open fw \<Longrightarrow> session_step (local_phase fw, n) (Wrote (Err (io_error_of IoBrokenPipe))) (local_phase fw, n)"
  "\<not> is_open fw \<Longrightarrow> session_step (local_phase fw, n) (Flushed (Err (io_error_of IoBrokenPipe))) (local_phase fw, n)"
  by (auto simp: phase_open intro: session_step.intros)

lemma write_step:
  assumes "good fw" and "write_once calls bytes fw w = (r, fw', w')"
  shows "good fw' \<and>
    session_step (local_phase fw, fw_bytes_written fw) (Wrote r) (local_phase fw', fw_bytes_written fw')"
proof (cases "is_open fw")
  case True
  show ?thesis
  proof (cases "check_request (fw_bytes_written fw) (length bytes) = Ok ()")
    case ok: True
    obtain r0 w0 where run: "backend_write calls (fw_backend fw) bytes w = (r0, w0)" by force
    then have "record_stream r0 fw = (r, fw')"
      using assms(2) True ok by (auto simp: write_once_def split: prod.splits)
    then show ?thesis
      using record_stream_step [OF assms(1) True ok backend_write_returns [OF assms(1) True run]] by blast
  next
    case False
    then have "check_request (fw_bytes_written fw) (length bytes) = Err file_too_large"
      using check_request_cases by blast
    then show ?thesis
      using assms True open_phase [OF True] by (auto simp: write_once_def intro: session_step.intros)
  qed
next
  case False
  then show ?thesis
    using assms refused_step(1) by (auto simp: write_once_def)
qed

lemma output_vectored_step:
  assumes "good fw" and "output_write_vectored calls slices fw w = (r, fw', w')"
  shows "good fw' \<and>
    session_step (local_phase fw, fw_bytes_written fw) (Wrote r) (local_phase fw', fw_bytes_written fw')"
proof (cases "is_open fw")
  case True
  show ?thesis
  proof (cases "check_vectored_request (fw_bytes_written fw) slices = Ok ()")
    case ok: True
    obtain r0 w0 where run: "backend_write_vectored calls (fw_backend fw) slices w = (r0, w0)" by force
    then have "record_stream r0 fw = (r, fw')"
      using assms(2) True ok by (auto simp: output_write_vectored_def split: prod.splits)
    then show ?thesis
      using record_stream_step [OF assms(1) True ok [unfolded check_vectored_request_eq]
          backend_vectored_returns [OF assms(1) True run]] by blast
  next
    case False
    then have "check_vectored_request (fw_bytes_written fw) slices = Err file_too_large"
      using check_request_cases unfolding check_vectored_request_eq by blast
    then show ?thesis
      using assms True open_phase [OF True] by (auto simp: output_write_vectored_def intro: session_step.intros)
  qed
next
  case False
  then show ?thesis
    using assms refused_step(1) by (auto simp: output_write_vectored_def)
qed

lemma vectored_step:
  assumes "good fw" and "writer_write_vectored calls reserve slices fw w = (r, fw', w')"
  shows "good fw' \<and>
    session_step (local_phase fw, fw_bytes_written fw) (Wrote r) (local_phase fw', fw_bytes_written fw')"
proof (cases "is_open fw")
  case True
  then show ?thesis
    using assms output_vectored_step [OF assms(1)] open_phase [OF True]
    by (auto simp: writer_write_vectored_def byte_slices_def intro: session_step.intros split: if_splits)
next
  case False
  then show ?thesis
    using assms refused_step(1) by (auto simp: writer_write_vectored_def)
qed

lemma flush_step:
  assumes "good fw" and "writer_flush calls fw w = (r, fw', w')"
  shows "good fw' \<and>
    session_step (local_phase fw, fw_bytes_written fw) (Flushed r) (local_phase fw', fw_bytes_written fw')"
proof (cases "is_open fw")
  case True
  obtain r0 w0 where run: "backend_flush calls (fw_backend fw) w = (r0, w0)" by force
  have fw': "r = r0" "fw' = observe_stream_result r0 fw"
    using assms(2) run True by (auto simp: writer_flush_def)
  have "session_step (Accepting, fw_bytes_written fw) (Flushed r)
      (local_phase fw', fw_bytes_written fw)"
    using backend_flush_returns [OF assms(1) True run] unfolding fw' observe_phase [OF True]
    by (cases r0) (auto intro: session_step.intros)
  then show ?thesis
    using open_phase [OF True] fw' good_observe(1) [OF assms(1)] by simp
next
  case False
  then show ?thesis
    using assms refused_step(2) by (auto simp: writer_flush_def)
qed

lemma contextualize_kind [simp]: "fe_kind (contextualize_error fw e) = fe_kind e"
  by (cases e) (simp add: contextualize_error_def split: option.split)

lemma state_error_kind [simp]: "fe_kind (writer_state_error p op st) = KInvalidState"
  by (simp add: writer_state_error_def)

lemma abort_append_step:
  assumes "good fw" and "fw_state fw = WriterOpen" and "fw_backend fw = Some (AppendBackend h)"
    and "abort_append calls h fw w = (r, fw', w')"
  shows "good fw' \<and>
    session_step (local_phase fw, fw_bytes_written fw) (Ended r) (local_phase fw', fw_bytes_written fw')"
proof -
  have open_phase: "local_phase fw \<noteq> Finished"
    using assms(2) by (simp add: local_phase_def)
  obtain r0 w0 where run: "wc_append_flush calls h w = (r0, w0)" by force
  then have "r0 \<noteq> Panic"
    by (rule append_flush_returns)
  then show ?thesis
    using assms(1,4) run open_phase
    by (cases r0) (auto simp: abort_append_def Let_def writer_ok_def local_phase_def write_outcome_new_def
        intro!: session_step.aborted session_step.abort_failed)
qed

lemma abort_staged_returns:
  assumes "good fw" and "fw_state fw = WriterOpen" and "fw_backend fw = Some b"
    and "\<not> (\<exists>h. b = AppendBackend h)" and "abort_staged calls b w = (r, b', w')"
  shows "r \<noteq> Panic \<and> (\<forall>e. r = Err e \<longrightarrow>
    (case b' of StagedBackend a \<Rightarrow> armedS a | RootedBackend a \<Rightarrow> armedR a | _ \<Rightarrow> False))"
proof (cases b)
  case (StagedBackend a)
  then have "armedS a"
    using assms(1-3) by (simp add: writer_ok_def)
  with StagedBackend show ?thesis
    using assms(5) staged.abort_returns [of a w]
    by (cases "sc_abort (wc_staged calls) a w") (auto simp: abort_staged_def)
next
  case (RootedBackend a)
  then have "armedR a"
    using assms(1-3) by (simp add: writer_ok_def)
  with RootedBackend show ?thesis
    using assms(5) rooted.abort_returns [of a w]
    by (cases "sc_abort (wc_rooted calls) a w") (auto simp: abort_staged_def)
qed (use assms(4) in auto)

lemma abort_staged_step:
  assumes "good fw" and "fw_state fw = WriterOpen" and "fw_backend fw = Some b"
    and "\<not> (\<exists>h. b = AppendBackend h)" and "abort_staged_writer calls b fw w = (r, fw', w')"
  shows "good fw' \<and>
    session_step (local_phase fw, fw_bytes_written fw) (Ended r) (local_phase fw', fw_bytes_written fw')"
proof -
  have open_phase: "local_phase fw \<noteq> Finished"
    using assms(2) by (simp add: local_phase_def)
  obtain r0 b0 w0 where run: "abort_staged calls b w = (r0, b0, w0)" by (metis prod_cases3)
  note answer = abort_staged_returns [OF assms(1-4) run]
  show ?thesis
  proof (cases r0)
    case (Ok u)
    then show ?thesis
      using assms(5) run open_phase
      by (auto simp: abort_staged_writer_def writer_ok_def local_phase_def write_outcome_new_def
          intro!: session_step.aborted)
  next
    case (Err e)
    then have "good fw'" and "local_phase fw' = Failed" and "fw_bytes_written fw' = fw_bytes_written fw"
      using assms(2,5) run answer
      by (auto simp: abort_staged_writer_def writer_ok_def local_phase_def split: option.splits writer_backend.splits)
    then show ?thesis
      using Err assms(5) run open_phase
      by (auto simp: abort_staged_writer_def intro!: session_step.abort_failed)
  qed (use answer in auto)
qed

lemma abort_step:
  assumes "good fw" and "writer_abort calls fw w = (r, fw', w')"
  shows "good fw' \<and>
    session_step (local_phase fw, fw_bytes_written fw) (Ended r) (local_phase fw', fw_bytes_written fw')"
proof (cases "fw_state fw = WriterOpen")
  case True
  then obtain b where b: "fw_backend fw = Some b"
    using assms(1) by (auto simp: writer_ok_def split: option.splits)
  show ?thesis
  proof (cases b)
    case (AppendBackend h)
    then show ?thesis
      using abort_append_step [OF assms(1) True] assms(2) True b by (simp add: writer_abort_def)
  qed (use abort_staged_step [OF assms(1) True b] assms(2) True b in \<open>simp_all add: writer_abort_def\<close>)
next
  case False
  then have "local_phase fw = Finished"
    by (simp add: local_phase_def)
  then show ?thesis
    using False assms by (auto simp: writer_abort_def intro!: session_step.abort_refused)
qed

lemma exec_step:
  assumes "good fw" and "local_exec calls reserve op fw w = (r, fw', w')"
  shows "good fw' \<and>
    session_step (local_phase fw, fw_bytes_written fw) r (local_phase fw', fw_bytes_written fw')"
  using assms(2) write_step [OF assms(1)] vectored_step [OF assms(1)] flush_step [OF assms(1)]
    abort_step [OF assms(1)]
  by (cases op) (auto simp: local_exec_def split: prod.splits)

lemma exec_idle:
  assumes "local_phase fw \<noteq> Accepting" and "op \<noteq> Abort \<or> local_phase fw = Finished"
    and "local_exec calls reserve op fw w = (r, fw', w')"
  shows "w' = w"
proof -
  have "\<not> is_open fw" and "local_phase fw = Finished \<Longrightarrow> fw_state fw \<noteq> WriterOpen"
    using assms(1) by (auto simp: phase_open local_phase_def split: if_splits)
  then show ?thesis
    using assms(2,3)
    by (cases op) (auto simp: local_exec_def write_once_def writer_write_vectored_def writer_flush_def
        writer_abort_def)
qed

end

sublocale local_writer_calls \<subseteq>
  session: writer_session "local_exec calls reserve" local_phase fw_bytes_written
    "writer_ok usableS armedS usableR armedR"
  by unfold_locales (use exec_step exec_idle in blast)+

end
