(* ===== verification/Local_Writer_Runs.thy ===== *)
theory Local_Writer_Runs
  imports Local_Writer_Correct
begin

text \<open>
  The path-based atomic writer keeps the contract of a staged backend over system calls that return, and
  the properties of the public writer follow: a session never panics and counts exactly, and a commit
  reports the truth about the destination.
\<close>

section \<open>System calls that return\<close>

definition returning :: "('w, 'x) native \<Rightarrow> bool" where
  "returning op \<longleftrightarrow> (\<forall>w r w'. op w = (r, w') \<longrightarrow> r \<noteq> Panic)"

locale unix_streams =
  fixes fs :: "('w, 'h) unix_fs"
  assumes stream_write: "ux_write fs h bytes w = (r, w') \<Longrightarrow> r \<noteq> Panic \<and> (\<forall>k. r = Ok k \<longrightarrow> k \<le> length bytes)"
    and stream_vectored: "ux_write_vectored fs h slices w = (r, w') \<Longrightarrow>
      r \<noteq> Panic \<and> (\<forall>k. r = Ok k \<longrightarrow> k \<le> length (concat slices))"
    and stream_flush: "returning (ux_flush fs h)"
    and call_stat: "returning (ux_symlink_metadata fs p)"
    and call_open: "returning (ux_open_retrying fs p timeout)"
    and call_fstat: "returning (ux_fstat fs h)"
    and call_clear: "returning (ux_clear_nonblocking fs h)"
    and call_preserve: "returning (ux_preserve_metadata fs h h')"
    and call_sync: "returning (ux_sync_all fs h)"
    and call_sync_dir: "returning (ux_sync_dir fs p)"
    and call_rename: "returning (ux_rename fs p q)"
    and call_noreplace: "returning (ux_rename_noreplace fs p q)"
    and call_link: "returning (ux_link fs p q)"
    and call_unlink: "returning (ux_unlink fs p)"
begin

lemmas call_returns = call_stat call_open call_fstat call_clear call_preserve call_sync call_sync_dir
  call_rename call_noreplace call_link call_unlink

end

lemma returningD: "returning op \<Longrightarrow> op w \<noteq> (Panic, w')"
  by (auto simp: returning_def)

lemma returning_ret [simp]: "returning (ret x)" "returning (fail e)"
  by (simp_all add: returning_def ret_def fail_def)

lemma returning_bind: "returning m \<Longrightarrow> (\<And>x. returning (f x)) \<Longrightarrow> returning (bind m f)"
  unfolding returning_def bind_def by (fastforce split: prod.splits result.splits)

lemma returning_seq: "returning m \<Longrightarrow> returning k \<Longrightarrow> returning (seq m k)"
  unfolding seq_def by (rule returning_bind)

text \<open>A program that keeps the writer and does not panic.\<close>

definition steady :: "'h atomic_writer \<Rightarrow> (('w, 'h) atomic_state, 'e, 'x) prog \<Rightarrow> bool" where
  "steady wr m \<longleftrightarrow> (\<forall>s. as_writer s = wr \<longrightarrow>
     outcome m (\<lambda>_ s'. as_writer s' = wr) (\<lambda>_ s'. as_writer s' = wr) (\<lambda>_. False) s)"

lemma steady_basic [simp]: "steady wr (ret x)" "steady wr (fail e)" "steady wr (gets f)"
  by (simp_all add: steady_def)

lemma steady_bind: "steady wr m \<Longrightarrow> (\<And>x. steady wr (f x)) \<Longrightarrow> steady wr (bind m f)"
  unfolding steady_def by (auto elim!: outcome_conseq)

lemma steady_seq: "steady wr m \<Longrightarrow> steady wr k \<Longrightarrow> steady wr (seq m k)"
  unfolding seq_def by (rule steady_bind)

lemma steady_bind_caught:
  "steady wr m \<Longrightarrow> (\<And>x. steady wr (f (Ok x))) \<Longrightarrow> (\<And>e. steady wr (f (Err e))) \<Longrightarrow>
   steady wr (bind (caught m) f)"
  unfolding steady_def by (auto elim!: outcome_conseq)

lemma steady_or_fail: "steady wr m \<Longrightarrow> steady wr (or_fail f id m)"
  unfolding steady_def by (auto elim!: outcome_conseq)

lemma steady_os: "returning op \<Longrightarrow> steady wr (os op)"
  unfolding steady_def returning_def by (auto simp: outcome_def os_def split: prod.splits result.splits)

lemma steady_gets_writer: "steady wr (f wr) \<Longrightarrow> steady wr (bind (gets as_writer) f)"
  by (simp add: steady_def)

lemma steady_path: "sf_path (lw_staged_file wr) \<noteq> None \<Longrightarrow> steady wr staged_path"
  by (auto simp: steady_def staged_path_def)

lemma steady_handle: "sf_file (lw_staged_file wr) \<noteq> None \<Longrightarrow> steady wr staged_handle"
  by (auto simp: steady_def staged_handle_def)

lemmas steady_rules = steady_bind steady_seq steady_or_fail steady_os

lemma steady_context:
  "sf_path (lw_staged_file wr) \<noteq> None \<Longrightarrow> steady wr op \<Longrightarrow> steady wr (with_atomic_context stage dest op)"
  unfolding with_atomic_context_def by (rule steady_bind_caught) (auto intro!: steady_rules steady_path)

context unix_streams
begin

lemma returning_open: "returning (open_atomic_destination fs p timeout policy)"
proof -
  have caught: "returning (bind (caught m) f)"
    if "returning m" "\<And>x. returning (f (Ok x))" "\<And>e. returning (f (Err e))"
    for m :: "('w, 'x) native" and f :: "_ \<Rightarrow> ('w, 'y) native"
    using that unfolding returning_def bind_def caught_def by (fastforce split: prod.splits result.splits)
  have from_file: "returning (destination_from_file fs h)" for h
    unfolding destination_from_file_def by (auto intro!: returning_bind returning_seq call_returns)
  have "returning (open_destination_with_retry fs p timeout)"
    unfolding open_destination_with_retry_def
    by (rule caught [OF call_open]) (auto intro!: returning_bind from_file)
  moreover have "returning (open_atomic_destination fs p timeout UseStaging)"
    unfolding open_atomic_destination_def if_P [OF refl] by (rule caught [OF call_stat]) auto
  ultimately show ?thesis
    by (cases policy) (simp_all add: open_atomic_destination_def)
qed

lemma returning_identity:
  "returning (destination_identity_matches fs p d)" "returning (destination_mismatch_state fs p)"
  using call_stat [of p]
  by (auto simp: destination_identity_matches_def destination_mismatch_state_def returning_def bind_def
      caught_def ret_def fail_def panic_def split: prod.splits result.splits)

lemma returning_chain: "returning (sync_atomic_parent_chain fs p dirs)"
proof -
  have "returning (sync_parents fs ds)" for ds
    by (induction ds) (auto simp: sync_parent_dir_def intro!: returning_seq call_sync_dir)
  then show ?thesis
    by (auto simp: sync_atomic_parent_chain_def sync_parent_dir_def intro!: returning_seq call_sync_dir)
qed

lemma unlink_attempts_returns:
  "0 < n \<or> prev \<noteq> None \<Longrightarrow> outcome (unlink_attempts fs n prev t) (\<lambda>_ _. True) (\<lambda>_ _. True) (\<lambda>_. False) w"
proof (induction n arbitrary: prev w)
  case (Suc n)
  have "outcome (ux_unlink fs t) (\<lambda>_ _. True) (\<lambda>_ _. True) (\<lambda>_. False) w" for w
    using call_unlink [of t] by (auto simp: outcome_def returning_def split: prod.splits result.splits)
  note outcome_conseq [OF this]
  then show ?case
    unfolding unlink_attempts.simps outcome_bind outcome_caught by this (auto intro: Suc.IH)
qed (auto split: option.splits)

lemma install_returns:
  "outcome (install_atomic_file fs t p existed) (\<lambda>_ _. True) (\<lambda>_ _. True) (\<lambda>_. False) w"
proof -
  have free: "returning op \<Longrightarrow> outcome op (\<lambda>_ _. True) (\<lambda>_ _. True) (\<lambda>_. False) w"
    for op :: "('w, unit) native" and w
    by (auto simp: outcome_def returning_def split: prod.splits result.splits)
  have link: "outcome (link_then_unlink fs t p) (\<lambda>_ _. True) (\<lambda>_ _. True) (\<lambda>_. False) w" for w
    unfolding link_then_unlink_def outcome_seq outcome_or_fail
    by (rule outcome_conseq [OF free [OF call_link]]) (auto intro!: unlink_attempts_returns)
  have "outcome (install_new_atomic_file_at fs t p) (\<lambda>_ _. True) (\<lambda>_ _. True) (\<lambda>_. False) w"
    unfolding install_new_atomic_file_at_def outcome_bind outcome_caught
    by (rule outcome_conseq [OF free [OF call_noreplace]]) (auto intro: link)
  then show ?thesis
    using outcome_conseq [OF free [OF call_rename [of t p], of w]]
    by (auto simp: install_atomic_file_def install_new_atomic_file_def native_path_def
        replace_existing_atomic_file_def Let_def)
qed

text \<open>Until the installation the writer stays as it was; after it the staged file is closed.\<close>

definition is_closed :: "('w, 'h) atomic_state \<Rightarrow> bool" where
  "is_closed s \<longleftrightarrow> sf_file (lw_staged_file (as_writer s)) = None"

lemma os_closed:
  "returning op \<Longrightarrow> is_closed s \<Longrightarrow> outcome (os op) (\<lambda>_. is_closed) (\<lambda>_. is_closed) (\<lambda>_. False) s"
  by (auto simp: outcome_def os_def is_closed_def returning_def split: prod.splits result.splits)

lemma clean_closed: "outcome (clean_staged fs) (\<lambda>_. is_closed) (\<lambda>_. is_closed) (\<lambda>_. False) s"
proof -
  obtain r sf w' where run: "staged_cleanup fs (lw_staged_file (as_writer s)) (as_world s) = (r, sf, w')"
    by (metis prod_cases3)
  have "r \<noteq> Panic \<and> sf_file sf = None"
    using run returningD [OF call_stat] returningD [OF call_unlink]
    by (auto simp: staged_cleanup_def staged_close_def path_identity_def Let_def
        split: option.splits prod.splits result.splits if_splits)
  then show ?thesis
    using run by (cases r) (auto simp: outcome_def clean_staged_def on_staged_def is_closed_def)
qed

lemma report_closed:
  assumes "returning chain" and "is_closed s"
  shows "outcome (report_install_error p tmp source dest durability (os chain) c)
    (\<lambda>_. is_closed) (\<lambda>_. is_closed) (\<lambda>_. False) s"
proof (cases "dest = DestReplaced \<and> durability \<noteq> DurNotRequired")
  case True
  then show ?thesis
    unfolding report_install_error_def if_P [OF True] outcome_bind outcome_caught
    by (intro outcome_conseq [OF os_closed [OF assms]]) auto
next
  case False
  then show ?thesis
    unfolding report_install_error_def if_not_P [OF False] using assms by simp
qed

lemma recover_closed:
  assumes "returning chain" and "is_closed s"
  shows "outcome (recover_atomic_install_error p tmp source dest staging durability
      (clean_staged fs) (modify (on_staged staged_disarm)) (os chain))
    (\<lambda>_. is_closed) (\<lambda>_. is_closed) (\<lambda>_. False) s"
proof (cases staging)
  case StagingPresent
  have "outcome (sync_recovered p tmp dest durability (os chain)) (\<lambda>_. is_closed) (\<lambda>_. is_closed) (\<lambda>_. False) s'"
    if "is_closed s'" for s' :: "('w, 'h) atomic_state"
    using os_closed [OF assms(1) that]
    by (cases durability) (auto simp: sync_recovered_def that elim!: outcome_conseq)
  then show ?thesis
    unfolding recover_atomic_install_error_def Let_def StagingPresent staging_state.case outcome_bind
      outcome_caught
    by (intro outcome_conseq [OF clean_closed]) (auto intro: report_closed [OF assms(1)])
next
  case StagingIndeterminate
  have "is_closed (on_staged staged_disarm s)"
    by (simp add: is_closed_def on_staged_def staged_disarm_def)
  with StagingIndeterminate show ?thesis
    by (simp add: recover_atomic_install_error_def report_closed [OF assms(1)])
qed

lemma finish_closed:
  assumes "returning chain"
  shows "outcome (finish_install durability p tmp (os chain)) (\<lambda>_. is_closed) (\<lambda>_. is_closed) (\<lambda>_. False) s"
proof -
  have closed: "is_closed (on_staged staged_disarm s)"
    by (simp add: is_closed_def on_staged_def staged_disarm_def)
  show ?thesis
    using os_closed [OF assms closed] closed
    by (cases durability) (auto simp: finish_install_def elim!: outcome_conseq)
qed

lemma install_and_sync_closed:
  assumes "sf_path (lw_staged_file (as_writer s)) \<noteq> None"
  shows "outcome (install_and_sync_parent fs) (\<lambda>_. is_closed) (\<lambda>_. is_closed) (\<lambda>_. False) s"
proof -
  let ?s = "on_staged staged_close s"
  have closed: "is_closed ?s" and path: "sf_path (lw_staged_file (as_writer ?s)) \<noteq> None"
    using assms by (simp_all add: is_closed_def on_staged_def staged_close_def)
  have installed: "outcome (os (install_atomic_file fs t p existed)) (\<lambda>_. is_closed) (\<lambda>_. is_closed) (\<lambda>_. False) ?s"
    for t p existed
    using install_returns [of t p existed "as_world ?s"] closed
    by (auto simp: outcome_def os_def is_closed_def split: prod.splits result.splits)
  from path obtain t where t: "sf_path (lw_staged_file (as_writer ?s)) = Some t" by blast
  let ?wr = "as_writer ?s" and ?p = "lw_operation_path (as_writer ?s)"
  let ?chain = "os (sync_atomic_parent_chain fs ?p (lw_parent_dirs_to_sync ?wr))"
  have rest: "outcome (bind (caught (os (install_atomic_file fs t ?p (lw_destination_existed ?wr))))
      (\<lambda>installed. case installed of
          Ok _ \<Rightarrow> finish_install (lw_durability ?wr) (lw_path ?wr) t ?chain
        | Err (source, dest, staging) \<Rightarrow>
            recover_atomic_install_error (lw_path ?wr) t source dest staging (lw_durability ?wr)
              (clean_staged fs) (modify (on_staged staged_disarm)) ?chain
        | Panic \<Rightarrow> panic)) (\<lambda>_. is_closed) (\<lambda>_. is_closed) (\<lambda>_. False) ?s"
    unfolding outcome_bind outcome_caught
    by (rule outcome_conseq [OF installed])
      (auto intro!: finish_closed recover_closed returning_chain split: prod.splits)
  then show ?thesis
    by (simp only: install_and_sync_parent_def outcome_seq outcome_modify outcome_bind outcome_gets
        staged_path_def t option.case outcome_ret Let_def)
qed

lemma steady_phases:
  assumes "sf_path (lw_staged_file wr) \<noteq> None" and "sf_file (lw_staged_file wr) \<noteq> None"
  shows "steady wr (open_destination_for_commit fs)" "steady wr (apply_destination_metadata fs d)"
    "steady wr (sync_temporary_file fs)" "steady wr (verify_destination_for_commit fs d)"
proof -
  note rules = steady_rules steady_path [OF assms(1)] steady_handle [OF assms(2)] steady_context [OF assms(1)]
  show "steady wr (open_destination_for_commit fs)"
    unfolding open_destination_for_commit_def
    by (auto intro!: rules returning_open split: option.split)
  show "steady wr (apply_destination_metadata fs d)"
    unfolding apply_destination_metadata_def by (auto intro!: rules call_preserve split: option.split)
  have sync: "steady wr (synchronize_staging_file durability sync (os (ux_sync_all fs h))
      (with_atomic_context SyncTemporaryFile DestUnchanged))" for durability sync h
  proof -
    have "steady wr (bind (caught (os (ux_sync_all fs h)))
        (\<lambda>r. case r of Ok _ \<Rightarrow> ret True | Err _ \<Rightarrow> ret False | Panic \<Rightarrow> panic))"
      by (rule steady_bind_caught) (auto intro!: rules call_sync)
    then show ?thesis
      unfolding synchronize_staging_file_def
      by (cases "staging_sync_requirement durability sync") (auto intro!: rules call_sync)
  qed
  show "steady wr (sync_temporary_file fs)"
    unfolding sync_temporary_file_def by (auto intro!: rules sync)
  have verify: "steady wr (verify_atomic_destination_identity fs p x requested tmp)" for p x requested tmp
    unfolding verify_atomic_destination_identity_def
    by (rule steady_bind_caught) (auto intro!: rules returning_identity split: bool.split)
  show "steady wr (verify_destination_for_commit fs d)"
    unfolding verify_destination_for_commit_def by (auto intro!: rules verify split: option.split)
qed

lemma commit_attempt_returns:
  assumes "sf_path (lw_staged_file wr) \<noteq> None" and "sf_file (lw_staged_file wr) \<noteq> None"
    and "as_writer s = wr"
  shows "outcome (commit_attempt fs) (\<lambda>_. is_closed) (\<lambda>_ s'. as_writer s' = wr \<or> is_closed s') (\<lambda>_. False) s"
proof -
  have steadyD: "outcome m (\<lambda>_ s'. as_writer s' = wr) (\<lambda>_ s'. as_writer s' = wr \<or> is_closed s') (\<lambda>_. False) s"
    if "steady wr m" "as_writer s = wr" for m :: "('w, 'h, 'x) atomic_m" and s
    using that by (auto simp: steady_def elim!: outcome_conseq)
  note phases = steady_phases [OF assms(1,2)]
  have install: "outcome (install_and_sync_parent fs) (\<lambda>_. is_closed) (\<lambda>_ s'. as_writer s' = wr \<or> is_closed s')
      (\<lambda>_. False) s" if "as_writer s = wr" for s
    using install_and_sync_closed [of s] assms(1) that by (auto elim!: outcome_conseq)
  show ?thesis
    unfolding commit_attempt_def
    by (rule outcome_bindI, rule steadyD [OF phases(1) assms(3)],
        rule outcome_seqI, rule steadyD [OF phases(2)], assumption,
        rule outcome_bindI, rule steadyD [OF phases(3)], assumption,
        rule outcome_seqI, rule steadyD [OF phases(4)], assumption,
        rule outcome_bindI, rule install, assumption) simp
qed

end

definition atomic_usable :: "'h atomic_writer \<Rightarrow> bool" where
  "atomic_usable wr \<longleftrightarrow> sf_path (lw_staged_file wr) \<noteq> None \<and> sf_file (lw_staged_file wr) \<noteq> None"

definition atomic_armed :: "'h atomic_writer \<Rightarrow> bool" where
  "atomic_armed wr \<longleftrightarrow> sf_path (lw_staged_file wr) \<noteq> None"

sublocale unix_streams \<subseteq> staged_contract "atomic_calls fs" atomic_usable atomic_armed
proof unfold_locales
  fix wr and w w' :: 'w
  show "atomic_usable wr \<Longrightarrow> atomic_armed wr" for wr :: "'h atomic_writer"
    by (simp add: atomic_usable_def atomic_armed_def)
  show "r \<noteq> Panic \<and> (\<forall>k. r = Ok k \<longrightarrow> k \<le> length bytes)"
    if "atomic_usable wr" "sc_write (atomic_calls fs) wr bytes w = (r, w')" for wr bytes r
    using that stream_write [of "the (sf_file (lw_staged_file wr))" bytes w r w']
    by (auto simp: atomic_usable_def atomic_calls_def atomic_write_def)
  show "r \<noteq> Panic \<and> (\<forall>k. r = Ok k \<longrightarrow> k \<le> length (concat slices))"
    if "atomic_usable wr" "sc_write_vectored (atomic_calls fs) wr slices w = (r, w')" for wr slices r
    using that stream_vectored [of "the (sf_file (lw_staged_file wr))" slices w r w']
    by (auto simp: atomic_usable_def atomic_calls_def atomic_write_vectored_def)
  show "r \<noteq> Panic" if "atomic_usable wr" "sc_flush (atomic_calls fs) wr w = (r, w')" for wr r
    using that returningD [OF stream_flush]
    by (auto simp: atomic_usable_def atomic_calls_def atomic_flush_def)
  show "r \<noteq> Panic \<and> (\<forall>e. r = Err e \<longrightarrow> atomic_armed wr')"
    if "atomic_armed wr" "sc_abort (atomic_calls fs) wr w = (r, wr', w')" for wr wr' r
  proof -
    obtain c sf w0 where run: "staged_cleanup fs (lw_staged_file wr) w = (c, sf, w0)"
      by (metis prod_cases3)
    have "c \<noteq> Panic \<and> (\<forall>e. c = Err e \<longrightarrow> sf_path sf \<noteq> None)"
      using run that(1) returningD [OF call_stat] returningD [OF call_unlink]
      by (auto simp: staged_cleanup_def staged_close_def path_identity_def Let_def atomic_armed_def
          split: option.splits prod.splits result.splits if_splits)
    then show ?thesis
      using that run
      by (cases c) (auto simp: atomic_calls_def atomic_abort_def staged_path_def clean_staged_def or_fail_def
          bind_def gets_def ret_def atomic_armed_def on_staged_def)
  qed
  show "r \<noteq> Panic \<and> (\<forall>e wr'. r = Err (e, Some wr') \<longrightarrow> atomic_usable wr')"
    if "atomic_usable wr" "sc_commit (atomic_calls fs) wr w = (r, w')" for wr r
  proof -
    obtain c s where run: "commit_attempt fs \<lparr>as_writer = wr, as_world = w\<rparr> = (c, s)" by force
    have "outcome (commit_attempt fs) (\<lambda>_. is_closed) (\<lambda>_ s'. as_writer s' = wr \<or> is_closed s') (\<lambda>_. False)
        \<lparr>as_writer = wr, as_world = w\<rparr>"
      using that(1) by (intro commit_attempt_returns) (auto simp: atomic_usable_def)
    then show ?thesis
      using that run
      by (cases c) (auto simp: outcome_def atomic_calls_def atomic_commit_def staged_is_open_def is_closed_def
          split: if_splits)
  qed
qed

context unix_streams
begin

lemma atomic_contract: "staged_contract (atomic_calls fs) atomic_usable atomic_armed"
  by unfold_locales

end

end
