(* ===== verification/Local_Writer_Props.thy ===== *)
theory Local_Writer_Props
  imports Local_Writer_Runs
begin

text \<open>
  The properties of the public file writer: it refines the abstract session, its count is exact and
  bounded whatever the caller does, its commit reports what its backend established, and over the
  path-based atomic writer the reported publication state is true of the namespace.
\<close>

section \<open>The writer on Unix\<close>

definition unix_calls ::
  "('w, 'h) unix_fs \<Rightarrow> ('w, 'r) staged_calls \<Rightarrow> ('w, 'h atomic_writer, 'r, 'h) writer_calls" where
  "unix_calls fs rooted =
     \<lparr>wc_staged = atomic_calls fs, wc_rooted = rooted, wc_append_write = ux_write fs,
      wc_append_write_vectored = ux_write_vectored fs, wc_append_flush = ux_flush fs,
      wc_append_sync = ux_sync_all fs\<rparr>"

lemma faulty_returning:
  assumes "\<And>w w'. op w \<noteq> (Panic, w')"
  shows "returning (faulty op)"
  unfolding returning_def by (auto simp: assms elim!: faulty_cases)

interpretation memory_streams: unix_streams memory_fs
proof unfold_locales
  show "r \<noteq> Panic \<and> (\<forall>k. r = Ok k \<longrightarrow> k \<le> length bytes)"
    if "ux_write memory_fs h bytes w = (r, w')" for h bytes w r w'
    using that by (auto simp: memory_fs_def mem_write_def elim!: faulty_cases)
  show "r \<noteq> Panic \<and> (\<forall>k. r = Ok k \<longrightarrow> k \<le> length (concat slices))"
    if "ux_write_vectored memory_fs h slices w = (r, w')" for h slices w r w'
    using that by (auto simp: memory_fs_def mem_write_def elim!: faulty_cases)
  show "returning (ux_flush memory_fs h)" "returning (ux_fstat memory_fs h)"
    "returning (ux_clear_nonblocking memory_fs h)" "returning (ux_preserve_metadata memory_fs h h')"
    "returning (ux_sync_all memory_fs h)" "returning (ux_sync_dir memory_fs p)" for h h' p
    by (auto simp: memory_fs_def ret_def intro!: faulty_returning)
  show "returning (ux_symlink_metadata memory_fs p)" "returning (ux_open_retrying memory_fs p timeout)" for p timeout
    by (auto simp: memory_fs_def intro!: faulty_returning dest: mem_stat_quiet)
  show "returning (ux_rename memory_fs p q)" "returning (ux_rename_noreplace memory_fs p q)"
    "returning (ux_link memory_fs p q)" "returning (ux_unlink memory_fs p)" for p q
    by (auto simp: memory_fs_def mem_rename_result mem_rename_noreplace_result mem_link_result
        mem_unlink_result intro!: faulty_returning)
qed

lemma unix_calls_append:
  assumes "unix_streams fs"
  shows "append_contract (unix_calls fs rooted)"
proof -
  note laws = unix_streams.stream_write [OF assms] unix_streams.stream_vectored [OF assms]
    returningD [OF unix_streams.stream_flush [OF assms]] returningD [OF unix_streams.call_sync [OF assms]]
  show ?thesis
    by unfold_locales (use laws in \<open>auto simp: unix_calls_def\<close>)
qed

lemma unix_local_writer:
  assumes "unix_streams fs" and "staged_contract rooted usable armed"
  shows "local_writer_calls (unix_calls fs rooted) atomic_usable atomic_armed usable armed"
  using unix_streams.atomic_contract [OF assms(1)] assms(2) unix_calls_append [OF assms(1), of rooted]
  by (simp add: local_writer_calls_def unix_calls_def)

definition memory_calls ::
  "(memory_files, file_stat atomic_writer, file_stat atomic_writer, file_stat) writer_calls" where
  "memory_calls = unix_calls memory_fs (atomic_calls memory_fs)"

interpretation memory_writer:
  local_writer_calls memory_calls atomic_usable atomic_armed atomic_usable atomic_armed "\<lambda>_. True"
  unfolding memory_calls_def
  by (rule unix_local_writer) (rule memory_streams.unix_streams_axioms memory_streams.atomic_contract)+

section \<open>Commits\<close>

context local_writer_calls
begin

lemma commit_failure_fields [simp]:
  "fce_state (commit_failure fw e st retained) = st"
  "fce_writer (commit_failure fw e st retained) = retained"
  "st = FailPublished \<Longrightarrow> fe_kind (fce_error (commit_failure fw e st retained)) = KPublicationIncomplete"
  "st = FailIndeterminate \<Longrightarrow> fe_kind (fce_error (commit_failure fw e st retained)) = KIndeterminate"
  by (simp_all add: commit_failure_def publication_error_def)

lemma commit_staged_ok:
  assumes "good fw" and "is_open fw" and "fw_backend fw = Some b" and "\<not> (\<exists>h. b = AppendBackend h)"
    and "commit_staged calls b w = (r, w')"
  shows "r \<noteq> Panic \<and> (\<forall>e b'. r = Err (e, Some b') \<longrightarrow> good (fw\<lparr>fw_backend := Some b'\<rparr>))"
  using assms(1,2)
proof (rule good_open)
  fix a
  assume b: "fw_backend fw = Some (StagedBackend a)" "usableS a"
  show ?thesis
    using assms(2,3,5) b staged.commit_returns [OF b(2), of w] staged.usable_armed
    by (cases "sc_commit (wc_staged calls) a w"; cases "fst (sc_commit (wc_staged calls) a w)")
      (auto simp: commit_staged_def writer_ok_def is_open_def map_err_def)
next
  fix a
  assume b: "fw_backend fw = Some (RootedBackend a)" "usableR a"
  show ?thesis
    using assms(2,3,5) b rooted.commit_returns [OF b(2), of w] rooted.usable_armed
    by (cases "sc_commit (wc_rooted calls) a w"; cases "fst (sc_commit (wc_rooted calls) a w)")
      (auto simp: commit_staged_def writer_ok_def is_open_def map_err_def)
qed (use assms(3,4) in auto)

lemma session_contract:
  "writer_session (local_exec calls reserve) local_phase fw_bytes_written (writer_ok usableS armedS usableR armedR)"
  by unfold_locales

lemma commit_append_ok:
  assumes "fw_failure_state fw = None"
  shows "case commit_append calls h fw w of
      (Ok out, _) \<Rightarrow> wr_state out = Committed \<and> wr_bytes_written out = fw_bytes_written fw \<and>
        wr_failure_state out = None
    | (Err e, _) \<Rightarrow> fce_writer e = None \<and>
        (fce_state e = FailPublished \<longrightarrow> fe_kind (fce_error e) = KPublicationIncomplete) \<and>
        (fce_state e = FailIndeterminate \<longrightarrow> fe_kind (fce_error e) = KIndeterminate)
    | (Panic, _) \<Rightarrow> False"
proof -
  have "wc_append_flush calls h w \<noteq> (Panic, w')" "wc_append_sync calls h w \<noteq> (Panic, w')" for w w'
    using append_flush_returns append_sync_returns by blast+
  with assms show ?thesis
    by (auto simp: commit_append_def sync_append_def append_commit_outcome_def with_file_synced_def
      write_outcome_new_def Let_def split: prod.splits result.splits file_sync.splits if_splits)
qed

lemma commit_staged_backend_ok:
  assumes "good fw" and "is_open fw" and "fw_backend fw = Some b" and "\<not> (\<exists>h. b = AppendBackend h)"
  shows "case commit_staged_backend calls b (fw\<lparr>fw_backend := None\<rparr>) w of
      (Ok out, _) \<Rightarrow> wr_state out = Committed \<and> wr_bytes_written out = fw_bytes_written fw \<and>
        wr_failure_state out = None
    | (Err e, _) \<Rightarrow>
        (\<forall>fw'. fce_writer e = Some fw' \<longrightarrow> good fw' \<and> fw' = fw\<lparr>fw_backend := fw_backend fw'\<rparr>) \<and>
        (fce_state e = FailPublished \<longrightarrow> fe_kind (fce_error e) = KPublicationIncomplete) \<and>
        (fce_state e = FailIndeterminate \<longrightarrow> fe_kind (fce_error e) = KIndeterminate)
    | (Panic, _) \<Rightarrow> False"
proof -
  obtain r w' where run: "commit_staged calls b w = (r, w')" by force
  note answer = commit_staged_ok [OF assms run]
  show ?thesis
    using run answer assms(2)
    by (cases r) (auto simp: commit_staged_backend_def with_file_synced_def write_outcome_new_def is_open_def
        retain_backend_def split: option.splits)
qed

lemma commit_outcome:
  assumes "good fw"
  shows "case writer_commit calls fw w of
      (Ok out, _) \<Rightarrow> is_open fw \<and> wr_state out = Committed \<and> wr_bytes_written out = fw_bytes_written fw \<and>
        wr_failure_state out = None
    | (Err e, _) \<Rightarrow>
        (\<forall>fw'. fce_writer e = Some fw' \<longrightarrow> is_open fw \<and> good fw' \<and> fw' = fw\<lparr>fw_backend := fw_backend fw'\<rparr>) \<and>
        (fce_state e = FailPublished \<longrightarrow> fe_kind (fce_error e) = KPublicationIncomplete) \<and>
        (fce_state e = FailIndeterminate \<longrightarrow> fe_kind (fce_error e) = KIndeterminate)
    | (Panic, _) \<Rightarrow> False"
proof (cases "is_open fw")
  case True
  have none: "fw_failure_state fw = None"
    using True by (simp add: is_open_def)
  from assms True show ?thesis
  proof (rule good_open)
    fix h assume "fw_backend fw = Some (AppendBackend h)"
    then show ?thesis
      using True commit_append_ok [OF none, of h w]
      by (auto simp: writer_commit_def split: prod.splits result.splits)
  next
    fix a assume b: "fw_backend fw = Some (StagedBackend a)"
    show ?thesis
      using True b commit_staged_backend_ok [OF assms True b, of w]
      by (auto simp: writer_commit_def split: prod.splits result.splits)
  next
    fix a assume b: "fw_backend fw = Some (RootedBackend a)"
    show ?thesis
      using True b commit_staged_backend_ok [OF assms True b, of w]
      by (auto simp: writer_commit_def split: prod.splits result.splits)
  qed
next
  case False
  then show ?thesis
    by (simp add: writer_commit_def)
qed

end

section \<open>Properties\<close>

text \<open>
  C23: the public writer refines the abstract session. Over staged backends that keep their contract and
  an append file that accepts no more than it is given, every operation of an open, failed or finished
  writer is a step of the session machine between the writer's phases and counts, and keeps the writer's
  invariant: bytes are accepted only in the accepting phase, a fatal failure stops acceptance for good and
  leaves only abort, a finished writer refuses everything, and nothing panics.
\<close>

theorem local_writer_refines_session:
  assumes "local_writer_calls calls usableS armedS usableR armedR"
    and "writer_ok usableS armedS usableR armedR fw"
    and "local_exec calls reserve op fw w = (r, fw', w')"
  shows "writer_ok usableS armedS usableR armedR fw' \<and>
    session_step (local_phase fw, fw_bytes_written fw) r (local_phase fw', fw_bytes_written fw')"
  by (rule local_writer_calls.exec_step [OF assms])

definition sample_session :: "session_op list" where
  "sample_session = [Write [1, 2], Flush, WriteVectored [[3], [], [4, 5]], Write [6], Abort, Write [7]]"

definition sample_file_writer ::
  "(file_stat atomic_writer, file_stat atomic_writer, file_stat) file_writer" where
  "sample_file_writer =
     file_writer_new [47, 100, 47, 103] (StagedBackend (sample_writer [47, 100, 47, 103] False DurRequired))
       (write_options_new CreateOrReplace)"

lemma sample_file_writer_ok: "writer_ok atomic_usable atomic_armed atomic_usable atomic_armed sample_file_writer"
  by (simp add: writer_ok_def sample_file_writer_def file_writer_new_def atomic_usable_def atomic_armed_def
      sample_writer_def)

theorem local_writer_refines_session_witness:
  "session_step (Accepting, 0)
     (fst (local_exec memory_calls (\<lambda>_. True) (Write [1, 2]) sample_file_writer (sample_world [FailWith 5])))
     (Failed, 0)"
proof -
  obtain r fw' w' where run: "local_exec memory_calls (\<lambda>_. True) (Write [1, 2]) sample_file_writer
      (sample_world [FailWith 5]) = (r, fw', w')"
    by (metis prod_cases3)
  have "(case local_exec memory_calls (\<lambda>_. True) (Write [1, 2]) sample_file_writer
      (sample_world [FailWith 5]) of (r, fw', w') \<Rightarrow> local_phase fw' = Failed \<and> fw_bytes_written fw' = 0)"
    unfolding memory_calls_def sample_file_writer_def
    by (simp add: local_exec_def write_once_def file_writer_new_def is_open_def check_request_def checked_add_def
        usize_max_def backend_write_def unix_calls_def atomic_calls_def atomic_write_def sample_writer_def
        memory_fs_def faulty_def sample_world_def record_stream_def observe_stream_result_def record_result_def
        local_phase_def)
  then show ?thesis
    using local_writer_refines_session [OF memory_writer.local_writer_calls_axioms sample_file_writer_ok run] run
    by (simp add: sample_file_writer_def file_writer_new_def local_phase_def)
qed

text \<open>
  C24: the byte count of a session is exact and never overflows. From a new writer on a usable backend,
  after any sequence of writes, vectored writes, flushes and aborts, the count is the sum of the bytes that
  the backend accepted, it stays within 64 bits and every operation returned without a panic. After a fatal
  result, a write or flush failure that is neither retryable nor a refusal of the request itself, or a
  completed abort, every later write and flush of the sequence is refused as a broken pipe, and going on
  changes neither the count nor, unless it aborts, the world; after a completed abort nothing changes it.
\<close>

theorem local_session_counts:
  assumes "local_writer_calls calls usableS armedS usableR armedR"
    and "writer_ok usableS armedS usableR armedR (file_writer_new p b opts)"
    and "run_session (local_exec calls reserve) ops (file_writer_new p b opts) w = (rs, fw, w1)"
    and "run_session (local_exec calls reserve) more_ops fw w1 = (rs', fw', w2)"
  shows "fw_bytes_written fw = sum_list (map accepted rs) \<and> fw_bytes_written fw \<le> usize_max \<and>
    list_all no_panic rs \<and> length rs = length ops \<and>
    sorted_wrt (\<lambda>r later. fatal r \<longrightarrow> refused later) rs \<and>
    (list_ex fatal rs \<longrightarrow> fw_bytes_written fw' = fw_bytes_written fw \<and> list_all refused rs') \<and>
    (list_ex fatal rs \<and> Abort \<notin> set more_ops \<or> list_ex ended rs \<longrightarrow> w2 = w1)"
proof -
  have session: "writer_session (local_exec calls reserve) local_phase fw_bytes_written
      (writer_ok usableS armedS usableR armedR)"
    using assms(1) by (rule local_writer_calls.session_contract)
  have start: "fw_bytes_written (file_writer_new p b opts) = 0"
    by (simp add: file_writer_new_def)
  then have run: "writer_ok usableS armedS usableR armedR fw \<and>
      fw_bytes_written fw = sum_list (map accepted rs) \<and> fw_bytes_written fw \<le> usize_max \<and>
      list_all no_panic rs \<and> length rs = length ops"
    using writer_session.run_counts [OF session assms(2) _ assms(3)] by simp
  note stops = writer_session.run_stops [OF session writer_session.fatal_stops [OF session]]
  have first: "sorted_wrt (\<lambda>r later. fatal r \<longrightarrow> refused later) rs"
    "list_ex fatal rs \<longrightarrow> local_phase fw \<noteq> Accepting" "list_ex ended rs \<longrightarrow> local_phase fw = Finished"
    using stops [OF _ _ _ _ assms(2) _ assms(3)] start by auto
  have refused: "local_phase fw \<noteq> Accepting \<longrightarrow> list_all refused rs'"
    using stops [OF _ _ _ _ _ _ assms(4)] run by blast
  have "local_phase fw \<noteq> Accepting \<longrightarrow> fw_bytes_written fw' = fw_bytes_written fw"
    using writer_session.run_still [OF session _ _ _ assms(4)] run by blast
  then show ?thesis
    using writer_session.run_idle [OF session _ _ _ _ assms(4)] run first refused by auto
qed

definition sample_results ::
  "session_result list \<times> (file_stat atomic_writer, file_stat atomic_writer, file_stat) file_writer \<times> memory_files" where
  "sample_results =
     run_session (local_exec memory_calls (\<lambda>_. True)) sample_session sample_file_writer (sample_world [])"

theorem local_session_counts_witness:
  "list_all no_panic (fst sample_results) \<and> length (fst sample_results) = 6"
  using local_session_counts [OF memory_writer.local_writer_calls_axioms
      sample_file_writer_ok [unfolded sample_file_writer_def], of "\<lambda>_. True" sample_session "sample_world []"
      "fst sample_results" "fst (snd sample_results)" "snd (snd sample_results)" "[]" "[]"
      "fst (snd sample_results)" "snd (snd sample_results)"]
  by (simp add: sample_results_def sample_session_def sample_file_writer_def del: run_session.simps(2))



text \<open>
  C26: the public commit of an atomic writer reports the truth about the namespace. Over every namespace
  that keeps the documented behaviour of its calls, whichever of them fail: success means that the
  destination is the staged file and the staging name is gone; \<open>NotPublished\<close> means that the destination
  is what it was; \<open>Published\<close> means that it is the staged file; the state is never indeterminate, and a
  writer that is handed back is the very writer that was committed, with every name as before.
\<close>

theorem local_commit_truthful:
  assumes "unix_namespace fs entry" and "ready wr t h st (entry w)"
    and "is_open fw" and "fw_backend fw = Some (StagedBackend wr)"
  shows "case writer_commit (unix_calls fs rooted) fw w of
      (Ok out, w') \<Rightarrow> wr_atomic out \<and> entry w' = (entry w)(t := None, lw_operation_path wr := Some st)
    | (Err e, w') \<Rightarrow>
        (case fce_state e of
           FailNotPublished \<Rightarrow>
             entry w' (lw_operation_path wr) = entry w (lw_operation_path wr) \<and>
             (case fce_writer e of Some fw' \<Rightarrow> fw' = fw \<and> entry w' = entry w | None \<Rightarrow> True)
         | FailPublished \<Rightarrow> entry w' (lw_operation_path wr) = Some st \<and> fce_writer e = None
         | FailIndeterminate \<Rightarrow> False)
    | (Panic, _) \<Rightarrow> False"
proof -
  have other: "t \<noteq> lw_operation_path wr"
    using assms(2) by (simp add: ready_def)
  have same: "fw\<lparr>fw_backend := Some (StagedBackend wr)\<rparr> = fw"
    using assms(4) by (cases fw) simp
  note truth = unix_namespace.commit_truthful [OF assms(1,2)]
  note defs = writer_commit_def unix_calls_def atomic_calls_def commit_staged_backend_def commit_staged_def
    map_err_def commit_failure_def atomic_destination_state_def retain_backend_def with_file_synced_def
    write_outcome_new_def
  obtain r w' where run: "atomic_commit fs wr w = (r, w')" by force
  show ?thesis
  proof (cases r)
    case (Ok out)
    then show ?thesis
      using truth run assms(3,4) by (simp add: defs)
  next
    case (Err x)
    obtain e retained where x: "x = (e, retained)" by force
    show ?thesis
      using truth run assms(3,4) other same unfolding Err x
      by (cases "aw_destination_state e"; cases retained) (auto simp: defs)
  next
    case Panic
    then show ?thesis
      using truth run by simp
  qed
qed

theorem local_commit_truthful_witness:
  "case writer_commit memory_calls sample_file_writer (sample_world [FailWith 5]) of
      (Ok _, w') \<Rightarrow> mem_entry w' [47, 100, 47, 103] = Some sample_new
    | (Err e, w') \<Rightarrow> fce_state e \<noteq> FailIndeterminate
    | (Panic, _) \<Rightarrow> False"
  using local_commit_truthful [OF memory.unix_namespace_axioms sample_ready(2) [of DurRequired "[FailWith 5]"],
      of sample_file_writer "atomic_calls memory_fs"]
  by (auto simp: memory_calls_def sample_file_writer_def file_writer_new_def is_open_def sample_writer_def
      split: prod.splits result.splits write_failure_state.splits)

end
