(* ===== verification/Conditional.thy ===== *)
theory Conditional
  imports Write_Types Commit_Monad
begin

text \<open>
  The conditional commit protocol of \<^verbatim>\<open>src/local/internal/conditional\<close>: entries, the backend
  interface, the verified candidate copy, the commit state machine and the cleanup. A backend is a
  record of its operations on a world \<open>'w\<close>, which stands for the backend's own state and for the
  namespace with whatever other processes do to it between two operations: nothing is assumed about
  it here. Readers and the digest of a whole reader come from outside the repository and are
  operations of the same record. The mutable locals of \<open>commit_conditional_with_directory\<close> are the
  record \<open>commit_state\<close>; each definition is one stretch of the function's body.
\<close>

section \<open>Entries and the backend interface\<close>

record 'a entry =
  en_role :: recovery_role
  en_namespace_path :: path
  en_diagnostic_path :: "path option"
  en_access :: 'a

definition set_role :: "recovery_role \<Rightarrow> 'a entry \<Rightarrow> 'a entry" where
  "set_role r e = e\<lparr>en_role := r\<rparr>"

definition into_recovery :: "'a entry \<Rightarrow> recovery_role \<Rightarrow> 'a recovery_file" where
  "into_recovery e r =
     \<lparr>rf_role = r, rf_namespace_path = en_namespace_path e, rf_diagnostic_path = en_diagnostic_path e,
      rf_access = en_access e\<rparr>"

record 'a native_attempt =
  at_method :: publication_method
  at_error :: "io_error option"
  at_publication :: publication_state
  at_installed :: "'a entry option"
  at_displaced :: "'a entry list"

datatype conditional_point =
    PtWrite | PtFlush | PtPrepareCandidateCopy | PtCandidateCopyCreated | PtVerifyCandidateCopy
  | PtSyncCandidate | PtSyncEntry | PtSyncNamespace | PtSyncInstalled | PtPrecheck | PtAfterPrecheck
  | PtPublish | PtAfterPublish | PtVerifyDisplaced | PtVerifyInstalled | PtRollbackPrecheck
  | PtRollbackValidated | PtRollback | PtRollbackCompleted | PtRollbackExchange
  | PtAfterRollbackSyscall | PtVerifyRollback | PtSyncRollback | PtSaveComplete | PtCleanupOld
  | PtCleanupCopy | PtCleanupSync | PtBeforeRequiredFileSync | PtBeforeRequiredParentSync

type_synonym ('w, 'x) io = "'w \<Rightarrow> ('x, io_error) result \<times> 'w"

record ('w, 'a, 'r, 'd) conditional_backend =
  cb_write :: "byte list \<Rightarrow> ('w, usize) io"
  cb_write_vectored :: "byte list list \<Rightarrow> ('w, usize) io"
  cb_flush :: "('w, unit) io"
  cb_candidate :: "'w \<Rightarrow> 'a entry"
  cb_create_candidate_copy :: "('w, 'a entry) io"
  cb_open_target :: "('w, 'a entry) io"
  cb_preserve_metadata :: "'a entry \<Rightarrow> ('w, unit) io"
  cb_sync_candidate :: "('w, unit) io"
  cb_sync_entry :: "'a entry \<Rightarrow> ('w, unit) io"
  cb_sync_namespace :: "('w, unit) io"
  cb_is_candidate :: "'a entry \<Rightarrow> ('w, bool) io"
  cb_verify_entry :: "'a entry \<Rightarrow> ('w, unit) io"
  cb_begin_publication :: "('w, unit) io"
  cb_publish_absent :: "'w \<Rightarrow> 'a native_attempt \<times> 'w"
  cb_publish_content :: "'w \<Rightarrow> 'a native_attempt \<times> 'w"
  cb_rollback :: "'a entry \<Rightarrow> 'w \<Rightarrow> 'a native_attempt \<times> 'w"
  cb_remove_observed :: "'a entry \<Rightarrow> ('w, unit) io"
  cb_abort :: "('w, unit) io"
  cb_take_recovery_entries :: "'w \<Rightarrow> 'a entry list \<times> 'w"
  cb_take_cleanup_errors :: "'w \<Rightarrow> file_error list \<times> 'w"
  cb_checkpoint :: "conditional_point \<Rightarrow> ('w, unit) io"
  ra_open_reader :: "'a \<Rightarrow> 'w \<Rightarrow> ('r, file_error) result \<times> 'w"
  rd_seek_start :: "'r \<Rightarrow> ('w, unit) io"
  rd_digest_all :: "'r \<Rightarrow> ('w, 'd) io"

text \<open>\<open>io::Error::other\<close> wraps the structured open error.\<close>

definition digest_entry :: "('w, 'a, 'r, 'd) conditional_backend \<Rightarrow> 'a entry \<Rightarrow> ('w, 'd) io" where
  "digest_entry bk e =
     bind (or_fail (\<lambda>_ x. IoError IoOther (FilePayload x)) id (ra_open_reader bk (en_access e)))
       (\<lambda>reader. seq (rd_seek_start bk reader) (rd_digest_all bk reader))"

section \<open>The state of a commit\<close>

record ('w, 'a) commit_state =
  cs_world :: 'w
  cs_entries :: "'a entry list"
  cs_stage :: write_stage
  cs_publication :: publication_state
  cs_conflict :: bool
  cs_attempt_error :: "io_error option"
  cs_method :: publication_method
  cs_durable :: bool
  cs_file_synced :: bool

type_synonym ('w, 'a, 'x) commit_io = "(('w, 'a) commit_state, io_error, 'x) prog"
type_synonym ('w, 'a, 'x) commit_m = "(('w, 'a) commit_state, write_stage \<times> io_error, 'x) prog"

definition call :: "('w, 'x) io \<Rightarrow> ('w, 'a, 'x) commit_io" where
  "call op s = (case op (cs_world s) of (r, w) \<Rightarrow> (r, s\<lparr>cs_world := w\<rparr>))"

definition perform :: "('w \<Rightarrow> 'x \<times> 'w) \<Rightarrow> ('w, 'a, 'x) commit_m" where
  "perform op s = (case op (cs_world s) of (x, w) \<Rightarrow> (Ok x, s\<lparr>cs_world := w\<rparr>))"

definition checkpoint ::
  "('w, 'a, 'r, 'd) conditional_backend \<Rightarrow> conditional_point \<Rightarrow> ('w, 'a, unit) commit_io" where
  "checkpoint bk p = call (cb_checkpoint bk p)"

definition set_stage :: "write_stage \<Rightarrow> ('w, 'a, unit) commit_m" where
  "set_stage st = modify (\<lambda>s. s\<lparr>cs_stage := st\<rparr>)"

definition push :: "'a entry list \<Rightarrow> ('w, 'a) commit_state \<Rightarrow> ('w, 'a) commit_state" where
  "push es s = s\<lparr>cs_entries := cs_entries s @ es\<rparr>"

text \<open>The exits that keep \<open>es\<close> for recovery and no longer know what the destination is.\<close>

definition lost :: "'a entry list \<Rightarrow> ('w, 'a) commit_state \<Rightarrow> ('w, 'a) commit_state" where
  "lost es s = (push es s)\<lparr>cs_publication := Indeterminate\<rparr>"

text \<open>\<open>map_err(|error| (stage, error))?\<close>, after the changes \<open>h\<close> to the locals.\<close>

definition try_or ::
  "(('w, 'a) commit_state \<Rightarrow> ('w, 'a) commit_state) \<Rightarrow> ('w, 'a, 'x) commit_io \<Rightarrow> ('w, 'a, 'x) commit_m" where
  "try_or h m = or_fail (\<lambda>s e. (cs_stage s, e)) h m"

definition stop ::
  "(('w, 'a) commit_state \<Rightarrow> ('w, 'a) commit_state) \<Rightarrow> io_error \<Rightarrow> ('w, 'a, 'x) commit_m" where
  "stop h e = seq (modify h) (bind (gets cs_stage) (\<lambda>st. fail (st, e)))"

definition opt_list :: "'x option \<Rightarrow> 'x list" where
  "opt_list o' = (case o' of None \<Rightarrow> [] | Some x \<Rightarrow> [x])"

section \<open>The verified copy\<close>

definition prepare_copy ::
  "('w, 'a, 'r, 'd) conditional_backend \<Rightarrow> 'd \<Rightarrow>
   (('w, 'a) commit_state, io_error \<times> 'a entry option, 'a entry) prog" where
  "prepare_copy bk candidate_digest =
     bind (or_fail (\<lambda>_ e. (e, None)) id (call (cb_create_candidate_copy bk)))
       (\<lambda>created.
          (let copy = set_role StagedCandidate created
           in seq (or_fail (\<lambda>_ e. (e, Some copy)) id (checkpoint bk PtCandidateCopyCreated))
                (bind (or_fail (\<lambda>_ e. (e, Some copy)) id (call (digest_entry bk copy)))
                   (\<lambda>copied_digest.
                      if copied_digest \<noteq> candidate_digest then fail (io_error_of IoInvalidData, Some copy)
                      else ret (set_role CandidateCopy copy)))))"

definition prepare_candidate :: "('w, 'a, 'r, 'd) conditional_backend \<Rightarrow> ('w, 'a, 'd) commit_m" where
  "prepare_candidate bk =
     seq (try_or id (call (cb_flush bk)))
     (seq (set_stage StVerifyCandidate)
     (bind (gets (\<lambda>s. cb_candidate bk (cs_world s))) (\<lambda>candidate.
      bind (try_or id (call (digest_entry bk candidate))) (\<lambda>candidate_digest.
      seq (set_stage StPrepareCandidateCopy)
     (seq (try_or id (checkpoint bk PtPrepareCandidateCopy))
     (bind (caught (prepare_copy bk candidate_digest)) (\<lambda>r.
        case r of
          Err (e, entry) \<Rightarrow>
            seq (set_stage (if entry = None then StPrepareCandidateCopy else StVerifyCandidateCopy))
              (stop (push (opt_list entry)) e)
        | Panic \<Rightarrow> panic
        | Ok copy \<Rightarrow>
            seq (set_stage StVerifyCandidateCopy)
           (seq (modify (push [copy]))
           (seq (try_or id (checkpoint bk PtVerifyCandidateCopy))
              (ret candidate_digest))))))))))"

section \<open>Synchronization and the precondition\<close>

definition sync_requirement :: "write_options \<Rightarrow> file_sync" where
  "sync_requirement opts =
     (case (wo_durability opts, wo_file_sync opts) of
        (DurRequired, _) \<Rightarrow> SyncRequired
      | (_, SyncRequired) \<Rightarrow> SyncRequired
      | (DurPreferred, _) \<Rightarrow> SyncPreferred
      | (_, SyncPreferred) \<Rightarrow> SyncPreferred
      | _ \<Rightarrow> SyncNotRequired)"

definition not_durable :: "('w, 'a) commit_state \<Rightarrow> ('w, 'a) commit_state" where
  "not_durable s = s\<lparr>cs_durable := False\<rparr>"

text \<open>A failed file synchronization stops a commit that requires it and downgrades the others.\<close>

definition tolerate_sync :: "write_options \<Rightarrow> ('w, 'a, unit) commit_io \<Rightarrow> ('w, 'a, unit) commit_m" where
  "tolerate_sync opts sync =
     bind (caught sync) (\<lambda>r.
       case r of
         Err e \<Rightarrow>
           if sync_requirement opts = SyncRequired then stop id e
           else whenever (wo_durability opts = DurPreferred) (modify not_durable)
       | _ \<Rightarrow> ret ())"

definition sync_copy :: "('w, 'a, 'r, 'd) conditional_backend \<Rightarrow> ('w, 'a, unit) commit_io" where
  "sync_copy bk =
     bind (gets cs_entries) (\<lambda>es. case es of [] \<Rightarrow> panic | e # _ \<Rightarrow> call (cb_sync_entry bk e))"

definition sync_before_publication ::
  "('w, 'a, 'r, 'd) conditional_backend \<Rightarrow> write_options \<Rightarrow> ('w, 'a, unit) commit_m" where
  "sync_before_publication bk opts =
     seq (set_stage StSync)
     (whenever (sync_requirement opts \<noteq> SyncNotRequired)
       (seq (tolerate_sync opts
               (seq (checkpoint bk PtBeforeRequiredFileSync)
                 (seq (call (cb_sync_candidate bk)) (sync_copy bk))))
         (whenever (wo_durability opts \<noteq> DurNotRequired)
           (bind (caught (call (cb_sync_namespace bk))) (\<lambda>r.
              case r of
                Err e \<Rightarrow> if wo_durability opts = DurRequired then stop id e else modify not_durable
              | _ \<Rightarrow> ret ())))))"

definition precheck ::
  "('w, 'a, 'r, 'd) conditional_backend \<Rightarrow> 'd precondition \<Rightarrow> write_options \<Rightarrow> ('w, 'a, unit) commit_m" where
  "precheck bk pre opts =
     seq (set_stage StPrecheck)
     (seq (try_or id (checkpoint bk PtPrecheck))
     (bind (caught (call (cb_open_target bk))) (\<lambda>observed.
        case (pre, observed) of
          (Absent, Ok _) \<Rightarrow> stop id (io_error_of IoAlreadyExists)
        | (Absent, Err e) \<Rightarrow> if ioe_kind e = IoNotFound then ret () else stop id e
        | (Content _, Err e) \<Rightarrow> stop id e
        | (Content expected, Ok target) \<Rightarrow>
            bind (try_or id (call (digest_entry bk target))) (\<lambda>actual.
              if actual \<noteq> expected then stop id (io_error_of IoInvalidData)
              else
                whenever (wo_metadata_policy opts = PreserveExisting)
                  (seq (try_or id (call (cb_preserve_metadata bk target)))
                    (whenever (sync_requirement opts \<noteq> SyncNotRequired)
                      (tolerate_sync opts (call (cb_sync_candidate bk))))))
        | (_, Panic) \<Rightarrow> panic)))"

section \<open>Publication and what it reported\<close>

definition publish ::
  "('w, 'a, 'r, 'd) conditional_backend \<Rightarrow> 'd precondition \<Rightarrow> ('w, 'a, 'a native_attempt) commit_m" where
  "publish bk pre =
     seq (try_or id (checkpoint bk PtAfterPrecheck))
     (bind (gets (\<lambda>s. cb_candidate bk (cs_world s))) (\<lambda>candidate.
      seq (try_or id (call (cb_verify_entry bk candidate)))
     (seq (set_stage StPublish)
     (seq (try_or id (checkpoint bk PtPublish))
     (seq (try_or id (call (cb_begin_publication bk)))
       (perform (case pre of Absent \<Rightarrow> cb_publish_absent bk | Content _ \<Rightarrow> cb_publish_content bk)))))))"

definition record_attempt_error :: "'d precondition \<Rightarrow> 'a native_attempt \<Rightarrow> ('w, 'a, unit) commit_m" where
  "record_attempt_error pre attempt =
     (case at_error attempt of
        None \<Rightarrow> ret ()
      | Some e \<Rightarrow>
          if pre \<noteq> Absent \<and> at_publication attempt = Published then
            modify (\<lambda>s. s\<lparr>cs_attempt_error := Some e, cs_conflict := True\<rparr>)
          else
            stop (push (map (set_role StagedCandidate) (opt_list (at_installed attempt)) @
                        at_displaced attempt)) e)"

definition accept_attempt ::
  "('w, 'a, 'r, 'd) conditional_backend \<Rightarrow> 'd precondition \<Rightarrow> 'a native_attempt \<Rightarrow>
   ('w, 'a, 'a entry) commit_m" where
  "accept_attempt bk pre attempt =
     (let observed = opt_list (at_installed attempt) @ at_displaced attempt;
          published = (\<lambda>s. s\<lparr>cs_publication := at_publication attempt\<rparr>)
      in seq (whenever (at_publication attempt \<noteq> NotPublished)
               (modify (\<lambda>s. s\<lparr>cs_method := at_method attempt\<rparr>)))
        (seq (try_or (\<lambda>s. push observed (published s)) (checkpoint bk PtAfterPublish))
        (seq (modify published)
          (if pre \<noteq> Absent \<and> at_publication attempt \<noteq> NotPublished \<and> at_displaced attempt = [] then
             stop (lost (opt_list (at_installed attempt)))
               (case at_error attempt of Some e \<Rightarrow> e | None \<Rightarrow> io_error_of IoInvalidData)
           else
             seq (record_attempt_error pre attempt)
               (case at_installed attempt of
                  None \<Rightarrow> stop (lost (at_displaced attempt)) (io_error_of IoInvalidData)
                | Some installed \<Rightarrow> ret installed)))))"

text \<open>The loop over the displaced entries; \<open>acc\<close> is \<open>displaced_entries\<close>.\<close>

fun verify_displaced ::
  "('w, 'a, 'r, 'd) conditional_backend \<Rightarrow> 'd precondition \<Rightarrow> 'a entry \<Rightarrow> 'a entry list \<Rightarrow>
   'a entry list \<Rightarrow> ('w, 'a, 'a entry list) commit_m" where
  "verify_displaced bk pre installed [] acc = ret acc"
| "verify_displaced bk pre installed (displaced # rest) acc =
     seq (set_stage StVerifyDisplaced)
     (seq (try_or (lost (installed # displaced # acc))
             (seq (checkpoint bk PtVerifyDisplaced) (call (cb_verify_entry bk displaced))))
     (bind (case pre of
              Absent \<Rightarrow> ret displaced
            | Content expected \<Rightarrow>
                bind (try_or (lost (installed # displaced # acc)) (call (digest_entry bk displaced)))
                  (\<lambda>actual.
                     if actual \<noteq> expected then
                       seq (modify (\<lambda>s. s\<lparr>cs_conflict := True\<rparr>)) (ret (set_role RollbackDisplaced displaced))
                     else ret displaced))
       (\<lambda>checked. verify_displaced bk pre installed rest (acc @ [checked]))))"

definition verify_installed ::
  "('w, 'a, 'r, 'd) conditional_backend \<Rightarrow> 'a entry \<Rightarrow> 'a entry list \<Rightarrow> 'd \<Rightarrow> ('w, 'a, bool) commit_m" where
  "verify_installed bk installed displaced candidate_digest =
     (let keep = lost (installed # displaced)
      in seq (set_stage StVerifyInstalled)
        (seq (try_or keep (checkpoint bk PtVerifyInstalled))
        (bind (try_or keep (call (cb_is_candidate bk installed))) (\<lambda>candidate_identity.
         bind (try_or keep (call (digest_entry bk installed))) (\<lambda>installed_digest.
           let installed_valid = (candidate_identity \<and> installed_digest = candidate_digest)
           in seq (whenever (\<not> installed_valid) (modify (\<lambda>s. s\<lparr>cs_conflict := True\<rparr>)))
                (ret installed_valid))))))"

section \<open>Rollback of a conflicting publication\<close>

text \<open>The displaced entries that the receipt of a failed rollback does not name and that are still there.\<close>

fun retain_unreceipted ::
  "('w, 'a, 'r, 'd) conditional_backend \<Rightarrow> 'a native_attempt \<Rightarrow> 'a entry list \<Rightarrow> ('w, 'a, unit) commit_m" where
  "retain_unreceipted bk rollback [] = ret ()"
| "retain_unreceipted bk rollback (displaced # rest) =
     seq (if \<exists>receipt \<in> set (opt_list (at_installed rollback) @ at_displaced rollback).
               en_namespace_path receipt = en_namespace_path displaced
          then ret ()
          else bind (caught (call (cb_verify_entry bk displaced))) (\<lambda>r.
                 whenever (is_Ok r)
                   (modify (push [if at_displaced rollback = [] then set_role Displaced displaced
                                  else displaced]))))
       (retain_unreceipted bk rollback rest)"

definition verify_rollback ::
  "('w, 'a, 'r, 'd) conditional_backend \<Rightarrow> write_options \<Rightarrow> 'd \<Rightarrow> 'a entry \<Rightarrow> ('w, 'a, unit) commit_m" where
  "verify_rollback bk opts old_digest restored =
     seq (set_stage StVerifyRollback)
     (bind (try_or (lost [restored])
              (seq (checkpoint bk PtVerifyRollback) (call (digest_entry bk restored))))
       (\<lambda>restored_digest.
      bind (gets cs_publication) (\<lambda>publication.
        if publication \<noteq> Restored \<or> restored_digest \<noteq> old_digest then
          stop (lost [restored]) (io_error_of IoInvalidData)
        else
          seq (whenever (wo_durability opts = DurRequired \<or> wo_file_sync opts = SyncRequired)
                (seq (set_stage StSync)
                  (try_or (push [restored])
                    (seq (checkpoint bk PtSyncRollback)
                      (seq (call (cb_sync_entry bk restored))
                        (whenever (wo_durability opts = DurRequired) (call (cb_sync_namespace bk))))))))
          (seq (modify (push [restored]))
          (bind (gets cs_attempt_error) (\<lambda>attempt_error.
             stop (\<lambda>s. s\<lparr>cs_attempt_error := None\<rparr>)
               (case attempt_error of Some e \<Rightarrow> e | None \<Rightarrow> io_error_of IoInvalidData)))))))"

definition accept_rollback ::
  "('w, 'a, 'r, 'd) conditional_backend \<Rightarrow> write_options \<Rightarrow> 'd \<Rightarrow> 'a entry \<Rightarrow> 'a entry list \<Rightarrow>
   'a native_attempt \<Rightarrow> ('w, 'a, unit) commit_m" where
  "accept_rollback bk opts old_digest installed displaced rollback =
     seq (modify (\<lambda>s. s\<lparr>cs_publication := at_publication rollback\<rparr>))
     (seq (try_or (lost (opt_list (at_installed rollback) @ at_displaced rollback @ displaced))
             (checkpoint bk PtRollbackCompleted))
       (case at_error rollback of
          Some e \<Rightarrow>
            seq (retain_unreceipted bk rollback displaced)
              (stop (push (map (set_role Displaced) (opt_list (at_installed rollback)) @
                           map (set_role RollbackDisplaced) (at_displaced rollback))) e)
        | None \<Rightarrow>
            (case at_installed rollback of
               None \<Rightarrow>
                 stop (lost (installed # displaced @ at_displaced rollback)) (io_error_of IoInvalidData)
             | Some restored \<Rightarrow>
                 seq (modify (push (map (set_role RollbackDisplaced) (at_displaced rollback))))
                   (verify_rollback bk opts old_digest restored))))"

definition roll_back ::
  "('w, 'a, 'r, 'd) conditional_backend \<Rightarrow> write_options \<Rightarrow> 'd \<Rightarrow> 'a entry \<Rightarrow> 'a entry list \<Rightarrow>
   ('w, 'a, unit) commit_m" where
  "roll_back bk opts candidate_digest installed displaced_entries =
     (case displaced_entries of
        [] \<Rightarrow> stop (push [installed]) (io_error_of IoInvalidData)
      | displaced # _ \<Rightarrow>
          (let keep = lost (installed # displaced_entries)
           in seq (set_stage StRollbackPrecheck)
             (bind (try_or keep (call (digest_entry bk displaced))) (\<lambda>old_digest.
              seq (try_or keep (checkpoint bk PtRollbackPrecheck))
             (seq (set_stage StRollback)
             (seq (try_or (push (installed # displaced_entries)) (checkpoint bk PtRollback))
             (seq (set_stage StRollbackPrecheck)
             (bind (try_or keep (call (cb_is_candidate bk installed))) (\<lambda>candidate_still_installed.
              bind (try_or keep (call (digest_entry bk installed))) (\<lambda>current_installed_digest.
                if \<not> candidate_still_installed \<or> current_installed_digest \<noteq> candidate_digest then
                  stop keep (io_error_of IoInvalidData)
                else
                  seq (try_or keep (call (cb_verify_entry bk displaced)))
                 (seq (try_or keep (checkpoint bk PtRollbackValidated))
                 (seq (set_stage StRollback)
                 (bind (perform (cb_rollback bk displaced))
                    (accept_rollback bk opts old_digest installed displaced_entries))))))))))))))"

section \<open>Completion\<close>

definition sync_installed ::
  "('w, 'a, 'r, 'd) conditional_backend \<Rightarrow> write_options \<Rightarrow> 'a entry \<Rightarrow> ('w, 'a, unit) commit_m" where
  "sync_installed bk opts installed =
     whenever (sync_requirement opts \<noteq> SyncNotRequired)
       (seq (set_stage StSync)
         (bind (caught (seq (checkpoint bk PtSyncInstalled) (call (cb_sync_entry bk installed)))) (\<lambda>r.
            case r of
              Ok _ \<Rightarrow> modify (\<lambda>s. s\<lparr>cs_file_synced := True\<rparr>)
            | Err e \<Rightarrow>
                if sync_requirement opts = SyncRequired then stop (push [installed]) e
                else seq (modify (\<lambda>s. s\<lparr>cs_file_synced := False\<rparr>))
                       (whenever (wo_durability opts = DurPreferred) (modify not_durable))
            | Panic \<Rightarrow> panic)))"

definition sync_parent ::
  "('w, 'a, 'r, 'd) conditional_backend \<Rightarrow> write_options \<Rightarrow> 'a entry \<Rightarrow> ('w, 'a, unit) commit_m" where
  "sync_parent bk opts installed =
     (case wo_durability opts of
        DurRequired \<Rightarrow>
          seq (set_stage StSync)
            (try_or (push [installed])
              (seq (checkpoint bk PtBeforeRequiredParentSync) (call (cb_sync_namespace bk))))
      | DurPreferred \<Rightarrow>
          seq (set_stage StSync)
            (bind (caught (call (cb_sync_namespace bk))) (\<lambda>r. whenever (\<not> is_Ok r) (modify not_durable)))
      | DurNotRequired \<Rightarrow> ret ())"

definition complete_publication ::
  "('w, 'a, 'r, 'd) conditional_backend \<Rightarrow> write_options \<Rightarrow> 'a entry \<Rightarrow> 'a entry list \<Rightarrow> bool \<Rightarrow>
   ('w, 'a, unit) commit_m" where
  "complete_publication bk opts installed displaced installed_valid =
     seq (modify (push displaced))
       (if \<not> installed_valid then stop (push [installed]) (io_error_of IoInvalidData)
        else seq (sync_installed bk opts installed) (sync_parent bk opts installed))"

text \<open>From the native attempt to the end of the closure.\<close>

definition settle_attempt ::
  "('w, 'a, 'r, 'd) conditional_backend \<Rightarrow> 'd precondition \<Rightarrow> write_options \<Rightarrow> 'd \<Rightarrow> 'a native_attempt \<Rightarrow>
   ('w, 'a, 'a entry) commit_m" where
  "settle_attempt bk pre opts candidate_digest attempt =
     bind (accept_attempt bk pre attempt) (\<lambda>installed.
     bind (verify_displaced bk pre installed (at_displaced attempt) []) (\<lambda>displaced.
     bind (verify_installed bk installed displaced candidate_digest) (\<lambda>installed_valid.
     bind (gets cs_conflict) (\<lambda>conflict.
     seq (if conflict then roll_back bk opts candidate_digest installed displaced
          else complete_publication bk opts installed displaced installed_valid)
       (ret installed)))))"

text \<open>Everything after the candidate has been verified and copied, and the whole closure.\<close>

definition rest_of_commit ::
  "('w, 'a, 'r, 'd) conditional_backend \<Rightarrow> 'd precondition \<Rightarrow> write_options \<Rightarrow> 'd \<Rightarrow>
   ('w, 'a, 'a entry \<times> 'd) commit_m" where
  "rest_of_commit bk pre opts candidate_digest =
     seq (sync_before_publication bk opts)
    (seq (precheck bk pre opts)
    (bind (publish bk pre) (\<lambda>attempt.
     bind (settle_attempt bk pre opts candidate_digest attempt) (\<lambda>installed.
       ret (installed, candidate_digest)))))"

definition commit_body ::
  "('w, 'a, 'r, 'd) conditional_backend \<Rightarrow> 'd precondition \<Rightarrow> write_options \<Rightarrow>
   ('w, 'a, 'a entry \<times> 'd) commit_m" where
  "commit_body bk pre opts = bind (prepare_candidate bk) (rest_of_commit bk pre opts)"

definition failure_reason_of :: "write_stage \<Rightarrow> io_error_kind \<Rightarrow> bool \<Rightarrow> failure_reason" where
  "failure_reason_of stage kind conflict =
     (if stage = StPrecheck \<and> kind = IoAlreadyExists then TargetExists
      else if stage = StPrecheck \<and> kind = IoNotFound then TargetMissing
      else if stage = StPrecheck \<and> kind = IoInvalidData then PreconditionMismatch
      else if kind = IoAlreadyExists then TargetExists
      else if conflict then PostPublicationConflict
      else ReasonIo)"

definition recover :: "'a entry list \<Rightarrow> 'a recovery_file list" where
  "recover es = map (\<lambda>e. into_recovery e (en_role e)) es"

text \<open>
  Removal of the entries a successful commit no longer needs, copies last. \<open>sort_by_key\<close> is a stable
  sort by a boolean key.
\<close>

definition cleanup_order :: "'a entry list \<Rightarrow> 'a entry list" where
  "cleanup_order es = sort_key (\<lambda>e. en_role e = CandidateCopy) es"

fun cleanup_loop ::
  "('w, 'a, 'r, 'd) conditional_backend \<Rightarrow> 'a entry list \<Rightarrow> file_error list \<Rightarrow> 'a recovery_file list \<Rightarrow>
   'w \<Rightarrow> (file_error list \<times> 'a recovery_file list, io_error) result \<times> 'w" where
  "cleanup_loop bk [] errors retained w = (Ok (errors, retained), w)"
| "cleanup_loop bk (e # es) errors retained w =
     (let point = if en_role e = CandidateCopy then PtCleanupCopy else PtCleanupOld
      in case seq (cb_checkpoint bk point) (seq (cb_verify_entry bk e) (cb_remove_observed bk e)) w of
           (Ok _, w') \<Rightarrow> cleanup_loop bk es errors retained w'
         | (Err source, w') \<Rightarrow>
             cleanup_loop bk es
               (errors @ [from_io OpCleanup (Some (en_namespace_path e)) None source])
               (retained @ [into_recovery e (en_role e)]) w'
         | (Panic, w') \<Rightarrow> (Panic, w'))"

definition cleanup_entries ::
  "('w, 'a, 'r, 'd) conditional_backend \<Rightarrow> 'a entry list \<Rightarrow>
   ('w, file_error list \<times> 'a recovery_file list) io" where
  "cleanup_entries bk es =
     bind (cleanup_loop bk (cleanup_order es) [] []) (\<lambda>(errors, retained) w.
       case cb_take_cleanup_errors bk w of (more_errors, w') \<Rightarrow> (Ok (errors @ more_errors, retained), w'))"

definition commit_failed ::
  "('w, 'a, 'r, 'd) conditional_backend \<Rightarrow> ('w, 'a) commit_state \<Rightarrow> write_stage \<times> io_error \<Rightarrow>
   'a commit_error \<times> 'w" where
  "commit_failed bk s failure =
     (case (failure, cb_take_recovery_entries bk (cs_world s)) of
        ((failed_stage, source), (kept, w)) \<Rightarrow>
          (\<lparr>ce_error = from_io OpCommit None None source,
            ce_reason = failure_reason_of failed_stage (ioe_kind source) (cs_conflict s),
            ce_stage = failed_stage, ce_publication = cs_publication s,
            ce_recovery_files = recover kept @ recover (cs_entries s)\<rparr>, w))"

definition commit_succeeded ::
  "('w, 'a, 'r, 'd) conditional_backend \<Rightarrow> write_options \<Rightarrow> u64 \<Rightarrow> path option \<Rightarrow>
   ('w, 'a) commit_state \<Rightarrow> 'd \<Rightarrow> ('w, ('a, 'd) conditional_outcome) io" where
  "commit_succeeded bk opts bytes_written cwd s candidate_digest =
     bind (bind (caught (cb_checkpoint bk PtSaveComplete)) (\<lambda>r.
             case r of
               Ok _ \<Rightarrow> cleanup_entries bk (cs_entries s)
             | Err source \<Rightarrow> ret ([from_io OpCleanup None None source], recover (cs_entries s))
             | Panic \<Rightarrow> panic))
       (\<lambda>(cleanup_errors, retained).
          bind (if wo_durability opts \<noteq> DurNotRequired then
                  bind (caught (seq (cb_checkpoint bk PtCleanupSync) (cb_sync_namespace bk))) (\<lambda>r.
                    ret (case r of Err source \<Rightarrow> [from_io OpCommit None None source] | _ \<Rightarrow> []))
                else ret [])
            (\<lambda>sync_errors.
               ret (conditional_outcome_new candidate_digest
                 (with_file_synced (cs_file_synced s)
                   (write_outcome_new Committed True (cs_method s) (cs_durable s) bytes_written None))
                 retained (cleanup_errors @ sync_errors) cwd)))"

definition commit_start :: "write_options \<Rightarrow> 'w \<Rightarrow> ('w, 'a) commit_state" where
  "commit_start opts w =
     \<lparr>cs_world = w, cs_entries = [], cs_stage = StPrepare, cs_publication = NotPublished,
      cs_conflict = False, cs_attempt_error = None, cs_method = AtomicRename,
      cs_durable = (wo_durability opts \<noteq> DurNotRequired), cs_file_synced = False\<rparr>"

definition commit_conditional_with_directory ::
  "('w, 'a, 'r, 'd) conditional_backend \<Rightarrow> 'd precondition \<Rightarrow> write_options \<Rightarrow> u64 \<Rightarrow> path option \<Rightarrow>
   'w \<Rightarrow> (('a, 'd) conditional_outcome, 'a commit_error) result \<times> 'w" where
  "commit_conditional_with_directory bk pre opts bytes_written cwd w =
     (case commit_body bk pre opts (commit_start opts w) of
        (Ok (installed, candidate_digest), s) \<Rightarrow>
          (case commit_succeeded bk opts bytes_written cwd s candidate_digest (cs_world s) of
             (Ok out, w') \<Rightarrow> (Ok out, w')
           | (_, w') \<Rightarrow> (Panic, w'))
      | (Err failure, s) \<Rightarrow> (case commit_failed bk s failure of (e, w') \<Rightarrow> (Err e, w'))
      | (Panic, s) \<Rightarrow> (Panic, cs_world s))"

end
