(* ===== verification/Conditional_Invariant.thy ===== *)
theory Conditional_Invariant
  imports Conditional
begin

text \<open>
  Invariants of the conditional commit. An invariant speaks of the publication state that an exit
  would report, of the world and of the entries held for recovery. The locale \<open>commit_invariant\<close> asks
  that every operation of the backend other than the native publication and rollback keeps it; its
  lemmas carry it through each phase of the protocol, whichever exit the phase takes. The locale
  \<open>commit_rollback_invariant\<close> adds the law of the native rollback.
\<close>

type_synonym ('w, 'a) commit_inv = "publication_state \<Rightarrow> 'w \<Rightarrow> 'a entry list \<Rightarrow> bool"

definition inv_at :: "('w, 'a) commit_inv \<Rightarrow> publication_state \<Rightarrow> ('w, 'a) commit_state \<Rightarrow> bool" where
  "inv_at I p s = I p (cs_world s) (cs_entries s)"

definition holds :: "('w, 'a) commit_inv \<Rightarrow> ('w, 'a) commit_state \<Rightarrow> bool" where
  "holds I s = inv_at I (cs_publication s) s"

text \<open>
  A program that keeps \<open>J\<close> on every exit, and panics only where \<open>mp\<close> allows panics.
\<close>

definition keeps :: "('s \<Rightarrow> bool) \<Rightarrow> bool \<Rightarrow> ('s, 'e, 'x) prog \<Rightarrow> bool" where
  "keeps J mp m \<longleftrightarrow> (\<forall>s. J s \<longrightarrow> outcome m (\<lambda>_. J) (\<lambda>_. J) (\<lambda>_. mp) s)"

named_theorems keeps_intros

lemma keepsI: "(\<And>s. J s \<Longrightarrow> outcome m (\<lambda>_. J) (\<lambda>_. J) (\<lambda>_. mp) s) \<Longrightarrow> keeps J mp m"
  by (simp add: keeps_def)

lemma keepsD: "keeps J mp m \<Longrightarrow> J s \<Longrightarrow> outcome m (\<lambda>_. J) (\<lambda>_. J) (\<lambda>_. mp) s"
  by (simp add: keeps_def)

lemma keeps_basic [keeps_intros]:
  "keeps J mp (ret x)" "keeps J mp (fail e)" "keeps J mp (gets f)"
  by (simp_all add: keeps_def)

lemma keeps_bind [keeps_intros]:
  "keeps J mp m \<Longrightarrow> (\<And>x. keeps J mp (f x)) \<Longrightarrow> keeps J mp (bind m f)"
  by (auto simp: keeps_def elim!: outcome_conseq)

lemma keeps_seq [keeps_intros]: "keeps J mp m \<Longrightarrow> keeps J mp k \<Longrightarrow> keeps J mp (seq m k)"
  by (simp add: seq_def keeps_bind)

lemma keeps_caught [keeps_intros]: "keeps J mp m \<Longrightarrow> keeps J mp (caught m)"
  by (simp add: keeps_def)

text \<open>\<open>caught\<close> never returns a panic as a value.\<close>

lemma keeps_bind_caught [keeps_intros]:
  assumes "keeps J mp m" and "\<And>x. keeps J mp (f (Ok x))" and "\<And>e. keeps J mp (f (Err e))"
  shows "keeps J mp (bind (caught m) f)"
  using assms by (auto simp: keeps_def elim!: outcome_conseq)

lemma keeps_or_fail [keeps_intros]:
  "keeps J mp m \<Longrightarrow> (\<And>s. J s \<Longrightarrow> J (h s)) \<Longrightarrow> keeps J mp (or_fail f h m)"
  by (auto simp: keeps_def elim!: outcome_conseq)

lemma keeps_modify [keeps_intros]: "(\<And>s. J s \<Longrightarrow> J (h s)) \<Longrightarrow> keeps J mp (modify h)"
  by (simp add: keeps_def)

lemma keeps_whenever [keeps_intros]: "(c \<Longrightarrow> keeps J mp m) \<Longrightarrow> keeps J mp (whenever c m)"
  by (simp add: keeps_def)

lemma keeps_if [keeps_intros]:
  "(c \<Longrightarrow> keeps J mp m) \<Longrightarrow> (\<not> c \<Longrightarrow> keeps J mp k) \<Longrightarrow> keeps J mp (if c then m else k)"
  by simp

lemma keeps_try_or [keeps_intros]:
  "keeps J mp m \<Longrightarrow> (\<And>s. J s \<Longrightarrow> J (h s)) \<Longrightarrow> keeps J mp (try_or h m)"
  unfolding try_or_def by (rule keeps_or_fail)

lemma keeps_stop [keeps_intros]: "(\<And>s. J s \<Longrightarrow> J (h s)) \<Longrightarrow> keeps J mp (stop h e)"
  by (simp add: keeps_def stop_def)

lemma outcome_perform:
  "op (cs_world s) = (x, w') \<Longrightarrow> outcome (perform op) Q E P s \<longleftrightarrow> Q x (s\<lparr>cs_world := w'\<rparr>)"
  by (simp add: outcome_def perform_def)

text \<open>An operation of the backend that keeps the invariant.\<close>

definition quiet :: "('w, 'a) commit_inv \<Rightarrow> bool \<Rightarrow> ('w, 'x) io \<Rightarrow> bool" where
  "quiet I mp op \<longleftrightarrow>
     (\<forall>p w es r w'. I p w es \<longrightarrow> op w = (r, w') \<longrightarrow> I p w' es \<and> (r = Panic \<longrightarrow> mp))"

lemma keeps_call [keeps_intros]:
  assumes "quiet I mp op"
  shows "keeps (holds I) mp (call op)" "keeps (inv_at I p) mp (call op)"
  using assms
  by (auto simp: keeps_def outcome_def call_def quiet_def holds_def inv_at_def
      split: prod.split result.split)

lemma quiet_bind:
  "quiet I mp m \<Longrightarrow> (\<And>x. quiet I mp (f x)) \<Longrightarrow> quiet I mp (bind m f)"
proof -
  assume m: "quiet I mp m" and f: "\<And>x. quiet I mp (f x)"
  show ?thesis
    unfolding quiet_def
  proof (intro allI impI)
    fix p w es r w'
    assume i: "I p w es" and run: "bind m f w = (r, w')"
    obtain r1 w1 where r1: "m w = (r1, w1)" by fastforce
    with m i have w1: "I p w1 es \<and> (r1 = Panic \<longrightarrow> mp)" unfolding quiet_def by blast
    show "I p w' es \<and> (r = Panic \<longrightarrow> mp)"
    proof (cases r1)
      case (Ok x)
      with run r1 have "f x w1 = (r, w')" by (simp add: bind_def)
      with f [of x] w1 show ?thesis unfolding quiet_def by blast
    qed (use run r1 w1 in \<open>auto simp: bind_def\<close>)
  qed
qed

lemma quiet_seq: "quiet I mp m \<Longrightarrow> quiet I mp k \<Longrightarrow> quiet I mp (seq m k)"
  by (simp add: seq_def quiet_bind)

lemma holds_simps [simp]:
  "holds I (s\<lparr>cs_stage := st\<rparr>) = holds I s" "holds I (s\<lparr>cs_conflict := c\<rparr>) = holds I s"
  "holds I (s\<lparr>cs_attempt_error := ae\<rparr>) = holds I s" "holds I (s\<lparr>cs_method := mt\<rparr>) = holds I s"
  "holds I (s\<lparr>cs_durable := d\<rparr>) = holds I s" "holds I (s\<lparr>cs_file_synced := fs\<rparr>) = holds I s"
  "holds I (s\<lparr>cs_publication := p\<rparr>) = inv_at I p s" "holds I (not_durable s) = holds I s"
  "inv_at I p (s\<lparr>cs_method := mt\<rparr>) = inv_at I p s"
  "inv_at I p (s\<lparr>cs_publication := q\<rparr>) = inv_at I p s"
  by (simp_all add: holds_def inv_at_def not_durable_def)

lemma keeps_set_stage [keeps_intros]: "keeps (holds I) mp (set_stage st)"
  by (simp add: keeps_def set_stage_def)

locale commit_invariant =
  fixes bk :: "('w, 'a, 'r, 'd) conditional_backend" and I :: "('w, 'a) commit_inv" and mp :: bool
  assumes quiet_flush: "quiet I mp (cb_flush bk)"
    and quiet_create_candidate_copy: "quiet I mp (cb_create_candidate_copy bk)"
    and quiet_open_target: "quiet I mp (cb_open_target bk)"
    and quiet_preserve_metadata: "quiet I mp (cb_preserve_metadata bk e)"
    and quiet_sync_candidate: "quiet I mp (cb_sync_candidate bk)"
    and quiet_sync_entry: "quiet I mp (cb_sync_entry bk e)"
    and quiet_sync_namespace: "quiet I mp (cb_sync_namespace bk)"
    and quiet_is_candidate: "quiet I mp (cb_is_candidate bk e)"
    and quiet_verify_entry: "quiet I mp (cb_verify_entry bk e)"
    and quiet_begin_publication: "quiet I mp (cb_begin_publication bk)"
    and quiet_checkpoint: "quiet I mp (cb_checkpoint bk pt)"
    and quiet_digest_entry: "quiet I mp (digest_entry bk e)"
    and push_inv: "I p w es \<Longrightarrow> I p w (es @ xs)"
    and indeterminate_inv: "I p w es \<Longrightarrow> I Indeterminate w es"
    and publish_absent_inv:
      "I p w es \<Longrightarrow> cb_publish_absent bk w = (attempt, w') \<Longrightarrow> I (at_publication attempt) w' es"
    and publish_content_inv:
      "I p w es \<Longrightarrow> cb_publish_content bk w = (attempt, w') \<Longrightarrow> I (at_publication attempt) w' es"
begin

lemmas quiets = quiet_flush quiet_create_candidate_copy quiet_open_target quiet_preserve_metadata
  quiet_sync_candidate quiet_sync_entry quiet_sync_namespace quiet_is_candidate quiet_verify_entry
  quiet_begin_publication quiet_checkpoint quiet_digest_entry

lemma holds_push [intro]: "holds I s \<Longrightarrow> holds I (push es s)"
  by (simp add: holds_def inv_at_def push_def push_inv)

lemma inv_at_push [intro]: "inv_at I p s \<Longrightarrow> inv_at I p (push es s)"
  by (simp add: inv_at_def push_def push_inv)

lemma holds_lost [intro]: "holds I s \<Longrightarrow> holds I (lost es s)"
  unfolding lost_def holds_simps
  using holds_push [of s es] by (auto simp: holds_def inv_at_def intro: indeterminate_inv)

lemma keeps_checkpoint: "keeps (holds I) mp (checkpoint bk pt)" "keeps (inv_at I p) mp (checkpoint bk pt)"
  unfolding checkpoint_def by (rule keeps_call [OF quiet_checkpoint])+

lemma keeps_prepare_copy: "keeps (holds I) mp (prepare_copy bk d)"
  unfolding prepare_copy_def Let_def
  by (intro keeps_intros keeps_checkpoint quiets) simp_all

lemma keeps_prepare_candidate: "keeps (holds I) mp (prepare_candidate bk)"
  unfolding prepare_candidate_def
  by (intro keeps_intros keeps_checkpoint keeps_prepare_copy quiets)
    (auto split: prod.split intro!: keeps_intros keeps_checkpoint)

lemma keeps_tolerate_sync:
  "keeps (holds I) mp m \<Longrightarrow> keeps (holds I) mp (tolerate_sync opts m)"
  unfolding tolerate_sync_def by (intro keeps_intros) (auto intro!: keeps_intros)

lemma keeps_precheck: "keeps (holds I) mp (precheck bk pre opts)"
  unfolding precheck_def
  by (intro keeps_intros keeps_checkpoint quiets; cases pre)
    (auto intro!: keeps_intros keeps_tolerate_sync quiets)

lemma keeps_record_attempt_error: "keeps (holds I) mp (record_attempt_error pre attempt)"
  unfolding record_attempt_error_def by (auto split: option.split intro!: keeps_intros)

lemma keeps_verify_displaced: "keeps (holds I) mp (verify_displaced bk pre installed ds acc)"
proof (induction ds arbitrary: acc)
  case (Cons d ds)
  show ?case
    unfolding verify_displaced.simps
    by (intro keeps_intros keeps_checkpoint quiets Cons.IH)
      (auto split: precondition.split intro!: keeps_intros quiets)
qed (simp add: keeps_basic)

lemma keeps_verify_installed: "keeps (holds I) mp (verify_installed bk installed ds d)"
  unfolding verify_installed_def Let_def
  by (intro keeps_intros keeps_checkpoint quiets) auto

lemma keeps_sync_installed: "keeps (holds I) mp (sync_installed bk opts installed)"
  unfolding sync_installed_def
  by (intro keeps_intros keeps_checkpoint quiets) (auto intro!: keeps_intros)

lemma keeps_sync_parent: "keeps (holds I) mp (sync_parent bk opts installed)"
  unfolding sync_parent_def
  by (cases "wo_durability opts") (auto intro!: keeps_intros keeps_checkpoint quiets)

lemma keeps_complete_publication: "keeps (holds I) mp (complete_publication bk opts installed ds v)"
  unfolding complete_publication_def
  by (intro keeps_intros keeps_sync_installed keeps_sync_parent) auto

lemma keeps_retain_unreceipted: "keeps (holds I) mp (retain_unreceipted bk rb ds)"
proof (induction ds)
  case (Cons d ds)
  show ?case
    unfolding retain_unreceipted.simps
    by (intro keeps_intros quiets Cons.IH) auto
qed (simp add: keeps_basic)

lemma keeps_verify_rollback: "keeps (holds I) mp (verify_rollback bk opts old restored)"
  unfolding verify_rollback_def
  by (intro keeps_intros keeps_checkpoint quiets) auto

lemma accept_rollback_inv:
  assumes "inv_at I (at_publication rb) s"
  shows "outcome (accept_rollback bk opts old installed ds rb) (\<lambda>_. holds I) (\<lambda>_. holds I) (\<lambda>_. mp) s"
proof -
  have "keeps (holds I) mp
      (seq (try_or (lost (opt_list (at_installed rb) @ at_displaced rb @ ds)) (checkpoint bk PtRollbackCompleted))
        (case at_error rb of
           Some e \<Rightarrow> seq (retain_unreceipted bk rb ds)
             (stop (push (map (set_role Displaced) (opt_list (at_installed rb)) @
               map (set_role RollbackDisplaced) (at_displaced rb))) e)
         | None \<Rightarrow> (case at_installed rb of
             None \<Rightarrow> stop (lost (installed # ds @ at_displaced rb)) (io_error_of IoInvalidData)
           | Some restored \<Rightarrow> seq (modify (push (map (set_role RollbackDisplaced) (at_displaced rb))))
               (verify_rollback bk opts old restored))))"
    by (intro keeps_intros keeps_checkpoint)
      (auto split: option.split intro!: keeps_intros keeps_retain_unreceipted keeps_verify_rollback)
  from keepsD [OF this, of "s\<lparr>cs_publication := at_publication rb\<rparr>"] assms show ?thesis
    unfolding accept_rollback_def by simp
qed

lemma publish_inv:
  assumes "holds I s"
  shows "outcome (publish bk pre) (\<lambda>attempt s'. inv_at I (at_publication attempt) s') (\<lambda>_. holds I) (\<lambda>_. mp) s"
proof -
  have perform: "outcome (perform (case pre of Absent \<Rightarrow> cb_publish_absent bk | Content _ \<Rightarrow> cb_publish_content bk))
      (\<lambda>attempt s'. inv_at I (at_publication attempt) s') (\<lambda>_. holds I) (\<lambda>_. mp) s'" if "holds I s'" for s'
    using that publish_absent_inv publish_content_inv
    by (auto simp: outcome_def perform_def holds_def inv_at_def split: prod.split precondition.split)
  have "keeps (holds I) mp
     (seq (try_or id (checkpoint bk PtAfterPrecheck))
     (bind (gets (\<lambda>s. cb_candidate bk (cs_world s))) (\<lambda>candidate.
      seq (try_or id (call (cb_verify_entry bk candidate)))
     (seq (set_stage StPublish)
     (seq (try_or id (checkpoint bk PtPublish))
     (seq (try_or id (call (cb_begin_publication bk))) (ret ())))))))"
    by (intro keeps_intros keeps_checkpoint quiets) simp_all
  from keepsD [OF this assms] show ?thesis
    unfolding publish_def by (auto elim!: outcome_conseq intro: perform)
qed

lemma accept_attempt_inv:
  assumes "inv_at I (at_publication attempt) s"
  shows "outcome (accept_attempt bk pre attempt) (\<lambda>_. holds I) (\<lambda>_. holds I) (\<lambda>_. mp) s"
proof -
  let ?observed = "opt_list (at_installed attempt) @ at_displaced attempt"
  let ?published = "\<lambda>s. s\<lparr>cs_publication := at_publication attempt\<rparr>"
  have rest: "keeps (holds I) mp
     (if pre \<noteq> Absent \<and> at_publication attempt \<noteq> NotPublished \<and> at_displaced attempt = [] then
        stop (lost (opt_list (at_installed attempt)))
          (case at_error attempt of Some e \<Rightarrow> e | None \<Rightarrow> io_error_of IoInvalidData)
      else seq (record_attempt_error pre attempt)
        (case at_installed attempt of
           None \<Rightarrow> stop (lost (at_displaced attempt)) (io_error_of IoInvalidData)
         | Some installed \<Rightarrow> ret installed))"
    by (intro keeps_intros keeps_record_attempt_error) (auto split: option.split intro!: keeps_intros)
  have push: "holds I (push ?observed (?published s'))" if "inv_at I (at_publication attempt) s'" for s'
    using that by (intro holds_push) simp
  have start: "outcome (whenever (at_publication attempt \<noteq> NotPublished)
      (modify (\<lambda>s. s\<lparr>cs_method := at_method attempt\<rparr>)))
      (\<lambda>_. inv_at I (at_publication attempt)) (\<lambda>_. holds I) (\<lambda>_. mp) s"
    by (simp only: outcome_whenever outcome_modify holds_simps if_cancel assms)
  show ?thesis
    unfolding accept_attempt_def Let_def
  proof (rule outcome_seqI [OF start], rule outcome_seqI)
    fix s'
    assume s': "inv_at I (at_publication attempt) s'"
    show "outcome (try_or (\<lambda>s. push ?observed (?published s)) (checkpoint bk PtAfterPublish))
        (\<lambda>_. inv_at I (at_publication attempt)) (\<lambda>_. holds I) (\<lambda>_. mp) s'"
      unfolding try_or_def outcome_or_fail
      by (rule outcome_conseq [OF keepsD [OF keeps_checkpoint(2) s']]) (simp_all add: push)
  next
    fix s'
    assume "inv_at I (at_publication attempt) s'"
    then have "holds I (?published s')" by simp
    from keepsD [OF rest this]
    show "outcome (seq (modify ?published)
       (if pre \<noteq> Absent \<and> at_publication attempt \<noteq> NotPublished \<and> at_displaced attempt = [] then
          stop (lost (opt_list (at_installed attempt)))
            (case at_error attempt of Some e \<Rightarrow> e | None \<Rightarrow> io_error_of IoInvalidData)
        else seq (record_attempt_error pre attempt)
          (case at_installed attempt of
             None \<Rightarrow> stop (lost (at_displaced attempt)) (io_error_of IoInvalidData)
           | Some installed \<Rightarrow> ret installed))) (\<lambda>_. holds I) (\<lambda>_. holds I) (\<lambda>_. mp) s'"
      by (simp only: outcome_seq outcome_modify)
  qed
qed

lemma keeps_sync_before_publication:
  assumes "\<And>p w. I p w [] \<Longrightarrow> mp"
  shows "keeps (holds I) mp (sync_before_publication bk opts)"
proof -
  have mp if "holds I s" "cs_entries s = []" for s
    using assms that by (auto simp: holds_def inv_at_def)
  then have "outcome (sync_copy bk) (\<lambda>_. holds I) (\<lambda>_. holds I) (\<lambda>_. mp) s" if "holds I s" for s
    using that keepsD [OF keeps_call(1) [OF quiet_sync_entry] that]
    by (cases "cs_entries s") (auto simp: sync_copy_def)
  then have copy: "keeps (holds I) mp (sync_copy bk)" by (rule keepsI)
  show ?thesis
    unfolding sync_before_publication_def
    by (intro keeps_intros keeps_checkpoint keeps_tolerate_sync copy quiets) (auto intro!: keeps_intros)
qed

end

text \<open>The exits after the native rollback, with what the protocol knows when it calls it.\<close>

locale commit_rollback_invariant = commit_invariant +
  assumes rollback_exit:
    "holds I s \<Longrightarrow> cb_rollback bk displaced (cs_world s) = (rb, w') \<Longrightarrow>
     digest_entry bk displaced w1 = (Ok old, w2) \<Longrightarrow>
     outcome (accept_rollback bk opts old installed (displaced # ds) rb)
       (\<lambda>_. holds I) (\<lambda>_. holds I) (\<lambda>_. mp) (s\<lparr>cs_world := w'\<rparr>)"
begin

lemma roll_back_inv: "keeps (holds I) mp (roll_back bk opts d installed ds)"
proof (cases ds)
  case Nil
  then show ?thesis by (simp add: roll_back_def) (intro keeps_intros, auto)
next
  case (Cons displaced rest)
  let ?keep = "lost (installed # ds)"
  let ?tail = "\<lambda>old. seq (try_or ?keep (checkpoint bk PtRollbackPrecheck))
     (seq (set_stage StRollback)
     (seq (try_or (push (installed # ds)) (checkpoint bk PtRollback))
     (seq (set_stage StRollbackPrecheck)
     (bind (try_or ?keep (call (cb_is_candidate bk installed))) (\<lambda>still.
      bind (try_or ?keep (call (digest_entry bk installed))) (\<lambda>current.
        if \<not> still \<or> current \<noteq> d then stop ?keep (io_error_of IoInvalidData)
        else
          seq (try_or ?keep (call (cb_verify_entry bk displaced)))
         (seq (try_or ?keep (checkpoint bk PtRollbackValidated))
         (seq (set_stage StRollback)
         (bind (perform (cb_rollback bk displaced)) (accept_rollback bk opts old installed ds))))))))))"
  have perform: "keeps (holds I) mp (bind (perform (cb_rollback bk displaced)) (accept_rollback bk opts old installed ds))"
    if "digest_entry bk displaced w1 = (Ok old, w2)" for old w1 w2
  proof (rule keepsI)
    fix s
    assume s: "holds I s"
    obtain rb w' where rb: "cb_rollback bk displaced (cs_world s) = (rb, w')" by fastforce
    from rollback_exit [OF s rb that, of opts installed rest]
    show "outcome (bind (perform (cb_rollback bk displaced)) (accept_rollback bk opts old installed ds))
        (\<lambda>_. holds I) (\<lambda>_. holds I) (\<lambda>_. mp) s"
      by (simp add: Cons outcome_perform [of "cb_rollback bk displaced", OF rb])
  qed
  have tail: "keeps (holds I) mp (?tail old)" if "digest_entry bk displaced w1 = (Ok old, w2)" for old w1 w2
    by (intro keeps_intros keeps_checkpoint perform [OF that] quiets) auto
  have read: "outcome (try_or ?keep (call (digest_entry bk displaced)))
      (\<lambda>old s'. holds I s' \<and> (\<exists>w1 w2. digest_entry bk displaced w1 = (Ok old, w2))) (\<lambda>_. holds I) (\<lambda>_. mp) s"
    if "holds I s" for s
  proof -
    have k: "keeps (holds I) mp (try_or ?keep (call (digest_entry bk displaced)))"
      by (intro keeps_intros quiets) auto
    have "outcome (try_or ?keep (call (digest_entry bk displaced)))
        (\<lambda>old s'. \<exists>w1 w2. digest_entry bk displaced w1 = (Ok old, w2)) (\<lambda>_ _. True) (\<lambda>_. True) s"
      by (auto simp: try_or_def outcome_def call_def or_fail_def split: prod.split result.split)
    from outcome_conj [OF keepsD [OF k that] this] show ?thesis
      by (rule outcome_conseq) simp_all
  qed
  have "keeps (holds I) mp (bind (try_or ?keep (call (digest_entry bk displaced))) ?tail)"
    by (rule keepsI, rule outcome_bindI [OF read]) (blast intro: keepsD [OF tail])+
  then have "keeps (holds I) mp (seq (set_stage StRollbackPrecheck)
      (bind (try_or ?keep (call (digest_entry bk displaced))) ?tail))"
    by (intro keeps_seq keeps_set_stage)
  then show ?thesis
    unfolding roll_back_def Cons list.case Let_def .
qed

lemma settle_attempt_inv:
  assumes "inv_at I (at_publication attempt) s"
  shows "outcome (settle_attempt bk pre opts d attempt) (\<lambda>_. holds I) (\<lambda>_. holds I) (\<lambda>_. mp) s"
proof -
  have "keeps (holds I) mp
     (bind (verify_displaced bk pre installed (at_displaced attempt) []) (\<lambda>displaced.
      bind (verify_installed bk installed displaced d) (\<lambda>installed_valid.
      bind (gets cs_conflict) (\<lambda>conflict.
      seq (if conflict then roll_back bk opts d installed displaced
           else complete_publication bk opts installed displaced installed_valid)
        (ret installed)))))" for installed
    by (intro keeps_intros keeps_verify_displaced keeps_verify_installed roll_back_inv
        keeps_complete_publication)
  then show ?thesis
    unfolding settle_attempt_def
    by (rule outcome_bindI [OF accept_attempt_inv [OF assms] keepsD])
qed

lemma keeps_rest_of_commit:
  assumes "\<And>p w. I p w [] \<Longrightarrow> mp"
  shows "keeps (holds I) mp (rest_of_commit bk pre opts d)"
proof -
  have "keeps (holds I) mp (bind (publish bk pre) (\<lambda>attempt.
      bind (settle_attempt bk pre opts d attempt) (\<lambda>installed. ret (installed, d))))"
    by (rule keepsI) (auto elim!: outcome_conseq [OF publish_inv] intro: settle_attempt_inv)
  then show ?thesis
    unfolding rest_of_commit_def
    by (intro keeps_seq keeps_sync_before_publication [OF assms] keeps_precheck)
qed

end

text \<open>The usual law of the native rollback: what it reports, the invariant holds for.\<close>

context commit_invariant begin

lemma rollback_invariantI:
  assumes "\<And>p w es displaced rb w'. I p w es \<Longrightarrow> cb_rollback bk displaced w = (rb, w') \<Longrightarrow>
    I (at_publication rb) w' es"
  shows "commit_rollback_invariant bk I mp"
  by (unfold_locales, rule accept_rollback_inv) (auto simp: holds_def inv_at_def dest: assms)

end
end
