(* ===== verification/Memory_Backend.thy ===== *)
theory Memory_Backend
  imports Conditional
begin

text \<open>
  A conditional backend over four names in memory, for concrete runs of the protocol: the target, the
  candidate, its copy, and a table of writes by a competing process, one per checkpoint, with a mark
  that the names are synchronized, which publication withdraws. A file is an
  identity with its bytes, publication exchanges two names, and the digest of a file is its content.
  The deterministic doubles of the repository's own tests have this shape.
\<close>

datatype slot = TargetSlot | CandidateSlot | CopySlot

record memory_world =
  mw_target :: "(nat \<times> byte list) option"
  mw_candidate :: "(nat \<times> byte list) option"
  mw_copy :: "(nat \<times> byte list) option"
  mw_rival :: "conditional_point \<Rightarrow> byte list option"
  mw_candidate_id :: nat
  mw_names_synced :: bool

definition slot_entry :: "recovery_role \<Rightarrow> slot \<Rightarrow> slot entry" where
  "slot_entry r x = \<lparr>en_role = r, en_namespace_path = [], en_diagnostic_path = None, en_access = x\<rparr>"

fun mw_files :: "memory_world \<Rightarrow> slot \<Rightarrow> (nat \<times> byte list) option" where
  "mw_files w TargetSlot = mw_target w"
| "mw_files w CandidateSlot = mw_candidate w"
| "mw_files w CopySlot = mw_copy w"

fun put :: "slot \<Rightarrow> (nat \<times> byte list) option \<Rightarrow> memory_world \<Rightarrow> memory_world" where
  "put TargetSlot f w = w\<lparr>mw_target := f\<rparr>"
| "put CandidateSlot f w = w\<lparr>mw_candidate := f\<rparr>"
| "put CopySlot f w = w\<lparr>mw_copy := f\<rparr>"

definition swap_names :: "memory_world \<Rightarrow> memory_world" where
  "swap_names w = put TargetSlot (mw_files w CandidateSlot) (put CandidateSlot (mw_files w TargetSlot) w)"

definition present :: "slot entry \<Rightarrow> (memory_world, unit) io" where
  "present e w =
     (if mw_files w (en_access e) = None then Err (io_error_of IoNotFound) else Ok (), w)"

definition memory_backend :: "(memory_world, slot, slot, byte list) conditional_backend" where
  "memory_backend =
     \<lparr>cb_write = (\<lambda>bytes w. (Ok (length bytes), w)),
      cb_write_vectored = (\<lambda>slices w. (Ok (length (concat slices)), w)),
      cb_flush = (\<lambda>w. (Ok (), w)),
      cb_candidate = (\<lambda>_. slot_entry StagedCandidate CandidateSlot),
      cb_create_candidate_copy =
        (\<lambda>w. (Ok (slot_entry StagedCandidate CopySlot),
              put CopySlot (map_option (\<lambda>f. (1, snd f)) (mw_files w CandidateSlot)) w)),
      cb_open_target =
        (\<lambda>w. (if mw_files w TargetSlot = None then Err (io_error_of IoNotFound)
              else Ok (slot_entry Displaced TargetSlot), w)),
      cb_preserve_metadata = (\<lambda>_ w. (Ok (), w)),
      cb_sync_candidate = (\<lambda>w. (Ok (), w)),
      cb_sync_entry = present,
      cb_sync_namespace = (\<lambda>w. (Ok (), w\<lparr>mw_names_synced := True\<rparr>)),
      cb_is_candidate =
        (\<lambda>e w. (case mw_files w (en_access e) of
                  None \<Rightarrow> Err (io_error_of IoNotFound)
                | Some f \<Rightarrow> Ok (fst f = mw_candidate_id w), w)),
      cb_verify_entry = present,
      cb_begin_publication = (\<lambda>w. (Ok (), w)),
      cb_publish_absent =
        (\<lambda>w. if mw_files w TargetSlot = None then
               (\<lparr>at_method = AtomicRename, at_error = None, at_publication = Published,
                 at_installed = Some (slot_entry StagedCandidate TargetSlot), at_displaced = []\<rparr>,
                put CandidateSlot None (put TargetSlot (mw_files w CandidateSlot) (w\<lparr>mw_names_synced := False\<rparr>)))
             else
               (\<lparr>at_method = AtomicRename, at_error = Some (io_error_of IoAlreadyExists),
                 at_publication = NotPublished, at_installed = None, at_displaced = []\<rparr>, w)),
      cb_publish_content =
        (\<lambda>w. (\<lparr>at_method = AtomicExchange, at_error = None, at_publication = Published,
               at_installed = Some (slot_entry StagedCandidate TargetSlot),
               at_displaced = [slot_entry Displaced CandidateSlot]\<rparr>,
              swap_names (w\<lparr>mw_names_synced := False\<rparr>))),
      cb_rollback =
        (\<lambda>_ w. (\<lparr>at_method = AtomicExchange, at_error = None, at_publication = Restored,
                 at_installed = Some (slot_entry Displaced TargetSlot),
                 at_displaced = [slot_entry RollbackDisplaced CandidateSlot]\<rparr>, swap_names w)),
      cb_remove_observed = (\<lambda>e w. (Ok (), put (en_access e) None w)),
      cb_abort = (\<lambda>w. (Ok (), put CandidateSlot None w)),
      cb_take_recovery_entries = (\<lambda>w. ([], w)),
      cb_take_cleanup_errors = (\<lambda>w. ([], w)),
      cb_checkpoint =
        (\<lambda>p w. (Ok (), case mw_rival w p of None \<Rightarrow> w | Some bytes \<Rightarrow> put TargetSlot (Some (9, bytes)) w)),
      ra_open_reader =
        (\<lambda>x w. (if mw_files w x = None then Err (error_new KNotFound OpOpenReader) else Ok x, w)),
      rd_seek_start = (\<lambda>_ w. (Ok (), w)),
      rd_digest_all =
        (\<lambda>x w. (case mw_files w x of None \<Rightarrow> Err (io_error_of IoNotFound) | Some f \<Rightarrow> Ok (snd f), w))\<rparr>"

text \<open>The target holds \<open>[1]\<close> and the candidate \<open>[2]\<close>.\<close>

definition memory_start :: memory_world where
  "memory_start =
     \<lparr>mw_target = Some (5, [1]), mw_candidate = Some (7, [2]), mw_copy = None,
      mw_rival = (\<lambda>_. None), mw_candidate_id = 7, mw_names_synced = False\<rparr>"

definition raced_start :: memory_world where
  "raced_start = memory_start\<lparr>mw_rival := (\<lambda>p. case p of PtAfterPrecheck \<Rightarrow> Some [3] | _ \<Rightarrow> None)\<rparr>"

definition strict_options :: write_options where
  "strict_options =
     (write_options_new CreateOrReplace)\<lparr>wo_durability := DurRequired, wo_file_sync := SyncRequired\<rparr>"

end
