(* ===== verification/Conditional_Correct.thy ===== *)
theory Conditional_Correct
  imports Conditional_Invariant Memory_Backend "HOL-Library.Sublist"
begin

text \<open>
  What the conditional commit guarantees over an arbitrary backend: what was read back when it reports
  success, that the verified copy of the candidate survives every later failure, that synchronization
  claims are backed by successful calls, that a restored target was read back, and that the protocol
  itself never panics.
\<close>

section \<open>Evidence from the backend\<close>

definition read_as :: "('w, 'a, 'r, 'd) conditional_backend \<Rightarrow> 'a entry \<Rightarrow> 'd \<Rightarrow> bool" where
  "read_as bk e d \<longleftrightarrow> (\<exists>w w'. digest_entry bk e w = (Ok d, w'))"

text \<open>The digest that was read from the candidate before anything was published.\<close>

definition candidate_read :: "('w, 'a, 'r, 'd) conditional_backend \<Rightarrow> 'd \<Rightarrow> bool" where
  "candidate_read bk d \<longleftrightarrow> (\<exists>w. read_as bk (cb_candidate bk w) d)"

definition succeeds :: "('w, 'x) io \<Rightarrow> 'x \<Rightarrow> bool" where
  "succeeds op x \<longleftrightarrow> (\<exists>w w'. op w = (Ok x, w'))"

lemma read_asI: "digest_entry bk e w = (Ok d, w') \<Longrightarrow> read_as bk e d"
  unfolding read_as_def by blast

lemma candidate_readI: "digest_entry bk (cb_candidate bk w0) w = (Ok d, w') \<Longrightarrow> candidate_read bk d"
  unfolding candidate_read_def by (blast intro: read_asI)

lemma succeedsI: "op w = (Ok x, w') \<Longrightarrow> succeeds op x"
  unfolding succeeds_def by blast

lemma digest_entry_set_role [simp]: "digest_entry bk (set_role r e) = digest_entry bk e"
  by (simp add: digest_entry_def set_role_def)

lemma read_as_set_role [simp]: "read_as bk (set_role r e) d = read_as bk e d"
  by (simp add: read_as_def)

lemma set_role_simps [simp]:
  "en_role (set_role r e) = r" "en_access (set_role r e) = en_access e"
  "en_namespace_path (set_role r e) = en_namespace_path e"
  by (simp_all add: set_role_def)

text \<open>Only the world and the value matter after a call.\<close>

lemma outcome_callI:
  assumes "\<And>x w'. op (cs_world s) = (Ok x, w') \<Longrightarrow> Q x (s\<lparr>cs_world := w'\<rparr>)"
    and "\<And>e w'. op (cs_world s) = (Err e, w') \<Longrightarrow> E e (s\<lparr>cs_world := w'\<rparr>)"
    and "\<And>w'. op (cs_world s) = (Panic, w') \<Longrightarrow> P (s\<lparr>cs_world := w'\<rparr>)"
  shows "outcome (call op) Q E P s"
  using assms by (auto simp: outcome_def call_def split: prod.split result.split)

lemma outcome_try_or [simp]:
  "outcome (try_or h m) Q E P s \<longleftrightarrow> outcome m Q (\<lambda>e s'. E (cs_stage s', e) (h s')) P s"
  by (simp add: try_or_def)

lemma outcome_stop [simp]: "outcome (stop h e) Q E P s \<longleftrightarrow> E (cs_stage (h s), e) (h s)"
  by (simp add: stop_def)

lemma outcome_set_stage [simp]: "outcome (set_stage st) Q E P s \<longleftrightarrow> Q () (s\<lparr>cs_stage := st\<rparr>)"
  by (simp add: set_stage_def)

lemma push_simps [simp]:
  "cs_stage (push es s) = cs_stage s" "cs_world (push es s) = cs_world s"
  "cs_entries (push es s) = cs_entries s @ es" "cs_publication (push es s) = cs_publication s"
  "cs_conflict (push es s) = cs_conflict s" "cs_durable (push es s) = cs_durable s"
  "cs_file_synced (push es s) = cs_file_synced s"
  by (simp_all add: push_def)

lemma lost_simps [simp]:
  "cs_stage (lost es s) = cs_stage s" "cs_entries (lost es s) = cs_entries s @ es"
  "cs_publication (lost es s) = Indeterminate"
  by (simp_all add: lost_def)

lemma not_durable_simps [simp]:
  "cs_durable (not_durable s) = False" "cs_file_synced (not_durable s) = cs_file_synced s"
  "cs_conflict (not_durable s) = cs_conflict s" "cs_entries (not_durable s) = cs_entries s"
  "cs_stage (not_durable s) = cs_stage s"
  by (simp_all add: not_durable_def)

section \<open>The verified copy is never lost\<close>

definition copy_held :: "('w, 'a, 'r, 'd) conditional_backend \<Rightarrow> 'd \<Rightarrow> 'a entry list \<Rightarrow> bool" where
  "copy_held bk d es \<longleftrightarrow>
     (\<exists>copy rest. es = copy # rest \<and> en_role copy = CandidateCopy \<and> read_as bk copy d)"

definition early_stages :: "write_stage set" where
  "early_stages = {StPrepare, StVerifyCandidate, StPrepareCandidateCopy, StVerifyCandidateCopy}"

lemma prepare_copy_verified:
  "outcome (prepare_copy bk d)
     (\<lambda>copy s'. en_role copy = CandidateCopy \<and> read_as bk copy d \<and> cs_entries s' = cs_entries s)
     (\<lambda>_ _. True) (\<lambda>_. True) s"
  unfolding prepare_copy_def Let_def checkpoint_def
  by (auto intro!: outcome_callI intro: read_asI)

lemma prepare_candidate_verified:
  assumes "cs_stage s = StPrepare" and "cs_entries s = []"
  shows "outcome (prepare_candidate bk)
     (\<lambda>d s'. copy_held bk d (cs_entries s') \<and> candidate_read bk d)
     (\<lambda>e _. fst e \<in> early_stages) (\<lambda>_. True) s"
proof -
  have copy: "outcome (prepare_copy bk d)
      (\<lambda>copy s'. en_role copy = CandidateCopy \<and> read_as bk copy d \<and> cs_entries s' = [])
      (\<lambda>_ _. True) (\<lambda>_. True) s'" if "cs_entries s' = []" for d s'
    using prepare_copy_verified [of bk d s'] that by simp
  show ?thesis
    unfolding prepare_candidate_def checkpoint_def
    using assms
    by (auto simp: early_stages_def copy_held_def opt_list_def
        intro!: outcome_callI outcome_conseq [OF copy] intro: candidate_readI split: option.split)
qed

lemma copy_held_append: "copy_held bk d es \<Longrightarrow> copy_held bk d (es @ xs)"
  by (auto simp: copy_held_def)

lemma quiet_const [simp]: "quiet (\<lambda>_ _. C) True op"
  by (simp add: quiet_def)

interpretation copy_inv: commit_invariant bk "\<lambda>_ _. copy_held bk d" True for bk d
  by unfold_locales (simp_all add: copy_held_append)

interpretation copy_kept: commit_rollback_invariant bk "\<lambda>_ _. copy_held bk d" True for bk d
  by (rule copy_inv.rollback_invariantI)

lemma commit_body_copy:
  fixes bk :: "('w, 'a, 'r, 'd) conditional_backend"
  shows "outcome (commit_body bk pre opts)
     (\<lambda>r s'. copy_held bk (snd r) (cs_entries s') \<and> candidate_read bk (snd r))
     (\<lambda>e s'. fst e \<in> early_stages \<or> (\<exists>d. copy_held bk d (cs_entries s') \<and> candidate_read bk d))
     (\<lambda>_. True) (commit_start opts w)"
  unfolding commit_body_def
proof (rule outcome_bindI [OF outcome_conseq [OF prepare_candidate_verified]])
  fix d and s :: "('w, 'a) commit_state"
  assume s: "copy_held bk d (cs_entries s) \<and> candidate_read bk d"
  have snd: "outcome (rest_of_commit bk pre opts d) (\<lambda>r _. snd r = d) (\<lambda>_ _. True) (\<lambda>_. True) s"
    unfolding rest_of_commit_def by simp
  show "outcome (rest_of_commit bk pre opts d)
     (\<lambda>r s'. copy_held bk (snd r) (cs_entries s') \<and> candidate_read bk (snd r))
     (\<lambda>e s'. fst e \<in> early_stages \<or> (\<exists>d. copy_held bk d (cs_entries s') \<and> candidate_read bk d))
     (\<lambda>_. True) s"
  proof -
    have "holds (\<lambda>_ _. copy_held bk d) s"
      using s by (simp add: holds_def inv_at_def)
    from outcome_conj [OF keepsD [OF copy_kept.keeps_rest_of_commit this] snd] show ?thesis
      by (rule outcome_conseq) (use s in \<open>auto simp: holds_def inv_at_def\<close>)
  qed
qed (auto simp: commit_start_def)


section \<open>What success means\<close>

text \<open>A native attempt that the backend made for the precondition.\<close>

definition attempted ::
  "('w, 'a, 'r, 'd) conditional_backend \<Rightarrow> 'd precondition \<Rightarrow> 'a native_attempt \<Rightarrow> bool" where
  "attempted bk pre attempt \<longleftrightarrow>
     (\<exists>w w'. (case pre of Absent \<Rightarrow> cb_publish_absent bk | Content _ \<Rightarrow> cb_publish_content bk) w =
        (attempt, w'))"

lemma publish_attempted:
  "outcome (publish bk pre) (\<lambda>attempt _. attempted bk pre attempt) (\<lambda>_ _. True) (\<lambda>_. True) s"
proof -
  have "outcome (perform op) (\<lambda>x _. \<exists>w w'. op w = (x, w')) E P s" for op E P s
    by (auto simp: outcome_def perform_def split: prod.split)
  then show ?thesis
    unfolding publish_def checkpoint_def attempted_def by (auto intro!: outcome_callI)
qed

lemma accept_attempt_ok:
  "outcome (accept_attempt bk pre attempt)
     (\<lambda>installed s'. at_installed attempt = Some installed \<and>
        (\<not> cs_conflict s' \<longrightarrow> at_error attempt = None) \<and>
        (pre \<noteq> Absent \<and> at_publication attempt \<noteq> NotPublished \<longrightarrow> at_displaced attempt \<noteq> []))
     (\<lambda>_ _. True) (\<lambda>_. True) s"
  unfolding accept_attempt_def record_attempt_error_def checkpoint_def Let_def
  by (auto intro!: outcome_callI split: option.split)

lemma verify_displaced_ok:
  "outcome (verify_displaced bk pre installed ds acc)
     (\<lambda>ds' s'. (cs_conflict s \<longrightarrow> cs_conflict s') \<and>
        (\<not> cs_conflict s' \<longrightarrow> ds' = acc @ ds \<and> (\<forall>ex. pre = Content ex \<longrightarrow> (\<forall>d \<in> set ds. read_as bk d ex))))
     (\<lambda>_ _. True) (\<lambda>_. True) s"
proof (induction ds arbitrary: acc s)
  case (Cons d ds)
  show ?case
  proof (cases pre)
    case Absent
    note IH = Cons.IH [unfolded Absent]
    show ?thesis
      unfolding verify_displaced.simps checkpoint_def Absent
      by (auto intro!: outcome_callI outcome_conseq [OF IH])
  next
    case (Content ex)
    note IH = Cons.IH [unfolded Content]
    show ?thesis
      unfolding verify_displaced.simps checkpoint_def Content
      by (auto intro!: outcome_callI outcome_conseq [OF IH] intro: read_asI)
  qed
qed simp

lemma verify_installed_ok:
  "outcome (verify_installed bk installed ds d)
     (\<lambda>valid s'. (cs_conflict s \<longrightarrow> cs_conflict s') \<and> (\<not> cs_conflict s' \<longrightarrow> valid) \<and>
        (valid \<longrightarrow> succeeds (cb_is_candidate bk installed) True \<and> read_as bk installed d))
     (\<lambda>_ _. True) (\<lambda>_. True) s"
  unfolding verify_installed_def checkpoint_def Let_def
  by (auto intro!: outcome_callI intro: read_asI succeedsI)

text \<open>The rollback of a conflicting publication always leaves with an error.\<close>

definition never_ok :: "('s, 'e, 'x) prog \<Rightarrow> bool" where
  "never_ok m \<longleftrightarrow> (\<forall>s x s'. m s \<noteq> (Ok x, s'))"

lemma never_ok_intros:
  "never_ok (stop h e)" "never_ok k \<Longrightarrow> never_ok (seq m' k)" "(\<And>x. never_ok (f x)) \<Longrightarrow> never_ok (bind m f)"
  "never_ok m1 \<Longrightarrow> never_ok m2 \<Longrightarrow> never_ok (if c then m1 else m2)"
  by (auto simp: never_ok_def stop_def seq_def bind_def modify_def gets_def fail_def
      split: prod.splits result.splits)

lemma accept_rollback_fails: "never_ok (accept_rollback bk opts old installed ds rb)"
proof -
  have "never_ok (verify_rollback bk opts old restored)" for restored
    unfolding verify_rollback_def by (intro never_ok_intros)
  then show ?thesis
    unfolding accept_rollback_def by (auto intro!: never_ok_intros split: option.split)
qed

lemma roll_back_fails: "never_ok (roll_back bk opts d installed ds)"
  unfolding roll_back_def Let_def
  by (auto intro!: never_ok_intros accept_rollback_fails split: list.split)

lemma outcome_never_ok:
  "never_ok m \<Longrightarrow> outcome m Q E P s \<longleftrightarrow> outcome m (\<lambda>_ _. True) E P s"
  by (auto simp: never_ok_def outcome_def split: prod.split result.split)

lemmas outcome_roll_back [simp] = outcome_never_ok [OF roll_back_fails]

definition precondition_observed ::
  "('w, 'a, 'r, 'd) conditional_backend \<Rightarrow> 'd precondition \<Rightarrow> bool" where
  "precondition_observed bk pre \<longleftrightarrow>
     (case pre of
        Absent \<Rightarrow> \<exists>w e w'. cb_open_target bk w = (Err e, w') \<and> ioe_kind e = IoNotFound
      | Content expected \<Rightarrow> \<exists>target. succeeds (cb_open_target bk) target \<and> read_as bk target expected)"

lemma absence_observed:
  "cb_open_target bk w = (Err e, w') \<Longrightarrow> ioe_kind e = IoNotFound \<Longrightarrow> precondition_observed bk Absent"
  by (auto simp: precondition_observed_def)

lemma content_observed:
  "cb_open_target bk w = (Ok target, w') \<Longrightarrow> digest_entry bk target w1 = (Ok d, w2) \<Longrightarrow>
   precondition_observed bk (Content d)"
  by (auto simp: precondition_observed_def intro: read_asI succeedsI)

lemma precheck_ok:
  "outcome (precheck bk pre opts) (\<lambda>_ _. precondition_observed bk pre) (\<lambda>_ _. True) (\<lambda>_. True) s"
proof (cases pre)
  case Absent
  then show ?thesis
    unfolding precheck_def checkpoint_def by (auto intro!: outcome_callI intro: absence_observed)
next
  case (Content d)
  show ?thesis
    unfolding precheck_def checkpoint_def Content
    by (auto simp: tolerate_sync_def intro!: outcome_callI; rule content_observed; assumption)
qed

text \<open>What has been read back when the attempt is settled without a conflict.\<close>

definition installation_verified ::
  "('w, 'a, 'r, 'd) conditional_backend \<Rightarrow> 'd precondition \<Rightarrow> 'd \<Rightarrow> 'a native_attempt \<Rightarrow> 'a entry \<Rightarrow> bool" where
  "installation_verified bk pre d attempt installed \<longleftrightarrow>
     at_error attempt = None \<and> at_installed attempt = Some installed \<and>
     succeeds (cb_is_candidate bk installed) True \<and> read_as bk installed d \<and>
     (\<forall>expected. pre = Content expected \<longrightarrow>
        (at_publication attempt \<noteq> NotPublished \<longrightarrow> at_displaced attempt \<noteq> []) \<and>
        (\<forall>displaced \<in> set (at_displaced attempt). read_as bk displaced expected))"

lemma settle_attempt_ok:
  "outcome (settle_attempt bk pre opts d attempt)
     (\<lambda>installed _. installation_verified bk pre d attempt installed) (\<lambda>_ _. True) (\<lambda>_. True) s"
  unfolding settle_attempt_def
  by (auto simp: installation_verified_def intro!: outcome_conseq [OF accept_attempt_ok]
      outcome_conseq [OF verify_displaced_ok] outcome_conseq [OF verify_installed_ok])

lemma rest_of_commit_ok:
  "outcome (rest_of_commit bk pre opts d)
     (\<lambda>(installed, d') _. d' = d \<and> precondition_observed bk pre \<and>
        (\<exists>attempt. attempted bk pre attempt \<and> installation_verified bk pre d attempt installed))
     (\<lambda>_ _. True) (\<lambda>_. True) s"
proof -
  have tail: "outcome (bind (publish bk pre) (\<lambda>attempt.
      bind (settle_attempt bk pre opts d attempt) (\<lambda>installed. ret (installed, d))))
     (\<lambda>(installed, d') _. d' = d \<and>
        (\<exists>attempt. attempted bk pre attempt \<and> installation_verified bk pre d attempt installed))
     (\<lambda>_ _. True) (\<lambda>_. True) s" for s
    by (rule outcome_bindI [OF publish_attempted], rule outcome_bindI [OF settle_attempt_ok]) auto
  show ?thesis
    unfolding rest_of_commit_def
  proof (rule outcome_seqI [where R = "\<lambda>_. True"], simp, rule outcome_seqI [OF precheck_ok])
    fix s
    assume "precondition_observed bk pre"
    with tail [of s] show "outcome (bind (publish bk pre) (\<lambda>attempt.
        bind (settle_attempt bk pre opts d attempt) (\<lambda>installed. ret (installed, d))))
       (\<lambda>(installed, d') _. d' = d \<and> precondition_observed bk pre \<and>
          (\<exists>attempt. attempted bk pre attempt \<and> installation_verified bk pre d attempt installed))
       (\<lambda>_ _. True) (\<lambda>_. True) s"
      by (auto elim!: outcome_conseq simp del: outcome_bind)
  qed
qed


lemma commit_body_ok:
  "outcome (commit_body bk pre opts)
     (\<lambda>(installed, d) _. precondition_observed bk pre \<and>
        (\<exists>attempt. attempted bk pre attempt \<and> installation_verified bk pre d attempt installed))
     (\<lambda>_ _. True) (\<lambda>_. True) s"
  unfolding commit_body_def
  by (rule outcome_bindI [where R = "\<lambda>_ _. True"], simp)
    (rule outcome_conseq [OF rest_of_commit_ok], auto)

section \<open>What the synchronization flags mean\<close>

text \<open>
  Before the installed entry is synchronized, \<open>durable\<close> can only be withdrawn, and not where durability
  is required.
\<close>

definition flags :: "write_options \<Rightarrow> ('w, 'a) commit_state \<Rightarrow> bool" where
  "flags opts s \<longleftrightarrow>
     (cs_durable s \<longrightarrow> wo_durability opts \<noteq> DurNotRequired) \<and>
     (wo_durability opts = DurRequired \<longrightarrow> cs_durable s) \<and> \<not> cs_file_synced s"

lemma flags_simps [simp]:
  "flags opts (s\<lparr>cs_world := w\<rparr>) = flags opts s" "flags opts (s\<lparr>cs_stage := st\<rparr>) = flags opts s"
  "flags opts (s\<lparr>cs_publication := p\<rparr>) = flags opts s" "flags opts (s\<lparr>cs_conflict := c\<rparr>) = flags opts s"
  "flags opts (s\<lparr>cs_attempt_error := ae\<rparr>) = flags opts s" "flags opts (s\<lparr>cs_method := mt\<rparr>) = flags opts s"
  "flags opts (push es s) = flags opts s" "flags opts (lost es s) = flags opts s"
  "wo_durability opts \<noteq> DurRequired \<Longrightarrow> flags opts s \<Longrightarrow> flags opts (not_durable s)"
  by (simp_all add: flags_def push_def lost_def not_durable_def)

lemma flags_call: "keeps (flags opts) True (call op)"
  by (auto simp: keeps_def outcome_def call_def split: prod.split result.split)

lemma flags_perform: "keeps (flags opts) True (perform op)"
  by (auto simp: keeps_def outcome_def perform_def split: prod.split)

lemma flags_checkpoint: "keeps (flags opts) True (checkpoint bk pt)"
  unfolding checkpoint_def by (rule flags_call)

lemma flags_set_stage: "keeps (flags opts) True (set_stage st)"
  unfolding set_stage_def by (intro keeps_modify) simp

lemma flags_panic: "keeps (flags opts) True panic"
  by (simp add: keeps_def)

lemmas flags_intros = flags_call flags_perform flags_checkpoint flags_set_stage flags_panic keeps_intros

lemma flags_tolerate_sync: "keeps (flags opts) True m \<Longrightarrow> keeps (flags opts) True (tolerate_sync opts m)"
  unfolding tolerate_sync_def by (intro flags_intros) (auto intro!: flags_intros)

lemma flags_prepare_candidate: "keeps (flags opts) True (prepare_candidate bk)"
  unfolding prepare_candidate_def prepare_copy_def Let_def
  by (intro flags_intros) (auto split: prod.split intro!: flags_intros)

lemma flags_sync_before_publication: "keeps (flags opts) True (sync_before_publication bk opts)"
  unfolding sync_before_publication_def sync_copy_def
  by (intro flags_intros flags_tolerate_sync) (auto split: list.split intro!: flags_intros)

lemma flags_precheck: "keeps (flags opts) True (precheck bk pre opts)"
  unfolding precheck_def
  by (intro flags_intros; cases pre) (auto intro!: flags_intros flags_tolerate_sync)

lemma flags_publish: "keeps (flags opts) True (publish bk pre)"
  unfolding publish_def by (intro flags_intros) simp_all

lemma flags_accept_attempt: "keeps (flags opts) True (accept_attempt bk pre attempt)"
  unfolding accept_attempt_def record_attempt_error_def Let_def
  by (intro flags_intros) (auto split: option.split intro!: flags_intros)

lemma flags_verify_displaced: "keeps (flags opts) True (verify_displaced bk pre installed ds acc)"
proof (induction ds arbitrary: acc)
  case (Cons d ds)
  show ?case
    unfolding verify_displaced.simps
    by (intro flags_intros Cons.IH) (auto split: precondition.split intro!: flags_intros)
qed (simp add: keeps_basic)

lemma flags_verify_installed: "keeps (flags opts) True (verify_installed bk installed ds d)"
  unfolding verify_installed_def Let_def by (intro flags_intros) simp_all

text \<open>
  The flags of a finished commit. \<open>synced e\<close> is any condition on the world that a successful
  synchronization of the entry \<open>e\<close> establishes, \<open>names_synced\<close> any condition that a successful
  synchronization of the namespace establishes, and both last through the operations that a commit
  performs once it has synchronized what it installed. Nothing is said of publication, so a
  synchronization before it proves nothing.
\<close>

definition lasting :: "('w, 'a, 'r, 'd) conditional_backend \<Rightarrow> ('w \<Rightarrow> bool) \<Rightarrow> bool" where
  "lasting bk D \<longleftrightarrow>
     (\<forall>w. D w \<longrightarrow>
        (\<forall>pt. D (snd (cb_checkpoint bk pt w))) \<and> D (snd (cb_sync_namespace bk w)) \<and>
        (\<forall>e. D (snd (cb_verify_entry bk e w)) \<and> D (snd (cb_remove_observed bk e w))) \<and>
        D (snd (cb_take_cleanup_errors bk w)))"

definition established_by :: "('w, unit) io \<Rightarrow> ('w \<Rightarrow> bool) \<Rightarrow> bool" where
  "established_by op D \<longleftrightarrow> (\<forall>w w'. op w = (Ok (), w') \<longrightarrow> D w')"

definition storage_laws ::
  "('w, 'a, 'r, 'd) conditional_backend \<Rightarrow> ('a entry \<Rightarrow> 'w \<Rightarrow> bool) \<Rightarrow> ('w \<Rightarrow> bool) \<Rightarrow> bool" where
  "storage_laws bk synced names_synced \<longleftrightarrow>
     (\<forall>e. established_by (cb_sync_entry bk e) (synced e) \<and> lasting bk (synced e)) \<and>
     established_by (cb_sync_namespace bk) names_synced \<and> lasting bk names_synced"

lemma storage_lawsD:
  assumes "storage_laws bk synced names_synced"
  shows "cb_sync_entry bk e w = (Ok (), w') \<Longrightarrow> synced e w'"
    "cb_sync_namespace bk w = (Ok (), w') \<Longrightarrow> names_synced w'"
    "lasting bk (synced e)" "lasting bk names_synced"
  using assms by (simp_all add: storage_laws_def established_by_def)

lemma lasting_keeps:
  assumes "lasting bk D"
  shows "keeps D True (cb_checkpoint bk pt)" "keeps D True (cb_sync_namespace bk)"
    "keeps D True (cb_verify_entry bk e)" "keeps D True (cb_remove_observed bk e)"
  using assms by (auto simp: lasting_def keeps_def outcome_def split: prod.split result.split) (metis snd_conv)+

lemma lasting_call:
  assumes "lasting bk D" and "D w"
  shows "cb_checkpoint bk pt w = (r, w') \<Longrightarrow> D w'" "cb_sync_namespace bk w = (r2, w') \<Longrightarrow> D w'"
  using assms by (auto simp: lasting_def) (metis snd_conv)+

lemma lasting_checkpointed_sync:
  "lasting bk D \<Longrightarrow> D w \<Longrightarrow> cb_checkpoint bk pt w = (r, w1) \<Longrightarrow> cb_sync_namespace bk w1 = (r2, w2) \<Longrightarrow> D w2"
  using lasting_call by metis

lemma keeps_cleanup_loop:
  assumes "lasting bk D"
  shows "keeps D True (cleanup_loop bk es errors retained)"
proof (induction es arbitrary: errors retained)
  case Nil
  then show ?case by (simp add: keeps_def outcome_def)
next
  case (Cons e es)
  let ?m = "\<lambda>pt. seq (cb_checkpoint bk pt) (seq (cb_verify_entry bk e) (cb_remove_observed bk e))"
  have m: "keeps D True (?m pt)" for pt
    by (intro keeps_seq lasting_keeps assms)
  have "outcome (cleanup_loop bk (e # es) errors retained) (\<lambda>_. D) (\<lambda>_. D) (\<lambda>_. True) w" if "D w" for w
    using keepsD [OF m that, of "if en_role e = CandidateCopy then PtCleanupCopy else PtCleanupOld"]
      keepsD [OF Cons.IH]
    by (fastforce simp: outcome_def Let_def split: prod.splits result.splits)
  then show ?case by (rule keepsI)
qed

lemma snd_conv_eq: "p = (x, y) \<Longrightarrow> snd p = y"
  by simp

lemma keeps_cleanup_entries: "lasting bk D \<Longrightarrow> keeps D True (cleanup_entries bk es)"
  unfolding cleanup_entries_def
  by (rule keeps_bind [OF keeps_cleanup_loop])
    (auto simp: lasting_def keeps_def outcome_def split: prod.splits dest: snd_conv_eq)

lemma keeps_commit_succeeded:
  assumes "lasting bk D"
  shows "keeps D True (commit_succeeded bk opts bytes cwd s d)"
proof -
  have "keeps D True (panic :: ('a, io_error, 'y) prog)" by (simp add: keeps_def)
  then show ?thesis
    unfolding commit_succeeded_def
    by (intro keeps_intros keeps_cleanup_entries lasting_keeps assms)
      (auto intro!: keeps_intros keeps_cleanup_entries lasting_keeps assms)
qed

definition sync_claims ::
  "write_options \<Rightarrow> ('a entry \<Rightarrow> 'w \<Rightarrow> bool) \<Rightarrow> ('w \<Rightarrow> bool) \<Rightarrow> 'a entry \<Rightarrow> ('w, 'a) commit_state \<Rightarrow> bool" where
  "sync_claims opts synced names_synced installed s \<longleftrightarrow>
     (cs_file_synced s \<longrightarrow> synced installed (cs_world s)) \<and>
     (cs_durable s \<longrightarrow>
        wo_durability opts \<noteq> DurNotRequired \<and> cs_file_synced s \<and> names_synced (cs_world s)) \<and>
     (wo_durability opts = DurRequired \<longrightarrow> cs_durable s) \<and>
     (wo_durability opts = DurRequired \<or> wo_file_sync opts = SyncRequired \<longrightarrow> cs_file_synced s)"

lemma sync_requirement_iff:
  "sync_requirement opts = SyncRequired \<longleftrightarrow> wo_durability opts = DurRequired \<or> wo_file_sync opts = SyncRequired"
  "sync_requirement opts = SyncNotRequired \<longleftrightarrow>
     wo_durability opts = DurNotRequired \<and> wo_file_sync opts = SyncNotRequired"
  by (cases "wo_durability opts"; cases "wo_file_sync opts"; simp add: sync_requirement_def)+

lemma sync_installed_ok:
  assumes laws: "storage_laws bk S D" and start: "flags opts s"
  shows "outcome (sync_installed bk opts installed)
     (\<lambda>_ s'. (cs_file_synced s' \<longrightarrow> S installed (cs_world s')) \<and>
        (cs_durable s' \<longrightarrow> wo_durability opts \<noteq> DurNotRequired \<and> cs_file_synced s') \<and>
        (wo_durability opts = DurRequired \<longrightarrow> cs_durable s') \<and>
        (wo_durability opts = DurRequired \<or> wo_file_sync opts = SyncRequired \<longrightarrow> cs_file_synced s'))
     (\<lambda>_ _. True) (\<lambda>_. True) s"
  using start unfolding sync_installed_def checkpoint_def
  by (cases "wo_durability opts")
    (auto simp: flags_def sync_requirement_iff intro!: outcome_callI intro: storage_lawsD(1) [OF laws])

lemma complete_publication_ok:
  assumes laws: "storage_laws bk S D" and start: "flags opts s"
  shows "outcome (complete_publication bk opts installed ds v)
     (\<lambda>_ s'. sync_claims opts S D installed s') (\<lambda>_ _. True) (\<lambda>_. True) s"
proof -
  let ?R = "\<lambda>s'. (cs_file_synced s' \<longrightarrow> S installed (cs_world s')) \<and>
    (cs_durable s' \<longrightarrow> wo_durability opts \<noteq> DurNotRequired \<and> cs_file_synced s') \<and>
        (wo_durability opts = DurRequired \<longrightarrow> cs_durable s') \<and>
    (wo_durability opts = DurRequired \<or> wo_file_sync opts = SyncRequired \<longrightarrow> cs_file_synced s')"
  have parent: "outcome (sync_parent bk opts installed) (\<lambda>_ s'. sync_claims opts S D installed s')
      (\<lambda>_ _. True) (\<lambda>_. True) s'" if "?R s'" for s'
    using that unfolding sync_parent_def checkpoint_def
    by (cases "wo_durability opts")
      (auto simp: sync_claims_def not_durable_def intro!: outcome_callI storage_lawsD(2) [OF laws]
        dest: lasting_call [OF storage_lawsD(3) [OF laws]] lasting_checkpointed_sync [OF storage_lawsD(3) [OF laws]])
  have "outcome (seq (sync_installed bk opts installed) (sync_parent bk opts installed))
      (\<lambda>_ s'. sync_claims opts S D installed s') (\<lambda>_ _. True) (\<lambda>_. True) (push ds s)"
    by (rule outcome_seqI [OF sync_installed_ok [OF laws] parent]) (use start in auto)
  then show ?thesis
    unfolding complete_publication_def by simp
qed

lemma settle_attempt_claims:
  assumes laws: "storage_laws bk S D" and start: "flags opts s"
  shows "outcome (settle_attempt bk pre opts d attempt)
     (\<lambda>installed s'. sync_claims opts S D installed s') (\<lambda>_ _. True) (\<lambda>_. True) s"
  unfolding settle_attempt_def
proof (rule outcome_bindI [OF outcome_conseq [OF keepsD [OF flags_accept_attempt start]]])
  fix installed and s' :: "('a, 'b) commit_state"
  assume s': "flags opts s'"
  show "outcome (bind (verify_displaced bk pre installed (at_displaced attempt) []) (\<lambda>displaced.
     bind (verify_installed bk installed displaced d) (\<lambda>installed_valid.
     bind (gets cs_conflict) (\<lambda>conflict.
     seq (if conflict then roll_back bk opts d installed displaced
          else complete_publication bk opts installed displaced installed_valid)
       (ret installed)))))
     (\<lambda>installed s'. sync_claims opts S D installed s') (\<lambda>_ _. True) (\<lambda>_. True) s'"
    by (auto intro!: outcome_conseq [OF keepsD [OF flags_verify_displaced s']]
        outcome_conseq [OF keepsD [OF flags_verify_installed]] complete_publication_ok [OF laws])
qed auto

lemma commit_body_claims:
  assumes laws: "storage_laws bk S D"
  shows "outcome (commit_body bk pre opts)
     (\<lambda>r s'. sync_claims opts S D (fst r) s') (\<lambda>_ _. True) (\<lambda>_. True) (commit_start opts w)"
proof -
  let ?J = "flags opts"
  have settle: "outcome (bind (settle_attempt bk pre opts d attempt) (\<lambda>installed. ret (installed, d)))
      (\<lambda>r s'. sync_claims opts S D (fst r) s') (\<lambda>_ _. True) (\<lambda>_. True) s" if "?J s" for d attempt s
    using settle_attempt_claims [OF laws that] by simp
  have start: "?J (commit_start opts w)"
    by (simp add: flags_def commit_start_def)
  note phases = outcome_conseq [OF keepsD [OF flags_prepare_candidate start]]
    outcome_conseq [OF keepsD [OF flags_sync_before_publication]]
    outcome_conseq [OF keepsD [OF flags_precheck]] outcome_conseq [OF keepsD [OF flags_publish]]
  show ?thesis
    unfolding commit_body_def rest_of_commit_def
    by (intro outcome_bindI [OF phases(1)] outcome_seqI [OF phases(2)] outcome_seqI [OF phases(3)]
        outcome_bindI [OF phases(4)] settle) auto
qed

section \<open>What a restored target means\<close>

text \<open>
  The receipts that justify reporting \<open>Restored\<close>: a native operation said so, and where it was a
  rollback without a native error, the entry then at the destination was read back with the digest
  of the entry that had been displaced.
\<close>

definition restored_evidence :: "('w, 'a, 'r, 'd) conditional_backend \<Rightarrow> bool" where
  "restored_evidence bk \<longleftrightarrow>
     (\<exists>pre attempt. attempted bk pre attempt \<and> at_publication attempt = Restored) \<or>
     (\<exists>displaced rb w w'. cb_rollback bk displaced w = (rb, w') \<and> at_publication rb = Restored \<and>
        (at_error rb = None \<longrightarrow>
           (\<exists>restored d. at_installed rb = Some restored \<and> read_as bk displaced d \<and> read_as bk restored d)))"

definition restored_inv :: "('w, 'a, 'r, 'd) conditional_backend \<Rightarrow> ('w, 'a) commit_inv" where
  "restored_inv bk p w es \<longleftrightarrow> (p = Restored \<longrightarrow> restored_evidence bk)"

lemma attemptedI:
  "cb_publish_absent bk w = (attempt, w') \<Longrightarrow> attempted bk Absent attempt"
  "cb_publish_content bk w = (attempt, w') \<Longrightarrow> attempted bk (Content d) attempt"
  unfolding attempted_def precondition.case by blast+

lemma attempted_restored:
  "attempted bk pre attempt \<Longrightarrow> at_publication attempt = Restored \<Longrightarrow> restored_evidence bk"
  unfolding restored_evidence_def by blast

lemma quiet_restored [simp]: "quiet (restored_inv bk) True op"
  by (simp add: quiet_def restored_inv_def)

lemma holds_restored: "holds (restored_inv bk) s \<longleftrightarrow> (cs_publication s = Restored \<longrightarrow> restored_evidence bk)"
  by (simp add: holds_def inv_at_def restored_inv_def)

interpretation restored: commit_invariant bk "restored_inv bk" True for bk
proof unfold_locales
  fix p w es attempt w'
  show "restored_inv bk (at_publication attempt) w' es" if "cb_publish_absent bk w = (attempt, w')"
    using attempted_restored [OF attemptedI(1) [OF that]] by (simp add: restored_inv_def)
  show "restored_inv bk (at_publication attempt) w' es" if "cb_publish_content bk w = (attempt, w')"
    using attempted_restored [OF attemptedI(2) [OF that]] by (simp add: restored_inv_def)
qed (simp_all add: restored_inv_def)

lemma verify_rollback_restored:
  assumes "read_as bk restored old \<Longrightarrow> cs_publication s = Restored \<Longrightarrow> X"
  shows "outcome (verify_rollback bk opts old restored)
     (\<lambda>_ _. True) (\<lambda>_ s'. cs_publication s' = Restored \<longrightarrow> X) (\<lambda>_. True) s"
  unfolding verify_rollback_def checkpoint_def
  by (auto intro!: outcome_callI intro: assms read_asI)

lemma accept_rollback_restored:
  assumes "cb_rollback bk displaced w = (rb, w')" and "read_as bk displaced old"
  shows "outcome (accept_rollback bk opts old installed ds rb)
     (\<lambda>_ _. True) (\<lambda>_ s'. cs_publication s' = Restored \<longrightarrow> restored_evidence bk) (\<lambda>_. True) s"
proof -
  have err: "restored_evidence bk" if "at_error rb \<noteq> None" "at_publication rb = Restored"
    unfolding restored_evidence_def using assms(1) that by metis
  have clean: "restored_evidence bk"
    if "at_installed rb = Some restored" "read_as bk restored old" "at_publication rb = Restored" for restored
    unfolding restored_evidence_def using assms that by metis
  have retain: "keeps (holds (restored_inv bk)) True (retain_unreceipted bk rb ds)"
    by (rule restored.keeps_retain_unreceipted)
  show ?thesis
  proof (cases "at_error rb")
    case (Some e)
    then have "at_publication rb = Restored \<Longrightarrow> restored_evidence bk"
      using err by simp
    with Some show ?thesis
      unfolding accept_rollback_def checkpoint_def
      by (auto simp: holds_restored intro!: outcome_callI outcome_conseq [OF keepsD [OF retain]])
  next
    case None
    then show ?thesis
      unfolding accept_rollback_def checkpoint_def
      using clean
      by (auto intro!: outcome_callI verify_rollback_restored split: option.split)
  qed
qed

interpretation restored: commit_rollback_invariant bk "restored_inv bk" True for bk
  by (unfold_locales, subst outcome_never_ok [OF accept_rollback_fails], unfold holds_restored)
    (rule accept_rollback_restored, assumption, rule read_asI)

section \<open>No panic\<close>

definition never_panics :: "('w, 'x) io \<Rightarrow> bool" where
  "never_panics op \<longleftrightarrow> (\<forall>w w'. op w \<noteq> (Panic, w'))"

text \<open>A backend none of whose operations panics.\<close>

definition panic_free :: "('w, 'a, 'r, 'd) conditional_backend \<Rightarrow> bool" where
  "panic_free bk \<longleftrightarrow>
     never_panics (cb_flush bk) \<and> never_panics (cb_create_candidate_copy bk) \<and>
     never_panics (cb_open_target bk) \<and> (\<forall>e. never_panics (cb_preserve_metadata bk e)) \<and>
     never_panics (cb_sync_candidate bk) \<and> (\<forall>e. never_panics (cb_sync_entry bk e)) \<and>
     never_panics (cb_sync_namespace bk) \<and> (\<forall>e. never_panics (cb_is_candidate bk e)) \<and>
     (\<forall>e. never_panics (cb_verify_entry bk e)) \<and> never_panics (cb_begin_publication bk) \<and>
     (\<forall>e. never_panics (cb_remove_observed bk e)) \<and> (\<forall>pt. never_panics (cb_checkpoint bk pt)) \<and>
     (\<forall>a w w'. ra_open_reader bk a w \<noteq> (Panic, w')) \<and>
     (\<forall>r. never_panics (rd_seek_start bk r)) \<and> (\<forall>r. never_panics (rd_digest_all bk r))"

lemma never_panics_quiet: "never_panics op \<Longrightarrow> quiet (\<lambda>_ _. C) False op"
  by (auto simp: never_panics_def quiet_def)

lemma never_panics_bind:
  "never_panics m \<Longrightarrow> (\<And>x. never_panics (f x)) \<Longrightarrow> never_panics (bind m f)"
  by (auto simp: never_panics_def bind_def split: prod.splits result.splits)

lemma never_panics_seq: "never_panics m \<Longrightarrow> never_panics k \<Longrightarrow> never_panics (seq m k)"
  unfolding seq_def by (rule never_panics_bind)

lemma never_panics_digest: "panic_free bk \<Longrightarrow> never_panics (digest_entry bk e)"
  unfolding digest_entry_def
  by (intro never_panics_bind never_panics_seq)
    (auto simp: panic_free_def never_panics_def or_fail_def split: prod.splits result.splits)

lemma panic_free_invariant:
  assumes "panic_free bk" and "\<And>es xs. C es \<Longrightarrow> C (es @ xs)"
  shows "commit_rollback_invariant bk (\<lambda>_ _. C) False"
proof -
  have inv: "commit_invariant bk (\<lambda>_ _. C) False"
    using assms never_panics_digest [OF assms(1)]
    by unfold_locales (auto intro!: never_panics_quiet simp: panic_free_def)
  show ?thesis
    by (rule commit_invariant.rollback_invariantI [OF inv])
qed

lemma commit_body_panic_free:
  assumes "panic_free bk"
  shows "outcome (commit_body bk pre opts) (\<lambda>_ _. True) (\<lambda>_ _. True) (\<lambda>_. False) (commit_start opts w)"
proof -
  have "keeps (holds (\<lambda>_ _ _. True)) False (prepare_candidate bk)"
    using commit_invariant.keeps_prepare_candidate
      [OF commit_rollback_invariant.axioms(1) [OF panic_free_invariant [OF assms, of "\<lambda>_. True"]]] by simp
  then have "outcome (prepare_candidate bk) (\<lambda>_ _. True) (\<lambda>_ _. True) (\<lambda>_. False) (commit_start opts w)"
    by (auto simp: holds_def inv_at_def dest!: keepsD [of _ _ _ "commit_start opts w"] elim!: outcome_conseq)
  moreover have "outcome (prepare_candidate bk) (\<lambda>d s. cs_entries s \<noteq> []) (\<lambda>_ _. True) (\<lambda>_. True)
      (commit_start opts w)"
    by (rule outcome_conseq [OF prepare_candidate_verified])
      (auto simp: commit_start_def copy_held_def)
  ultimately have prep: "outcome (prepare_candidate bk) (\<lambda>d s. cs_entries s \<noteq> []) (\<lambda>_ _. True) (\<lambda>_. False)
      (commit_start opts w)"
    using outcome_conj by fastforce
  have rest: "keeps (holds (\<lambda>_ _ es. es \<noteq> [])) False (rest_of_commit bk pre opts d)" for d
    by (rule commit_rollback_invariant.keeps_rest_of_commit [OF panic_free_invariant [OF assms]]) auto
  show ?thesis
    unfolding commit_body_def
    by (rule outcome_bindI [OF prep], rule outcome_conseq [OF keepsD [OF rest]])
      (auto simp: holds_def inv_at_def)
qed


section \<open>Cleanup after success\<close>

lemma insort_copy:
  assumes "\<forall>x \<in> set xs. en_role x \<noteq> CandidateCopy" and "\<forall>y \<in> set ys. en_role y = CandidateCopy"
  shows "insort_key (\<lambda>e. en_role e = CandidateCopy) e (xs @ ys) =
    (if en_role e = CandidateCopy then xs @ e # ys else e # xs @ ys)"
  using assms(1)
proof (induction xs)
  case Nil
  show ?case using assms(2) by (cases ys) simp_all
next
  case (Cons x xs)
  then show ?case by simp
qed

lemma cleanup_order_split:
  "cleanup_order es =
     filter (\<lambda>e. en_role e \<noteq> CandidateCopy) es @ filter (\<lambda>e. en_role e = CandidateCopy) es"
  by (induction es) (simp_all add: cleanup_order_def insort_copy)

text \<open>An entry whose identity was verified and which the very next call removed.\<close>

definition removed_by :: "('w, 'a, 'r, 'd) conditional_backend \<Rightarrow> 'a entry \<Rightarrow> bool" where
  "removed_by bk e \<longleftrightarrow>
     (\<exists>w w1 w2. cb_verify_entry bk e w = (Ok (), w1) \<and> cb_remove_observed bk e w1 = (Ok (), w2))"

lemma seq_Ok: "seq m k w = (Ok x, w') \<longleftrightarrow> (\<exists>w1. m w = (Ok (), w1) \<and> k w1 = (Ok x, w'))"
  by (auto simp: seq_def bind_def split: prod.splits result.splits)

lemma removed_byI:
  "seq p (seq (cb_verify_entry bk e) (cb_remove_observed bk e)) w = (Ok (), w') \<Longrightarrow> removed_by bk e"
  unfolding removed_by_def seq_Ok by metis

text \<open>
  \<open>there e\<close> is a condition on the world that a successful removal of \<open>e\<close> makes false and that no other
  call of the cleanup changes: that the entry is still there.
\<close>

definition marks_presence ::
  "('w, 'a, 'r, 'd) conditional_backend \<Rightarrow> 'a entry set \<Rightarrow> ('a entry \<Rightarrow> 'w \<Rightarrow> bool) \<Rightarrow> bool" where
  "marks_presence bk es there \<longleftrightarrow>
     (\<forall>e\<in>es. \<forall>w.
        (\<forall>pt. there e (snd (cb_checkpoint bk pt w)) = there e w) \<and>
        (\<forall>x\<in>es. there e (snd (cb_verify_entry bk x w)) = there e w) \<and>
        there e (snd (cb_take_cleanup_errors bk w)) = there e w \<and>
        (\<forall>x\<in>es. there e (snd (cb_remove_observed bk x w)) =
           (there e w \<and> \<not> (x = e \<and> is_Ok (fst (cb_remove_observed bk x w))))))"

lemma marks_presenceD:
  assumes "marks_presence bk es there" and "e \<in> es"
  shows "cb_checkpoint bk pt w = (r, w') \<Longrightarrow> there e w' = there e w"
    "x \<in> es \<Longrightarrow> cb_verify_entry bk x w = (r2, w') \<Longrightarrow> there e w' = there e w"
    "cb_take_cleanup_errors bk w = (es2, w') \<Longrightarrow> there e w' = there e w"
    "x \<in> es \<Longrightarrow> cb_remove_observed bk x w = (r3, w') \<Longrightarrow> there e w' = (there e w \<and> \<not> (x = e \<and> is_Ok r3))"
  using assms unfolding marks_presence_def by (metis fst_conv snd_conv)+

lemma remove_verified_presence:
  assumes "marks_presence bk es there" and "e \<in> es" and "x \<in> es"
    and "seq (cb_checkpoint bk pt) (seq (cb_verify_entry bk x) (cb_remove_observed bk x)) w = (r, w')"
  shows "there e w' = (there e w \<and> \<not> (x = e \<and> is_Ok r))"
  using assms(4) marks_presenceD [OF assms(1,2)] assms(3)
  by (auto simp: seq_def bind_def is_Ok_def split: prod.splits result.splits)

lemma cleanup_loop_spec:
  assumes "cleanup_loop bk es errors retained w = (Ok (errors', retained'), w')"
    and "marks_presence bk E there" and "set es \<subseteq> E" and "distinct es"
  shows "\<exists>kept. retained' = retained @ recover kept \<and> subseq kept es \<and>
    length errors' = length errors + length kept \<and> (\<forall>e \<in> set es. e \<in> set kept \<or> removed_by bk e) \<and>
    (\<forall>e \<in> E. there e w' = (there e w \<and> (e \<in> set es \<longrightarrow> e \<in> set kept)))"
  using assms(1,3,4)
proof (induction es arbitrary: errors retained w)
  case (Cons e es)
  define pt where "pt = (if en_role e = CandidateCopy then PtCleanupCopy else PtCleanupOld)"
  obtain r w1 where m: "seq (cb_checkpoint bk pt) (seq (cb_verify_entry bk e) (cb_remove_observed bk e)) w = (r, w1)"
    by fastforce
  have there: "there x w1 = (there x w \<and> \<not> (e = x \<and> is_Ok r))" if "x \<in> E" for x
    using remove_verified_presence [OF assms(2) that _ m] Cons.prems(2) by simp
  have rest: "set es \<subseteq> E" "distinct es" "e \<notin> set es" using Cons.prems(2,3) by auto
  show ?case
  proof (cases r)
    case (Ok u)
    with Cons.prems(1) m have "cleanup_loop bk es errors retained w1 = (Ok (errors', retained'), w')"
      unfolding pt_def by (simp add: Let_def)
    from Cons.IH [OF this rest(1,2)] obtain kept where kept: "retained' = retained @ recover kept"
      "subseq kept es" "length errors' = length errors + length kept"
      "\<forall>e \<in> set es. e \<in> set kept \<or> removed_by bk e"
      "\<forall>e \<in> E. there e w' = (there e w1 \<and> (e \<in> set es \<longrightarrow> e \<in> set kept))"
      by blast
    have "e \<notin> set kept" using kept(2) rest(3) by (auto elim: list_emb_set)
    moreover have "removed_by bk e"
      using m Ok by (auto intro: removed_byI)
    ultimately show ?thesis
      using kept there Ok by (intro exI [of _ kept]) (auto simp: is_Ok_def)
  next
    case (Err x)
    with Cons.prems(1) m have "cleanup_loop bk es
        (errors @ [from_io OpCleanup (Some (en_namespace_path e)) None x])
        (retained @ [into_recovery e (en_role e)]) w1 = (Ok (errors', retained'), w')"
      unfolding pt_def by (simp add: Let_def)
    from Cons.IH [OF this rest(1,2)] obtain kept where
      "retained' = (retained @ [into_recovery e (en_role e)]) @ recover kept"
      "subseq kept es" "length errors' = Suc (length errors + length kept)"
      "\<forall>e \<in> set es. e \<in> set kept \<or> removed_by bk e"
      "\<forall>e \<in> E. there e w' = (there e w1 \<and> (e \<in> set es \<longrightarrow> e \<in> set kept))"
      by auto
    then show ?thesis using there Err rest(3) by (intro exI [of _ "e # kept"]) (auto simp: recover_def is_Ok_def)
  next
    case Panic
    with Cons.prems(1) m show ?thesis unfolding pt_def by (simp add: Let_def)
  qed
qed (auto simp: recover_def intro!: exI [of _ "[]"])

section \<open>The end of a successful commit always returns\<close>

definition returns :: "('w, 'x) io \<Rightarrow> bool" where
  "returns op \<longleftrightarrow> (\<forall>w. \<exists>x w'. op w = (Ok x, w'))"

lemma returns_bind:
  assumes "returns m" and "\<And>x. returns (f x)"
  shows "returns (bind m f)"
  unfolding returns_def
proof
  fix w
  obtain x w1 where m: "m w = (Ok x, w1)" using assms(1) unfolding returns_def by blast
  obtain y w2 where "f x w1 = (Ok y, w2)" using assms(2) unfolding returns_def by blast
  with m show "\<exists>y w'. bind m f w = (Ok y, w')" by (simp add: bind_def)
qed

lemma returns_ret: "returns (ret x)"
  by (simp add: returns_def ret_def)

lemma returns_caught: "never_panics m \<Longrightarrow> returns (caught m)"
  by (auto simp: never_panics_def returns_def caught_def split: prod.split result.split)

lemma returns_bind_caught:
  assumes "never_panics m" and "\<And>x. returns (f (Ok x))" and "\<And>e. returns (f (Err e))"
  shows "returns (bind (caught m) f)"
  using assms
  by (auto simp: never_panics_def returns_def bind_def caught_def split: prod.split result.split)

lemma returns_cleanup_loop:
  assumes "panic_free bk"
  shows "returns (cleanup_loop bk es errors retained)"
proof (induction es arbitrary: errors retained)
  case (Cons e es)
  have "never_panics (seq (cb_checkpoint bk pt) (seq (cb_verify_entry bk e) (cb_remove_observed bk e)))" for pt
    using assms by (intro never_panics_seq) (auto simp: panic_free_def)
  with Cons.IH show ?case
    by (auto simp: never_panics_def returns_def Let_def split: prod.splits result.splits)
qed (simp add: returns_def)

lemma returns_cleanup_entries: "panic_free bk \<Longrightarrow> returns (cleanup_entries bk es)"
  unfolding cleanup_entries_def
  by (intro returns_bind returns_cleanup_loop) (auto simp: returns_def split: prod.splits)

lemma returns_commit_succeeded:
  assumes "panic_free bk"
  shows "returns (commit_succeeded bk opts bytes cwd s d)"
proof -
  have np: "never_panics (cb_checkpoint bk pt)" "never_panics (cb_sync_namespace bk)" for pt
    using assms by (simp_all add: panic_free_def)
  have first: "returns (bind (caught (cb_checkpoint bk PtSaveComplete)) (\<lambda>r.
      case r of Ok _ \<Rightarrow> cleanup_entries bk (cs_entries s)
      | Err source \<Rightarrow> ret ([from_io OpCleanup None None source], recover (cs_entries s))
      | Panic \<Rightarrow> panic))"
    by (intro returns_bind_caught np) (simp_all add: returns_cleanup_entries [OF assms] returns_ret)
  have second: "returns (if wo_durability opts \<noteq> DurNotRequired then
      bind (caught (seq (cb_checkpoint bk PtCleanupSync) (cb_sync_namespace bk))) (\<lambda>r.
        ret (case r of Err source \<Rightarrow> [from_io OpCommit None None source] | _ \<Rightarrow> []))
      else ret [])"
    by (auto intro!: returns_bind returns_caught returns_ret never_panics_seq np)
  show ?thesis
    unfolding commit_succeeded_def
    by (rule returns_bind [OF first], unfold split_beta)
      (rule returns_bind [OF second], rule returns_ret)
qed

section \<open>Properties\<close>

lemma run_ErrD: "(case fst r of Err e \<Rightarrow> P e | _ \<Rightarrow> False) \<Longrightarrow> \<exists>e w'. r = (Err e, w') \<and> P e"
  by (cases r; cases "fst r") auto

lemma run_OkD: "(case fst r of Ok x \<Rightarrow> P x | _ \<Rightarrow> False) \<Longrightarrow> \<exists>x w'. r = (Ok x, w') \<and> P x"
  by (cases r; cases "fst r") auto

lemma commit_Ok_body:
  assumes "commit_conditional_with_directory bk pre opts bytes cwd w = (Ok out, w')"
  obtains installed s where "commit_body bk pre opts (commit_start opts w) = (Ok (installed, co_digest out), s)"
    "wr_durable (co_write_outcome out) = cs_durable s" "wr_file_synced (co_write_outcome out) = cs_file_synced s"
    "commit_succeeded bk opts bytes cwd s (co_digest out) (cs_world s) = (Ok out, w')"
  using assms
  by (auto simp: commit_conditional_with_directory_def commit_succeeded_def bind_def ret_def
      conditional_outcome_new_def with_file_synced_def write_outcome_new_def
      split: prod.splits result.splits if_splits)

lemma commit_Err_body:
  assumes "commit_conditional_with_directory bk pre opts bytes cwd w = (Err e, w')"
  obtains source s kept where "commit_body bk pre opts (commit_start opts w) = (Err (ce_stage e, source), s)"
    "ce_publication e = cs_publication s" "ce_recovery_files e = recover kept @ recover (cs_entries s)"
  using assms
  by (auto simp: commit_conditional_with_directory_def commit_failed_def split: prod.splits result.splits)

text \<open>
  C9: a conditional commit that reports success has verified what it reports, over any backend and any
  behaviour of other processes. The precondition was observed; the native attempt reported no error
  and named the entry now installed; that entry was the candidate by identity and was read back with
  the digest read from the candidate before publication, which is the digest reported; and with a
  content precondition every entry the attempt displaced was read with the expected digest.
\<close>

theorem commit_success_verified:
  assumes "commit_conditional_with_directory bk pre opts bytes cwd w = (Ok out, w')"
  shows "precondition_observed bk pre \<and> candidate_read bk (co_digest out) \<and>
    (\<exists>attempt installed. attempted bk pre attempt \<and>
       installation_verified bk pre (co_digest out) attempt installed)"
proof -
  obtain installed s where body: "commit_body bk pre opts (commit_start opts w) = (Ok (installed, co_digest out), s)"
    using commit_Ok_body [OF assms] by blast
  from outcomeD(1) [OF commit_body_ok body] outcomeD(1) [OF commit_body_copy body] show ?thesis
    by auto
qed

theorem commit_success_verified_witness:
  "\<exists>out w'. commit_conditional_with_directory memory_backend (Content [1]) strict_options 1 None
      memory_start = (Ok out, w') \<and> co_digest out = [2] \<and> candidate_read memory_backend [2]"
proof -
  let ?run = "commit_conditional_with_directory memory_backend (Content [1]) strict_options 1 None memory_start"
  have "(case fst ?run of Ok out \<Rightarrow> co_digest out = [2] | _ \<Rightarrow> False)"
    by code_simp
  from run_OkD [OF this] obtain out w' where "?run = (Ok out, w')" "co_digest out = [2]"
    by blast
  with commit_success_verified [OF this(1)] show ?thesis by auto
qed

text \<open>
  C10: the candidate is never lost. Every failure of a conditional commit after the independent copy was
  verified, in any stage and on any branch, hands the caller a recovery file with the role
  \<open>CandidateCopy\<close> whose content was read with the digest of the candidate.
\<close>

theorem commit_failure_keeps_candidate:
  assumes "commit_conditional_with_directory bk pre opts bytes cwd w = (Err e, w')"
    and "ce_stage e \<notin> {StPrepare, StVerifyCandidate, StPrepareCandidateCopy, StVerifyCandidateCopy}"
  shows "retained_candidate e \<noteq> None \<and>
    (\<exists>copy d. into_recovery copy CandidateCopy \<in> set (ce_recovery_files e) \<and>
       read_as bk copy d \<and> candidate_read bk d)"
proof -
  obtain source s kept where body: "commit_body bk pre opts (commit_start opts w) = (Err (ce_stage e, source), s)"
    and files: "ce_recovery_files e = recover kept @ recover (cs_entries s)"
    using commit_Err_body [OF assms(1)] by metis
  from outcomeD(2) [OF commit_body_copy body] assms(2)
  obtain d where "copy_held bk d (cs_entries s)" "candidate_read bk d"
    by (auto simp: early_stages_def)
  then obtain copy rest where "cs_entries s = copy # rest" "en_role copy = CandidateCopy"
    "read_as bk copy d" "candidate_read bk d"
    by (auto simp: copy_held_def)
  with files have "into_recovery copy CandidateCopy \<in> set (ce_recovery_files e)"
    by (simp add: recover_def)
  moreover from this have "retained_candidate e \<noteq> None"
    by (auto simp: retained_candidate_def find_None_iff into_recovery_def)
  ultimately show ?thesis
    using \<open>read_as bk copy d\<close> \<open>candidate_read bk d\<close> by blast
qed

theorem commit_failure_keeps_candidate_witness:
  "\<exists>e w'. commit_conditional_with_directory memory_backend Absent strict_options 1 None
      memory_start = (Err e, w') \<and> ce_stage e = StPrecheck \<and> ce_publication e = NotPublished \<and>
    retained_candidate e \<noteq> None"
proof -
  let ?run = "commit_conditional_with_directory memory_backend Absent strict_options 1 None memory_start"
  have "(case fst ?run of Err e \<Rightarrow> ce_stage e = StPrecheck \<and> ce_publication e = NotPublished | _ \<Rightarrow> False)"
    by code_simp
  from run_ErrD [OF this] obtain e w' where "?run = (Err e, w')" "ce_stage e = StPrecheck" "ce_publication e = NotPublished"
    by blast
  with commit_failure_keeps_candidate [OF this(1)] show ?thesis by auto
qed

text \<open>
  C11: a failed conditional commit says \<open>Restored\<close> only on a receipt. The native operation reported it,
  and where that was a rollback without a native error, the destination was read back with the digest
  of the entry that the publication had displaced.
\<close>

theorem commit_restored_verified:
  assumes "commit_conditional_with_directory bk pre opts bytes cwd w = (Err e, w')"
    and "ce_publication e = Restored"
  shows "restored_evidence bk"
proof -
  obtain source s kept where body: "commit_body bk pre opts (commit_start opts w) = (Err (ce_stage e, source), s)"
    and pub: "ce_publication e = cs_publication s"
    using commit_Err_body [OF assms(1)] by metis
  have start: "holds (restored_inv bk) (commit_start opts w)"
    by (simp add: holds_restored commit_start_def)
  have "keeps (holds (restored_inv bk)) True (commit_body bk pre opts)"
    unfolding commit_body_def
    by (intro keeps_bind restored.keeps_prepare_candidate restored.keeps_rest_of_commit) simp
  from outcomeD(2) [OF keepsD [OF this start] body] pub assms(2) show ?thesis
    by (simp add: holds_restored)
qed

theorem commit_restored_verified_witness:
  "\<exists>e w'. commit_conditional_with_directory memory_backend (Content [1]) strict_options 1 None
      raced_start = (Err e, w') \<and> ce_reason e = PostPublicationConflict \<and> ce_publication e = Restored \<and>
    restored_evidence memory_backend"
proof -
  let ?run = "commit_conditional_with_directory memory_backend (Content [1]) strict_options 1 None raced_start"
  have "(case fst ?run of Err e \<Rightarrow> ce_reason e = PostPublicationConflict \<and> ce_publication e = Restored | _ \<Rightarrow> False)"
    by code_simp
  from run_ErrD [OF this] obtain e w' where "?run = (Err e, w')" "ce_reason e = PostPublicationConflict" "ce_publication e = Restored"
    by blast
  with commit_restored_verified [OF this(1,3)] show ?thesis by blast
qed

text \<open>
  C12: the synchronization flags of a successful conditional commit are backed by calls that succeeded
  after the publication, and required synchronization is never skipped. Let \<open>synced e\<close> and
  \<open>names_synced\<close> be any conditions that a successful synchronization of the entry \<open>e\<close> and of the
  namespace establish and that the later calls of the commit keep. When the commit returns,
  \<open>file_synced\<close> implies \<open>synced\<close> of the installed entry, the one identified as the candidate;
  \<open>durable\<close> implies \<open>file_synced\<close>, that durability was asked for, and \<open>names_synced\<close>; a commit that
  requires durability is \<open>durable\<close>, and one that requires durability or file synchronization is
  \<open>file_synced\<close>.
\<close>

theorem commit_sync_claims:
  assumes "commit_conditional_with_directory bk pre opts bytes cwd w = (Ok out, w')"
    and "storage_laws bk synced names_synced"
  shows "\<exists>installed. succeeds (cb_is_candidate bk installed) True \<and>
    (wr_file_synced (co_write_outcome out) \<longrightarrow> synced installed w') \<and>
    (wr_durable (co_write_outcome out) \<longrightarrow>
       wo_durability opts \<noteq> DurNotRequired \<and> wr_file_synced (co_write_outcome out) \<and> names_synced w') \<and>
    (wo_durability opts = DurRequired \<longrightarrow> wr_durable (co_write_outcome out)) \<and>
    (wo_durability opts = DurRequired \<or> wo_file_sync opts = SyncRequired \<longrightarrow>
       wr_file_synced (co_write_outcome out))"
proof -
  obtain installed s where body: "commit_body bk pre opts (commit_start opts w) = (Ok (installed, co_digest out), s)"
    and flags: "wr_durable (co_write_outcome out) = cs_durable s"
      "wr_file_synced (co_write_outcome out) = cs_file_synced s"
    and finish: "commit_succeeded bk opts bytes cwd s (co_digest out) (cs_world s) = (Ok out, w')"
    using commit_Ok_body [OF assms(1)] by metis
  have last: "D w'" if "lasting bk D" "D (cs_world s)" for D
    using outcomeD(1) [OF keepsD [OF keeps_commit_succeeded [OF that(1)] that(2)] finish] .
  from outcomeD(1) [OF commit_body_ok body] have "succeeds (cb_is_candidate bk installed) True"
    by (auto simp: installation_verified_def)
  with outcomeD(1) [OF commit_body_claims [OF assms(2)] body] flags show ?thesis
    using last [OF storage_lawsD(3) [OF assms(2)]] last [OF storage_lawsD(4) [OF assms(2)]]
    by (auto simp: sync_claims_def intro!: exI [of _ installed])
qed

lemma put_keeps_sync [simp]: "mw_names_synced (put x f w) = mw_names_synced w"
  by (cases x) simp_all

theorem commit_sync_claims_witness:
  "\<exists>out w'. commit_conditional_with_directory memory_backend (Content [1]) strict_options 1 None
      memory_start = (Ok out, w') \<and> wr_durable (co_write_outcome out) \<and>
    wr_file_synced (co_write_outcome out) \<and> mw_names_synced w'"
proof -
  let ?run = "commit_conditional_with_directory memory_backend (Content [1]) strict_options 1 None memory_start"
  have "(case fst ?run of Ok out \<Rightarrow> wr_durable (co_write_outcome out) | _ \<Rightarrow> False)"
    by code_simp
  from run_OkD [OF this] obtain out w' where "?run = (Ok out, w')" "wr_durable (co_write_outcome out)"
    by blast
  moreover have "storage_laws memory_backend (\<lambda>e w. succeeds (cb_sync_entry memory_backend e) ()) mw_names_synced"
    by (auto simp: storage_laws_def established_by_def lasting_def memory_backend_def present_def succeeds_def
        split: option.split)
  from commit_sync_claims [OF \<open>?run = (Ok out, w')\<close> this] have "wr_durable (co_write_outcome out) \<longrightarrow>
      wr_file_synced (co_write_outcome out) \<and> mw_names_synced w'"
    by blast
  ultimately show ?thesis by blast
qed

lemma commit_returns:
  assumes "panic_free bk"
  shows "fst (commit_conditional_with_directory bk pre opts bytes cwd w) \<noteq> Panic"
proof -
  have "returns (commit_succeeded bk opts bytes cwd s d)" for s d
    by (rule returns_commit_succeeded [OF assms])
  then have ok: "\<exists>out w'. commit_succeeded bk opts bytes cwd s d w = (Ok out, w')" for s d w
    unfolding returns_def by blast
  obtain r s where r: "commit_body bk pre opts (commit_start opts w) = (r, s)" by fastforce
  show ?thesis
  proof (cases r)
    case (Ok x)
    then obtain installed d where x: "r = Ok (installed, d)" by (cases x) simp
    obtain out w' where "commit_succeeded bk opts bytes cwd s d (cs_world s) = (Ok out, w')"
      using ok by blast
    with r x show ?thesis by (simp add: commit_conditional_with_directory_def)
  next
    case (Err e)
    with r show ?thesis by (simp add: commit_conditional_with_directory_def split: prod.split)
  next
    case Panic
    with r commit_body_panic_free [OF assms, of pre opts w] show ?thesis by (simp add: outcome_def)
  qed
qed

text \<open>
  C13: the conditional commit does not panic: over a backend whose operations never panic it always
  returns, in particular the access to the first retained entry is always in range.
\<close>

theorem commit_never_panics:
  assumes "panic_free bk"
  shows "fst (commit_conditional_with_directory bk pre opts bytes cwd w) \<noteq> Panic"
  using assms by (rule commit_returns)

theorem commit_never_panics_witness:
  "panic_free memory_backend \<and>
   fst (commit_conditional_with_directory memory_backend Absent strict_options 1 None memory_start) \<noteq> Panic"
proof -
  have "panic_free memory_backend"
    by (simp add: panic_free_def never_panics_def memory_backend_def present_def split: option.split)
  from this commit_never_panics [OF this] show ?thesis by blast
qed

text \<open>
  C14: cleanup after a successful commit removes displaced entries before the verified copy, removes
  only entries whose identity was verified by the call just before, and keeps exactly the others:
  each of them is returned as a recovery file, in order, with at least one cleanup error for each.
  \<open>there e\<close> is any condition that only a successful removal of \<open>e\<close> changes. For entries that are there
  at the start, the ones still there at the end are exactly the kept ones, so nothing that is
  returned for recovery has been removed.
\<close>

theorem cleanup_entries_exact:
  assumes "cleanup_entries bk es w = (Ok (errors, retained), w')" and "distinct es"
    and "marks_presence bk (set es) there" and "\<forall>e \<in> set es. there e w"
  shows "\<exists>kept. retained = recover kept \<and>
    subseq kept (filter (\<lambda>e. en_role e \<noteq> CandidateCopy) es @ filter (\<lambda>e. en_role e = CandidateCopy) es) \<and>
    length kept \<le> length errors \<and>
    (\<forall>e \<in> set es. if there e w' then e \<in> set kept else e \<notin> set kept \<and> removed_by bk e)"
proof -
  obtain errs w1 es2 where loop: "cleanup_loop bk (cleanup_order es) [] [] w = (Ok (errs, retained), w1)"
    and len: "length errs \<le> length errors" and take: "cb_take_cleanup_errors bk w1 = (es2, w')"
    using assms(1) by (auto simp: cleanup_entries_def bind_def split: prod.splits result.splits)
  have order: "set (cleanup_order es) = set es" "distinct (cleanup_order es)"
    using assms(2) by (simp_all add: cleanup_order_def)
  have "there e w' = there e w1" if "e \<in> set es" for e
    using marks_presenceD(3) [OF assms(3) that take] .
  with cleanup_loop_spec [OF loop assms(3)] order len assms(4) show ?thesis
    by (fastforce simp: cleanup_order_split)
qed

lemma put_other: "x \<noteq> y \<Longrightarrow> mw_files (put x f w) y = mw_files w y"
  by (cases x; cases y) simp_all

lemma put_same: "mw_files (put x f w) x = f"
  by (cases x) simp_all

theorem cleanup_entries_exact_witness:
  "\<exists>errors retained w'. cleanup_entries memory_backend
      [slot_entry CandidateCopy CopySlot, slot_entry Displaced CandidateSlot]
      (memory_start\<lparr>mw_copy := Some (1, [2])\<rparr>) = (Ok (errors, retained), w') \<and>
    (\<forall>e \<in> {slot_entry CandidateCopy CopySlot, slot_entry Displaced CandidateSlot}.
       mw_files w' (en_access e) = None \<longrightarrow> removed_by memory_backend e)"
proof -
  let ?es = "[slot_entry CandidateCopy CopySlot, slot_entry Displaced CandidateSlot]"
  let ?w = "memory_start\<lparr>mw_copy := Some (1, [2])\<rparr>"
  let ?there = "\<lambda>e w. mw_files w (en_access e) \<noteq> None"
  let ?run = "cleanup_entries memory_backend ?es ?w"
  have "(case fst ?run of Ok _ \<Rightarrow> True | _ \<Rightarrow> False)" by code_simp
  from run_OkD [OF this] obtain errors retained w' where run: "?run = (Ok (errors, retained), w')"
    by (metis surj_pair)
  have "marks_presence memory_backend (set ?es) ?there"
    by (simp add: marks_presence_def memory_backend_def present_def slot_entry_def put_same put_other is_Ok_def
        split: option.split)
  from cleanup_entries_exact [OF run _ this] show ?thesis
    using run by (auto simp: slot_entry_def memory_start_def split: if_splits)
qed

end
