(* ===== verification/Conditional_Writer.thy ===== *)
theory Conditional_Writer
  imports Writer_Session Conditional_Correct
begin

text \<open>
  The public conditional writer of \<^verbatim>\<open>src/writer/local_conditional_writer.rs\<close>: its streaming
  operations, abort, commit and drop, over the backend record of the commit protocol. It is the second
  writer that keeps the session contract.
\<close>

section \<open>The writer\<close>

record ('w, 'a, 'r, 'd) conditional_writer =
  cw_path :: path
  cw_diagnostic_path :: "path option"
  cw_current_directory :: "path option"
  cw_backend :: "('w, 'a, 'r, 'd) conditional_backend option"
  cw_precondition :: "'d precondition option"
  cw_options :: write_options
  cw_state :: writer_state
  cw_bytes_written :: u64
  cw_write_failed :: bool
  cw_abort_failed :: bool

definition conditional_writer_new ::
  "path \<Rightarrow> path option \<Rightarrow> path option \<Rightarrow> ('w, 'a, 'r, 'd) conditional_backend \<Rightarrow> 'd precondition \<Rightarrow>
   write_options \<Rightarrow> ('w, 'a, 'r, 'd) conditional_writer" where
  "conditional_writer_new p diagnostic cwd bk pre opts =
     \<lparr>cw_path = p, cw_diagnostic_path = diagnostic, cw_current_directory = cwd, cw_backend = Some bk,
      cw_precondition = Some pre, cw_options = opts, cw_state = WriterOpen, cw_bytes_written = 0,
      cw_write_failed = False, cw_abort_failed = False\<rparr>"

definition can_write :: "('w, 'a, 'r, 'd) conditional_writer \<Rightarrow> bool" where
  "can_write cw = (cw_state cw = WriterOpen \<and> \<not> cw_write_failed cw \<and> \<not> cw_abort_failed cw)"

definition writable :: "('w, 'a, 'r, 'd) conditional_writer \<Rightarrow> (unit, io_error) result" where
  "writable cw = (if \<not> can_write cw then Err (io_error_of IoBrokenPipe) else Ok ())"

text \<open>The backend's output passes the write checkpoint first.\<close>

definition dispatch_write ::
  "('w, 'a, 'r, 'd) conditional_backend \<Rightarrow> byte list \<Rightarrow> ('w, usize) io" where
  "dispatch_write bk bytes = seq (cb_checkpoint bk PtWrite) (cb_write bk bytes)"

definition dispatch_write_vectored ::
  "('w, 'a, 'r, 'd) conditional_backend \<Rightarrow> byte list list \<Rightarrow> ('w, usize) io" where
  "dispatch_write_vectored bk slices = seq (cb_checkpoint bk PtWrite) (cb_write_vectored bk slices)"

definition record_write ::
  "(usize, io_error) result \<Rightarrow> ('w, 'a, 'r, 'd) conditional_writer \<Rightarrow>
   (usize, io_error) result \<times> ('w, 'a, 'r, 'd) conditional_writer" where
  "record_write r cw =
     (case record_result (cw_bytes_written cw) r of
        (r', count) \<Rightarrow>
          (case r' of
             Ok n \<Rightarrow> (Ok n, cw\<lparr>cw_bytes_written := count\<rparr>)
           | Err e \<Rightarrow>
               if ioe_kind e = IoInterrupted \<or> ioe_kind e = IoWouldBlock
               then (Err e, cw\<lparr>cw_bytes_written := count\<rparr>)
               else (Err e, cw\<lparr>cw_bytes_written := count, cw_write_failed := True\<rparr>)
           | Panic \<Rightarrow> (Panic, cw)))"

definition write_inner ::
  "byte list list \<Rightarrow> bool \<Rightarrow> ('w, 'a, 'r, 'd) conditional_writer \<Rightarrow> 'w \<Rightarrow>
   (usize, io_error) result \<times> ('w, 'a, 'r, 'd) conditional_writer \<times> 'w" where
  "write_inner slices vectored cw w =
     (case writable cw of
        Err e \<Rightarrow> (Err e, cw, w)
      | Panic \<Rightarrow> (Panic, cw, w)
      | Ok _ \<Rightarrow>
          (case (if vectored then check_vectored_request (cw_bytes_written cw) slices
                 else check_request (cw_bytes_written cw)
                        (case slices of [] \<Rightarrow> 0 | chunk # _ \<Rightarrow> length chunk)) of
             Err e \<Rightarrow> (Err e, cw, w)
           | Panic \<Rightarrow> (Panic, cw, w)
           | Ok _ \<Rightarrow>
               if vectored \<and> list_all (\<lambda>chunk. chunk = []) slices then (Ok 0, cw, w)
               else
                 (case cw_backend cw of
                    None \<Rightarrow> (Panic, cw, w)
                  | Some bk \<Rightarrow>
                      (case (if vectored then dispatch_write_vectored bk slices
                             else dispatch_write bk (case slices of [] \<Rightarrow> [] | chunk # _ \<Rightarrow> chunk)) w of
                         (r, w') \<Rightarrow> (case record_write r cw of (r', cw') \<Rightarrow> (r', cw', w'))))))"

text \<open>The caller of \<open>write_unchecked\<close> guarantees that the range lies in the input.\<close>

definition write_unchecked ::
  "byte list \<Rightarrow> usize \<Rightarrow> usize \<Rightarrow> ('w, 'a, 'r, 'd) conditional_writer \<Rightarrow> 'w \<Rightarrow>
   (usize, io_error) result \<times> ('w, 'a, 'r, 'd) conditional_writer \<times> 'w" where
  "write_unchecked input index count cw w =
     (case writable cw of
        Err e \<Rightarrow> (Err e, cw, w)
      | Panic \<Rightarrow> (Panic, cw, w)
      | Ok _ \<Rightarrow>
          (case check_request (cw_bytes_written cw) count of
             Err e \<Rightarrow> (Err e, cw, w)
           | Panic \<Rightarrow> (Panic, cw, w)
           | Ok _ \<Rightarrow>
               (case cw_backend cw of
                  None \<Rightarrow> (Panic, cw, w)
                | Some bk \<Rightarrow>
                    (case dispatch_write bk (take count (drop index input)) w of
                       (r, w') \<Rightarrow> (case record_write r cw of (r', cw') \<Rightarrow> (r', cw', w'))))))"

definition conditional_flush ::
  "('w, 'a, 'r, 'd) conditional_writer \<Rightarrow> 'w \<Rightarrow>
   (unit, io_error) result \<times> ('w, 'a, 'r, 'd) conditional_writer \<times> 'w" where
  "conditional_flush cw w =
     (case writable cw of
        Err e \<Rightarrow> (Err e, cw, w)
      | Panic \<Rightarrow> (Panic, cw, w)
      | Ok _ \<Rightarrow>
          (case cw_backend cw of
             None \<Rightarrow> (Panic, cw, w)
           | Some bk \<Rightarrow>
               (case cb_flush bk w of
                  (Ok u, w') \<Rightarrow> (Ok u, cw, w')
                | (Err e, w') \<Rightarrow>
                    if ioe_kind e = IoInterrupted \<or> ioe_kind e = IoWouldBlock then (Err e, cw, w')
                    else (Err e, cw\<lparr>cw_write_failed := True\<rparr>, w')
                | (Panic, w') \<Rightarrow> (Panic, cw, w'))))"

definition with_directory :: "path option \<Rightarrow> file_error \<Rightarrow> file_error" where
  "with_directory cwd e = (case cwd of Some d \<Rightarrow> with_current_directory d e | None \<Rightarrow> e)"

definition conditional_abort ::
  "('w, 'a, 'r, 'd) conditional_writer \<Rightarrow> 'w \<Rightarrow>
   (write_outcome, file_error) result \<times> ('w, 'a, 'r, 'd) conditional_writer \<times> 'w" where
  "conditional_abort cw w =
     (if cw_state cw \<noteq> WriterOpen then
        (Err (with_directory (cw_current_directory cw)
                (with_path (cw_path cw) (error_new KInvalidState OpAbort))), cw, w)
      else
        (case cw_backend cw of
           None \<Rightarrow> (Panic, cw, w)
         | Some bk \<Rightarrow>
             (case cb_abort bk w of
                (Ok _, w') \<Rightarrow>
                  (Ok (write_outcome_new Aborted False AtomicRename False (cw_bytes_written cw) None),
                   cw\<lparr>cw_backend := None, cw_precondition := None, cw_state := Aborted\<rparr>, w')
              | (Err e, w') \<Rightarrow>
                  (Err (with_directory (cw_current_directory cw) (from_io OpAbort (Some (cw_path cw)) None e)),
                   cw\<lparr>cw_abort_failed := True\<rparr>, w')
              | (Panic, w') \<Rightarrow> (Panic, cw, w'))))"

definition drop_conditional :: "('w, 'a, 'r, 'd) conditional_writer \<Rightarrow> 'w \<Rightarrow> 'w" where
  "drop_conditional cw w =
     (if cw_state cw = WriterOpen
      then (case cw_backend cw of Some bk \<Rightarrow> snd (cb_abort bk w) | None \<Rightarrow> w)
      else w)"

text \<open>A commit that may not proceed drops the writer, whose drop aborts an open session.\<close>

definition conditional_commit ::
  "('w, 'a, 'r, 'd) conditional_writer \<Rightarrow> 'w \<Rightarrow>
   (('a, 'd) conditional_outcome, 'a commit_error) result \<times> 'w" where
  "conditional_commit cw w =
     (if \<not> can_write cw then
        (Err (with_fallback_current_directory (cw_current_directory cw)
                \<lparr>ce_error = with_path (cw_path cw) (error_new KInvalidState OpCommit),
                 ce_reason = ReasonInvalidState, ce_stage = StPrepare, ce_publication = NotPublished,
                 ce_recovery_files = []\<rparr>), drop_conditional cw w)
      else
        (case (cw_backend cw, cw_precondition cw) of
           (Some bk, Some pre) \<Rightarrow>
             (case commit_conditional_with_directory bk pre (cw_options cw) (cw_bytes_written cw)
                     (cw_current_directory cw) w of
                (r, w') \<Rightarrow>
                  (map_err (\<lambda>e. with_fallback_current_directory (cw_current_directory cw)
                                  (with_fallback_path (cw_path cw) e)) r, w'))
         | _ \<Rightarrow> (Panic, w)))"

section \<open>The session of a conditional writer\<close>

definition conditional_phase :: "('w, 'a, 'r, 'd) conditional_writer \<Rightarrow> phase" where
  "conditional_phase cw =
     (if cw_state cw \<noteq> WriterOpen then Finished else if can_write cw then Accepting else Failed)"

definition conditional_exec ::
  "session_op \<Rightarrow> ('w, 'a, 'r, 'd) conditional_writer \<Rightarrow> 'w \<Rightarrow>
   session_result \<times> ('w, 'a, 'r, 'd) conditional_writer \<times> 'w" where
  "conditional_exec op cw w =
     (case op of
        Write bytes \<Rightarrow> (case write_inner [bytes] False cw w of (r, s) \<Rightarrow> (Wrote r, s))
      | WriteVectored slices \<Rightarrow> (case write_inner slices True cw w of (r, s) \<Rightarrow> (Wrote r, s))
      | Flush \<Rightarrow> (case conditional_flush cw w of (r, s) \<Rightarrow> (Flushed r, s))
      | Abort \<Rightarrow> (case conditional_abort cw w of (r, s) \<Rightarrow> (Ended r, s)))"

text \<open>What streaming relies on of a backend: its calls return, and it accepts no more than it is given.\<close>

definition streams_well :: "('w, 'a, 'r, 'd) conditional_backend \<Rightarrow> bool" where
  "streams_well bk \<longleftrightarrow>
     (\<forall>w. fst (cb_checkpoint bk PtWrite w) \<noteq> Panic \<and> fst (cb_flush bk w) \<noteq> Panic \<and> fst (cb_abort bk w) \<noteq> Panic) \<and>
     (\<forall>bytes w. case cb_write bk bytes w of
        (Ok k, _) \<Rightarrow> k \<le> length bytes | (Err _, _) \<Rightarrow> True | (Panic, _) \<Rightarrow> False) \<and>
     (\<forall>slices w. case cb_write_vectored bk slices w of
        (Ok k, _) \<Rightarrow> k \<le> length (concat slices) | (Err _, _) \<Rightarrow> True | (Panic, _) \<Rightarrow> False)"

definition conditional_ok :: "('w, 'a, 'r, 'd) conditional_writer \<Rightarrow> bool" where
  "conditional_ok cw \<longleftrightarrow>
     cw_state cw \<noteq> WriterOpen \<or>
     (cw_precondition cw \<noteq> None \<and> (case cw_backend cw of None \<Rightarrow> False | Some bk \<Rightarrow> streams_well bk))"

lemma dispatch_returns:
  assumes "streams_well bk"
  shows "dispatch_write bk bytes w = (r, w') \<Longrightarrow> r \<noteq> Panic \<and> (\<forall>k. r = Ok k \<longrightarrow> k \<le> length bytes)"
    and "dispatch_write_vectored bk slices w = (q, w') \<Longrightarrow>
      q \<noteq> Panic \<and> (\<forall>k. q = Ok k \<longrightarrow> k \<le> length (concat slices))"
proof -
  have point: "cb_checkpoint bk PtWrite w \<noteq> (Panic, w')" for w w'
    using assms by (metis fst_conv streams_well_def)
  have one: "case cb_write bk bytes w of (Ok k, _) \<Rightarrow> k \<le> length bytes | (Err _, _) \<Rightarrow> True | (Panic, _) \<Rightarrow> False"
    and many: "case cb_write_vectored bk slices w of
        (Ok k, _) \<Rightarrow> k \<le> length (concat slices) | (Err _, _) \<Rightarrow> True | (Panic, _) \<Rightarrow> False" for bytes slices w
    using assms by (auto simp: streams_well_def)
  show "r \<noteq> Panic \<and> (\<forall>k. r = Ok k \<longrightarrow> k \<le> length bytes)" if "dispatch_write bk bytes w = (r, w')"
    using that point one [of bytes "snd (cb_checkpoint bk PtWrite w)"]
    by (auto simp: dispatch_write_def seq_def bind_def split: prod.splits result.splits)
  show "q \<noteq> Panic \<and> (\<forall>k. q = Ok k \<longrightarrow> k \<le> length (concat slices))"
    if "dispatch_write_vectored bk slices w = (q, w')"
    using that point many [of slices "snd (cb_checkpoint bk PtWrite w)"]
    by (auto simp: dispatch_write_vectored_def seq_def bind_def split: prod.splits result.splits)
qed

lemma record_write_step:
  assumes "conditional_ok cw" and "can_write cw" and "check_request (cw_bytes_written cw) n = Ok ()"
    and "r \<noteq> Panic \<and> (\<forall>k. r = Ok k \<longrightarrow> k \<le> n)" and "record_write r cw = (r', cw')"
  shows "conditional_ok cw' \<and>
    session_step (conditional_phase cw, cw_bytes_written cw) (Wrote r') (conditional_phase cw', cw_bytes_written cw')"
proof -
  have "record_result (cw_bytes_written cw) r = (r, cw_bytes_written cw + (case r of Ok k \<Rightarrow> k | _ \<Rightarrow> 0))"
    using assms(3,4) by (intro record_result_checked [of _ n]) auto
  moreover have "conditional_phase cw = Accepting"
    using assms(2) by (simp add: conditional_phase_def can_write_def)
  ultimately show ?thesis
    using assms
    by (cases r) (auto simp: record_write_def conditional_ok_def conditional_phase_def can_write_def
        check_request_Ok retryable_def intro!: session_step.accept session_step.write_again session_step.write_fatal
        split: if_splits)
qed

lemma can_write_phase: "can_write cw \<longleftrightarrow> conditional_phase cw = Accepting"
  by (auto simp: conditional_phase_def can_write_def)

lemma can_write_backend:
  assumes "conditional_ok cw" and "can_write cw"
  obtains bk where "cw_backend cw = Some bk" "streams_well bk"
  using assms by (auto simp: conditional_ok_def can_write_def split: option.splits)

lemma writable_cases: "writable cw = (if can_write cw then Ok () else Err (io_error_of IoBrokenPipe))"
  by (simp add: writable_def)

lemma refused_conditional:
  assumes "\<not> can_write cw"
  shows "session_step (conditional_phase cw, n) (Wrote (Err (io_error_of IoBrokenPipe))) (conditional_phase cw, n)"
    and "session_step (conditional_phase cw, n) (Flushed (Err (io_error_of IoBrokenPipe))) (conditional_phase cw, n)"
  using assms by (auto simp: can_write_phase intro: session_step.intros)

definition requested_len :: "byte list list \<Rightarrow> bool \<Rightarrow> nat" where
  "requested_len slices vectored =
     (if vectored then length (concat slices) else case slices of [] \<Rightarrow> 0 | chunk # _ \<Rightarrow> length chunk)"

lemma write_inner_step:
  assumes "conditional_ok cw" and "cw_bytes_written cw \<le> usize_max"
    and "write_inner slices vectored cw w = (r, cw', w')"
  shows "conditional_ok cw' \<and>
    session_step (conditional_phase cw, cw_bytes_written cw) (Wrote r) (conditional_phase cw', cw_bytes_written cw')"
proof (cases "can_write cw")
  case True
  let ?n = "requested_len slices vectored"
  have accepting: "conditional_phase cw = Accepting"
    using True by (simp add: can_write_phase)
  have request: "(if vectored then check_vectored_request (cw_bytes_written cw) slices
      else check_request (cw_bytes_written cw) (case slices of [] \<Rightarrow> 0 | chunk # _ \<Rightarrow> length chunk)) =
      check_request (cw_bytes_written cw) ?n"
    by (simp add: requested_len_def check_vectored_request_eq)
  obtain bk where bk: "cw_backend cw = Some bk" "streams_well bk"
    using can_write_backend [OF assms(1) True] .
  consider (refused) "check_request (cw_bytes_written cw) ?n = Err file_too_large"
    | (empty) "check_request (cw_bytes_written cw) ?n = Ok ()" "vectored" "list_all (\<lambda>chunk. chunk = []) slices"
    | (run) "check_request (cw_bytes_written cw) ?n = Ok ()" "\<not> (vectored \<and> list_all (\<lambda>chunk. chunk = []) slices)"
    using check_request_cases by blast
  then show ?thesis
  proof cases
    case refused
    then show ?thesis
      using assms(1,3) True accepting by (auto simp: write_inner_def writable_cases request intro: session_step.intros)
  next
    case empty
    then have "r = Ok 0" "cw' = cw"
      using assms(3) True unfolding write_inner_def writable_cases request by auto
    then show ?thesis
      using session_step.accept [of "cw_bytes_written cw" 0] assms(1,2) accepting by simp
  next
    case run
    obtain q w1 where q: "(if vectored then dispatch_write_vectored bk slices
        else dispatch_write bk (case slices of [] \<Rightarrow> [] | chunk # _ \<Rightarrow> chunk)) w = (q, w1)" by force
    have "record_write q cw = (r, cw')"
      using assms(3) True run q bk unfolding write_inner_def writable_cases request
      by (auto split: prod.splits)
    moreover have "q \<noteq> Panic \<and> (\<forall>k. q = Ok k \<longrightarrow> k \<le> ?n)"
      using q dispatch_returns(1) [OF bk(2), of "case slices of [] \<Rightarrow> [] | chunk # _ \<Rightarrow> chunk" w q w1]
        dispatch_returns(2) [OF bk(2), of slices w q w1]
      by (cases vectored) (auto simp: requested_len_def split: list.splits)
    ultimately show ?thesis
      using record_write_step [OF assms(1) True run(1)] by blast
  qed
next
  case False
  then show ?thesis
    using assms(1,3) refused_conditional(1) by (auto simp: write_inner_def writable_cases)
qed

lemma conditional_flush_step:
  assumes "conditional_ok cw" and "conditional_flush cw w = (r, cw', w')"
  shows "conditional_ok cw' \<and>
    session_step (conditional_phase cw, cw_bytes_written cw) (Flushed r) (conditional_phase cw', cw_bytes_written cw')"
proof (cases "can_write cw")
  case True
  have accepting: "conditional_phase cw = Accepting"
    using True by (simp add: can_write_phase)
  obtain bk where bk: "cw_backend cw = Some bk" "streams_well bk"
    using can_write_backend [OF assms(1) True] .
  obtain q w1 where q: "cb_flush bk w = (q, w1)" by force
  then have "q \<noteq> Panic"
    using bk(2) unfolding streams_well_def by (metis fst_conv)
  then show ?thesis
    using assms True bk(1) q accepting
    by (cases q) (auto simp: conditional_flush_def writable_cases conditional_ok_def conditional_phase_def
        can_write_def retryable_def
        intro!: session_step.flushed session_step.flush_again session_step.flush_fatal split: if_splits)
next
  case False
  then show ?thesis
    using assms refused_conditional(2) by (auto simp: conditional_flush_def writable_cases)
qed

lemma with_directory_kind [simp]: "fe_kind (with_directory cwd e) = fe_kind e"
  by (cases e) (simp add: with_directory_def split: option.split)

lemma conditional_abort_step:
  assumes "conditional_ok cw" and "conditional_abort cw w = (r, cw', w')"
  shows "conditional_ok cw' \<and>
    session_step (conditional_phase cw, cw_bytes_written cw) (Ended r) (conditional_phase cw', cw_bytes_written cw')"
proof (cases "cw_state cw = WriterOpen")
  case True
  then obtain bk where bk: "cw_backend cw = Some bk" "streams_well bk"
    using assms(1) by (auto simp: conditional_ok_def split: option.splits)
  obtain q w1 where q: "cb_abort bk w = (q, w1)" by force
  then have "q \<noteq> Panic"
    using bk(2) unfolding streams_well_def by (metis fst_conv)
  then show ?thesis
    using assms True bk(1) q
    by (cases q) (auto simp: conditional_abort_def conditional_ok_def conditional_phase_def can_write_def
        write_outcome_new_def intro!: session_step.aborted session_step.abort_failed split: if_splits)
next
  case False
  have "fe_kind (with_path p (error_new KInvalidState OpAbort)) = KInvalidState" for p
    by (simp add: error_new_def)
  then show ?thesis
    using assms False by (auto simp: conditional_abort_def conditional_phase_def intro!: session_step.abort_refused)
qed

interpretation conditional: writer_session conditional_exec conditional_phase cw_bytes_written conditional_ok
proof unfold_locales
  show "conditional_ok cw' \<and>
      session_step (conditional_phase cw, cw_bytes_written cw) r (conditional_phase cw', cw_bytes_written cw')"
    if "conditional_ok cw" "cw_bytes_written cw \<le> usize_max" "conditional_exec op cw w = (r, cw', w')"
    for cw cw' :: "('a, 'b, 'c, 'd) conditional_writer" and op w w' r
    using that write_inner_step [OF that(1,2)] conditional_flush_step [OF that(1)]
      conditional_abort_step [OF that(1)]
    by (cases op) (auto simp: conditional_exec_def split: prod.splits)
  show "w' = w"
    if "conditional_phase cw \<noteq> Accepting" "op \<noteq> Abort \<or> conditional_phase cw = Finished"
      "conditional_exec op cw w = (r, cw', w')"
    for cw cw' :: "('a, 'b, 'c, 'd) conditional_writer" and op w w' r
  proof -
    have "\<not> can_write cw"
      using that(1) by (simp add: can_write_phase)
    moreover have "conditional_phase cw = Finished \<Longrightarrow> cw_state cw \<noteq> WriterOpen"
      by (simp add: conditional_phase_def split: if_splits)
    ultimately show ?thesis
      using that(2,3)
      by (cases op) (auto simp: conditional_exec_def write_inner_def conditional_flush_def conditional_abort_def
          writable_cases)
  qed
qed

section \<open>Properties\<close>

fun abort_result :: "session_result \<Rightarrow> bool" where
  "abort_result (Ended r) = True"
| "abort_result _ = False"

lemma abort_never_panics: "streams_well bk \<Longrightarrow> cb_abort bk w = (Panic, w') \<Longrightarrow> False"
  unfolding streams_well_def by (metis fst_conv)

lemma conditional_abort_stops:
  "conditional_ok cw \<Longrightarrow> conditional_abort cw w = (r, cw', w') \<Longrightarrow> conditional_phase cw' \<noteq> Accepting"
  by (auto simp: conditional_abort_def conditional_phase_def conditional_ok_def can_write_def
      split: prod.splits result.splits option.splits if_splits dest: abort_never_panics)

lemma conditional_stops:
  "conditional_ok cw \<Longrightarrow> cw_bytes_written cw \<le> usize_max \<Longrightarrow> conditional_exec op cw w = (r, cw', w') \<Longrightarrow>
   fatal r \<or> abort_result r \<Longrightarrow> conditional_phase cw' \<noteq> Accepting"
  using conditional.fatal_stops [of cw op w r cw' w'] conditional_abort_stops [of cw w]
  by (cases op) (auto simp: conditional_exec_def split: prod.splits)

lemma conditional_run_stops:
  "conditional_ok cw \<Longrightarrow> cw_bytes_written cw \<le> usize_max \<Longrightarrow>
   run_session conditional_exec ops cw w = (rs, cw', w') \<Longrightarrow>
   sorted_wrt (\<lambda>r later. fatal r \<or> abort_result r \<longrightarrow> refused later) rs \<and>
   (conditional_phase cw \<noteq> Accepting \<longrightarrow> list_all refused rs) \<and>
   (conditional_phase cw \<noteq> Accepting \<or> list_ex (\<lambda>r. fatal r \<or> abort_result r) rs \<longrightarrow>
      conditional_phase cw' \<noteq> Accepting) \<and>
   (conditional_phase cw = Finished \<or> list_ex ended rs \<longrightarrow> conditional_phase cw' = Finished)"
  by (rule conditional.run_stops [where ends = "\<lambda>r. fatal r \<or> abort_result r"]) (erule conditional_stops)

text \<open>
  C27: a session of a conditional writer counts exactly. From a new conditional writer whose backend's
  streaming calls return and accept no more than they are given, after any sequence of writes, vectored
  writes, flushes and aborts, the count is the sum of the accepted bytes, stays within 64 bits, and every
  operation returned without a panic. After a fatal write or flush, and after any abort, successful or
  failed, every later write and flush of the sequence is refused as a broken pipe, and going on changes
  neither the count nor, unless it aborts, the world; after a completed abort nothing changes it.
\<close>

theorem conditional_session_counts:
  assumes "streams_well bk"
    and "run_session conditional_exec ops (conditional_writer_new p diagnostic cwd bk pre opts) w = (rs, cw, w1)"
    and "run_session conditional_exec more_ops cw w1 = (rs', cw', w2)"
  shows "cw_bytes_written cw = sum_list (map accepted rs) \<and> cw_bytes_written cw \<le> usize_max \<and>
    list_all no_panic rs \<and> length rs = length ops \<and>
    sorted_wrt (\<lambda>r later. fatal r \<or> abort_result r \<longrightarrow> refused later) rs \<and>
    (list_ex (\<lambda>r. fatal r \<or> abort_result r) rs \<longrightarrow>
       cw_bytes_written cw' = cw_bytes_written cw \<and> list_all refused rs') \<and>
    (list_ex (\<lambda>r. fatal r \<or> abort_result r) rs \<and> Abort \<notin> set more_ops \<or> list_ex ended rs \<longrightarrow> w2 = w1)"
proof -
  have start: "conditional_ok (conditional_writer_new p diagnostic cwd bk pre opts)"
    "cw_bytes_written (conditional_writer_new p diagnostic cwd bk pre opts) = 0"
    using assms(1) by (simp_all add: conditional_ok_def conditional_writer_new_def)
  have run: "conditional_ok cw \<and> cw_bytes_written cw = sum_list (map accepted rs) \<and>
      cw_bytes_written cw \<le> usize_max \<and> list_all no_panic rs \<and> length rs = length ops"
    using conditional.run_counts [OF start(1) _ assms(2)] start(2) by simp
  have first: "sorted_wrt (\<lambda>r later. fatal r \<or> abort_result r \<longrightarrow> refused later) rs"
    "list_ex (\<lambda>r. fatal r \<or> abort_result r) rs \<longrightarrow> conditional_phase cw \<noteq> Accepting"
    "list_ex ended rs \<longrightarrow> conditional_phase cw = Finished"
    using conditional_run_stops [OF start(1) _ assms(2)] start(2) by simp_all
  have refused: "conditional_phase cw \<noteq> Accepting \<longrightarrow> list_all refused rs'"
    using conditional_run_stops [OF _ _ assms(3)] run by blast
  have "conditional_phase cw \<noteq> Accepting \<longrightarrow> cw_bytes_written cw' = cw_bytes_written cw"
    using conditional.run_still [OF _ _ _ assms(3)] run by blast
  then show ?thesis
    using conditional.run_idle [OF _ _ _ _ assms(3)] run first refused by (metis phase.distinct(3))
qed

theorem conditional_session_counts_witness:
  "streams_well memory_backend \<and>
   (case run_session conditional_exec [Write [1, 2], WriteVectored [[], []], Abort, Flush]
        (conditional_writer_new [97] None None memory_backend Absent strict_options) memory_start of
      (rs, _, _) \<Rightarrow> list_all no_panic rs \<and> length rs = 4)"
proof -
  have ok: "streams_well memory_backend"
    by (simp add: streams_well_def memory_backend_def)
  have "list_all no_panic rs \<and> length rs = 4"
    if "run_session conditional_exec [Write [1, 2], WriteVectored [[], []], Abort, Flush]
        (conditional_writer_new [97] None None memory_backend Absent strict_options) memory_start = (rs, cw, w)"
    for rs cw w
    using conditional_session_counts [OF ok that run_session.simps(1)] by simp
  with ok show ?thesis
    by (auto split: prod.split simp del: run_session.simps)
qed

lemma commit_Ok_outcome:
  "commit_conditional_with_directory bk pre opts bytes cwd w = (Ok out, w') \<Longrightarrow>
   wr_bytes_written (co_write_outcome out) = bytes \<and> wr_state (co_write_outcome out) = Committed"
  by (auto simp: commit_conditional_with_directory_def commit_succeeded_def bind_def ret_def
      conditional_outcome_new_def with_file_synced_def write_outcome_new_def
      split: prod.splits result.splits if_splits)

lemma fallback_path:
  "fe_path (ce_error (with_fallback_current_directory cwd (with_fallback_path p e))) \<noteq> None"
proof -
  have path: "fe_path (with_current_directory d x) = fe_path x" "fe_path (with_path p x) = Some p" for d x
    by (cases x; simp)+
  show ?thesis
    by (auto simp: with_fallback_current_directory_def with_fallback_path_def path split: option.split)
qed

text \<open>
  C28: a conditional commit publishes only for a session that is still accepting. From a writer that
  failed, was aborted or whose abort failed, commit reports an invalid state with nothing published and the
  protocol does not run: the world changes at most by aborting an open session. From an accepting writer a
  successful outcome carries exactly the session's byte count, a failure names the writer's path or an
  earlier one, and over a backend that does not panic neither does the commit.
\<close>

theorem conditional_commit_gate:
  assumes "conditional_ok cw"
  shows "(cw_state cw \<noteq> WriterOpen \<or> cw_write_failed cw \<or> cw_abort_failed cw \<longrightarrow>
      (\<exists>e. conditional_commit cw w = (Err e, drop_conditional cw w) \<and> ce_publication e = NotPublished \<and>
         ce_reason e = ReasonInvalidState \<and> ce_recovery_files e = [])) \<and>
    (cw_state cw = WriterOpen \<and> \<not> cw_write_failed cw \<and> \<not> cw_abort_failed cw \<longrightarrow>
      (case conditional_commit cw w of
         (Ok out, _) \<Rightarrow> wr_bytes_written (co_write_outcome out) = cw_bytes_written cw \<and>
           wr_state (co_write_outcome out) = Committed
       | (Err e, _) \<Rightarrow> fe_path (ce_error e) \<noteq> None
       | (Panic, _) \<Rightarrow> \<exists>bk. cw_backend cw = Some bk \<and> \<not> panic_free bk))"
proof (cases "can_write cw")
  case True
  then obtain bk pre where parts: "cw_backend cw = Some bk" "cw_precondition cw = Some pre"
    using assms by (auto simp: conditional_ok_def can_write_def split: option.splits)
  obtain r w' where run: "commit_conditional_with_directory bk pre (cw_options cw) (cw_bytes_written cw)
      (cw_current_directory cw) w = (r, w')" by force
  have "r \<noteq> Panic" if "panic_free bk"
    using commit_returns [OF that] run by (metis fst_conv)
  then show ?thesis
    using True parts run commit_Ok_outcome [of bk pre "cw_options cw" "cw_bytes_written cw"
        "cw_current_directory cw" w _ w'] fallback_path [of "cw_current_directory cw" "cw_path cw"]
    by (cases r) (auto simp: conditional_commit_def map_err_def can_write_def)
next
  case False
  then show ?thesis
    by (auto simp: conditional_commit_def can_write_def with_fallback_current_directory_def split: option.split)
qed

definition aborted_sample :: "(memory_world, slot, slot, byte list) conditional_writer" where
  "aborted_sample =
     (conditional_writer_new [97] None None memory_backend Absent strict_options)\<lparr>cw_abort_failed := True\<rparr>"

theorem conditional_commit_gate_witness:
  "cw_abort_failed aborted_sample \<and>
   (\<exists>e. conditional_commit aborted_sample memory_start = (Err e, drop_conditional aborted_sample memory_start) \<and>
      ce_publication e = NotPublished)"
proof -
  have "conditional_ok aborted_sample" and stop: "cw_abort_failed aborted_sample"
    by (simp_all add: conditional_ok_def aborted_sample_def conditional_writer_new_def streams_well_def memory_backend_def)
  from conditional_commit_gate [OF this(1), of memory_start] stop show ?thesis
    by blast
qed

end
