(* ===== verification/Resolution.thy ===== *)
theory Resolution
  imports Std_Path Commit_Monad
begin

text \<open>
  What path resolution under an opened root works with: validated relative paths
  (\<^verbatim>\<open>src/local/local_relative_path.rs\<close>), resolution limits
  (\<^verbatim>\<open>src/options/local_resolution_limits.rs\<close>), the inherited contract and the session that counts against it
  (\<^verbatim>\<open>src/resolution\<close>), component policies and the binding budget (\<^verbatim>\<open>src/directory\<close>), and the native
  tokens of a path on Unix. The policies of a contract are objects that callers supply, so they are
  functions here, which answer with their refusal, if any.
\<close>

section \<open>Relative paths\<close>

definition contains_nul :: "path \<Rightarrow> bool" where
  "contains_nul p = (0 \<in> set p)"

definition contains_explicit_dot_component :: "path \<Rightarrow> bool" where
  "contains_explicit_dot_component p = ([46] \<in> set (split_slash p))"

fun is_normal :: "component \<Rightarrow> bool" where
  "is_normal (Normal _) = True"
| "is_normal _ = False"

definition relative_path_new :: "path \<Rightarrow> (path, io_error) result" where
  "relative_path_new p =
     (if p = [] \<or> contains_nul p \<or> contains_explicit_dot_component p \<or>
         list_ex (\<lambda>c. \<not> is_normal c) (components p)
      then Err (io_error_of IoInvalidInput) else Ok p)"

definition relative_join :: "path \<Rightarrow> path \<Rightarrow> (path, io_error) result" where
  "relative_join p child =
     (case relative_path_new child of
        Ok child \<Rightarrow> relative_path_new (path_join p child)
      | Err e \<Rightarrow> Err e
      | Panic \<Rightarrow> Panic)"

definition join_component :: "path \<Rightarrow> path \<Rightarrow> (path, io_error) result" where
  "join_component p child =
     (case components child of
        [Normal _] \<Rightarrow> relative_join p child
      | _ \<Rightarrow> Err (io_error_of IoInvalidInput))"

section \<open>Limits\<close>

record resolution_limits =
  rl_symlink_hops :: "usize option"
  rl_symlink_target_bytes :: "usize option"
  rl_actual_components :: "usize option"
  rl_resolved_path_bytes :: "usize option"

definition resolution_limits_new :: resolution_limits where
  "resolution_limits_new =
     \<lparr>rl_symlink_hops = None, rl_symlink_target_bytes = None, rl_actual_components = None,
      rl_resolved_path_bytes = None\<rparr>"

fun min_limit :: "usize option \<Rightarrow> usize option \<Rightarrow> usize option" where
  "min_limit (Some parent) (Some child) = Some (if parent < child then parent else child)"
| "min_limit (Some parent) None = Some parent"
| "min_limit None (Some child) = Some child"
| "min_limit None None = None"

definition limits_tightened :: "resolution_limits \<Rightarrow> resolution_limits \<Rightarrow> resolution_limits" where
  "limits_tightened parent child =
     \<lparr>rl_symlink_hops = min_limit (rl_symlink_hops parent) (rl_symlink_hops child),
      rl_symlink_target_bytes = min_limit (rl_symlink_target_bytes parent) (rl_symlink_target_bytes child),
      rl_actual_components = min_limit (rl_actual_components parent) (rl_actual_components child),
      rl_resolved_path_bytes = min_limit (rl_resolved_path_bytes parent) (rl_resolved_path_bytes child)\<rparr>"

section \<open>The contract\<close>

datatype resolution_origin = OriginInput | OriginSymlinkTarget

datatype resolution_scope = OpeningRoot | Descendant

record resolution_policy =
  rp_component :: "byte list \<Rightarrow> resolution_scope \<Rightarrow> resolution_origin \<Rightarrow> file_error option"
  rp_symlink_target :: "path \<Rightarrow> resolution_scope \<Rightarrow> file_error option"

record resolution_contract =
  rc_limits :: resolution_limits
  rc_policies :: "resolution_policy list"

definition contract_unrestricted :: resolution_contract where
  "contract_unrestricted = \<lparr>rc_limits = resolution_limits_new, rc_policies = []\<rparr>"

definition contract_tightened :: "resolution_contract \<Rightarrow> resolution_limits \<Rightarrow> resolution_contract" where
  "contract_tightened c limits = c\<lparr>rc_limits := limits_tightened (rc_limits c) limits\<rparr>"

definition contract_with_policy :: "resolution_contract \<Rightarrow> resolution_policy \<Rightarrow> resolution_contract" where
  "contract_with_policy c policy = c\<lparr>rc_policies := rc_policies c @ [policy]\<rparr>"

text \<open>The loop over the policies: the first refusal is the answer.\<close>

fun first_refusal :: "(resolution_policy \<Rightarrow> file_error option) \<Rightarrow> resolution_policy list \<Rightarrow>
   (unit, file_error) result" where
  "first_refusal ask [] = Ok ()"
| "first_refusal ask (policy # policies) =
     (case ask policy of None \<Rightarrow> first_refusal ask policies | Some e \<Rightarrow> Err e)"

definition contract_validate_component ::
  "resolution_contract \<Rightarrow> byte list \<Rightarrow> resolution_scope \<Rightarrow> resolution_origin \<Rightarrow> (unit, file_error) result" where
  "contract_validate_component c name scope origin =
     first_refusal (\<lambda>policy. rp_component policy name scope origin) (rc_policies c)"

definition contract_validate_target ::
  "resolution_contract \<Rightarrow> path \<Rightarrow> resolution_scope \<Rightarrow> (unit, file_error) result" where
  "contract_validate_target c target scope =
     first_refusal (\<lambda>policy. rp_symlink_target policy target scope) (rc_policies c)"

section \<open>The session\<close>

record resolution_session =
  rs_contract :: resolution_contract
  rs_scope :: resolution_scope
  rs_hops :: usize

definition session_new :: "resolution_contract \<Rightarrow> resolution_scope \<Rightarrow> resolution_session" where
  "session_new c scope = \<lparr>rs_contract = c, rs_scope = scope, rs_hops = 0\<rparr>"

definition limit_error_with_limit :: "resource_kind \<Rightarrow> usize \<Rightarrow> usize \<Rightarrow> bool \<Rightarrow> file_error" where
  "limit_error_with_limit kind lim observed overflow =
     (let e = limit_error_new kind lim (lim - min observed lim) 1
      in from_resource_limit OpMetadata None (if overflow then with_overflow e else with_observed e observed))"

definition overflow_error :: "resource_kind \<Rightarrow> file_error" where
  "overflow_error kind = limit_error_with_limit kind usize_max usize_max True"

definition before_follow_link ::
  "resolution_session \<Rightarrow> (unit, file_error) result \<times> resolution_session" where
  "before_follow_link s =
     (case checked_add (rs_hops s) 1 of
        None \<Rightarrow> (Err (overflow_error SymlinkHops), s)
      | Some hops \<Rightarrow>
          (case rl_symlink_hops (rc_limits (rs_contract s)) of
             Some lim \<Rightarrow>
               if hops > lim then (Err (limit_error_with_limit SymlinkHops lim hops False), s\<lparr>rs_hops := hops\<rparr>)
               else (Ok (), s\<lparr>rs_hops := hops\<rparr>)
           | None \<Rightarrow> (Ok (), s\<lparr>rs_hops := hops\<rparr>)))"

definition session_check :: "resource_kind \<Rightarrow> usize \<Rightarrow> usize option \<Rightarrow> (unit, file_error) result" where
  "session_check kind observed lim =
     (case lim of
        Some lim \<Rightarrow> if observed > lim then Err (limit_error_with_limit kind lim observed False) else Ok ()
      | None \<Rightarrow> Ok ())"

definition check_pending :: "resolution_session \<Rightarrow> usize \<Rightarrow> usize \<Rightarrow> (unit, file_error) result" where
  "check_pending s comps bytes =
     (case session_check PendingResolutionComponents comps (rl_actual_components (rc_limits (rs_contract s))) of
        Ok _ \<Rightarrow>
          session_check PendingResolutionBytes bytes (rl_resolved_path_bytes (rc_limits (rs_contract s)))
      | r \<Rightarrow> r)"

definition check_resolved :: "resolution_session \<Rightarrow> usize \<Rightarrow> usize \<Rightarrow> (unit, file_error) result" where
  "check_resolved s comps bytes =
     (case session_check ResolvedComponents comps (rl_actual_components (rc_limits (rs_contract s))) of
        Ok _ \<Rightarrow> session_check ResolvedPathBytes bytes (rl_resolved_path_bytes (rc_limits (rs_contract s)))
      | r \<Rightarrow> r)"

definition session_validate_component ::
  "resolution_session \<Rightarrow> byte list \<Rightarrow> resolution_origin \<Rightarrow> (unit, file_error) result" where
  "session_validate_component s name origin =
     contract_validate_component (rs_contract s) name (rs_scope s) origin"

definition session_validate_target :: "resolution_session \<Rightarrow> path \<Rightarrow> (unit, file_error) result" where
  "session_validate_target s target =
     (case session_check SymlinkTargetBytes (length target)
             (rl_symlink_target_bytes (rc_limits (rs_contract s))) of
        Ok _ \<Rightarrow> contract_validate_target (rs_contract s) target (rs_scope s)
      | r \<Rightarrow> r)"

section \<open>Component policies and the binding budget\<close>

record component_policy =
  cp_denied :: "byte list list"

definition deny_names :: "byte list list \<Rightarrow> (component_policy, file_error) result" where
  "deny_names names =
     (if list_ex (\<lambda>name. name = [] \<or> name = [46] \<or> name = [46, 46] \<or> components name \<noteq> [Normal name]) names
      then Err (with_reason ''denied component names must be non-empty single native names other than . or ..''
                  (error_new KInvalidOptions OpBindPath))
      else Ok \<lparr>cp_denied = names\<rparr>)"

definition policy_denies :: "component_policy \<Rightarrow> byte list \<Rightarrow> bool" where
  "policy_denies policy name = (name \<in> set (cp_denied policy))"

definition policy_combined_with :: "component_policy \<Rightarrow> component_policy \<Rightarrow> component_policy" where
  "policy_combined_with policy other =
     \<lparr>cp_denied =
        fold (\<lambda>name denied. if name \<in> set denied then denied else denied @ [name]) (cp_denied other)
          (cp_denied policy)\<rparr>"

definition policy_validate_component :: "component_policy \<Rightarrow> byte list \<Rightarrow> (unit, file_error) result" where
  "policy_validate_component policy name =
     (if policy_denies policy name then
        Err (with_reason ''path component is rejected by the configured component policy''
               (error_new KInvalidPath OpBindPath))
      else Ok ())"

record binding_budget =
  pb_limit :: "usize option"
  pb_used :: usize

definition binding_budget_new :: "usize option \<Rightarrow> binding_budget" where
  "binding_budget_new lim = \<lparr>pb_limit = lim, pb_used = 0\<rparr>"

definition debit ::
  "binding_budget \<Rightarrow> usize \<Rightarrow> file_operation \<Rightarrow> path \<Rightarrow> (unit, file_error) result \<times> binding_budget" where
  "debit b bytes op p =
     (case checked_add (pb_used b) bytes of
        None \<Rightarrow> (Err (with_path p (error_new KResourceLimit op)), b)
      | Some used \<Rightarrow>
          ((case pb_limit b of
              Some lim \<Rightarrow> if used > lim then Err (with_path p (error_new KResourceLimit op)) else Ok ()
            | None \<Rightarrow> Ok ()), b\<lparr>pb_used := used\<rparr>))"

section \<open>Native tokens\<close>

datatype native_token =
    TokNormal "byte list" resolution_origin
  | TokCurrent resolution_origin
  | TokParent resolution_origin
  | TokRequireDirectory

definition path_parts :: "path \<Rightarrow> byte list list" where
  "path_parts p = filter (\<lambda>part. part \<noteq> []) (split_slash p)"

definition has_trailing_separator :: "path \<Rightarrow> bool" where
  "has_trailing_separator p = (p \<noteq> [] \<and> last p = 47)"

fun measure_parts :: "usize \<Rightarrow> usize \<Rightarrow> byte list list \<Rightarrow> (usize \<times> usize) option" where
  "measure_parts comps bytes [] = Some (comps, bytes)"
| "measure_parts comps bytes (part # parts) =
     (case checked_add comps 1 of
        None \<Rightarrow> None
      | Some comps' \<Rightarrow>
          (case checked_add bytes (length part) of
             None \<Rightarrow> None
           | Some bytes' \<Rightarrow>
               (case checked_add bytes' 1 of
                  None \<Rightarrow> None
                | Some bytes'' \<Rightarrow> measure_parts comps' bytes'' parts)))"

definition measure_path :: "path \<Rightarrow> (usize \<times> usize) option" where
  "measure_path p = measure_parts 0 0 (path_parts p)"

definition allocation_error :: file_error where
  "allocation_error = from_io OpMetadata None None (io_error_of IoOutOfMemory)"

text \<open>\<open>reserve\<close> is the allocator's answer to a request for that many elements.\<close>

fun tokens_of_parts ::
  "(nat \<Rightarrow> bool) \<Rightarrow> resolution_origin \<Rightarrow> byte list list \<Rightarrow> (native_token list, file_error) result" where
  "tokens_of_parts reserve origin [] = Ok []"
| "tokens_of_parts reserve origin (part # parts) =
     (if part \<noteq> [46] \<and> part \<noteq> [46, 46] \<and> \<not> reserve (length part) then Err allocation_error
      else
        (case tokens_of_parts reserve origin parts of
           Ok tokens \<Rightarrow>
             Ok ((if part = [46] then TokCurrent origin
                  else if part = [46, 46] then TokParent origin
                  else TokNormal part origin) # tokens)
         | Err e \<Rightarrow> Err e
         | Panic \<Rightarrow> Panic))"

definition token_capacity :: "usize \<Rightarrow> bool \<Rightarrow> usize option" where
  "token_capacity comps marker = checked_add comps (if marker then 1 else 0)"

definition tokens_after_check ::
  "(nat \<Rightarrow> bool) \<Rightarrow> path \<Rightarrow> resolution_origin \<Rightarrow> usize \<Rightarrow> (native_token list, file_error) result" where
  "tokens_after_check reserve p origin capacity =
     (if \<not> reserve capacity then Err allocation_error
      else
        (case tokens_of_parts reserve origin (path_parts p) of
           Ok tokens \<Rightarrow> Ok (tokens @ (if has_trailing_separator p then [TokRequireDirectory] else []))
         | Err e \<Rightarrow> Err e
         | Panic \<Rightarrow> Panic))"

definition tokenize ::
  "(nat \<Rightarrow> bool) \<Rightarrow> path \<Rightarrow> resolution_origin \<Rightarrow> resolution_session \<Rightarrow> (native_token list, file_error) result" where
  "tokenize reserve p origin s =
     (case measure_path p of
        None \<Rightarrow> Err (overflow_error PendingResolutionBytes)
      | Some (comps, bytes) \<Rightarrow>
          (case check_pending s comps bytes of
             Err e \<Rightarrow> Err e
           | Panic \<Rightarrow> Panic
           | Ok _ \<Rightarrow>
               (case token_capacity comps (has_trailing_separator p) of
                  None \<Rightarrow> Err (overflow_error PendingResolutionComponents)
                | Some capacity \<Rightarrow> tokens_after_check reserve p origin capacity)))"

section \<open>Lemmas\<close>

text \<open>A name that can be a component: not empty, no separator, neither dot.\<close>

definition proper_name :: "byte list \<Rightarrow> bool" where
  "proper_name name \<longleftrightarrow> name \<noteq> [] \<and> 47 \<notin> set name \<and> name \<noteq> [46] \<and> name \<noteq> [46, 46]"

lemma split_slash_parts: "part \<in> set (split_slash p) \<Longrightarrow> 47 \<notin> set part"
  by (induction p arbitrary: part) (auto split: if_splits list.splits)

lemma path_parts_clean: "part \<in> set (path_parts p) \<Longrightarrow> part \<noteq> [] \<and> 47 \<notin> set part"
  by (auto simp: path_parts_def dest: split_slash_parts)

lemma split_join_slash:
  "cs \<noteq> [] \<Longrightarrow> (\<And>c. c \<in> set cs \<Longrightarrow> 47 \<notin> set c) \<Longrightarrow> split_slash (join_slash cs) = cs"
proof (induction cs rule: join_slash.induct)
  case (3 c d cs)
  have "split_slash (c @ 47 # rest) = c # split_slash rest" if "47 \<notin> set c" for c rest
    using that by (induction c) auto
  then show ?case
    using 3 by simp
qed (simp_all add: split_slash_no_slash)

lemma components_join:
  assumes "cs \<noteq> []" and "\<And>c. c \<in> set cs \<Longrightarrow> proper_name c"
  shows "components (join_slash cs) = map Normal cs"
proof -
  have "split_slash (join_slash cs) = cs"
    using assms by (intro split_join_slash) (auto simp: proper_name_def)
  moreover have "body_components cs = map Normal cs"
    using assms(2) by (induction cs) (auto simp: body_components_def redundant_def as_component_def proper_name_def)
  ultimately show ?thesis
    using assms by (cases cs) (auto simp: components_def proper_name_def)
qed

lemma measure_parts_eq:
  "measure_parts comps bytes parts = Some (c, b) \<Longrightarrow>
   c = comps + length parts \<and> b = bytes + sum_list (map (\<lambda>part. length part + 1) parts)"
proof (induction parts arbitrary: comps bytes)
  case (Cons part parts)
  then have "measure_parts (comps + 1) (bytes + length part + 1) parts = Some (c, b)"
    by (auto simp: checked_add_def split: option.splits if_splits)
  from Cons.IH [OF this] show ?case
    by simp
qed simp

lemma check_limits:
  "check_pending s c b = Ok () \<longleftrightarrow>
     (\<forall>lim. rl_actual_components (rc_limits (rs_contract s)) = Some lim \<longrightarrow> c \<le> lim) \<and>
     (\<forall>lim. rl_resolved_path_bytes (rc_limits (rs_contract s)) = Some lim \<longrightarrow> b \<le> lim)"
  "check_resolved s c b = Ok () \<longleftrightarrow>
     (\<forall>lim. rl_actual_components (rc_limits (rs_contract s)) = Some lim \<longrightarrow> c \<le> lim) \<and>
     (\<forall>lim. rl_resolved_path_bytes (rc_limits (rs_contract s)) = Some lim \<longrightarrow> b \<le> lim)"
  by (auto simp: check_pending_def check_resolved_def session_check_def split: option.splits if_splits)

lemma tokens_of_parts_normal:
  "tokens_of_parts reserve origin parts = Ok tokens \<Longrightarrow> TokNormal name o' \<in> set tokens \<Longrightarrow>
   name \<in> set parts \<and> name \<noteq> [46] \<and> name \<noteq> [46, 46]"
  by (induction parts arbitrary: tokens) (auto split: result.splits if_splits)

lemma tokenize_normal:
  assumes "tokenize reserve p origin s = Ok tokens" and "TokNormal name o' \<in> set tokens"
  shows "proper_name name"
proof -
  obtain parts where "tokens_of_parts reserve origin (path_parts p) = Ok parts" "TokNormal name o' \<in> set parts"
    using assms by (auto simp: tokenize_def tokens_after_check_def split: option.splits result.splits if_splits)
  then show ?thesis
    using tokens_of_parts_normal path_parts_clean by (fastforce simp: proper_name_def)
qed

text \<open>The checks return, and a policy's answer does not depend on the others once all accept.\<close>

lemma first_refusal_Ok: "first_refusal ask policies = Ok () \<longleftrightarrow> (\<forall>policy \<in> set policies. ask policy = None)"
  by (induction policies) (auto split: option.splits)

lemma first_refusal_returns [simp]: "first_refusal ask policies \<noteq> Panic"
  by (induction policies) (auto split: option.splits)

lemma checks_return [simp]:
  "check_pending s c b \<noteq> Panic" "check_resolved s c b \<noteq> Panic" "policy_validate_component policy name \<noteq> Panic"
  "session_validate_component s name origin \<noteq> Panic" "session_validate_target s target \<noteq> Panic"
  by (auto simp: check_pending_def check_resolved_def session_check_def policy_validate_component_def
      session_validate_component_def session_validate_target_def contract_validate_component_def
      contract_validate_target_def split: option.splits result.splits)

lemma tokens_of_parts_returns [simp]: "tokens_of_parts reserve origin parts \<noteq> Panic"
  by (induction parts) (auto split: result.splits)

lemma tokenize_returns [simp]: "tokenize reserve p origin s \<noteq> Panic"
  by (auto simp: tokenize_def tokens_after_check_def split: option.splits result.splits)

lemma before_follow_link_hops:
  assumes "before_follow_link s = (Ok (), s')"
  shows "s' = s\<lparr>rs_hops := Suc (rs_hops s)\<rparr> \<and> Suc (rs_hops s) \<le> usize_max \<and>
    (\<forall>lim. rl_symlink_hops (rc_limits (rs_contract s)) = Some lim \<longrightarrow> Suc (rs_hops s) \<le> lim)"
  using assms by (auto simp: before_follow_link_def checked_add_def split: option.splits if_splits)

end
