(* ===== verification/Rooted_Resolution.thy ===== *)
theory Rooted_Resolution
  imports Resolution Copy_Budget
begin

text \<open>
  Path resolution under an opened root, \<^verbatim>\<open>src/rooted_local_file_system/support.rs\<close>: the fast check of a path
  without links, the worklist that expands symbolic links, and the entry points. The opened root and its
  cursors are records of calls on a world, which stands for the namespace with whatever else changes it
  between two calls. A cursor is the handle of one directory. The worklist loop takes fuel, because
  without a hop limit nothing bounds how often a changing namespace can send it through links; running
  out of fuel is \<open>None\<close>.
\<close>

section \<open>The root and its calls\<close>

datatype entry_kind =
    EntFile | EntDirectory | EntSymlink | EntFifo | EntSocket | EntBlockDevice | EntCharDevice | EntOther

record entry_metadata =
  em_kind :: entry_kind
  em_identity :: "(u64 \<times> u64) option"

text \<open>
  \<open>rt_read_link\<close> is \<open>read_rooted_link\<close>: the target, or nothing when it exceeds the given number of
  bytes, and the number of bytes observed.
\<close>

record ('w, 'c) root_calls =
  rt_contract :: resolution_contract
  rt_metadata :: "('w, io_error, entry_metadata) prog"
  rt_symlink_metadata :: "path \<Rightarrow> ('w, io_error, entry_metadata) prog"
  rt_cursor :: "('w, io_error, 'c) prog"
  rt_cursor_metadata :: "'c \<Rightarrow> byte list \<Rightarrow> ('w, io_error, entry_metadata) prog"
  rt_descend :: "'c \<Rightarrow> byte list \<Rightarrow> ('w, io_error, 'c) prog"
  rt_read_link :: "path \<Rightarrow> usize option \<Rightarrow> ('w, io_error, path option \<times> usize) prog"
  rt_now :: "'w \<Rightarrow> instant \<times> 'w"
  rt_reserve :: "nat \<Rightarrow> bool"

datatype root_parent_behavior = RejectEscape | StayAtHostRoot

datatype symlink_identity = NativeIdentity u64 u64 path | NamespacePath path

datatype resolution_step =
    StepResetRoot
  | StepCurrent
  | StepParent
  | StepRequireDirectory
  | StepNormal "byte list" resolution_origin
  | StepEndSymlink symlink_identity

text \<open>The arguments of the resolver that stay the same throughout.\<close>

record ('w, 'c) resolve_request =
  rq_root :: "('w, 'c) root_calls"
  rq_policy :: symlink_policy
  rq_follow_final :: bool
  rq_operation :: file_operation
  rq_original :: path
  rq_deadline :: "instant option"
  rq_component_policy :: "component_policy option"
  rq_parent_behavior :: root_parent_behavior

text \<open>The mutable locals of \<open>resolve_rooted_symlinks\<close>.\<close>

record ('w, 'c) resolve_state =
  rv_world :: 'w
  rv_pending :: "resolution_step list"
  rv_pending_actions :: usize
  rv_resolved :: "byte list list"
  rv_component_bytes :: "usize list"
  rv_resolved_bytes :: usize
  rv_cursor :: "'c option"
  rv_active :: "symlink_identity list"
  rv_session :: resolution_session
  rv_budget :: "binding_budget option"

type_synonym ('w, 'c, 'x) resolve_m = "(('w, 'c) resolve_state, file_error, 'x) prog"

definition in_context :: "('w, 'c) resolve_request \<Rightarrow> file_error \<Rightarrow> file_error" where
  "in_context rq e = with_path (rq_original rq) (with_operation (rq_operation rq) e)"

definition request_error :: "('w, 'c) resolve_request \<Rightarrow> file_error_kind \<Rightarrow> file_error" where
  "request_error rq kind = with_path (rq_original rq) (error_new kind (rq_operation rq))"

definition rooted_io_error :: "file_operation \<Rightarrow> path \<Rightarrow> io_error \<Rightarrow> file_error" where
  "rooted_io_error op p e = from_io op (Some p) None e"

text \<open>A call on the world.\<close>

definition on_world :: "('w, 'e, 'x) prog \<Rightarrow> (('w, 'c) resolve_state, 'e, 'x) prog" where
  "on_world m s = (case m (rv_world s) of (r, w) \<Rightarrow> (r, s\<lparr>rv_world := w\<rparr>))"

definition check_resolution_deadline ::
  "('w, 'c) root_calls \<Rightarrow> instant option \<Rightarrow> path \<Rightarrow> file_operation \<Rightarrow> ('w, file_error, unit) prog" where
  "check_resolution_deadline root deadline original op w =
     (case deadline of
        None \<Rightarrow> (Ok (), w)
      | Some deadline \<Rightarrow>
          (case rt_now root w of
             (now, w') \<Rightarrow>
               (if now \<ge> deadline then Err (from_io op (Some original) None (io_error_of IoTimedOut)) else Ok (), w')))"

definition check_deadline :: "('w, 'c) resolve_request \<Rightarrow> ('w, 'c, unit) resolve_m" where
  "check_deadline rq =
     on_world (check_resolution_deadline (rq_root rq) (rq_deadline rq) (rq_original rq) (rq_operation rq))"

section \<open>Paths and steps\<close>

definition path_from_components :: "byte list list \<Rightarrow> path" where
  "path_from_components cs = fold (\<lambda>c p. path_join p c) cs []"

definition relative_from_components ::
  "('w, 'c) resolve_request \<Rightarrow> byte list list \<Rightarrow> (path, file_error) result" where
  "relative_from_components rq cs =
     map_err (\<lambda>e. with_kind KInvalidPath (rooted_io_error (rq_operation rq) (rq_original rq) e))
       (relative_path_new (path_from_components cs))"

fun is_end_symlink_step :: "resolution_step \<Rightarrow> bool" where
  "is_end_symlink_step (StepEndSymlink _) = True"
| "is_end_symlink_step _ = False"

fun step_of_token :: "native_token \<Rightarrow> resolution_step" where
  "step_of_token (TokCurrent _) = StepCurrent"
| "step_of_token (TokParent _) = StepParent"
| "step_of_token (TokNormal name origin) = StepNormal name origin"
| "step_of_token TokRequireDirectory = StepRequireDirectory"

definition steps_from_path ::
  "('w, 'c) resolve_request \<Rightarrow> path \<Rightarrow> resolution_origin \<Rightarrow> resolution_session \<Rightarrow>
   (resolution_step list, file_error) result" where
  "steps_from_path rq p origin s =
     (case tokenize (rt_reserve (rq_root rq)) p origin s of
        Ok tokens \<Rightarrow> Ok ((if is_absolute p then [StepResetRoot] else []) @ map step_of_token tokens)
      | Err e \<Rightarrow> Err (in_context rq e)
      | Panic \<Rightarrow> Panic)"

fun pending_measure :: "usize \<Rightarrow> usize \<Rightarrow> resolution_step list \<Rightarrow> (usize \<times> usize) option" where
  "pending_measure comps bytes [] = Some (comps, bytes)"
| "pending_measure comps bytes (step # steps) =
     (case step of
        StepCurrent \<Rightarrow>
          (case (checked_add comps 1, checked_add bytes 2) of
             (Some comps', Some bytes') \<Rightarrow> pending_measure comps' bytes' steps | _ \<Rightarrow> None)
      | StepParent \<Rightarrow>
          (case (checked_add comps 1, checked_add bytes 3) of
             (Some comps', Some bytes') \<Rightarrow> pending_measure comps' bytes' steps | _ \<Rightarrow> None)
      | StepNormal name _ \<Rightarrow>
          (case (checked_add comps 1, checked_add (length name) 1) of
             (Some comps', Some native) \<Rightarrow>
               (case checked_add bytes native of
                  Some bytes' \<Rightarrow> pending_measure comps' bytes' steps | None \<Rightarrow> None)
           | _ \<Rightarrow> None)
      | _ \<Rightarrow> pending_measure comps bytes steps)"

definition count_actions :: "resolution_step list \<Rightarrow> nat" where
  "count_actions steps = length (filter (\<lambda>step. \<not> is_end_symlink_step step) steps)"

section \<open>The steps of the worklist\<close>

definition ensure_resolved_prefix_is_directory :: "('w, 'c) resolve_request \<Rightarrow> ('w, 'c, unit) resolve_m" where
  "ensure_resolved_prefix_is_directory rq =
     bind (gets rv_resolved) (\<lambda>resolved.
       if resolved = [] then ret ()
       else
         bind (answer (relative_from_components rq resolved)) (\<lambda>prefix.
         bind (or_fail (\<lambda>_ e. rooted_io_error (rq_operation rq) (rq_original rq) e) id
                 (on_world (rt_symlink_metadata (rq_root rq) prefix))) (\<lambda>metadata.
           if em_kind metadata \<noteq> EntDirectory then fail (request_error rq KNotDirectory) else ret ())))"

definition reset_root :: "('w, 'c, unit) resolve_m" where
  "reset_root =
     modify (\<lambda>s. s\<lparr>rv_resolved := [], rv_component_bytes := [], rv_resolved_bytes := 0, rv_cursor := None\<rparr>)"

definition pop_resolved :: "('w, 'c) resolve_request \<Rightarrow> ('w, 'c, unit) resolve_m" where
  "pop_resolved rq s =
     (case rv_component_bytes s of
        [] \<Rightarrow> (Err (request_error rq KResourceLimit), s\<lparr>rv_resolved := butlast (rv_resolved s)\<rparr>)
      | bs \<Rightarrow>
          (if rv_resolved_bytes s < last bs
           then (Err (request_error rq KResourceLimit),
                 s\<lparr>rv_resolved := butlast (rv_resolved s), rv_component_bytes := butlast bs\<rparr>)
           else
             (let s' = s\<lparr>rv_resolved := butlast (rv_resolved s), rv_component_bytes := butlast bs,
                         rv_resolved_bytes := rv_resolved_bytes s - last bs\<rparr>
              in case check_resolved (rv_session s') (length (rv_resolved s')) (rv_resolved_bytes s') of
                   Ok _ \<Rightarrow> (Ok (), s'\<lparr>rv_cursor := None\<rparr>)
                 | Err e \<Rightarrow> (Err (in_context rq e), s')
                 | Panic \<Rightarrow> (Panic, s'))))"

definition parent_step :: "('w, 'c) resolve_request \<Rightarrow> ('w, 'c, unit) resolve_m" where
  "parent_step rq =
     seq (ensure_resolved_prefix_is_directory rq)
       (bind (gets rv_resolved) (\<lambda>resolved.
          if resolved = [] then
            if rq_parent_behavior rq = StayAtHostRoot then modify (\<lambda>s. s\<lparr>rv_cursor := None\<rparr>)
            else fail (with_reason ''symbolic-link target escaped the Rooted virtual root''
                         (request_error rq KInvalidPath))
          else pop_resolved rq))"

definition push_resolved :: "byte list \<Rightarrow> usize \<Rightarrow> usize \<Rightarrow> ('w, 'c, unit) resolve_m" where
  "push_resolved name component_bytes next_bytes =
     modify (\<lambda>s. s\<lparr>rv_resolved := rv_resolved s @ [name],
                    rv_component_bytes := rv_component_bytes s @ [component_bytes],
                    rv_resolved_bytes := next_bytes\<rparr>)"

definition drop_cursor :: "('w, 'c, unit) resolve_m" where
  "drop_cursor = modify (\<lambda>s. s\<lparr>rv_cursor := None\<rparr>)"

definition debit_budget :: "('w, 'c) resolve_request \<Rightarrow> usize \<Rightarrow> ('w, 'c, unit) resolve_m" where
  "debit_budget rq bytes s =
     (case rv_budget s of
        None \<Rightarrow> (Ok (), s)
      | Some b \<Rightarrow>
          (case debit b bytes (rq_operation rq) (rq_original rq) of
             (r, b') \<Rightarrow> (r, s\<lparr>rv_budget := Some b'\<rparr>)))"

text \<open>What is charged and checked before a component is looked at; the result is its bytes and the new sum.\<close>

definition charge_component ::
  "('w, 'c) resolve_request \<Rightarrow> byte list \<Rightarrow> resolution_origin \<Rightarrow> ('w, 'c, usize \<times> usize) resolve_m" where
  "charge_component rq name origin =
     (case checked_add (length name) 1 of
        None \<Rightarrow> fail (in_context rq (overflow_error ResolvedPathBytes))
      | Some component_bytes \<Rightarrow>
          seq (debit_budget rq component_bytes)
          (seq (case rq_component_policy rq of
                  None \<Rightarrow> ret ()
                | Some policy \<Rightarrow>
                    answer (map_err (in_context rq) (policy_validate_component policy name)))
          (bind (gets (\<lambda>s. s)) (\<lambda>s.
           seq (answer (map_err (in_context rq) (session_validate_component (rv_session s) name origin)))
             (case checked_add (rv_resolved_bytes s) component_bytes of
                None \<Rightarrow> fail (in_context rq (overflow_error ResolvedPathBytes))
              | Some next_bytes \<Rightarrow>
                  (case checked_add (length (rv_resolved s)) 1 of
                     None \<Rightarrow> fail (in_context rq (overflow_error ResolvedComponents))
                   | Some next_len \<Rightarrow>
                       seq (answer (map_err (in_context rq)
                              (check_resolved (rv_session s) next_len next_bytes)))
                         (ret (component_bytes, next_bytes))))))))"

fun descend_components ::
  "('w, 'c) resolve_request \<Rightarrow> 'c \<Rightarrow> byte list list \<Rightarrow> ('w, 'c, 'c option) resolve_m" where
  "descend_components rq cursor [] = ret (Some cursor)"
| "descend_components rq cursor (name # names) =
     seq (check_deadline rq)
     (bind (caught (on_world (rt_cursor_metadata (rq_root rq) cursor name))) (\<lambda>observed.
      seq (check_deadline rq)
        (case observed of
           Err e \<Rightarrow>
             if ioe_kind e = IoNotFound then ret None
             else fail (rooted_io_error (rq_operation rq) (rq_original rq) e)
         | Panic \<Rightarrow> panic
         | Ok metadata \<Rightarrow>
             if em_kind metadata \<noteq> EntDirectory then ret None
             else
               bind (caught (on_world (rt_descend (rq_root rq) cursor name))) (\<lambda>descended.
               seq (check_deadline rq)
                 (case descended of
                    Ok cursor' \<Rightarrow> descend_components rq cursor' names
                  | Err e \<Rightarrow>
                      if ioe_kind e = IoNotFound then ret None
                      else fail (rooted_io_error (rq_operation rq) (rq_original rq) e)
                  | Panic \<Rightarrow> panic)))))"

definition open_resolved_cursor :: "('w, 'c) resolve_request \<Rightarrow> ('w, 'c, 'c option) resolve_m" where
  "open_resolved_cursor rq =
     bind (or_fail (\<lambda>_ e. rooted_io_error (rq_operation rq) (rq_original rq) e) id
             (on_world (rt_cursor (rq_root rq)))) (\<lambda>cursor.
     bind (gets rv_resolved) (\<lambda>resolved. descend_components rq cursor resolved))"

definition ensure_cursor :: "('w, 'c) resolve_request \<Rightarrow> ('w, 'c, unit) resolve_m" where
  "ensure_cursor rq =
     bind (gets rv_cursor) (\<lambda>cursor.
       case cursor of
         Some _ \<Rightarrow> ret ()
       | None \<Rightarrow> bind (open_resolved_cursor rq) (\<lambda>opened. modify (\<lambda>s. s\<lparr>rv_cursor := opened\<rparr>)))"

definition observe_component ::
  "('w, 'c) resolve_request \<Rightarrow> byte list \<Rightarrow> ('w, 'c, (entry_metadata, io_error) result) resolve_m" where
  "observe_component rq name =
     bind (gets (\<lambda>s. s)) (\<lambda>s.
       case rv_cursor s of
         Some cursor \<Rightarrow> caught (on_world (rt_cursor_metadata (rq_root rq) cursor name))
       | None \<Rightarrow>
           bind (answer (relative_from_components rq (rv_resolved s @ [name]))) (\<lambda>candidate.
             caught (on_world (rt_symlink_metadata (rq_root rq) candidate))))"

text \<open>A component that is no link: descend where more follows, and keep it.\<close>

definition enter_component ::
  "('w, 'c) resolve_request \<Rightarrow> byte list \<Rightarrow> entry_metadata \<Rightarrow> bool \<Rightarrow> ('w, 'c, unit) resolve_m" where
  "enter_component rq name metadata is_final =
     (if \<not> is_final \<and> em_kind metadata = EntDirectory then
        bind (gets rv_cursor) (\<lambda>cursor.
          case cursor of
            None \<Rightarrow> check_deadline rq
          | Some c \<Rightarrow>
              bind (caught (on_world (rt_descend (rq_root rq) c name))) (\<lambda>descended.
              seq (check_deadline rq)
                (case descended of
                   Ok c' \<Rightarrow> modify (\<lambda>s. s\<lparr>rv_cursor := Some c'\<rparr>)
                 | Err e \<Rightarrow>
                     if ioe_kind e = IoNotFound then drop_cursor
                     else fail (rooted_io_error (rq_operation rq) (rq_original rq) e)
                 | Panic \<Rightarrow> panic)))
      else drop_cursor)"

definition read_link_limited ::
  "('w, 'c) root_calls \<Rightarrow> path \<Rightarrow> usize option \<Rightarrow> (path \<Rightarrow> (unit, file_error) result) \<Rightarrow>
   ('w, file_error, path) prog" where
  "read_link_limited root p maximum_bytes validate =
     bind (or_fail (\<lambda>_ e. from_io OpMetadata (Some p) None e) id (rt_read_link root p maximum_bytes))
       (\<lambda>(target, observed).
          case target of
            None \<Rightarrow>
              fail (from_resource_limit OpMetadata (Some p)
                (with_observed (limit_error_new SymlinkTargetBytes
                   (case maximum_bytes of Some n \<Rightarrow> n | None \<Rightarrow> usize_max) 0 1) observed))
          | Some target \<Rightarrow> seq (answer (validate target)) (ret target))"

definition symlink_identity_of :: "entry_metadata \<Rightarrow> path \<Rightarrow> symlink_identity" where
  "symlink_identity_of metadata candidate =
     (case em_identity metadata of
        Some (device, inode) \<Rightarrow> NativeIdentity device inode candidate
      | None \<Rightarrow> NamespacePath candidate)"

text \<open>The new worklist: the steps of the target, the end mark of the link, and what was pending.\<close>

definition replace_pending ::
  "('w, 'c) resolve_request \<Rightarrow> path \<Rightarrow> symlink_identity \<Rightarrow> ('w, 'c, unit) resolve_m" where
  "replace_pending rq target identity =
     bind (gets (\<lambda>s. s)) (\<lambda>s.
     bind (answer (steps_from_path rq target OriginSymlinkTarget (rv_session s))) (\<lambda>steps.
       let replacement = steps @ StepEndSymlink identity # rv_pending s
       in case pending_measure 0 0 replacement of
            None \<Rightarrow> fail (in_context rq (overflow_error PendingResolutionBytes))
          | Some (comps, bytes) \<Rightarrow>
              seq (answer (map_err (in_context rq) (check_pending (rv_session s) comps bytes)))
                (modify (\<lambda>s. s\<lparr>rv_pending := replacement, rv_pending_actions := count_actions replacement\<rparr>))))"

definition expand_link ::
  "('w, 'c) resolve_request \<Rightarrow> path \<Rightarrow> symlink_identity \<Rightarrow> ('w, 'c, unit) resolve_m" where
  "expand_link rq candidate identity =
     seq (check_deadline rq)
     (bind (gets rv_session) (\<lambda>session.
      bind (caught (on_world (read_link_limited (rq_root rq) candidate
              (rl_symlink_target_bytes (rc_limits (rt_contract (rq_root rq))))
              (\<lambda>target. map_err (in_context rq) (session_validate_target session target)))))
        (\<lambda>target_result.
         seq (check_deadline rq)
           (case target_result of
              Ok target \<Rightarrow> replace_pending rq target identity
            | Err e \<Rightarrow> fail (in_context rq e)
            | Panic \<Rightarrow> panic))))"

definition count_hop :: "('w, 'c) resolve_request \<Rightarrow> ('w, 'c, unit) resolve_m" where
  "count_hop rq s =
     (case before_follow_link (rv_session s) of
        (r, session) \<Rightarrow> (map_err (in_context rq) r, s\<lparr>rv_session := session\<rparr>))"

definition follow_link ::
  "('w, 'c) resolve_request \<Rightarrow> byte list \<Rightarrow> entry_metadata \<Rightarrow> ('w, 'c, unit) resolve_m" where
  "follow_link rq name metadata =
     seq drop_cursor
     (bind (gets rv_resolved) (\<lambda>resolved.
      bind (answer (relative_from_components rq (resolved @ [name]))) (\<lambda>candidate.
        if rq_policy rq = SymlinkReject then
          fail (with_reason ''symbolic-link traversal is rejected by policy'' (request_error rq KUnsupported))
        else
          bind (gets rv_active) (\<lambda>active.
            if symlink_identity_of metadata candidate \<in> set active then
              fail (with_reason ''symbolic-link expansion cycle detected'' (request_error rq KInvalidPath))
            else
              seq (modify (\<lambda>s. s\<lparr>rv_active := symlink_identity_of metadata candidate # active\<rparr>))
              (seq (count_hop rq)
                (expand_link rq candidate (symlink_identity_of metadata candidate)))))))"

definition observed_step ::
  "('w, 'c) resolve_request \<Rightarrow> byte list \<Rightarrow> usize \<Rightarrow> usize \<Rightarrow> bool \<Rightarrow> (entry_metadata, io_error) result \<Rightarrow>
   ('w, 'c, unit) resolve_m" where
  "observed_step rq name component_bytes next_bytes is_final observed =
     (case observed of
        Err e \<Rightarrow>
          if ioe_kind e = IoNotFound then seq (push_resolved name component_bytes next_bytes) drop_cursor
          else fail (rooted_io_error (rq_operation rq) (rq_original rq) e)
      | Panic \<Rightarrow> panic
      | Ok metadata \<Rightarrow>
          if em_kind metadata \<noteq> EntSymlink then
            seq (enter_component rq name metadata is_final) (push_resolved name component_bytes next_bytes)
          else follow_link rq name metadata)"

definition look_component ::
  "('w, 'c) resolve_request \<Rightarrow> byte list \<Rightarrow> bool \<Rightarrow> usize \<times> usize \<Rightarrow> ('w, 'c, unit) resolve_m" where
  "look_component rq name is_final charged =
     seq (check_deadline rq)
     (seq (ensure_cursor rq)
     (bind (observe_component rq name) (\<lambda>observed.
      seq (check_deadline rq) (observed_step rq name (fst charged) (snd charged) is_final observed))))"

definition normal_step ::
  "('w, 'c) resolve_request \<Rightarrow> byte list \<Rightarrow> resolution_origin \<Rightarrow> ('w, 'c, unit) resolve_m" where
  "normal_step rq name origin =
     bind (charge_component rq name origin) (\<lambda>charged.
     bind (gets (\<lambda>s. rv_pending_actions s = 0)) (\<lambda>is_final.
       if is_final \<and> \<not> rq_follow_final rq then
         seq (push_resolved name (fst charged) (snd charged)) drop_cursor
       else look_component rq name is_final charged))"

definition resolve_step ::
  "('w, 'c) resolve_request \<Rightarrow> resolution_step \<Rightarrow> ('w, 'c, unit) resolve_m" where
  "resolve_step rq step =
     seq (check_deadline rq)
     (seq (if is_end_symlink_step step then ret ()
           else bind (gets rv_pending_actions) (\<lambda>n.
                  if n = 0 then fail (request_error rq KResourceLimit)
                  else modify (\<lambda>s. s\<lparr>rv_pending_actions := n - 1\<rparr>)))
       (case step of
          StepResetRoot \<Rightarrow> reset_root
        | StepCurrent \<Rightarrow> ensure_resolved_prefix_is_directory rq
        | StepRequireDirectory \<Rightarrow> ensure_resolved_prefix_is_directory rq
        | StepParent \<Rightarrow> parent_step rq
        | StepEndSymlink identity \<Rightarrow> modify (\<lambda>s. s\<lparr>rv_active := removeAll identity (rv_active s)\<rparr>)
        | StepNormal name origin \<Rightarrow> normal_step rq name origin))"

section \<open>Progress of one step\<close>

text \<open>
  What the calls of a step leave alone: everything but the world, the cursor and the budget. Calls that
  only look are \<open>calm\<close>; \<open>P\<close> is what a panic of the root's calls implies.
\<close>

definition same_progress :: "('w, 'c) resolve_state \<Rightarrow> ('w, 'c) resolve_state \<Rightarrow> bool" where
  "same_progress s s' \<longleftrightarrow>
     rv_pending s' = rv_pending s \<and> rv_pending_actions s' = rv_pending_actions s \<and>
     rv_resolved s' = rv_resolved s \<and> rv_component_bytes s' = rv_component_bytes s \<and>
     rv_resolved_bytes s' = rv_resolved_bytes s \<and> rv_active s' = rv_active s \<and> rv_session s' = rv_session s"

definition calm :: "bool \<Rightarrow> (('w, 'c) resolve_state, 'e, 'x) prog \<Rightarrow> bool" where
  "calm P m \<longleftrightarrow> (\<forall>s. outcome m (\<lambda>_. same_progress s) (\<lambda>_ _. True) (\<lambda>_. P) s)"

definition returning :: "('w, 'c) root_calls \<Rightarrow> bool" where
  "returning root \<longleftrightarrow>
     (\<forall>w. fst (rt_metadata root w) \<noteq> Panic) \<and> (\<forall>p w. fst (rt_symlink_metadata root p w) \<noteq> Panic) \<and>
     (\<forall>w. fst (rt_cursor root w) \<noteq> Panic) \<and> (\<forall>c n w. fst (rt_cursor_metadata root c n w) \<noteq> Panic) \<and>
     (\<forall>c n w. fst (rt_descend root c n w) \<noteq> Panic) \<and> (\<forall>p m w. fst (rt_read_link root p m w) \<noteq> Panic)"

lemma same_progress_refl [simp]: "same_progress s s"
  by (simp add: same_progress_def)

lemma same_progress_trans: "same_progress s s' \<Longrightarrow> same_progress s' s'' \<Longrightarrow> same_progress s s''"
  by (simp add: same_progress_def)

lemma calmD: "calm P m \<Longrightarrow> outcome m (\<lambda>_. same_progress s) (\<lambda>_ _. True) (\<lambda>_. P) s"
  by (simp add: calm_def)

named_theorems calm_intros

lemma calm_ret [calm_intros]: "calm P (ret x)"
  and calm_fail [calm_intros]: "calm P (fail e)"
  and calm_gets [calm_intros]: "calm P (gets f)"
  by (simp_all add: calm_def)

lemma calm_bind [calm_intros]:
  assumes "calm P m" and "\<And>x. calm P (f x)"
  shows "calm P (bind m f)"
  unfolding calm_def
proof (intro allI outcome_bindI)
  fix s
  show "outcome m (\<lambda>_. same_progress s) (\<lambda>_ _. True) (\<lambda>_. P) s"
    using assms(1) by (rule calmD)
  show "outcome (f x) (\<lambda>_. same_progress s) (\<lambda>_ _. True) (\<lambda>_. P) s'" if "same_progress s s'" for x s'
    using calmD [OF assms(2)] by (rule outcome_conseq) (use that in \<open>auto intro: same_progress_trans\<close>)
qed

lemma calm_seq [calm_intros]: "calm P m \<Longrightarrow> calm P k \<Longrightarrow> calm P (seq m k)"
  unfolding seq_def by (rule calm_bind)

lemma calm_if [calm_intros]: "(c \<Longrightarrow> calm P m) \<Longrightarrow> (\<not> c \<Longrightarrow> calm P k) \<Longrightarrow> calm P (if c then m else k)"
  by simp

lemma calm_option [calm_intros]:
  "calm P m \<Longrightarrow> (\<And>x. calm P (k x)) \<Longrightarrow> calm P (case v of None \<Rightarrow> m | Some x \<Rightarrow> k x)"
  by (cases v) simp_all

lemma calm_answer: "(r = Panic \<Longrightarrow> P) \<Longrightarrow> calm P (answer r)"
  by (cases r) (auto simp: calm_def answer_def outcome_def)

lemma calm_world: "(\<And>w. fst (m w) = Panic \<Longrightarrow> P) \<Longrightarrow> calm P (on_world m)"
  by (auto simp: calm_def on_world_def outcome_def same_progress_def split: prod.splits result.splits)
    (metis fst_conv)

lemma map_err_returns: "map_err f r = Panic \<longleftrightarrow> r = Panic"
  by (cases r) (simp_all add: map_err_def)

text \<open>The result of a call as a value, with the continuations for its two exits.\<close>

lemma outcome_native:
  assumes "m (rv_world s) = (r, w)" and "r = Panic \<Longrightarrow> P (s\<lparr>rv_world := w\<rparr>)"
    and "r \<noteq> Panic \<Longrightarrow> outcome (f r) Q E P (s\<lparr>rv_world := w\<rparr>)"
  shows "outcome (bind (caught (on_world m)) f) Q E P s"
  using assms by (cases r) (simp_all add: outcome_def bind_def caught_def on_world_def)

lemma outcome_bind_gets: "outcome (bind (gets h) f) Q E P s \<longleftrightarrow> outcome (f (h s)) Q E P s"
  by simp

lemma calm_caught [calm_intros]:
  fixes f :: "('x, 'e) result \<Rightarrow> (('w, 'c) resolve_state, 'f, 'y) prog"
  assumes "\<And>w. fst (m w) = Panic \<Longrightarrow> P" and "\<And>r. r \<noteq> Panic \<Longrightarrow> calm P (f r)"
  shows "calm P (bind (caught (on_world m)) f)"
  unfolding calm_def
proof (intro allI)
  fix s :: "('w, 'c) resolve_state"
  obtain r w where run: "m (rv_world s) = (r, w)" by force
  have same: "same_progress s (s\<lparr>rv_world := w\<rparr>)"
    by (simp add: same_progress_def)
  show "outcome (bind (caught (on_world m)) f) (\<lambda>_. same_progress s) (\<lambda>_ _. True) (\<lambda>_. P) s"
  proof (rule outcome_native [of m s r w, OF run])
    show "P" if "r = Panic"
      using assms(1) [of "rv_world s"] run that by simp
    show "outcome (f r) (\<lambda>_. same_progress s) (\<lambda>_ _. True) (\<lambda>_. P) (s\<lparr>rv_world := w\<rparr>)" if "r \<noteq> Panic"
      using calmD [OF assms(2) [OF that]]
      by (rule outcome_conseq) (use same in \<open>auto intro: same_progress_trans\<close>)
  qed
qed

lemma calm_result [calm_intros]:
  assumes "\<And>x. r = Ok x \<Longrightarrow> calm P (f x)" and "\<And>e. r = Err e \<Longrightarrow> calm P (g e)" and "r = Panic \<Longrightarrow> calm P h"
  shows "calm P (case r of Ok x \<Rightarrow> f x | Err e \<Rightarrow> g e | Panic \<Rightarrow> h)"
  using assms by (cases r) simp_all

lemma calm_or_fail [calm_intros]: "calm P m \<Longrightarrow> calm P (or_fail f h m)"
  by (auto simp: calm_def elim: outcome_conseq)

lemma calm_deadline [calm_intros]: "calm P (check_deadline rq)"
  unfolding check_deadline_def
  by (rule calm_world) (auto simp: check_resolution_deadline_def split: option.splits prod.splits if_splits)

lemma calm_drop_cursor [calm_intros]: "calm P drop_cursor"
  by (simp add: drop_cursor_def calm_def same_progress_def)

lemma calm_budget [calm_intros]: "calm P (debit_budget rq bytes)"
  by (auto simp: calm_def debit_budget_def debit_def outcome_def same_progress_def split: option.splits)

lemma calm_map_answer [calm_intros]: "(r = Panic \<Longrightarrow> P) \<Longrightarrow> calm P (answer (map_err f r))"
  by (rule calm_answer) (simp add: map_err_returns)

lemma calm_cursor [calm_intros]: "calm P (modify (\<lambda>s. s\<lparr>rv_cursor := f s\<rparr>))"
  by (simp add: calm_def same_progress_def)

lemma relative_path_new_returns [simp]: "relative_path_new p \<noteq> Panic"
  by (simp add: relative_path_new_def)

lemma calm_relative [calm_intros]: "calm P (answer (relative_from_components rq cs))"
  unfolding relative_from_components_def by (rule calm_map_answer) simp

lemma returning_calls:
  assumes "returning root"
  shows "fst (rt_symlink_metadata root p w) \<noteq> Panic" "fst (rt_cursor root w) \<noteq> Panic"
    "fst (rt_cursor_metadata root c n w) \<noteq> Panic" "fst (rt_descend root c n w) \<noteq> Panic"
    "fst (rt_read_link root p m w) \<noteq> Panic" "fst (rt_metadata root w) \<noteq> Panic"
  using assms by (simp_all add: returning_def)

lemma calm_calls [calm_intros]:
  assumes "\<not> returning (rq_root rq) \<Longrightarrow> P"
  shows "calm P (on_world (rt_symlink_metadata (rq_root rq) p))" "calm P (on_world (rt_cursor (rq_root rq)))"
  using assms returning_calls [of "rq_root rq"] by (auto intro!: calm_world)

lemma calm_prefix:
  assumes "\<not> returning (rq_root rq) \<Longrightarrow> P"
  shows "calm P (ensure_resolved_prefix_is_directory rq)"
  unfolding ensure_resolved_prefix_is_directory_def using assms by (intro calm_intros) auto

lemma calm_descend:
  assumes "\<not> returning (rq_root rq) \<Longrightarrow> P"
  shows "calm P (descend_components rq cursor names)"
proof (induction names arbitrary: cursor)
  case (Cons name names)
  note native = assms returning_calls [of "rq_root rq"]
  show ?case
    unfolding descend_components.simps
    by (rule calm_caught calm_result calm_intros Cons.IH | use native in blast)+
qed (simp add: calm_ret)

lemma calm_ensure_cursor:
  assumes "\<not> returning (rq_root rq) \<Longrightarrow> P"
  shows "calm P (ensure_cursor rq)"
  unfolding ensure_cursor_def open_resolved_cursor_def
  by (rule calm_intros calm_descend | use assms in blast)+

lemma calm_enter_component:
  assumes "\<not> returning (rq_root rq) \<Longrightarrow> P"
  shows "calm P (enter_component rq name metadata is_final)"
proof -
  note native = assms returning_calls [of "rq_root rq"]
  show ?thesis
    unfolding enter_component_def
    by (rule calm_caught calm_result calm_intros | use native in blast)+
qed

lemma observe_outcome:
  assumes "\<not> returning (rq_root rq) \<Longrightarrow> P"
  shows "outcome (observe_component rq name) (\<lambda>r s'. same_progress s s' \<and> r \<noteq> Panic) (\<lambda>_ _. True) (\<lambda>_. P) s"
proof -
  have world: "outcome (caught (on_world m)) (\<lambda>r s'. same_progress s s' \<and> r \<noteq> Panic) (\<lambda>_ _. True) (\<lambda>_. P) s"
    if "\<And>w. fst (m w) = Panic \<Longrightarrow> P" for m :: "('a, io_error, entry_metadata) prog"
    using that [of "rv_world s"]
    by (auto simp: caught_def on_world_def outcome_def same_progress_def split: prod.splits result.splits)
  have native: "fst (rt_symlink_metadata (rq_root rq) p w) = Panic \<Longrightarrow> P"
    "fst (rt_cursor_metadata (rq_root rq) c n w) = Panic \<Longrightarrow> P" for p c n w
    using assms returning_calls [of "rq_root rq"] by blast+
  show ?thesis
  proof (cases "rv_cursor s")
    case (Some c)
    with world [of "rt_cursor_metadata (rq_root rq) c name"] native(2) show ?thesis
      by (simp add: observe_component_def)
  next
    case None
    have "outcome (answer (relative_from_components rq (rv_resolved s @ [name])))
        (\<lambda>_ s'. s' = s) (\<lambda>_ _. True) (\<lambda>_. P) s"
      by (simp add: outcome_def answer_def relative_from_components_def relative_path_new_def map_err_def)
    then show ?thesis
      using None native(1) world [of "rt_symlink_metadata (rq_root rq) _"]
      by (auto simp: observe_component_def elim!: outcome_conseq)
  qed
qed

section \<open>What a component does to the worklist\<close>

definition admits ::
  "('w, 'c) resolve_request \<Rightarrow> resolution_session \<Rightarrow> byte list \<Rightarrow> resolution_origin \<Rightarrow> bool" where
  "admits rq session name origin \<longleftrightarrow>
     session_validate_component session name origin = Ok () \<and>
     (case rq_component_policy rq of None \<Rightarrow> True | Some policy \<Rightarrow> \<not> policy_denies policy name)"

lemma charge_outcome:
  "outcome (charge_component rq name origin)
     (\<lambda>(bytes, next_bytes) s'. same_progress s s' \<and> bytes = length name + 1 \<and>
        next_bytes = rv_resolved_bytes s + length name + 1 \<and> admits rq (rv_session s) name origin \<and>
        check_resolved (rv_session s) (length (rv_resolved s) + 1) next_bytes = Ok ())
     (\<lambda>_ _. True) (\<lambda>_. False) s"
proof (cases "checked_add (length name) 1")
  case (Some bytes)
  then have bytes: "bytes = length name + 1"
    by (auto simp: checked_add_def split: if_splits)
  have "outcome (debit_budget rq bytes) (\<lambda>_. same_progress s) (\<lambda>_ _. True) (\<lambda>_. False) s"
    by (rule calmD) (rule calm_budget)
  then show ?thesis
    unfolding charge_component_def Some option.case bytes
    by (rule outcome_seqI, auto simp: outcome_def seq_def bind_def answer_def ret_def fail_def gets_def map_err_def
          admits_def policy_validate_component_def same_progress_def checked_add_def
        split: option.splits result.splits)
qed (simp add: charge_component_def)

text \<open>The component was kept: it is the new last name of the resolved path.\<close>

definition kept ::
  "('w, 'c) resolve_request \<Rightarrow> byte list \<Rightarrow> resolution_origin \<Rightarrow>
   ('w, 'c) resolve_state \<Rightarrow> ('w, 'c) resolve_state \<Rightarrow> bool" where
  "kept rq name origin s s' \<longleftrightarrow>
     rv_pending s' = rv_pending s \<and> rv_pending_actions s' = rv_pending_actions s \<and>
     rv_active s' = rv_active s \<and> rv_session s' = rv_session s \<and>
     rv_resolved s' = rv_resolved s @ [name] \<and>
     rv_component_bytes s' = rv_component_bytes s @ [length name + 1] \<and>
     rv_resolved_bytes s' = rv_resolved_bytes s + length name + 1 \<and>
     check_resolved (rv_session s) (length (rv_resolved s) + 1) (rv_resolved_bytes s + length name + 1) = Ok ()"

text \<open>The component was a link: the steps of its target and the link's end mark come first now.\<close>

definition target_steps :: "resolution_step list \<Rightarrow> bool" where
  "target_steps steps \<longleftrightarrow>
     (\<forall>step \<in> set steps. case step of StepNormal name _ \<Rightarrow> proper_name name | StepEndSymlink _ \<Rightarrow> False | _ \<Rightarrow> True)"

definition expanded ::
  "symlink_identity \<Rightarrow> ('w, 'c) resolve_state \<Rightarrow> ('w, 'c) resolve_state \<Rightarrow> bool" where
  "expanded identity s s' \<longleftrightarrow>
     (\<exists>steps. target_steps steps \<and> rv_pending s' = steps @ StepEndSymlink identity # rv_pending s) \<and>
     rv_pending_actions s' = count_actions (rv_pending s') \<and>
     rv_resolved s' = rv_resolved s \<and> rv_component_bytes s' = rv_component_bytes s \<and>
     rv_resolved_bytes s' = rv_resolved_bytes s \<and> rv_active s' = rv_active s \<and> rv_session s' = rv_session s"

definition followed ::
  "('w, 'c) resolve_request \<Rightarrow> ('w, 'c) resolve_state \<Rightarrow> ('w, 'c) resolve_state \<Rightarrow> bool" where
  "followed rq s s' \<longleftrightarrow>
     rq_policy rq \<noteq> SymlinkReject \<and>
     (\<exists>identity session. identity \<notin> set (rv_active s) \<and> before_follow_link (rv_session s) = (Ok (), session) \<and>
        expanded identity (s\<lparr>rv_active := identity # rv_active s, rv_session := session\<rparr>) s')"

lemma steps_from_path_proper:
  assumes "steps_from_path rq p origin session = Ok steps"
  shows "target_steps steps"
proof -
  obtain tokens where tokens: "tokenize (rt_reserve (rq_root rq)) p origin session = Ok tokens"
    "steps = (if is_absolute p then [StepResetRoot] else []) @ map step_of_token tokens"
    using assms by (auto simp: steps_from_path_def split: result.splits)
  have "case step_of_token tok of StepNormal name _ \<Rightarrow> proper_name name | StepEndSymlink _ \<Rightarrow> False | _ \<Rightarrow> True"
    if "tok \<in> set tokens" for tok
    using tokenize_normal [OF tokens(1)] that by (cases tok) auto
  then show ?thesis
    by (auto simp: target_steps_def tokens(2))
qed

lemma steps_from_path_returns [simp]: "steps_from_path rq p origin session \<noteq> Panic"
  by (simp add: steps_from_path_def split: result.split)

lemma same_progress_kept: "same_progress s s0 \<Longrightarrow> kept rq name origin s0 s' \<Longrightarrow> kept rq name origin s s'"
  by (simp add: same_progress_def kept_def)

lemma same_progress_expanded: "same_progress s s0 \<Longrightarrow> expanded identity s0 s' \<Longrightarrow> expanded identity s s'"
  by (simp add: same_progress_def expanded_def)

lemma same_progress_followed: "same_progress s s0 \<Longrightarrow> followed rq s0 s' \<Longrightarrow> followed rq s s'"
  by (simp add: same_progress_def followed_def expanded_def)

lemma replace_pending_outcome:
  "outcome (replace_pending rq target identity) (\<lambda>_. expanded identity s) (\<lambda>_ _. True) (\<lambda>_. False) s"
  using steps_from_path_proper [of rq target OriginSymlinkTarget "rv_session s"]
  by (auto simp: replace_pending_def outcome_def bind_def seq_def gets_def answer_def fail_def modify_def map_err_def
      Let_def expanded_def split: result.splits option.splits)

lemma read_link_limited_returns:
  assumes "returning root" and "\<And>target. validate target \<noteq> Panic"
  shows "fst (read_link_limited root p maximum_bytes validate w) \<noteq> Panic"
  using returning_calls(5) [OF assms(1), of p maximum_bytes w] assms(2)
  by (auto simp: read_link_limited_def bind_def or_fail_def seq_def answer_def ret_def fail_def
      split: prod.splits result.splits option.splits)

lemma expand_link_outcome:
  assumes "\<not> returning (rq_root rq) \<Longrightarrow> P"
  shows "outcome (expand_link rq candidate identity) (\<lambda>_. expanded identity s) (\<lambda>_ _. True) (\<lambda>_. P) s"
    (is "outcome _ ?Q _ _ _")
proof -
  have replaced: "outcome (replace_pending rq target identity) ?Q (\<lambda>_ _. True) (\<lambda>_. P) s0" if "same_progress s s0"
    for s0 target
    using replace_pending_outcome [of rq target identity s0]
    by (rule outcome_conseq) (use that same_progress_expanded in auto)
  have late: "outcome (seq (check_deadline rq)
      (case r of Ok target \<Rightarrow> replace_pending rq target identity | Err e \<Rightarrow> fail (in_context rq e) | Panic \<Rightarrow> panic))
      ?Q (\<lambda>_ _. True) (\<lambda>_. P) s0" if "same_progress s s0" and "r \<noteq> Panic" for r s0
    using calmD [OF calm_deadline]
    by (rule outcome_seqI) (use that in \<open>cases r; auto intro!: replaced intro: same_progress_trans\<close>)
  show ?thesis
    unfolding expand_link_def
  proof (rule outcome_seqI [OF calmD [OF calm_deadline]])
    fix s0 assume same: "same_progress s s0"
    let ?call = "read_link_limited (rq_root rq) candidate
      (rl_symlink_target_bytes (rc_limits (rt_contract (rq_root rq))))
      (\<lambda>target. map_err (in_context rq) (session_validate_target (rv_session s0) target))"
    obtain r w where run: "?call (rv_world s0) = (r, w)" by force
    have same': "same_progress s (s0\<lparr>rv_world := w\<rparr>)"
      using same by (simp add: same_progress_def)
    have panics: "P" if "r = Panic"
      using read_link_limited_returns [of "rq_root rq" _ candidate _ "rv_world s0"] assms run that
      by (metis fst_conv map_err_returns checks_return(5))
    show "outcome (bind (gets rv_session) (\<lambda>session.
      bind (caught (on_world (read_link_limited (rq_root rq) candidate
              (rl_symlink_target_bytes (rc_limits (rt_contract (rq_root rq))))
              (\<lambda>target. map_err (in_context rq) (session_validate_target session target)))))
        (\<lambda>target_result. seq (check_deadline rq)
           (case target_result of
              Ok target \<Rightarrow> replace_pending rq target identity
            | Err e \<Rightarrow> fail (in_context rq e)
            | Panic \<Rightarrow> panic)))) ?Q (\<lambda>_ _. True) (\<lambda>_. P) s0"
      unfolding outcome_bind_gets using panics late [OF same'] by (rule outcome_native [of ?call s0 r w, OF run])
  qed
qed

lemma follow_link_outcome:
  assumes "\<not> returning (rq_root rq) \<Longrightarrow> P"
  shows "outcome (follow_link rq name metadata) (\<lambda>_. followed rq s) (\<lambda>_ _. True) (\<lambda>_. P) s"
proof -
  have expand: "outcome (seq (count_hop rq) (expand_link rq candidate identity)) (\<lambda>_. followed rq s) (\<lambda>_ _. True) (\<lambda>_. P)
      (s\<lparr>rv_cursor := None, rv_active := identity # rv_active s\<rparr>)"
    if "identity \<notin> set (rv_active s)" and "rq_policy rq \<noteq> SymlinkReject" for candidate identity
  proof (cases "before_follow_link (rv_session s)")
    case (Pair r session)
    have "r \<noteq> Panic"
      using Pair by (auto simp: before_follow_link_def split: option.splits if_splits)
    moreover have "outcome (expand_link rq candidate identity) (\<lambda>_. followed rq s) (\<lambda>_ _. True) (\<lambda>_. P)
      (s\<lparr>rv_cursor := None, rv_active := identity # rv_active s, rv_session := session\<rparr>)" if "r = Ok ()"
      using expand_link_outcome [OF assms, of rq candidate identity]
      by (rule outcome_conseq)
        (use Pair that \<open>identity \<notin> set (rv_active s)\<close> \<open>rq_policy rq \<noteq> SymlinkReject\<close> in
          \<open>auto simp: followed_def expanded_def\<close>)
    ultimately show ?thesis
      using Pair by (cases r) (simp_all add: outcome_def seq_def bind_def count_hop_def map_err_def)
  qed
  obtain r where r: "relative_from_components rq (rv_resolved s @ [name]) = r" "r \<noteq> Panic"
    by (simp add: relative_from_components_def relative_path_new_def map_err_def)
  then show ?thesis
    using expand
    by (cases r) (auto simp: follow_link_def drop_cursor_def outcome_def seq_def bind_def modify_def gets_def answer_def
        fail_def)
qed

lemma push_outcome:
  "outcome (push_resolved name bytes next_bytes) Q E P s \<longleftrightarrow>
   Q () (s\<lparr>rv_resolved := rv_resolved s @ [name], rv_component_bytes := rv_component_bytes s @ [bytes],
          rv_resolved_bytes := next_bytes\<rparr>)"
  by (simp add: push_resolved_def)

lemma observed_step_outcome:
  assumes "\<not> returning (rq_root rq) \<Longrightarrow> P" and "observed \<noteq> Panic"
    and "check_resolved (rv_session s) (length (rv_resolved s) + 1) (rv_resolved_bytes s + length name + 1) = Ok ()"
  shows "outcome (observed_step rq name (length name + 1) (rv_resolved_bytes s + length name + 1) is_final observed)
    (\<lambda>_ s'. kept rq name origin s s' \<or> followed rq s s') (\<lambda>_ _. True) (\<lambda>_. P) s"
proof (cases observed)
  case (Ok metadata)
  have "outcome (seq (enter_component rq name metadata is_final)
      (push_resolved name (length name + 1) (rv_resolved_bytes s + length name + 1)))
      (\<lambda>_ s'. kept rq name origin s s' \<or> followed rq s s') (\<lambda>_ _. True) (\<lambda>_. P) s"
    using calmD [OF calm_enter_component [OF assms(1)]]
    by (rule outcome_seqI) (use assms(3) in \<open>auto simp: push_outcome kept_def same_progress_def\<close>)
  moreover have "outcome (follow_link rq name metadata) (\<lambda>_ s'. kept rq name origin s s' \<or> followed rq s s')
      (\<lambda>_ _. True) (\<lambda>_. P) s"
    using follow_link_outcome [OF assms(1)] by (rule outcome_conseq) auto
  ultimately show ?thesis
    unfolding observed_step_def Ok result.case by (cases "em_kind metadata = EntSymlink") (simp_all only: if_True if_False simp_thms)
next
  case (Err e)
  then show ?thesis
    using assms(3) by (simp add: observed_step_def push_outcome drop_cursor_def kept_def)
qed (use assms(2) in simp)

definition charged ::
  "('w, 'c) resolve_request \<Rightarrow> byte list \<Rightarrow> resolution_origin \<Rightarrow> usize \<times> usize \<Rightarrow>
   ('w, 'c) resolve_state \<Rightarrow> bool" where
  "charged rq name origin x s \<longleftrightarrow>
     x = (length name + 1, rv_resolved_bytes s + length name + 1) \<and> admits rq (rv_session s) name origin \<and>
     check_resolved (rv_session s) (length (rv_resolved s) + 1) (rv_resolved_bytes s + length name + 1) = Ok ()"

lemma same_progress_charged: "same_progress s s' \<Longrightarrow> charged rq name origin x s' = charged rq name origin x s"
  by (simp add: same_progress_def charged_def)

lemma look_component_outcome:
  assumes "\<not> returning (rq_root rq) \<Longrightarrow> P" and "charged rq name origin x s"
  shows "outcome (look_component rq name is_final x) (\<lambda>_ s'. kept rq name origin s s' \<or> followed rq s s')
    (\<lambda>_ _. True) (\<lambda>_. P) s" (is "outcome _ ?Q _ _ _")
proof -
  have step: "outcome (observed_step rq name (fst x) (snd x) is_final observed) ?Q (\<lambda>_ _. True) (\<lambda>_. P) s'"
    if "same_progress s s'" and "observed \<noteq> Panic" for s' observed
  proof -
    have "charged rq name origin x s'"
      using same_progress_charged [OF that(1)] assms(2) by simp
    then have "outcome (observed_step rq name (fst x) (snd x) is_final observed)
        (\<lambda>_ t. kept rq name origin s' t \<or> followed rq s' t) (\<lambda>_ _. True) (\<lambda>_. P) s'"
      using observed_step_outcome [OF assms(1) that(2), of rq s' name is_final origin] by (simp add: charged_def)
    then show ?thesis
      by (rule outcome_conseq) (use that(1) same_progress_kept same_progress_followed in blast)+
  qed
  have late: "outcome (seq (check_deadline rq) (observed_step rq name (fst x) (snd x) is_final observed)) ?Q
      (\<lambda>_ _. True) (\<lambda>_. P) s'" if "same_progress s s'" and "observed \<noteq> Panic" for s' observed
    using calmD [OF calm_deadline]
    by (rule outcome_seqI) (use that step same_progress_trans in blast)
  have seen: "outcome (bind (observe_component rq name) (\<lambda>observed.
      seq (check_deadline rq) (observed_step rq name (fst x) (snd x) is_final observed))) ?Q (\<lambda>_ _. True) (\<lambda>_. P) s'"
    if "same_progress s s'" for s'
    by (rule outcome_bindI [OF observe_outcome [OF assms(1)]]) (use that late same_progress_trans in blast)+
  have opened: "outcome (seq (ensure_cursor rq) (bind (observe_component rq name) (\<lambda>observed.
      seq (check_deadline rq) (observed_step rq name (fst x) (snd x) is_final observed)))) ?Q (\<lambda>_ _. True) (\<lambda>_. P) s'"
    if "same_progress s s'" for s'
    by (rule outcome_seqI [OF calmD [OF calm_ensure_cursor [OF assms(1)]]]) (use that seen same_progress_trans in blast)+
  show ?thesis
    unfolding look_component_def by (rule outcome_seqI [OF calmD [OF calm_deadline]]) (rule opened)
qed

lemma normal_step_outcome:
  assumes "\<not> returning (rq_root rq) \<Longrightarrow> P"
  shows "outcome (normal_step rq name origin)
    (\<lambda>_ s'. admits rq (rv_session s) name origin \<and> (kept rq name origin s s' \<or> followed rq s s'))
    (\<lambda>_ _. True) (\<lambda>_. P) s" (is "outcome _ ?Q _ _ _")
  unfolding normal_step_def
proof (rule outcome_bindI)
  show "outcome (charge_component rq name origin) (\<lambda>x s'. same_progress s s' \<and> charged rq name origin x s)
      (\<lambda>_ _. True) (\<lambda>_. P) s"
    using charge_outcome [of rq name origin s]
    by (rule outcome_conseq) (auto simp: charged_def)
next
  fix x s'
  assume s': "same_progress s s' \<and> charged rq name origin x s"
  then have here: "charged rq name origin x s'"
    using same_progress_charged by blast
  have "outcome (look_component rq name is_final x) ?Q (\<lambda>_ _. True) (\<lambda>_. P) s'" for is_final
    using look_component_outcome [OF assms here]
    by (rule outcome_conseq)
      (use s' in \<open>auto simp: charged_def intro: same_progress_kept same_progress_followed\<close>)
  moreover have "outcome (seq (push_resolved name (fst x) (snd x)) drop_cursor) ?Q (\<lambda>_ _. True) (\<lambda>_. P) s'"
    using s' by (simp add: push_outcome drop_cursor_def kept_def same_progress_def charged_def)
  ultimately show "outcome (bind (gets (\<lambda>s. rv_pending_actions s = 0)) (\<lambda>is_final.
       if is_final \<and> \<not> rq_follow_final rq then seq (push_resolved name (fst x) (snd x)) drop_cursor
       else look_component rq name is_final x)) ?Q (\<lambda>_ _. True) (\<lambda>_. P) s'"
    unfolding outcome_bind_gets by (simp split: if_split)
qed

section \<open>The worklist loop\<close>

text \<open>One step either keeps the hop count and the rest of the worklist, or counts one more hop.\<close>

lemma parent_step_progress:
  "outcome (parent_step rq) (\<lambda>_ s'. rv_pending s' = rv_pending s \<and> rv_session s' = rv_session s) (\<lambda>_ _. True) (\<lambda>_. True) s"
proof -
  have "outcome (bind (gets rv_resolved) (\<lambda>resolved.
      if resolved = [] then
        if rq_parent_behavior rq = StayAtHostRoot then modify (\<lambda>s. s\<lparr>rv_cursor := None\<rparr>)
        else fail (with_reason ''symbolic-link target escaped the Rooted virtual root''
                     (request_error rq KInvalidPath))
      else pop_resolved rq))
    (\<lambda>_ t. rv_pending t = rv_pending s \<and> rv_session t = rv_session s) (\<lambda>_ _. True) (\<lambda>_. True) s'"
    if "same_progress s s'" for s'
    using that unfolding outcome_bind_gets
    by (auto simp: same_progress_def pop_resolved_def outcome_def modify_def fail_def Let_def
        split: list.split result.split)
  with calmD [OF calm_prefix [OF TrueI], of rq s] show ?thesis
    unfolding parent_step_def by (rule outcome_seqI) 
qed

lemma resolve_step_progress:
  "outcome (resolve_step rq step)
     (\<lambda>_ s'. rv_pending s' = rv_pending s \<and> rv_session s' = rv_session s \<or>
        rs_hops (rv_session s) < rs_hops (rv_session s') \<and> rs_hops (rv_session s') \<le> usize_max)
     (\<lambda>_ _. True) (\<lambda>_. True) s" (is "outcome _ ?Q _ _ _")
proof -
  let ?body = "case step of
          StepResetRoot \<Rightarrow> reset_root
        | StepCurrent \<Rightarrow> ensure_resolved_prefix_is_directory rq
        | StepRequireDirectory \<Rightarrow> ensure_resolved_prefix_is_directory rq
        | StepParent \<Rightarrow> parent_step rq
        | StepEndSymlink identity \<Rightarrow> modify (\<lambda>s. s\<lparr>rv_active := removeAll identity (rv_active s)\<rparr>)
        | StepNormal name origin \<Rightarrow> normal_step rq name origin"
  have body: "outcome ?body ?Q (\<lambda>_ _. True) (\<lambda>_. True) s'" 
    if s': "rv_pending s' = rv_pending s" "rv_session s' = rv_session s" for s'
  proof (cases step)
    case (StepNormal name origin)
    have "outcome (normal_step rq name origin) ?Q (\<lambda>_ _. True) (\<lambda>_. True) s'"
      using normal_step_outcome [OF TrueI]
      by (rule outcome_conseq)
        (use s' in \<open>auto simp: kept_def followed_def expanded_def dest!: before_follow_link_hops\<close>)
    then show ?thesis
      by (simp add: StepNormal)
  next
    case StepParent
    then show ?thesis
      using parent_step_progress [of rq s'] s' by (auto elim!: outcome_conseq)
  qed (use s' calmD [OF calm_prefix [OF TrueI], of rq s'] in
      \<open>auto simp: reset_root_def same_progress_def elim!: outcome_conseq\<close>)
  show ?thesis
    unfolding resolve_step_def
  proof (rule outcome_seqI [OF calmD [OF calm_deadline]], rule outcome_seqI)
    fix s0 assume "same_progress s s0"
    then show "outcome (if is_end_symlink_step step then ret ()
           else bind (gets rv_pending_actions) (\<lambda>n.
                  if n = 0 then fail (request_error rq KResourceLimit)
                  else modify (\<lambda>s. s\<lparr>rv_pending_actions := n - 1\<rparr>)))
      (\<lambda>_ s'. rv_pending s' = rv_pending s \<and> rv_session s' = rv_session s) (\<lambda>_ _. True) (\<lambda>_. True) s0"
      by (auto simp: same_progress_def)
  qed (use body in blast)
qed

lemma resolve_step_decreases:
  assumes "rv_pending s = step # rest" and "resolve_step rq step (s\<lparr>rv_pending := rest\<rparr>) = (Ok u, s')"
  shows "((rq, s'), (rq, s)) \<in> measures [\<lambda>(rq, s). usize_max - rs_hops (rv_session s), \<lambda>(rq, s). length (rv_pending s)]"
  using outcomeD(1) [OF resolve_step_progress [of rq step "s\<lparr>rv_pending := rest\<rparr>"] assms(2)] assms(1) by auto

function (sequential) resolve_loop ::
  "('w, 'c) resolve_request \<Rightarrow> ('w, 'c) resolve_state \<Rightarrow> (path, file_error) result \<times> ('w, 'c) resolve_state" where
  "resolve_loop rq s =
     (case rv_pending s of
        [] \<Rightarrow> (Ok (path_from_components (rv_resolved s)), s)
      | step # rest \<Rightarrow>
          (case resolve_step rq step (s\<lparr>rv_pending := rest\<rparr>) of
             (Ok _, s') \<Rightarrow> resolve_loop rq s'
           | (Err e, s') \<Rightarrow> (Err e, s')
           | (Panic, s') \<Rightarrow> (Panic, s')))"
  by pat_completeness auto
termination
  by (relation "measures [\<lambda>(rq, s). usize_max - rs_hops (rv_session s), \<lambda>(rq, s). length (rv_pending s)]")
    (simp, metis resolve_step_decreases)

declare resolve_loop.simps [simp del]

end
