(* ===== verification/Rooted_Paths.thy ===== *)
theory Rooted_Paths
  imports Rooted_Resolution
begin

text \<open>
  The entry points of rooted path resolution, \<^verbatim>\<open>src/rooted_local_file_system/support.rs\<close> and
  \<^verbatim>\<open>path_support.rs\<close>: the resolver with its starting state, the fast check of a path without links that
  the general entry tries first, the variants for component policies, and the start of a listing.
\<close>

definition across_scope_error :: "('w, 'c) resolve_request \<Rightarrow> file_error" where
  "across_scope_error rq =
     with_path (rq_original rq)
       (with_reason ''FollowAcrossScope is incompatible with a Rooted filesystem''
          (error_new KInvalidOptions (rq_operation rq)))"

definition resolve_start ::
  "resolution_step list \<Rightarrow> binding_budget option \<Rightarrow> resolution_session \<Rightarrow> 'w \<Rightarrow> ('w, 'c) resolve_state" where
  "resolve_start pending budget session w =
     \<lparr>rv_world = w, rv_pending = pending, rv_pending_actions = count_actions pending, rv_resolved = [],
      rv_component_bytes = [], rv_resolved_bytes = 0, rv_cursor = None, rv_active = [], rv_session = session,
      rv_budget = budget\<rparr>"

text \<open>The budget is borrowed mutably, so it is returned with the result.\<close>

definition resolve_rooted_symlinks ::
  "('w, 'c) resolve_request \<Rightarrow> path \<Rightarrow> binding_budget option \<Rightarrow> resolution_session \<Rightarrow> 'w \<Rightarrow>
   (path, file_error) result \<times> binding_budget option \<times> 'w" where
  "resolve_rooted_symlinks rq p budget session w =
     (if rq_policy rq = FollowAcrossScope then (Err (across_scope_error rq), budget, w)
      else
        (case steps_from_path rq p OriginInput session of
           Err e \<Rightarrow> (Err e, budget, w)
         | Panic \<Rightarrow> (Panic, budget, w)
         | Ok pending \<Rightarrow>
             (case resolve_loop rq (resolve_start pending budget session w) of
                (r, s) \<Rightarrow> (r, rv_budget s, rv_world s))))"

section \<open>The fast check\<close>

fun component_bytes :: "component \<Rightarrow> byte list" where
  "component_bytes RootDir = [47]"
| "component_bytes CurDir = [46]"
| "component_bytes ParentDir = [46, 46]"
| "component_bytes (Normal name) = name"

text \<open>What is checked before a component is looked at; the result is the new byte sum.\<close>

definition check_component ::
  "('w, 'c) resolve_request \<Rightarrow> resolution_session \<Rightarrow> usize \<Rightarrow> usize \<Rightarrow> byte list \<Rightarrow> (usize \<times> usize, file_error) result" where
  "check_component rq session comps bytes name =
     (case session_validate_component session name OriginInput of
        Err e \<Rightarrow> Err (in_context rq e)
      | Panic \<Rightarrow> Panic
      | Ok _ \<Rightarrow>
          (case measure_path name of
             None \<Rightarrow> Err (in_context rq (overflow_error ResolvedPathBytes))
           | Some (_, name_bytes) \<Rightarrow>
               (case checked_add comps 1 of
                  None \<Rightarrow> Err (in_context rq (overflow_error ResolvedComponents))
                | Some comps' \<Rightarrow>
                    (case checked_add bytes name_bytes of
                       None \<Rightarrow> Err (in_context rq (overflow_error ResolvedPathBytes))
                     | Some bytes' \<Rightarrow>
                         (case check_resolved session comps' bytes' of
                            Ok _ \<Rightarrow> Ok (comps', bytes')
                          | Err e \<Rightarrow> Err (in_context rq e)
                          | Panic \<Rightarrow> Panic)))))"

definition deadline_of :: "('w, 'c) resolve_request \<Rightarrow> ('w, file_error, unit) prog" where
  "deadline_of rq = check_resolution_deadline (rq_root rq) (rq_deadline rq) (rq_original rq) (rq_operation rq)"

text \<open>The loop over the components: whether the path holds no link and is settled.\<close>

fun settle_components ::
  "('w, 'c) resolve_request \<Rightarrow> resolution_session \<Rightarrow> usize \<Rightarrow> usize \<Rightarrow> 'c \<Rightarrow> byte list list \<Rightarrow>
   ('w, file_error, bool) prog" where
  "settle_components rq session comps bytes cursor [] = ret True"
| "settle_components rq session comps bytes cursor (name # names) =
     seq (deadline_of rq)
     (bind (answer (check_component rq session comps bytes name)) (\<lambda>(comps', bytes').
       if names = [] \<and> \<not> rq_follow_final rq then ret True
       else
         bind (caught (rt_cursor_metadata (rq_root rq) cursor name)) (\<lambda>observed.
         seq (deadline_of rq)
           (case observed of
              Err e \<Rightarrow>
                if ioe_kind e = IoNotFound then ret False
                else fail (rooted_io_error (rq_operation rq) (rq_original rq) e)
            | Panic \<Rightarrow> panic
            | Ok metadata \<Rightarrow>
                if em_kind metadata = EntSymlink then ret False
                else if names = [] then ret True
                else if em_kind metadata \<noteq> EntDirectory then ret False
                else
                  bind (caught (rt_descend (rq_root rq) cursor name)) (\<lambda>descended.
                  seq (deadline_of rq)
                    (case descended of
                       Ok cursor' \<Rightarrow> settle_components rq session comps' bytes' cursor' names
                     | Err e \<Rightarrow> fail (rooted_io_error (rq_operation rq) (rq_original rq) e)
                     | Panic \<Rightarrow> panic))))))"

definition try_resolve_without_symlinks ::
  "('w, 'c) resolve_request \<Rightarrow> path \<Rightarrow> resolution_session \<Rightarrow> ('w, file_error, path option) prog" where
  "try_resolve_without_symlinks rq p session =
     seq (deadline_of rq)
       (case measure_path p of
          None \<Rightarrow> fail (in_context rq (overflow_error PendingResolutionBytes))
        | Some (comps, bytes) \<Rightarrow>
            seq (answer (map_err (in_context rq) (check_pending session comps bytes)))
            (bind (or_fail (\<lambda>_ e. rooted_io_error (rq_operation rq) (rq_original rq) e) id
                     (rt_cursor (rq_root rq))) (\<lambda>cursor.
             bind (settle_components rq session 0 0 cursor (map component_bytes (components p))) (\<lambda>settled.
               ret (if settled then Some p else None)))))"

section \<open>Entry points\<close>

fun only_normal :: "component \<Rightarrow> bool" where
  "only_normal RootDir = True"
| "only_normal (Normal _) = True"
| "only_normal _ = False"

definition has_only_normal_components :: "path \<Rightarrow> bool" where
  "has_only_normal_components p = list_all only_normal (components p)"

definition rooted_path :: "path \<Rightarrow> file_operation \<Rightarrow> (path, file_error) result" where
  "rooted_path p op = map_err (from_io op (Some p) None) (relative_path_new p)"

definition rooted_request ::
  "('w, 'c) root_calls \<Rightarrow> path \<Rightarrow> symlink_policy \<Rightarrow> bool \<Rightarrow> file_operation \<Rightarrow> instant option \<Rightarrow> ('w, 'c) resolve_request" where
  "rooted_request root p policy follow_final op deadline =
     \<lparr>rq_root = root, rq_policy = policy, rq_follow_final = follow_final, rq_operation = op, rq_original = p,
      rq_deadline = deadline, rq_component_policy = None, rq_parent_behavior = RejectEscape\<rparr>"

definition resolve_without_budget ::
  "('w, 'c) resolve_request \<Rightarrow> path \<Rightarrow> resolution_session \<Rightarrow> ('w, file_error, path) prog" where
  "resolve_without_budget rq p session w =
     (case resolve_rooted_symlinks rq p None session w of (r, _, w') \<Rightarrow> (r, w'))"

definition resolve_rooted_path_allow_root_with_scope_and_deadline ::
  "('w, 'c) root_calls \<Rightarrow> path \<Rightarrow> symlink_policy \<Rightarrow> bool \<Rightarrow> file_operation \<Rightarrow> resolution_scope \<Rightarrow> instant option \<Rightarrow>
   ('w, file_error, path) prog" where
  "resolve_rooted_path_allow_root_with_scope_and_deadline root p policy follow_final op scope deadline =
     (let rq = rooted_request root p policy follow_final op deadline; session = session_new (rt_contract root) scope
      in seq (deadline_of rq)
           (if policy = FollowAcrossScope then fail (across_scope_error rq)
            else if p = [] then ret []
            else if has_only_normal_components p then
              bind (answer (rooted_path p op)) (\<lambda>relative.
              bind (try_resolve_without_symlinks rq relative session) (\<lambda>resolved.
                case resolved of
                  Some q \<Rightarrow> ret q
                | None \<Rightarrow> resolve_without_budget rq relative session))
            else resolve_without_budget rq p session))"

definition resolve_rooted_path_allow_root_with_deadline ::
  "('w, 'c) root_calls \<Rightarrow> path \<Rightarrow> symlink_policy \<Rightarrow> bool \<Rightarrow> file_operation \<Rightarrow> instant option \<Rightarrow>
   ('w, file_error, path) prog" where
  "resolve_rooted_path_allow_root_with_deadline root p policy follow_final op deadline =
     resolve_rooted_path_allow_root_with_scope_and_deadline root p policy follow_final op Descendant deadline"

definition resolve_rooted_path_allow_root ::
  "('w, 'c) root_calls \<Rightarrow> path \<Rightarrow> symlink_policy \<Rightarrow> bool \<Rightarrow> file_operation \<Rightarrow> ('w, file_error, path) prog" where
  "resolve_rooted_path_allow_root root p policy follow_final op =
     resolve_rooted_path_allow_root_with_deadline root p policy follow_final op None"

definition resolve_rooted_path_with_deadline ::
  "('w, 'c) root_calls \<Rightarrow> path \<Rightarrow> symlink_policy \<Rightarrow> bool \<Rightarrow> file_operation \<Rightarrow> instant option \<Rightarrow>
   ('w, file_error, path) prog" where
  "resolve_rooted_path_with_deadline root p policy follow_final op deadline =
     bind (resolve_rooted_path_allow_root_with_deadline root p policy follow_final op deadline) (\<lambda>resolved.
       answer (map_err (\<lambda>e. with_kind KInvalidPath (rooted_io_error op p e)) (relative_path_new resolved)))"

definition resolve_rooted_path ::
  "('w, 'c) root_calls \<Rightarrow> path \<Rightarrow> symlink_policy \<Rightarrow> bool \<Rightarrow> file_operation \<Rightarrow> ('w, file_error, path) prog" where
  "resolve_rooted_path root p policy follow_final op =
     resolve_rooted_path_with_deadline root p policy follow_final op None"

definition resolve_with_component_policy ::
  "('w, 'c) root_calls \<Rightarrow> path \<Rightarrow> symlink_policy \<Rightarrow> bool \<Rightarrow> file_operation \<Rightarrow> component_policy \<Rightarrow> instant option \<Rightarrow>
   binding_budget option \<Rightarrow> root_parent_behavior \<Rightarrow> 'w \<Rightarrow> (path, file_error) result \<times> binding_budget option \<times> 'w" where
  "resolve_with_component_policy root p policy follow_final op names deadline budget parents w =
     (let rq = (rooted_request root p policy follow_final op deadline)
                 \<lparr>rq_component_policy := Some names, rq_parent_behavior := parents\<rparr>
      in case deadline_of rq w of
           (Err e, w') \<Rightarrow> (Err e, budget, w')
         | (Panic, w') \<Rightarrow> (Panic, budget, w')
         | (Ok _, w') \<Rightarrow>
             if policy = FollowAcrossScope then (Err (with_path p (error_new KInvalidOptions op)), budget, w')
             else resolve_rooted_symlinks rq p budget (session_new (rt_contract root) Descendant) w')"

definition resolve_rooted_path_with_component_policy ::
  "('w, 'c) root_calls \<Rightarrow> path \<Rightarrow> symlink_policy \<Rightarrow> bool \<Rightarrow> file_operation \<Rightarrow> component_policy \<Rightarrow> instant option \<Rightarrow>
   binding_budget option \<Rightarrow> 'w \<Rightarrow> (path, file_error) result \<times> binding_budget option \<times> 'w" where
  "resolve_rooted_path_with_component_policy root p policy follow_final op names deadline budget =
     resolve_with_component_policy root p policy follow_final op names deadline budget RejectEscape"

definition resolve_host_root_path ::
  "('w, 'c) root_calls \<Rightarrow> path \<Rightarrow> symlink_policy \<Rightarrow> bool \<Rightarrow> file_operation \<Rightarrow> component_policy \<Rightarrow> instant option \<Rightarrow>
   binding_budget option \<Rightarrow> 'w \<Rightarrow> (path, file_error) result \<times> binding_budget option \<times> 'w" where
  "resolve_host_root_path root p policy follow_final op names deadline budget =
     resolve_with_component_policy root p policy follow_final op names deadline budget StayAtHostRoot"

text \<open>The metadata of a directory that a listing starts at, with its checks of the deadline.\<close>

definition list_start_metadata ::
  "('w, 'c) resolve_request \<Rightarrow> path \<Rightarrow> ('w, io_error, entry_metadata) prog \<Rightarrow> ('w, file_error, path) prog" where
  "list_start_metadata rq p call =
     bind (caught call) (\<lambda>observed.
     seq (deadline_of rq)
       (case observed of
          Err e \<Rightarrow> fail (rooted_io_error OpList p e)
        | Panic \<Rightarrow> panic
        | Ok metadata \<Rightarrow>
            if em_kind metadata \<noteq> EntDirectory then fail (with_path p (error_new KTypeConflict OpList))
            else seq (deadline_of rq) (ret p)))"

definition validate_rooted_list_start ::
  "('w, 'c) root_calls \<Rightarrow> path \<Rightarrow> symlink_policy \<Rightarrow> instant option \<Rightarrow> ('w, file_error, path) prog" where
  "validate_rooted_list_start root p policy deadline =
     (let rq = rooted_request root p policy True OpList deadline
      in seq (deadline_of rq)
           (if p = [] then list_start_metadata rq p (rt_metadata root)
            else
              bind (resolve_rooted_path_allow_root_with_deadline root p policy True OpList deadline) (\<lambda>q.
              seq (deadline_of rq)
                (if q = [] then list_start_metadata rq q (rt_metadata root)
                 else
                   bind (answer (map_err (rooted_io_error OpList q) (relative_path_new q))) (\<lambda>relative.
                     list_start_metadata rq q (rt_symlink_metadata root relative))))))"

end
