(* ===== verification/Rooted_Correct.thy ===== *)
theory Rooted_Correct
  imports Rooted_Paths
begin

text \<open>
  Path resolution under a root as a state machine. \<open>advance\<close> is the worklist without the calls: what is
  pending, the names resolved so far, the links being expanded and the number of links followed. Every
  step of the resolver that succeeds is a step of this machine, whatever the namespace answers and however
  it changes in between, so what holds of all runs of the machine holds of every resolution.
\<close>

section \<open>The machine\<close>

type_synonym worklist = "resolution_step list \<times> byte list list \<times> symlink_identity list \<times> nat"

definition native_bytes :: "byte list list \<Rightarrow> nat" where
  "native_bytes names = sum_list (map (\<lambda>name. length name + 1) names)"

definition within :: "resolution_session \<Rightarrow> byte list list \<Rightarrow> bool" where
  "within session names \<longleftrightarrow> check_resolved session (length names) (native_bytes names) = Ok ()"

definition hops_within :: "resolution_session \<Rightarrow> nat \<Rightarrow> bool" where
  "hops_within session h \<longleftrightarrow>
     (\<forall>lim. rl_symlink_hops (rc_limits (rs_contract session)) = Some lim \<longrightarrow> h \<le> lim)"

inductive advance ::
  "('w, 'c) resolve_request \<Rightarrow> resolution_session \<Rightarrow> worklist \<Rightarrow> worklist \<Rightarrow> bool" for rq session where
  reset: "advance rq session (StepResetRoot # steps, names, active, h) (steps, [], active, h)"
| stay: "step = StepCurrent \<or> step = StepRequireDirectory \<Longrightarrow>
    advance rq session (step # steps, names, active, h) (steps, names, active, h)"
| stay_at_root: "rq_parent_behavior rq = StayAtHostRoot \<Longrightarrow>
    advance rq session (StepParent # steps, [], active, h) (steps, [], active, h)"
| parent: "advance rq session (StepParent # steps, names @ [name], active, h) (steps, names, active, h)"
| close_link: "advance rq session (StepEndSymlink i # steps, names, active, h) (steps, names, removeAll i active, h)"
| keep: "admits rq session name origin \<Longrightarrow> within session (names @ [name]) \<Longrightarrow>
    advance rq session (StepNormal name origin # steps, names, active, h) (steps, names @ [name], active, h)"
| follow: "admits rq session name origin \<Longrightarrow> rq_policy rq \<noteq> SymlinkReject \<Longrightarrow> target_steps target \<Longrightarrow>
    i \<notin> set active \<Longrightarrow> hops_within session (Suc h) \<Longrightarrow>
    advance rq session (StepNormal name origin # steps, names, active, h)
      (target @ StepEndSymlink i # steps, names, i # active, Suc h)"

definition view :: "('w, 'c) resolve_state \<Rightarrow> worklist" where
  "view s = (rv_pending s, rv_resolved s, rv_active s, rs_hops (rv_session s))"

text \<open>The sums that the resolver keeps beside the names are exact.\<close>

definition sums_exact :: "resolution_session \<Rightarrow> ('w, 'c) resolve_state \<Rightarrow> bool" where
  "sums_exact session s \<longleftrightarrow>
     rv_component_bytes s = map (\<lambda>name. length name + 1) (rv_resolved s) \<and>
     rv_resolved_bytes s = native_bytes (rv_resolved s) \<and>
     rv_pending_actions s = count_actions (rv_pending s) \<and>
     rs_contract (rv_session s) = rs_contract session \<and> rs_scope (rv_session s) = rs_scope session"

lemma native_bytes_simps [simp]:
  "native_bytes [] = 0" "native_bytes (names @ [name]) = native_bytes names + length name + 1"
  by (simp_all add: native_bytes_def)

lemma count_actions_simps [simp]:
  "count_actions [] = 0"
  "count_actions (step # steps) = (if is_end_symlink_step step then 0 else 1) + count_actions steps"
  by (simp_all add: count_actions_def)

text \<open>The checks look only at the contract and the scope of the session, not at the hops.\<close>

lemma sums_exact_session:
  assumes "sums_exact session s"
  shows "admits rq (rv_session s) name origin = admits rq session name origin"
    "check_resolved (rv_session s) c b = check_resolved session c b"
    "rs_contract (rv_session s) = rs_contract session"
  using assms
  by (simp_all add: sums_exact_def admits_def session_validate_component_def check_resolved_def cong: result.case_cong)

section \<open>The resolver refines the machine\<close>

lemma kept_advances:
  assumes "sums_exact session s" and "kept rq name origin s s'" and "admits rq session name origin"
  shows "sums_exact session s' \<and>
    advance rq session (StepNormal name origin # rv_pending s, rv_resolved s, rv_active s, rs_hops (rv_session s)) (view s')"
proof -
  have "within session (rv_resolved s @ [name])"
    using assms sums_exact_session(2) [OF assms(1)] by (simp add: within_def kept_def sums_exact_def)
  then show ?thesis
    using assms advance.keep [OF assms(3)] by (auto simp: kept_def sums_exact_def view_def)
qed

lemma followed_advances:
  assumes "sums_exact session s" and "followed rq s s'" and "admits rq session name origin"
  shows "sums_exact session s' \<and>
    advance rq session (StepNormal name origin # rv_pending s, rv_resolved s, rv_active s, rs_hops (rv_session s)) (view s')"
proof -
  obtain i session' target where i: "rq_policy rq \<noteq> SymlinkReject" "i \<notin> set (rv_active s)"
    "before_follow_link (rv_session s) = (Ok (), session')"
    "expanded i (s\<lparr>rv_active := i # rv_active s, rv_session := session'\<rparr>) s'"
    "target_steps target" "rv_pending s' = target @ StepEndSymlink i # rv_pending s"
    using assms(2) by (auto simp: followed_def expanded_def)
  have hop: "session' = (rv_session s)\<lparr>rs_hops := Suc (rs_hops (rv_session s))\<rparr>"
    "hops_within session (Suc (rs_hops (rv_session s)))"
    using before_follow_link_hops [OF i(3)] sums_exact_session(3) [OF assms(1)] by (simp_all add: hops_within_def)
  have "sums_exact session s'"
    using i(4) hop(1) assms(1) by (simp add: expanded_def sums_exact_def)
  then show ?thesis
    using advance.follow [OF assms(3) i(1) i(5) i(2) hop(2)] i(4,6) hop(1) by (simp add: view_def expanded_def)
qed

lemma pop_resolved_eq:
  assumes "rv_component_bytes s = bs @ [b]" and "b \<le> rv_resolved_bytes s"
  shows "pop_resolved rq s =
    (let s' = s\<lparr>rv_resolved := butlast (rv_resolved s), rv_component_bytes := bs,
               rv_resolved_bytes := rv_resolved_bytes s - b\<rparr>
     in case check_resolved (rv_session s') (length (rv_resolved s')) (rv_resolved_bytes s') of
          Ok _ \<Rightarrow> (Ok (), s'\<lparr>rv_cursor := None\<rparr>)
        | Err e \<Rightarrow> (Err (in_context rq e), s')
        | Panic \<Rightarrow> (Panic, s'))"
  using assms by (cases bs) (simp_all add: pop_resolved_def)

lemma pop_resolved_outcome:
  assumes "sums_exact session s" and "rv_resolved s \<noteq> []"
  shows "outcome (pop_resolved rq)
    (\<lambda>_ s'. sums_exact session s' \<and> rv_pending s' = rv_pending s \<and> rv_resolved s' = butlast (rv_resolved s) \<and>
       rv_active s' = rv_active s \<and> rv_session s' = rv_session s) (\<lambda>_ _. True) (\<lambda>_. False) s"
proof -
  obtain names name where names: "rv_resolved s = names @ [name]"
    using assms(2) by (metis append_butlast_last_id)
  have "rv_component_bytes s = map (\<lambda>n. length n + 1) names @ [length name + 1]"
    "rv_resolved_bytes s = native_bytes names + length name + 1"
    using assms(1) by (simp_all add: sums_exact_def names)
  then show ?thesis
    using assms(1) names
    by (auto simp: pop_resolved_eq outcome_def sums_exact_def Let_def split: result.split)
qed

lemma parent_step_outcome:
  assumes "sums_exact session s" and "\<not> returning (rq_root rq) \<Longrightarrow> P"
  shows "outcome (parent_step rq)
    (\<lambda>_ s'. sums_exact session s' \<and>
       advance rq session (StepParent # rv_pending s, rv_resolved s, rv_active s, rs_hops (rv_session s)) (view s'))
    (\<lambda>_ _. True) (\<lambda>_. P) s" (is "outcome _ ?Q _ _ _")
proof -
  have "outcome (bind (gets rv_resolved) (\<lambda>resolved.
      if resolved = [] then
        if rq_parent_behavior rq = StayAtHostRoot then modify (\<lambda>s. s\<lparr>rv_cursor := None\<rparr>)
        else fail (with_reason ''symbolic-link target escaped the Rooted virtual root''
                     (request_error rq KInvalidPath))
      else pop_resolved rq)) ?Q (\<lambda>_ _. True) (\<lambda>_. P) s'" if same: "same_progress s s'" for s'
  proof (cases "rv_resolved s' = []")
    case True
    then show ?thesis
      using same assms(1) advance.stay_at_root [of rq session]
      by (simp add: sums_exact_def same_progress_def view_def)
  next
    case False
    then have split: "rv_resolved s = butlast (rv_resolved s) @ [last (rv_resolved s)]"
      using same by (simp add: same_progress_def)
    have "sums_exact session s'"
      using same assms(1) by (simp add: sums_exact_def same_progress_def)
    from pop_resolved_outcome [OF this False, of rq]
    have "outcome (pop_resolved rq) ?Q (\<lambda>_ _. True) (\<lambda>_. P) s'"
      by (rule outcome_conseq)
        (use same advance.parent [of rq session "rv_pending s" "butlast (rv_resolved s)" "last (rv_resolved s)"
              "rv_active s" "rs_hops (rv_session s)"] split in \<open>auto simp: same_progress_def view_def\<close>)
    then show ?thesis
      unfolding outcome_bind_gets using False by simp
  qed
  with calmD [OF calm_prefix [OF assms(2)]] show ?thesis
    unfolding parent_step_def by (rule outcome_seqI)
qed

lemma resolve_step_refines:
  assumes "sums_exact session s" and "rv_pending s = step # rest" and "\<not> returning (rq_root rq) \<Longrightarrow> P"
  shows "outcome (resolve_step rq step) (\<lambda>_ s'. sums_exact session s' \<and> advance rq session (view s) (view s'))
    (\<lambda>_ _. True) (\<lambda>_. P) (s\<lparr>rv_pending := rest\<rparr>)" (is "outcome _ ?Q _ _ _")
proof -
  let ?ready = "\<lambda>t. sums_exact session t \<and> rv_pending t = rest \<and> rv_resolved t = rv_resolved s \<and>
    rv_active t = rv_active s \<and> rv_session t = rv_session s"
  have view: "view s = (step # rest, rv_resolved s, rv_active s, rs_hops (rv_session s))"
    by (simp add: view_def assms(2))
  have looked: "outcome (ensure_resolved_prefix_is_directory rq) ?Q (\<lambda>_ _. True) (\<lambda>_. P) t"
    if "?ready t" and "step = StepCurrent \<or> step = StepRequireDirectory" for t
    using calmD [OF calm_prefix [OF assms(3)]]
    by (rule outcome_conseq)
      (use that advance.stay [OF that(2), of rq session rest] view in
        \<open>auto simp: same_progress_def sums_exact_def view_def\<close>)
  have body: "outcome (case step of
          StepResetRoot \<Rightarrow> reset_root
        | StepCurrent \<Rightarrow> ensure_resolved_prefix_is_directory rq
        | StepRequireDirectory \<Rightarrow> ensure_resolved_prefix_is_directory rq
        | StepParent \<Rightarrow> parent_step rq
        | StepEndSymlink identity \<Rightarrow> modify (\<lambda>s. s\<lparr>rv_active := removeAll identity (rv_active s)\<rparr>)
        | StepNormal name origin \<Rightarrow> normal_step rq name origin) ?Q (\<lambda>_ _. True) (\<lambda>_. P) t" if t: "?ready t" for t
  proof (cases step)
    case StepResetRoot
    with t view show ?thesis
      by (auto simp: reset_root_def view_def sums_exact_def advance.reset)
  next
    case StepParent
    with t view parent_step_outcome [OF _ assms(3), of session t] show ?thesis
      by simp
  next
    case (StepNormal name origin)
    have exact: "sums_exact session t"
      using t by simp
    have before: "view s = (StepNormal name origin # rv_pending t, rv_resolved t, rv_active t, rs_hops (rv_session t))"
      using t view StepNormal by simp
    have "?Q () s'" if "admits rq (rv_session t) name origin" and "kept rq name origin t s' \<or> followed rq t s'" for s'
      using that(2) kept_advances [OF exact, of rq name origin s'] followed_advances [OF exact, of rq s' name origin]
        that(1) sums_exact_session(1) [OF exact] unfolding before by blast
    then have "outcome (normal_step rq name origin) ?Q (\<lambda>_ _. True) (\<lambda>_. P) t"
      by (intro outcome_conseq [OF normal_step_outcome [OF assms(3)]]) auto
    then show ?thesis
      by (simp add: StepNormal)
  next
    case (StepEndSymlink i)
    with t view show ?thesis
      by (auto simp: view_def sums_exact_def advance.close_link)
  qed (use t looked in simp_all)
  show ?thesis
    unfolding resolve_step_def
  proof (rule outcome_seqI [OF calmD [OF calm_deadline]], rule outcome_seqI)
    fix t assume "same_progress (s\<lparr>rv_pending := rest\<rparr>) t"
    then show "outcome (if is_end_symlink_step step then ret ()
           else bind (gets rv_pending_actions) (\<lambda>n.
                  if n = 0 then fail (request_error rq KResourceLimit)
                  else modify (\<lambda>s. s\<lparr>rv_pending_actions := n - 1\<rparr>))) (\<lambda>_. ?ready) (\<lambda>_ _. True) (\<lambda>_. P) t"
      using assms(1,2) by (auto simp: same_progress_def sums_exact_def)
  qed (use body in blast)
qed

lemma resolve_loop_refines:
  assumes "sums_exact session s"
  shows "case resolve_loop rq s of
      (Ok q, s') \<Rightarrow> (advance rq session)\<^sup>*\<^sup>* (view s) ([], rv_resolved s', rv_active s', rs_hops (rv_session s')) \<and>
        q = path_from_components (rv_resolved s')
    | (Err e, s') \<Rightarrow> True
    | (Panic, s') \<Rightarrow> \<not> returning (rq_root rq)"
  using assms
proof (induction rq s rule: resolve_loop.induct)
  case (1 rq s)
  show ?case
  proof (cases "rv_pending s")
    case Nil
    then show ?thesis
      by (simp add: resolve_loop.simps view_def)
  next
    case (Cons step rest)
    obtain r s' where run: "resolve_step rq step (s\<lparr>rv_pending := rest\<rparr>) = (r, s')" by force
    note step = resolve_step_refines [OF "1.prems" Cons, of rq "\<not> returning (rq_root rq)"]
    show ?thesis
    proof (cases r)
      case (Ok u)
      then have one: "sums_exact session s'" "advance rq session (view s) (view s')"
        using outcomeD(1) [OF step] run by auto
      from "1.IH" [OF Cons run [symmetric] Ok one(1)] Cons run Ok one(2) show ?thesis
        by (auto simp: resolve_loop.simps [of rq s] split: prod.splits result.splits
            intro: converse_rtranclp_into_rtranclp)
    qed (use Cons run outcomeD(3) [OF step] in \<open>auto simp: resolve_loop.simps [of rq s]\<close>)
  qed
qed

section \<open>What holds of every run\<close>

definition admitted :: "('w, 'c) resolve_request \<Rightarrow> resolution_session \<Rightarrow> byte list \<Rightarrow> bool" where
  "admitted rq session name \<longleftrightarrow> proper_name name \<and> (\<exists>origin. admits rq session name origin)"

definition open_links :: "resolution_step list \<Rightarrow> symlink_identity list" where
  "open_links steps = concat (map (\<lambda>step. case step of StepEndSymlink i \<Rightarrow> [i] | _ \<Rightarrow> []) steps)"

text \<open>
  Names are proper and admitted, their sums are within the limits, and the links being expanded are
  exactly those whose end is still pending, innermost first, none twice and no more than were followed.
\<close>

definition resolution_safe :: "('w, 'c) resolve_request \<Rightarrow> resolution_session \<Rightarrow> worklist \<Rightarrow> bool" where
  "resolution_safe rq session state \<longleftrightarrow>
     (case state of (steps, names, active, h) \<Rightarrow>
       (\<forall>name origin. StepNormal name origin \<in> set steps \<longrightarrow> proper_name name) \<and>
       list_all (admitted rq session) names \<and> (names = [] \<or> within session names) \<and>
       active = open_links steps \<and> distinct active \<and> length active \<le> h \<and> (h = 0 \<or> hops_within session h))"

lemma within_butlast: "within session (names @ [name]) \<Longrightarrow> within session names"
  by (auto simp: within_def check_limits)

lemma open_links_target: "target_steps steps \<Longrightarrow> open_links (steps @ rest) = open_links rest"
proof -
  assume "target_steps steps"
  then have "open_links steps = []"
    by (auto simp: open_links_def target_steps_def split: resolution_step.splits)
  then show ?thesis
    by (simp add: open_links_def)
qed

lemma open_links_simps [simp]:
  "open_links [] = []"
  "open_links (step # steps) = (case step of StepEndSymlink i \<Rightarrow> i # open_links steps | _ \<Rightarrow> open_links steps)"
  by (simp_all add: open_links_def split: resolution_step.split)

lemma advance_safe:
  assumes "advance rq session state state'" and "resolution_safe rq session state"
  shows "resolution_safe rq session state'"
  using assms
proof (induction rule: advance.induct)
  case (stay step steps names active h)
  then show ?case
    by (auto simp: resolution_safe_def)
next
  case (parent steps names name active h)
  then show ?case
    by (auto simp: resolution_safe_def dest: within_butlast)
next
  case (keep name origin names steps active h)
  then show ?case
    by (auto simp: resolution_safe_def admitted_def)
next
  case (follow name origin target i active h steps names)
  then show ?case
    by (auto simp: resolution_safe_def open_links_target target_steps_def)
qed (auto simp: resolution_safe_def)

section \<open>Results of a resolution\<close>

lemma join_slash_snoc: "join_slash (names @ [name]) = (if names = [] then name else join_slash names @ 47 # name)"
  by (induction names rule: join_slash.induct) auto

lemma join_slash_last:
  assumes "names \<noteq> []" and "list_all proper_name names"
  shows "join_slash names \<noteq> [] \<and> last (join_slash names) \<noteq> 47"
proof -
  obtain ns n where "names = ns @ [n]"
    using assms(1) by (metis append_butlast_last_id)
  then show ?thesis
    using assms(2) by (cases n rule: rev_cases) (auto simp: join_slash_snoc proper_name_def)
qed

lemma path_from_components_join: "list_all proper_name names \<Longrightarrow> path_from_components names = join_slash names"
proof (induction names rule: rev_induct)
  case (snoc name names)
  then have "\<not> is_absolute name"
    by (cases name) (auto simp: is_absolute_def proper_name_def)
  then show ?case
    using snoc join_slash_last [of names]
    by (auto simp: path_from_components_def path_join_def join_slash_snoc)
qed (simp add: path_from_components_def)

lemma components_join_all: "list_all proper_name names \<Longrightarrow> components (join_slash names) = map Normal names"
  using components_join [of names]
  by (cases "names = []") (auto simp: list_all_iff components_def body_components_def redundant_def)

lemma components_normal_proper:
  assumes "Normal name \<in> set (components p)"
  shows "proper_name name"
proof -
  obtain c cs where p: "split_slash p = c # cs"
    by (cases "split_slash p") simp_all
  have "Normal name \<in> set (body_components (split_slash p))"
    using assms by (auto simp: components_def p body_components_def redundant_def split: if_splits)
  then show ?thesis
    by (auto simp: body_components_def redundant_def as_component_def proper_name_def dest: split_slash_parts
        split: if_splits)
qed

lemma normal_components:
  assumes "list_all is_normal cs"
  obtains names where "cs = map Normal names" and "map component_bytes cs = names"
proof -
  from assms have "cs = map Normal (map component_bytes cs)"
    by (induction cs) (auto elim: is_normal.elims)
  then show thesis
    by (rule that) (rule refl)
qed

lemma relative_path_names:
  assumes "relative_path_new p = Ok q"
  obtains names where "q = p" and "components p = map Normal names" and "list_all proper_name names"
    and "map component_bytes (components p) = names"
proof -
  have "q = p" "list_all is_normal (components p)"
    using assms by (auto simp: relative_path_new_def list_all_iff list_ex_iff split: if_splits)
  moreover from this(2) obtain names where names: "components p = map Normal names"
    "map component_bytes (components p) = names"
    by (rule normal_components)
  moreover have "list_all proper_name names"
    using components_normal_proper [of _ p] names(1) by (auto simp: list_all_iff)
  ultimately show thesis
    using that by blast
qed

text \<open>The names of a result: proper, admitted by the policies, and within the limits.\<close>

definition confined :: "('w, 'c) resolve_request \<Rightarrow> resolution_session \<Rightarrow> path \<Rightarrow> bool" where
  "confined rq session q \<longleftrightarrow>
     (\<exists>names. components q = map Normal names \<and> list_all (admitted rq session) names \<and>
        (names = [] \<or> within session names))"

lemma resolve_start_exact:
  assumes "rs_hops session = 0"
  shows "sums_exact session (resolve_start pending budget session w)"
    "view (resolve_start pending budget session w) = (pending, [], [], 0)"
  using assms by (simp_all add: resolve_start_def sums_exact_def view_def)

lemma start_safe: "target_steps steps \<Longrightarrow> resolution_safe rq session (steps, [], [], 0)"
  using open_links_target [of steps "[]"]
  by (auto simp: resolution_safe_def target_steps_def split: resolution_step.splits)

lemma resolve_loop_start:
  fixes rq :: "('w, 'c) resolve_request"
  assumes "rs_hops session = 0" and "target_steps steps"
  shows "case resolve_loop rq (resolve_start steps budget session w) of
      (Ok q, s') \<Rightarrow>
        (advance rq session)\<^sup>*\<^sup>* (steps, [], [], 0) ([], rv_resolved s', rv_active s', rs_hops (rv_session s')) \<and>
        resolution_safe rq session ([], rv_resolved s', rv_active s', rs_hops (rv_session s')) \<and>
        q = join_slash (rv_resolved s') \<and> components q = map Normal (rv_resolved s')
    | (Err e, _) \<Rightarrow> True
    | (Panic, _) \<Rightarrow> \<not> returning (rq_root rq)"
proof -
  let ?start = "resolve_start steps budget session w :: ('w, 'c) resolve_state"
  obtain r s' where run: "resolve_loop rq ?start = (r, s')" by force
  note refines = resolve_loop_refines [OF resolve_start_exact(1) [OF assms(1)], of rq steps budget w]
  have view: "view ?start = (steps, [], [], 0)"
    using assms(1) by (rule resolve_start_exact(2))
  show ?thesis
  proof (cases r)
    case (Ok q)
    then have reach: "(advance rq session)\<^sup>*\<^sup>* (steps, [], [], 0)
        ([], rv_resolved s', rv_active s', rs_hops (rv_session s'))" and q: "q = path_from_components (rv_resolved s')"
      using refines run view by auto
    have safe: "resolution_safe rq session ([], rv_resolved s', rv_active s', rs_hops (rv_session s'))"
      using reach start_safe [OF assms(2)] by (induction rule: rtranclp_induct) (auto intro: advance_safe)
    then have "list_all proper_name (rv_resolved s')"
      by (auto simp: resolution_safe_def list_all_iff admitted_def)
    then show ?thesis
      using run Ok reach safe by (simp add: q path_from_components_join components_join_all)
  qed (use run refines in auto)
qed

lemma resolve_rooted_symlinks_confined:
  assumes "rs_hops session = 0"
  shows "case resolve_rooted_symlinks rq p budget session w of
      (Ok q, _, _) \<Rightarrow> confined rq session q
    | (Err e, _, _) \<Rightarrow> True
    | (Panic, _, _) \<Rightarrow> \<not> returning (rq_root rq)"
proof (cases "steps_from_path rq p OriginInput session")
  case (Ok steps)
  obtain r s' where run: "resolve_loop rq (resolve_start steps budget session w) = (r, s')" by force
  have "case r of Ok q \<Rightarrow> confined rq session q | Err _ \<Rightarrow> True | Panic \<Rightarrow> \<not> returning (rq_root rq)"
    using resolve_loop_start [OF assms steps_from_path_proper [OF Ok], of rq budget w] run
    by (cases r) (auto simp: confined_def resolution_safe_def)
  then show ?thesis
    using run Ok by (cases r) (simp_all add: resolve_rooted_symlinks_def)
qed (auto simp: resolve_rooted_symlinks_def)

end
