(* ===== verification/Rooted_Static.thy ===== *)
theory Rooted_Static
  imports Rooted_Correct
begin

text \<open>
  The fast check against the worklist. On a namespace that stays as it is during a resolution, a path
  that the fast check settles is settled the same way by the worklist, and a failure of the fast check is
  the failure of the worklist. The namespace is a locale: what a lookup under a directory answers is a
  function of the names that lead there.
\<close>

section \<open>What the fast check establishes\<close>

lemma path_parts_name: "proper_name name \<Longrightarrow> path_parts name = [name]"
  by (simp add: path_parts_def proper_name_def split_slash_no_slash)

lemma check_component_Ok:
  assumes "proper_name name" and "check_component rq session comps bytes name = Ok (comps', bytes')"
  shows "session_validate_component session name OriginInput = Ok () \<and> comps' = comps + 1 \<and>
    bytes' = bytes + length name + 1 \<and> check_resolved session comps' bytes' = Ok ()"
  using assms
  by (auto simp: check_component_def measure_path_def path_parts_name checked_add_def
      split: result.splits option.splits if_splits prod.splits)

lemma native_bytes_Cons [simp]: "native_bytes (name # names) = length name + 1 + native_bytes names"
  by (simp add: native_bytes_def)

lemma deadline_returns: "fst (deadline_of rq w) \<noteq> Panic"
  by (simp add: deadline_of_def check_resolution_deadline_def split: option.split prod.split)

lemma check_component_returns [simp]: "check_component rq session comps bytes name \<noteq> Panic"
  by (simp add: check_component_def split: result.split option.split prod.split)

text \<open>Rules for the fast check, whose state is the world alone.\<close>

lemma outcome_deadlineI:
  assumes "\<And>w'. outcome k Q (\<lambda>_ _. True) P w'"
  shows "outcome (seq (deadline_of rq) k) Q (\<lambda>_ _. True) P w"
proof -
  have "outcome (deadline_of rq) (\<lambda>_ _. True) (\<lambda>_ _. True) (\<lambda>_. False) w"
    using deadline_returns [of rq w] by (auto simp: outcome_def split: prod.splits result.splits)
  then show ?thesis
    unfolding outcome_seq by (rule outcome_conseq) (use assms in auto)
qed

lemma outcome_caughtI:
  assumes "\<And>w. fst (m w) = Panic \<Longrightarrow> P" and "\<And>r w'. r \<noteq> Panic \<Longrightarrow> outcome (f r) Q E (\<lambda>_. P) w'"
  shows "outcome (bind (caught m) f) Q E (\<lambda>_. P) w"
proof -
  have "outcome (caught m) (\<lambda>r _. r \<noteq> Panic) E (\<lambda>_. P) w"
    using assms(1) [of w] by (auto simp: outcome_def caught_def split: prod.splits result.splits)
  then show ?thesis
    unfolding outcome_bind by (rule outcome_conseq) (use assms(2) in auto)
qed

lemma outcome_resultI:
  assumes "r \<noteq> Panic" and "\<And>x. r = Ok x \<Longrightarrow> outcome (f x) Q E P w" and "\<And>e. r = Err e \<Longrightarrow> outcome (g e) Q E P w"
  shows "outcome (case r of Ok x \<Rightarrow> f x | Err e \<Rightarrow> g e | Panic \<Rightarrow> h) Q E P w"
  using assms by (cases r) simp_all

lemma outcome_ifI:
  "(c \<Longrightarrow> outcome m Q E P w) \<Longrightarrow> (\<not> c \<Longrightarrow> outcome k Q E P w) \<Longrightarrow> outcome (if c then m else k) Q E P w"
  by simp

lemma outcome_answerI:
  assumes "r \<noteq> Panic" and "\<And>x. r = Ok x \<Longrightarrow> outcome (f x) Q (\<lambda>_ _. True) P w"
  shows "outcome (bind (answer r) f) Q (\<lambda>_ _. True) P w"
  using assms by (cases r) (simp_all add: outcome_def answer_def bind_def)

lemmas outcome_rules = outcome_deadlineI outcome_caughtI outcome_resultI outcome_ifI outcome_answerI

definition settled :: "resolution_session \<Rightarrow> nat \<Rightarrow> nat \<Rightarrow> byte list list \<Rightarrow> bool" where
  "settled session comps bytes names \<longleftrightarrow>
     (\<forall>name \<in> set names. session_validate_component session name OriginInput = Ok ()) \<and>
     (names = [] \<or> check_resolved session (comps + length names) (bytes + native_bytes names) = Ok ())"

lemma settled_Cons:
  assumes "proper_name name" and "check_component rq session comps bytes name = Ok (comps', bytes')"
    and "settled session comps' bytes' names"
  shows "settled session comps bytes (name # names)"
  using check_component_Ok [OF assms(1,2)] assms(3) by (auto simp: settled_def algebra_simps)

lemma settle_outcome:
  assumes "list_all proper_name names"
  shows "outcome (settle_components rq session comps bytes cursor names)
    (\<lambda>ok _. ok \<longrightarrow> settled session comps bytes names) (\<lambda>_ _. True) (\<lambda>_. \<not> returning (rq_root rq)) w"
  using assms
proof (induction names arbitrary: comps bytes cursor w)
  case (Cons name names)
  note native = returning_calls(3,4) [of "rq_root rq"]
  have rest: "outcome (settle_components rq session comps' bytes' cursor' names)
      (\<lambda>ok _. ok \<longrightarrow> settled session comps bytes (name # names)) (\<lambda>_ _. True) (\<lambda>_. \<not> returning (rq_root rq)) w'"
    if "check_component rq session comps bytes name = Ok (comps', bytes')" for comps' bytes' cursor' w'
    using Cons.IH [of comps' bytes' cursor' w'] settled_Cons [OF _ that] Cons.prems
    by (auto elim!: outcome_conseq)
  have stop: "settled session comps bytes [name]"
    if "check_component rq session comps bytes name = Ok (comps', bytes')" for comps' bytes'
    using settled_Cons [OF _ that, of "[]"] Cons.prems by (simp add: settled_def)
  show ?case
    unfolding settle_components.simps
    by (intro outcome_deadlineI outcome_answerI check_component_returns)
      (auto intro!: outcome_rules rest simp del: outcome_bind outcome_seq outcome_caught
        dest: stop native split: prod.split)
qed (simp add: settled_def)

lemma try_resolve_outcome:
  assumes "relative_path_new p = Ok q" and "rq_component_policy rq = None"
  shows "outcome (try_resolve_without_symlinks rq p session)
    (\<lambda>resolved _. case resolved of None \<Rightarrow> True | Some q \<Rightarrow> q = p \<and> confined rq session q)
    (\<lambda>_ _. True) (\<lambda>_. \<not> returning (rq_root rq)) w"
proof -
  obtain names where names: "components p = map Normal names" "list_all proper_name names"
    "map component_bytes (components p) = names"
    using assms(1) by (rule relative_path_names)
  have confined: "confined rq session p" if "settled session 0 0 names"
    using that names(1,2) assms(2)
    by (auto simp: confined_def settled_def within_def admitted_def admits_def list_all_iff)
  have settle: "outcome (bind (settle_components rq session 0 0 cursor (map component_bytes (components p)))
      (\<lambda>settled. ret (if settled then Some p else None)))
      (\<lambda>resolved _. case resolved of None \<Rightarrow> True | Some q \<Rightarrow> q = p \<and> confined rq session q)
      (\<lambda>_ _. True) (\<lambda>_. \<not> returning (rq_root rq)) w'" for cursor w'
    using settle_outcome [OF names(2), of rq session 0 0 cursor w'] confined
    unfolding names(3) outcome_bind by (auto elim!: outcome_conseq)
  have opened: "outcome (bind (or_fail (\<lambda>_ e. rooted_io_error (rq_operation rq) (rq_original rq) e) id
        (rt_cursor (rq_root rq))) (\<lambda>cursor.
      bind (settle_components rq session 0 0 cursor (map component_bytes (components p)))
        (\<lambda>settled. ret (if settled then Some p else None))))
      (\<lambda>resolved _. case resolved of None \<Rightarrow> True | Some q \<Rightarrow> q = p \<and> confined rq session q)
      (\<lambda>_ _. True) (\<lambda>_. \<not> returning (rq_root rq)) w'" for w'
  proof (rule outcome_bindI [where R = "\<lambda>_ _. True"])
    show "outcome (or_fail (\<lambda>_ e. rooted_io_error (rq_operation rq) (rq_original rq) e) id (rt_cursor (rq_root rq)))
        (\<lambda>_ _. True) (\<lambda>_ _. True) (\<lambda>_. \<not> returning (rq_root rq)) w'"
      using returning_calls(2) [of "rq_root rq" w']
      by (auto simp: outcome_def or_fail_def split: prod.splits result.splits)
  qed (rule settle)
  show ?thesis
    unfolding try_resolve_without_symlinks_def
    by (auto intro!: outcome_deadlineI simp: outcome_seq [of "answer _"] outcome_def [of "answer _"] answer_def
        simp del: outcome_bind outcome_seq split: option.split result.split
        intro: opened simp: map_err_returns)
qed

lemma request_fields [simp]:
  "rq_root (rooted_request root p policy ff op deadline) = root"
  "rq_policy (rooted_request root p policy ff op deadline) = policy"
  "rq_follow_final (rooted_request root p policy ff op deadline) = ff"
  "rq_component_policy (rooted_request root p policy ff op deadline) = None"
  "rq_deadline (rooted_request root p policy ff op deadline) = deadline"
  by (simp_all add: rooted_request_def)

lemma resolve_without_budget_outcome:
  assumes "rs_hops session = 0"
  shows "outcome (resolve_without_budget rq p session) (\<lambda>q _. confined rq session q) (\<lambda>_ _. True)
    (\<lambda>_. \<not> returning (rq_root rq)) w"
  using resolve_rooted_symlinks_confined [OF assms, of rq p None w]
  by (auto simp: outcome_def resolve_without_budget_def split: prod.splits result.splits)

lemma confined_root: "confined rq session []"
  by (auto simp: confined_def components_def body_components_def redundant_def)

lemma rooted_path_Ok: "rooted_path p op = Ok q \<Longrightarrow> q = p \<and> relative_path_new p = Ok p"
  by (auto simp: rooted_path_def map_err_def relative_path_new_def split: if_splits)

lemma rooted_path_returns [simp]: "rooted_path p op \<noteq> Panic"
  by (simp add: rooted_path_def map_err_def relative_path_new_def)

lemma resolve_allow_root_outcome:
  "outcome (resolve_rooted_path_allow_root_with_scope_and_deadline root p policy ff op scope deadline)
     (\<lambda>q _. confined (rooted_request root p policy ff op deadline) (session_new (rt_contract root) scope) q)
     (\<lambda>_ _. True) (\<lambda>_. \<not> returning root) w"
proof -
  let ?rq = "rooted_request root p policy ff op deadline"
  let ?session = "session_new (rt_contract root) scope"
  have slow: "outcome (resolve_without_budget ?rq q ?session) (\<lambda>q _. confined ?rq ?session q) (\<lambda>_ _. True)
      (\<lambda>_. \<not> returning root) w'" for q w'
    using resolve_without_budget_outcome [of ?session ?rq q w'] by (simp add: session_new_def)
  have tried: "outcome (bind (try_resolve_without_symlinks ?rq q ?session)
      (\<lambda>resolved. case resolved of Some q \<Rightarrow> ret q | None \<Rightarrow> resolve_without_budget ?rq q ?session))
      (\<lambda>q _. confined ?rq ?session q) (\<lambda>_ _. True) (\<lambda>_. \<not> returning root) w'"
    if "relative_path_new q = Ok q" for q w'
    using try_resolve_outcome [OF that, of ?rq ?session w'] slow unfolding outcome_bind
    by (auto elim!: outcome_conseq split: option.splits)
  have "outcome (bind (answer (rooted_path p op)) (\<lambda>relative.
      bind (try_resolve_without_symlinks ?rq relative ?session)
      (\<lambda>resolved. case resolved of Some q \<Rightarrow> ret q | None \<Rightarrow> resolve_without_budget ?rq relative ?session)))
      (\<lambda>q _. confined ?rq ?session q) (\<lambda>_ _. True) (\<lambda>_. \<not> returning root) w'" for w'
    by (rule outcome_answerI) (use tried rooted_path_Ok in \<open>fastforce simp del: outcome_bind\<close>)+
  then show ?thesis
    unfolding resolve_rooted_path_allow_root_with_scope_and_deadline_def Let_def
    by (auto intro!: outcome_deadlineI slow simp: confined_root simp del: outcome_bind outcome_seq)
qed

section \<open>The steps of a relative path\<close>

lemma map_as_component: "map as_component parts = map Normal names \<Longrightarrow> parts = names"
  by (induction parts arbitrary: names) (auto simp: as_component_def split: if_splits)

lemma relative_path_parts:
  assumes "relative_path_new p = Ok p" and "components p = map Normal names"
  shows "path_parts p = names" "\<not> is_absolute p"
proof -
  have dots: "[46] \<notin> set (split_slash p)" and normal: "list_all is_normal (components p)"
    using assms(1)
    by (auto simp: relative_path_new_def contains_explicit_dot_component_def list_all_iff list_ex_iff split: if_splits)
  obtain c cs where p: "split_slash p = c # cs"
    by (cases "split_slash p") simp_all
  have body: "components p = body_components (split_slash p)"
    using normal dots by (auto simp: components_def p split: if_splits)
  have "path_parts p = filter (\<lambda>part. \<not> redundant part) (split_slash p)"
    unfolding path_parts_def by (rule filter_cong) (use dots in \<open>auto simp: redundant_def\<close>)
  then show "path_parts p = names"
    using map_as_component [of "path_parts p" names] assms(2) body by (simp add: body_components_def)
  show "\<not> is_absolute p"
    using normal p by (cases p) (auto simp: is_absolute_def components_def split: if_splits)
qed

lemma tokens_of_names:
  assumes "list_all proper_name names" and "\<And>n. reserve n"
  shows "tokens_of_parts reserve origin names = Ok (map (\<lambda>name. TokNormal name origin) names)"
  using assms(1) by (induction names) (simp_all add: assms(2) proper_name_def)

lemma measure_parts_bounded:
  "measure_parts comps bytes parts = Some (c, b) \<Longrightarrow> comps \<le> usize_max \<Longrightarrow> bytes \<le> usize_max \<Longrightarrow>
   c \<le> usize_max \<and> b \<le> usize_max"
  by (induction parts arbitrary: comps bytes) (auto simp: checked_add_def split: option.splits if_splits)

section \<open>A static namespace\<close>

text \<open>
  \<open>look\<close> answers for the entry that a list of names leads to, \<open>position\<close> gives the names that lead to the
  directory of a cursor. No call changes the world.
\<close>

locale static_root =
  fixes root :: "('w, 'c) root_calls"
    and position :: "'c \<Rightarrow> byte list list"
    and look :: "byte list list \<Rightarrow> (entry_metadata, io_error) result"
  assumes cursor: "\<exists>c. rt_cursor root w = (Ok c, w) \<and> position c = []"
    and metadata: "rt_cursor_metadata root c name w = (look (position c @ [name]), w)"
    and descend: "look (position c @ [name]) = Ok m \<Longrightarrow> em_kind m = EntDirectory \<Longrightarrow>
      \<exists>c'. rt_descend root c name w = (Ok c', w) \<and> position c' = position c @ [name]"
    and reserve: "rt_reserve root n"
begin

text \<open>A state of the worklist with only names left, whose cursor is where the names resolved so far lead.\<close>

definition on_track :: "resolution_session \<Rightarrow> byte list list \<Rightarrow> 'w \<Rightarrow> ('w, 'c) resolve_state \<Rightarrow> bool" where
  "on_track session names w s \<longleftrightarrow>
     rv_world s = w \<and> rv_pending s = map (\<lambda>name. StepNormal name OriginInput) names \<and>
     rv_pending_actions s = length names \<and> rv_resolved_bytes s + native_bytes names \<le> usize_max \<and>
     length (rv_resolved s) + length names \<le> usize_max \<and>
     (case rv_cursor s of None \<Rightarrow> names = [] \<or> rv_resolved s = [] | Some c \<Rightarrow> position c = rv_resolved s) \<and>
     rv_session s = session \<and> rv_budget s = None"

lemma charge_eq:
  assumes "rq_component_policy rq = None" and "rv_budget t = None" and "proper_name name"
    and "rv_resolved_bytes t + length name + 1 \<le> usize_max" and "length (rv_resolved t) + 1 \<le> usize_max"
  shows "charge_component rq name OriginInput t =
    (case check_component rq (rv_session t) (length (rv_resolved t)) (rv_resolved_bytes t) name of
       Ok x \<Rightarrow> (Ok (length name + 1, snd x), t)
     | Err e \<Rightarrow> (Err e, t)
     | Panic \<Rightarrow> (Panic, t))"
proof -
  have measured: "measure_path name = Some (1, length name + 1)"
    using assms(3,4) by (simp add: measure_path_def path_parts_name checked_add_def)
  show ?thesis
    using assms(1,2,4,5) measured
    by (simp add: charge_component_def check_component_def checked_add_def debit_budget_def seq_def bind_def ret_def
        gets_def answer_def map_err_def split: result.split)
qed

lemma without_deadline:
  assumes "rq_deadline rq = None"
  shows "check_deadline rq s = (Ok (), s)" "deadline_of rq w = (Ok (), w)"
  using assms by (simp_all add: check_deadline_def deadline_of_def on_world_def check_resolution_deadline_def)

lemma ensure_cursor_static:
  assumes "rq_root rq = root" and "case rv_cursor s of None \<Rightarrow> rv_resolved s = [] | Some c \<Rightarrow> position c = rv_resolved s"
  obtains c where "ensure_cursor rq s = (Ok (), s\<lparr>rv_cursor := Some c\<rparr>)" and "position c = rv_resolved s"
proof (cases "rv_cursor s")
  case (Some c)
  have "s = s\<lparr>rv_cursor := Some c\<rparr>"
    using Some by simp
  then show ?thesis
    using that [of c] Some assms(2) by (simp add: ensure_cursor_def bind_def gets_def ret_def)
next
  case None
  then have "rv_resolved s = []"
    using assms(2) by simp
  moreover obtain c where "rt_cursor root (rv_world s) = (Ok c, rv_world s)" "position c = []"
    using cursor by blast
  moreover have "s\<lparr>rv_world := rv_world s\<rparr> = s"
    by simp
  ultimately show ?thesis
    using that [of c] None assms(1)
    by (simp add: ensure_cursor_def open_resolved_cursor_def bind_def gets_def ret_def or_fail_def on_world_def modify_def)
qed

text \<open>One component: the state in which the worklist looks at it, and what it does then.\<close>

definition taken :: "byte list list \<Rightarrow> ('w, 'c) resolve_state \<Rightarrow> ('w, 'c) resolve_state" where
  "taken names s =
     s\<lparr>rv_pending := map (\<lambda>name. StepNormal name OriginInput) names, rv_pending_actions := length names\<rparr>"

lemma resolve_step_taken:
  assumes "rq_deadline rq = None" and "on_track session (name # names) w s"
  shows "resolve_step rq (StepNormal name OriginInput)
      (s\<lparr>rv_pending := map (\<lambda>name. StepNormal name OriginInput) names\<rparr>) = normal_step rq name OriginInput (taken names s)"
  using assms(2)
  by (simp add: resolve_step_def without_deadline [OF assms(1)] on_track_def taken_def seq_def bind_def gets_def modify_def)

lemma look_static:
  assumes "rq_root rq = root" and "rq_deadline rq = None" and "on_track session (name # names) w s"
  obtains c where "position c = rv_resolved s"
    and "look_component rq name is_final x (taken names s) =
      (case look (rv_resolved s @ [name]) of
         Panic \<Rightarrow> (Panic, (taken names s)\<lparr>rv_cursor := Some c\<rparr>)
       | observed \<Rightarrow> observed_step rq name (fst x) (snd x) is_final observed ((taken names s)\<lparr>rv_cursor := Some c\<rparr>))"
proof -
  have "case rv_cursor (taken names s) of
      None \<Rightarrow> rv_resolved (taken names s) = [] | Some c \<Rightarrow> position c = rv_resolved (taken names s)"
    using assms(3) by (simp add: on_track_def taken_def split: option.splits)
  with assms(1) obtain c where c: "ensure_cursor rq (taken names s) = (Ok (), (taken names s)\<lparr>rv_cursor := Some c\<rparr>)"
    "position c = rv_resolved (taken names s)"
    by (rule ensure_cursor_static)
  have same: "rv_resolved (taken names s) = rv_resolved s"
    "(taken names s)\<lparr>rv_cursor := Some c, rv_world := rv_world (taken names s)\<rparr> = (taken names s)\<lparr>rv_cursor := Some c\<rparr>"
    by (simp_all add: taken_def)
  show thesis
    using that [of c] c same assms(1)
    by (simp add: look_component_def without_deadline [OF assms(2)] seq_def bind_def observe_component_def gets_def caught_def
        on_world_def metadata split: result.split)
qed

definition moved :: "byte list \<Rightarrow> 'c option \<Rightarrow> byte list list \<Rightarrow> ('w, 'c) resolve_state \<Rightarrow> ('w, 'c) resolve_state" where
  "moved name cursor names s =
     (taken names s)\<lparr>rv_cursor := cursor, rv_resolved := rv_resolved s @ [name],
        rv_component_bytes := rv_component_bytes s @ [length name + 1],
        rv_resolved_bytes := rv_resolved_bytes s + length name + 1\<rparr>"

lemma moved_on_track:
  assumes "on_track session (name # names) w s"
    and "case cursor of None \<Rightarrow> names = [] | Some c \<Rightarrow> position c = rv_resolved s @ [name]"
  shows "on_track session names w (moved name cursor names s)"
  using assms by (auto simp: on_track_def moved_def taken_def split: option.splits)

lemma moved_fields [simp]:
  "rv_resolved (moved name cursor names s) = rv_resolved s @ [name]"
  "rv_resolved_bytes (moved name cursor names s) = rv_resolved_bytes s + length name + 1"
  by (simp_all add: moved_def)

lemma loop_taken:
  assumes "rq_deadline rq = None" and "on_track session (name # names) w s"
  shows "resolve_loop rq s =
    (case normal_step rq name OriginInput (taken names s) of
       (Ok _, s') \<Rightarrow> resolve_loop rq s'
     | (Err e, s') \<Rightarrow> (Err e, s')
     | (Panic, s') \<Rightarrow> (Panic, s'))"
proof -
  have "rv_pending s = StepNormal name OriginInput # map (\<lambda>name. StepNormal name OriginInput) names"
    using assms(2) by (simp add: on_track_def)
  then show ?thesis
    by (simp add: resolve_loop.simps [of rq s] resolve_step_taken [OF assms])
qed

lemma loop_finished: "on_track session [] w s \<Longrightarrow> resolve_loop rq s = (Ok (path_from_components (rv_resolved s)), s)"
  by (simp add: resolve_loop.simps [of rq s] on_track_def)

lemma normal_step_static:
  assumes "rq_root rq = root" and "rq_deadline rq = None" and "rq_component_policy rq = None"
    and "proper_name name" and "on_track session (name # names) w s"
    and "check_component rq session (length (rv_resolved s)) (rv_resolved_bytes s) name = r"
  shows "case r of
      Err e \<Rightarrow> normal_step rq name OriginInput (taken names s) = (Err e, taken names s)
    | Panic \<Rightarrow> False
    | Ok x \<Rightarrow> normal_step rq name OriginInput (taken names s) =
        (if names = [] \<and> \<not> rq_follow_final rq then (Ok (), moved name None names s)
         else look_component rq name (names = []) (length name + 1, rv_resolved_bytes s + length name + 1) (taken names s))"
proof -
  have fields: "rv_budget (taken names s) = None" "rv_session (taken names s) = session"
    "rv_resolved (taken names s) = rv_resolved s" "rv_resolved_bytes (taken names s) = rv_resolved_bytes s"
    "rv_pending_actions (taken names s) = length names"
    "rv_resolved_bytes s + length name + 1 \<le> usize_max" "length (rv_resolved s) + 1 \<le> usize_max"
    using assms(5) by (simp_all add: on_track_def taken_def)
  note charge = charge_eq [OF assms(3), of "taken names s" name, unfolded fields, OF refl assms(4) fields(6,7)]
  show ?thesis
  proof (cases r)
    case (Ok x)
    have "snd x = rv_resolved_bytes s + length name + 1"
      using check_component_Ok [OF assms(4), of rq session _ _ "fst x" "snd x"] assms(6) Ok by simp
    then show ?thesis
      using Ok charge assms(6) fields
      by (simp add: normal_step_def bind_def seq_def gets_def push_resolved_def drop_cursor_def modify_def moved_def taken_def)
  qed (use charge assms(6) check_component_returns in \<open>auto simp: normal_step_def bind_def\<close>)
qed

lemma look_cases:
  assumes "rq_root rq = root" and "rq_deadline rq = None" and "on_track session (name # names) w s"
    and "run = look_component rq name (names = []) (length name + 1, rv_resolved_bytes s + length name + 1) (taken names s)"
  shows "case look (rv_resolved s @ [name]) of
      Panic \<Rightarrow> \<exists>s'. run = (Panic, s') \<and> rv_world s' = w
    | Err e \<Rightarrow> ioe_kind e \<noteq> IoNotFound \<longrightarrow>
        (\<exists>s'. run = (Err (rooted_io_error (rq_operation rq) (rq_original rq) e), s') \<and> rv_world s' = w)
    | Ok m \<Rightarrow> em_kind m \<noteq> EntSymlink \<longrightarrow>
        (names = [] \<longrightarrow> run = (Ok (), moved name None names s)) \<and>
        (names \<noteq> [] \<and> em_kind m = EntDirectory \<longrightarrow>
           (\<exists>c. position c = rv_resolved s @ [name] \<and> run = (Ok (), moved name (Some c) names s)))"
proof -
  obtain c where c: "position c = rv_resolved s"
    and run: "look_component rq name (names = []) (length name + 1, rv_resolved_bytes s + length name + 1) (taken names s) =
      (case look (rv_resolved s @ [name]) of
         Panic \<Rightarrow> (Panic, (taken names s)\<lparr>rv_cursor := Some c\<rparr>)
       | observed \<Rightarrow> observed_step rq name (fst (length name + 1, rv_resolved_bytes s + length name + 1))
           (snd (length name + 1, rv_resolved_bytes s + length name + 1)) (names = []) observed
           ((taken names s)\<lparr>rv_cursor := Some c\<rparr>))"
    using assms(1-3) by (rule look_static)
  have world: "rv_world (taken names s) = w"
    using assms(3) by (simp add: on_track_def taken_def)
  show ?thesis
  proof (cases "look (rv_resolved s @ [name])")
    case (Ok m)
    have "\<exists>d. position d = rv_resolved s @ [name] \<and> run = (Ok (), moved name (Some d) names s)"
      if entry: "em_kind m = EntDirectory" "names \<noteq> []"
    proof -
      obtain d where d: "rt_descend root c name w = (Ok d, w)" "position d = rv_resolved s @ [name]"
        using descend [of c name m w] Ok c entry by auto
      then have "run = (Ok (), moved name (Some d) names s)"
        using run Ok entry assms(1,4) world without_deadline [OF assms(2)]
        by (simp add: observed_step_def enter_component_def seq_def bind_def gets_def caught_def on_world_def
            modify_def push_resolved_def moved_def taken_def)
      with d(2) show ?thesis
        by blast
    qed
    moreover have "run = (Ok (), moved name None names s)" if "em_kind m \<noteq> EntSymlink" "names = []"
      using run Ok that assms(4)
      by (simp add: observed_step_def enter_component_def seq_def bind_def drop_cursor_def modify_def push_resolved_def
          moved_def taken_def)
    ultimately show ?thesis
      by (simp add: Ok)
  qed (use run world assms(4) in \<open>auto simp: observed_step_def fail_def\<close>)
qed

lemma settle_static:
  assumes "rq_root rq = root" and "rq_deadline rq = None" and "rq_component_policy rq = None"
    and "list_all proper_name names" and "on_track session names w s" and "position c = rv_resolved s"
  shows "case settle_components rq session (length (rv_resolved s)) (rv_resolved_bytes s) c names w of
      (Ok ok, w') \<Rightarrow> w' = w \<and> (ok \<longrightarrow>
        (\<exists>s'. resolve_loop rq s = (Ok (path_from_components (rv_resolved s @ names)), s') \<and> rv_world s' = w))
    | (Err e, w') \<Rightarrow> w' = w \<and> (\<exists>s'. resolve_loop rq s = (Err e, s') \<and> rv_world s' = w)
    | (Panic, w') \<Rightarrow> w' = w \<and> (\<exists>s'. resolve_loop rq s = (Panic, s') \<and> rv_world s' = w)"
  using assms(4-6)
proof (induction names arbitrary: s c)
  case Nil
  then show ?case
    by (simp add: loop_finished ret_def) (simp add: on_track_def)
next
  case (Cons name names)
  let ?check = "check_component rq session (length (rv_resolved s)) (rv_resolved_bytes s) name"
  have world: "rv_world (taken names s) = w"
    using Cons.prems(2) by (simp add: on_track_def taken_def)
  note loop = loop_taken [OF assms(2) Cons.prems(2)]
  note step = normal_step_static [OF assms(1-3) _ Cons.prems(2) refl]
  note looked = look_cases [OF assms(1,2) Cons.prems(2) refl]
  note quiet = without_deadline [OF assms(2)]
  have seen: "rt_cursor_metadata root c name w = (look (rv_resolved s @ [name]), w)"
    using metadata [of c name w] Cons.prems(3) by simp
  have last: "resolve_loop rq (moved name None [] s) = (Ok (path_from_components (rv_resolved s @ [name])), moved name None [] s) \<and>
      rv_world (moved name None [] s) = w" if "names = []"
    using loop_finished [of session w "moved name None [] s"] moved_on_track [OF Cons.prems(2), of None] that world
    by (simp add: moved_def)
  show ?case
  proof (cases ?check)
    case (Ok x)
    then have x: "x = (length (rv_resolved s) + 1, rv_resolved_bytes s + length name + 1)"
      using check_component_Ok [of name rq session _ _ "fst x" "snd x"] Cons.prems(1) by (cases x) auto
    have run: "normal_step rq name OriginInput (taken names s) =
        (if names = [] \<and> \<not> rq_follow_final rq then (Ok (), moved name None names s)
         else look_component rq name (names = []) (length name + 1, rv_resolved_bytes s + length name + 1) (taken names s))"
      using step Cons.prems(1) Ok by simp
    have check: "?check = Ok (length (rv_resolved s) + 1, rv_resolved_bytes s + length name + 1)"
      using Ok x by simp
    show ?thesis
    proof (cases "names = [] \<and> \<not> rq_follow_final rq")
      case True
      then show ?thesis
        using loop run last check by (simp add: seq_def bind_def quiet answer_def ret_def)
    next
      case False
      note here = loop run [unfolded if_not_P [OF False]] False check seen assms(1)
      show ?thesis
      proof (cases "look (rv_resolved s @ [name])")
        case (Ok m)
        show ?thesis
        proof (cases "em_kind m \<noteq> EntSymlink \<and> names \<noteq> [] \<and> em_kind m = EntDirectory")
          case True
          obtain d where d: "position d = rv_resolved s @ [name]"
            "normal_step rq name OriginInput (taken names s) = (Ok (), moved name (Some d) names s)"
            using looked Ok True run False by auto
          obtain c' where c': "rt_descend root c name w = (Ok c', w)" "position c' = rv_resolved s @ [name]"
            using descend [of c name m w] Ok True Cons.prems(3) by auto
          have "on_track session names w (moved name (Some d) names s)"
            using moved_on_track [OF Cons.prems(2), of "Some d"] d(1) by simp
          from Cons.IH [OF _ this, of c'] Cons.prems(1) c' d(2) True Ok here show ?thesis
            by (auto simp: seq_def bind_def quiet answer_def caught_def split: prod.splits result.splits)
        next
          case False
          then show ?thesis
            using looked Ok here last by (auto simp: seq_def bind_def quiet answer_def caught_def ret_def)
        qed
      next
        case (Err e)
        then show ?thesis
          using looked here by (auto simp: seq_def bind_def quiet answer_def caught_def ret_def fail_def)
      next
        case Panic
        then show ?thesis
          using looked here by (auto simp: seq_def bind_def quiet answer_def caught_def)
      qed
    qed
  next
    case (Err e)
    then show ?thesis
      using step Cons.prems(1) loop world by (simp add: seq_def bind_def quiet answer_def)
  qed simp
qed

lemma steps_static:
  assumes "rq_root rq = root" and "relative_path_new p = Ok p" and "components p = map Normal names"
    and "list_all proper_name names" and "\<not> has_trailing_separator p"
  shows "steps_from_path rq p OriginInput session =
    (case measure_path p of
       None \<Rightarrow> Err (in_context rq (overflow_error PendingResolutionBytes))
     | Some (comps, bytes) \<Rightarrow>
         map_err (in_context rq)
           (case check_pending session comps bytes of
              Ok _ \<Rightarrow> Ok (map (\<lambda>name. StepNormal name OriginInput) names) | Err e \<Rightarrow> Err e | Panic \<Rightarrow> Panic))"
proof -
  note parts = relative_path_parts [OF assms(2,3)]
  have "comps \<le> usize_max" if "measure_path p = Some (comps, bytes)" for comps bytes
    using that measure_parts_bounded unfolding measure_path_def by blast
  then show ?thesis
    using assms(1,5) parts tokens_of_names [OF assms(4), of "rt_reserve root" OriginInput] reserve
    by (auto simp: steps_from_path_def tokenize_def token_capacity_def checked_add_def tokens_after_check_def map_err_def
        split: option.split result.split prod.split)
qed

lemma fast_transparent:
  assumes "rq_root rq = root" and "rq_deadline rq = None" and "rq_component_policy rq = None"
    and "rq_policy rq \<noteq> FollowAcrossScope" and "relative_path_new p = Ok p" and "\<not> has_trailing_separator p"
    and "try_resolve_without_symlinks rq p session w = (r, w')"
  shows "w' = w \<and>
    (case r of
       Ok None \<Rightarrow> True
     | Ok (Some q) \<Rightarrow> \<exists>q'. resolve_without_budget rq p session w = (Ok q', w) \<and> components q = components q'
     | Err e \<Rightarrow> resolve_without_budget rq p session w = (Err e, w)
     | Panic \<Rightarrow> resolve_without_budget rq p session w = (Panic, w))"
proof -
  obtain names where names: "components p = map Normal names" "list_all proper_name names"
    "map component_bytes (components p) = names"
    using assms(5) by (rule relative_path_names)
  note steps = steps_static [OF assms(1,5) names(1,2) assms(6), of session]
  note parts = relative_path_parts [OF assms(5) names(1)]
  note quiet = without_deadline [OF assms(2)]
  note fast = assms(7) [unfolded try_resolve_without_symlinks_def seq_def bind_def quiet]
  note slow = resolve_without_budget_def resolve_rooted_symlinks_def
  show ?thesis
  proof (cases "measure_path p")
    case None
    then show ?thesis
      using fast steps assms(4) by (auto simp: slow fail_def)
  next
    case (Some m)
    obtain comps bytes where m: "m = (comps, bytes)" by force
    have measured: "comps = length names" "bytes = native_bytes names" "comps \<le> usize_max" "bytes \<le> usize_max"
      using measure_parts_eq [of 0 0 names comps bytes] measure_parts_bounded [of 0 0 names comps bytes] Some m parts(1)
      by (auto simp: measure_path_def native_bytes_def)
    show ?thesis
    proof (cases "check_pending session comps bytes")
      case (Ok u)
      obtain c where c: "rt_cursor root w = (Ok c, w)" "position c = []"
        using cursor by blast
      let ?s = "resolve_start (map (\<lambda>name. StepNormal name OriginInput) names) None session w :: ('w, 'c) resolve_state"
      have "count_actions (map (\<lambda>name. StepNormal name OriginInput) names) = length names"
        by (simp add: count_actions_def comp_def)
      then have track: "on_track session names w ?s"
        using measured by (simp add: on_track_def resolve_start_def)
      obtain ok w1 where settle: "settle_components rq session 0 0 c names w = (ok, w1)" by force
      have start: "rv_resolved ?s = []" "rv_resolved_bytes ?s = 0"
        by (simp_all add: resolve_start_def)
      have same: "components (path_from_components names) = components p"
        using names(1,2) by (simp add: path_from_components_join components_join_all)
      show ?thesis
        using settle_static [OF assms(1-3) names(2) track, of c] settle start c fast steps Some m Ok assms(1,4) names(3) same
        by (cases ok) (auto simp: slow or_fail_def answer_def map_err_def ret_def)
    next
      case (Err e)
      then show ?thesis
        using fast steps Some m assms(4) by (auto simp: slow answer_def map_err_def)
    qed simp
  qed
qed

end

end
