(* ===== verification/Rooted_Props.thy ===== *)
theory Rooted_Props
  imports Rooted_Static
begin

text \<open>
  The properties of rooted path resolution, and a namespace kept as a table on which they are exercised.
\<close>

section \<open>Lexical resolution\<close>

definition lexical_names :: "path \<Rightarrow> byte list list" where
  "lexical_names p =
     foldl (\<lambda>names part. if part = [46] then names else if part = [46, 46] then butlast names else names @ [part]) []
       (path_parts p)"

fun lexical_step :: "byte list list \<Rightarrow> resolution_step \<Rightarrow> byte list list" where
  "lexical_step names StepResetRoot = []"
| "lexical_step names StepParent = butlast names"
| "lexical_step names (StepNormal name _) = names @ [name]"
| "lexical_step names _ = names"

lemma advance_lexical:
  assumes "advance rq session state state'" and "rq_policy rq = SymlinkReject"
  shows "foldl lexical_step (fst (snd state)) (fst state) = foldl lexical_step (fst (snd state')) (fst state')"
  using assms by (induction rule: advance.induct) auto

lemma run_lexical:
  assumes "(advance rq session)\<^sup>*\<^sup>* state state'" and "rq_policy rq = SymlinkReject"
  shows "foldl lexical_step (fst (snd state)) (fst state) = foldl lexical_step (fst (snd state')) (fst state')"
  using assms(1) by (induction rule: rtranclp_induct) (use advance_lexical [OF _ assms(2)] in auto)

lemma tokens_lexical:
  assumes "tokens_of_parts reserve origin parts = Ok tokens"
  shows "foldl lexical_step names (map step_of_token tokens) =
    foldl (\<lambda>names part. if part = [46] then names else if part = [46, 46] then butlast names else names @ [part])
      names parts"
  using assms by (induction parts arbitrary: tokens names) (auto split: result.splits if_splits)

lemma steps_lexical:
  assumes "steps_from_path rq p origin session = Ok steps"
  shows "foldl lexical_step [] steps = lexical_names p"
proof -
  obtain tokens where tokens: "tokens_of_parts (rt_reserve (rq_root rq)) origin (path_parts p) = Ok tokens"
    "steps = (if is_absolute p then [StepResetRoot] else []) @
       map step_of_token (tokens @ (if has_trailing_separator p then [TokRequireDirectory] else []))"
    using assms
    by (auto simp: steps_from_path_def tokenize_def tokens_after_check_def split: result.splits option.splits if_splits)
  then show ?thesis
    using tokens_lexical [OF tokens(1), of "[]"] by (simp add: lexical_names_def)
qed

lemma resolve_without_budget_lexical:
  assumes "resolve_without_budget rq p session w = (Ok q, w')" and "rs_hops session = 0"
    and "rq_policy rq = SymlinkReject"
  shows "components q = map Normal (lexical_names p)"
proof -
  obtain steps s' where run: "steps_from_path rq p OriginInput session = Ok steps"
    "resolve_loop rq (resolve_start steps None session w) = (Ok q, s')"
    using assms(1,3) by (auto simp: resolve_without_budget_def resolve_rooted_symlinks_def split: result.splits prod.splits)
  note start = resolve_loop_start [OF assms(2) steps_from_path_proper [OF run(1)], of rq None w]
  have reach: "(advance rq session)\<^sup>*\<^sup>* (steps, [], [], 0) ([], rv_resolved s', rv_active s', rs_hops (rv_session s'))"
    and q: "components q = map Normal (rv_resolved s')"
    using start run(2) by auto
  have "foldl lexical_step [] steps = rv_resolved s'"
    using run_lexical [OF reach assms(3)] by simp
  then show ?thesis
    using steps_lexical [OF run(1)] q by simp
qed

lemma lexical_relative:
  assumes "relative_path_new p = Ok p" and "components p = map Normal names" and "list_all proper_name names"
  shows "lexical_names p = names"
proof -
  have "foldl (\<lambda>names part. if part = [46] then names else if part = [46, 46] then butlast names else names @ [part])
      acc names = acc @ names" for acc
    using assms(3) by (induction names arbitrary: acc) (auto simp: proper_name_def)
  then show ?thesis
    by (simp add: lexical_names_def relative_path_parts(1) [OF assms(1,2)])
qed

section \<open>A namespace as a table\<close>

text \<open>
  The entries of the namespace by the names that lead to them, with the target of a link. A cursor is the
  list of names that leads to its directory.
\<close>

type_synonym tree = "byte list list \<Rightarrow> (entry_metadata \<times> path) option"

definition tree_look :: "tree \<Rightarrow> byte list list \<Rightarrow> (entry_metadata, io_error) result" where
  "tree_look t names = (case t names of None \<Rightarrow> Err (io_error_of IoNotFound) | Some (m, _) \<Rightarrow> Ok m)"

definition tree_descend :: "tree \<Rightarrow> byte list list \<Rightarrow> (byte list list, io_error) result" where
  "tree_descend t names =
     (case tree_look t names of
        Ok m \<Rightarrow> if em_kind m = EntDirectory then Ok names else Err (io_error_of IoNotADirectory)
      | Err e \<Rightarrow> Err e
      | Panic \<Rightarrow> Panic)"

definition tree_read_link :: "tree \<Rightarrow> path \<Rightarrow> usize option \<Rightarrow> (path option \<times> usize, io_error) result" where
  "tree_read_link t p maximum =
     (case t (map component_bytes (components p)) of
        None \<Rightarrow> Err (io_error_of IoNotFound)
      | Some (m, target) \<Rightarrow>
          if em_kind m \<noteq> EntSymlink then Err (io_error_of IoInvalidInput)
          else
            (case maximum of
               Some lim \<Rightarrow> if lim < length target then Ok (None, length target) else Ok (Some target, length target)
             | None \<Rightarrow> Ok (Some target, length target)))"

definition tree_root :: "resolution_contract \<Rightarrow> tree \<Rightarrow> (unit, byte list list) root_calls" where
  "tree_root contract t =
     \<lparr>rt_contract = contract,
      rt_metadata = (\<lambda>w. (Ok \<lparr>em_kind = EntDirectory, em_identity = None\<rparr>, w)),
      rt_symlink_metadata = (\<lambda>p w. (tree_look t (map component_bytes (components p)), w)),
      rt_cursor = (\<lambda>w. (Ok [], w)),
      rt_cursor_metadata = (\<lambda>c name w. (tree_look t (c @ [name]), w)),
      rt_descend = (\<lambda>c name w. (tree_descend t (c @ [name]), w)),
      rt_read_link = (\<lambda>p maximum w. (tree_read_link t p maximum, w)),
      rt_now = (\<lambda>w. (0, w)),
      rt_reserve = (\<lambda>_. True)\<rparr>"

lemma tree_returning: "returning (tree_root contract t)"
  by (simp add: returning_def tree_root_def tree_look_def tree_descend_def tree_read_link_def split: option.split result.split)

interpretation tree: static_root "tree_root contract t" "\<lambda>c. c" "tree_look t"
  for contract t
  by unfold_locales (simp_all add: tree_root_def tree_descend_def)

section \<open>A sample namespace\<close>

text \<open>A directory \<open>a\<close> with a file \<open>b\<close>, and a link \<open>l\<close> to \<open>/a/\<close>.\<close>

definition sample_tree :: tree where
  "sample_tree names =
     (if names = [[97]] then Some (\<lparr>em_kind = EntDirectory, em_identity = Some (1, 2)\<rparr>, [])
      else if names = [[97], [98]] then Some (\<lparr>em_kind = EntFile, em_identity = Some (1, 3)\<rparr>, [])
      else if names = [[108]] then Some (\<lparr>em_kind = EntSymlink, em_identity = Some (1, 4)\<rparr>, [47, 97, 47])
      else None)"


definition sample_contract :: resolution_contract where
  "sample_contract =
     \<lparr>rc_limits = \<lparr>rl_symlink_hops = Some 1, rl_symlink_target_bytes = Some 8, rl_actual_components = Some 2,
                 rl_resolved_path_bytes = Some 9\<rparr>, rc_policies = []\<rparr>"

lemmas resolver_defs =
  resolve_rooted_path_allow_root_with_scope_and_deadline_def resolve_without_budget_def resolve_rooted_symlinks_def
  resolve_start_def resolve_loop.simps resolve_step_def normal_step_def charge_component_def look_component_def
  observed_step_def follow_link_def expand_link_def count_hop_def replace_pending_def enter_component_def
  ensure_cursor_def open_resolved_cursor_def observe_component_def ensure_resolved_prefix_is_directory_def
  parent_step_def pop_resolved_def reset_root_def push_resolved_def drop_cursor_def debit_budget_def
  read_link_limited_def symlink_identity_of_def relative_from_components_def path_from_components_def
  steps_from_path_def check_deadline_def check_resolution_deadline_def count_actions_def on_world_def answer_def
  in_context_def request_error_def rooted_io_error_def

lemmas fast_defs =
  try_resolve_without_symlinks_def check_component_def deadline_of_def has_only_normal_components_def rooted_path_def
  rooted_request_def across_scope_error_def

lemmas session_defs =
  session_new_def before_follow_link_def session_check_def check_pending_def check_resolved_def
  session_validate_component_def session_validate_target_def contract_validate_component_def contract_validate_target_def
  relative_path_new_def contains_nul_def contains_explicit_dot_component_def tokenize_def tokens_after_check_def
  token_capacity_def measure_path_def path_parts_def has_trailing_separator_def

lemmas monad_defs = seq_def bind_def ret_def fail_def gets_def modify_def caught_def or_fail_def panic_def map_err_def

lemma sample_follow:
  "resolve_rooted_path_allow_root_with_scope_and_deadline (tree_root sample_contract sample_tree) [108, 47, 98]
     FollowWithinScope True OpMetadata Descendant None () = (Ok [97, 47, 98], ())"
  by (simp add: resolver_defs fast_defs session_defs monad_defs tree_root_def sample_contract_def sample_tree_def
      tree_look_def tree_descend_def tree_read_link_def checked_add_def usize_max_def components_def body_components_def
      redundant_def as_component_def is_absolute_def path_join_def Let_def)

text \<open>
  A trailing separator asks for a directory. The worklist demands one; the fast check settles the path
  without it, so that the file \<open>a/b\<close> is found under the name \<open>a/b/\<close>.
\<close>

lemma trailing_separator_kept:
  "resolve_rooted_path_allow_root_with_scope_and_deadline (tree_root sample_contract sample_tree) [97, 47, 98, 47]
     FollowWithinScope True OpMetadata Descendant None () = (Ok [97, 47, 98, 47], ())"
  by (simp add: resolver_defs fast_defs session_defs monad_defs tree_root_def sample_contract_def sample_tree_def
      tree_look_def tree_descend_def tree_read_link_def checked_add_def usize_max_def components_def body_components_def
      redundant_def as_component_def is_absolute_def path_join_def Let_def)

lemma trailing_separator_demanded:
  "\<exists>e. resolve_without_budget
     (rooted_request (tree_root sample_contract sample_tree) [97, 47, 98, 47] FollowWithinScope True OpMetadata None)
     [97, 47, 98, 47] (session_new sample_contract Descendant) () = (Err e, ()) \<and> fe_kind e = KNotDirectory"
  by (simp add: resolver_defs fast_defs session_defs monad_defs tree_root_def sample_contract_def sample_tree_def
      tree_look_def tree_descend_def tree_read_link_def checked_add_def usize_max_def components_def body_components_def
      redundant_def as_component_def is_absolute_def path_join_def Let_def error_new_def)


section \<open>Properties\<close>

text \<open>
  C29: no path leaves the root, whatever the namespace answers. A successful resolution gives a path whose
  components are ordinary names only: it is not absolute, has no dot and no parent, and so names the root
  or something below it. Every name was accepted by all policies of the root's contract, there are no more
  names than its component limit and no more bytes than its byte limit. The resolution never panics unless
  a call of the root does.
\<close>

theorem rooted_resolution_confined:
  "case resolve_rooted_path_allow_root_with_scope_and_deadline root p policy follow_final op scope deadline w of
     (Ok q, _) \<Rightarrow>
       (\<exists>names. components q = map Normal names \<and>
          (\<forall>name \<in> set names. proper_name name \<and>
             (\<exists>origin. contract_validate_component (rt_contract root) name scope origin = Ok ())) \<and>
          (\<forall>lim. rl_actual_components (rc_limits (rt_contract root)) = Some lim \<longrightarrow> length names \<le> lim) \<and>
          (\<forall>lim. rl_resolved_path_bytes (rc_limits (rt_contract root)) = Some lim \<longrightarrow> native_bytes names \<le> lim))
   | (Err _, _) \<Rightarrow> True
   | (Panic, _) \<Rightarrow> \<not> returning root"
proof -
  let ?rq = "rooted_request root p policy follow_final op deadline"
  let ?session = "session_new (rt_contract root) scope"
  have "\<exists>names. components q = map Normal names \<and>
      (\<forall>name \<in> set names. proper_name name \<and>
         (\<exists>origin. contract_validate_component (rt_contract root) name scope origin = Ok ())) \<and>
      (\<forall>lim. rl_actual_components (rc_limits (rt_contract root)) = Some lim \<longrightarrow> length names \<le> lim) \<and>
      (\<forall>lim. rl_resolved_path_bytes (rc_limits (rt_contract root)) = Some lim \<longrightarrow> native_bytes names \<le> lim)"
    if result: "confined ?rq ?session q" for q
  proof -
    obtain names where names: "components q = map Normal names" "list_all (admitted ?rq ?session) names"
      "names = [] \<or> within ?session names"
      using result by (auto simp: confined_def)
    then show ?thesis
      by (intro exI [of _ names])
        (auto simp: list_all_iff admitted_def admits_def session_validate_component_def session_new_def within_def check_limits)
  qed
  then show ?thesis
    using resolve_allow_root_outcome [of root p policy follow_final op scope deadline w]
    by (auto simp: outcome_def split: prod.splits result.splits)
qed

theorem rooted_resolution_confined_witness:
  "case resolve_rooted_path_allow_root_with_scope_and_deadline (tree_root sample_contract sample_tree) [108, 47, 98]
     FollowWithinScope True OpMetadata Descendant None () of
     (Ok q, _) \<Rightarrow> q = [97, 47, 98] \<and> (\<exists>names. components q = map Normal names \<and> length names \<le> 2 \<and> native_bytes names \<le> 9)
   | (Err _, _) \<Rightarrow> False
   | (Panic, _) \<Rightarrow> False"
  using rooted_resolution_confined [where root = "tree_root sample_contract sample_tree" and p = "[108, 47, 98]"
      and policy = FollowWithinScope and follow_final = True and op = OpMetadata and scope = Descendant
      and deadline = None and w = "()"]
  by (auto simp: sample_follow) (auto simp: tree_root_def sample_contract_def)

text \<open>
  C30: the fast check is transparent. On a namespace that does not change, for every relative path without a
  trailing separator, without a deadline and under a policy that does not cross the scope, the entry point
  gives what the worklist alone would give: the same error, or a path with the same components, and the
  namespace in the same state.
\<close>

theorem rooted_fast_path_transparent:
  assumes "static_root root position look" and "relative_path_new p = Ok p" and "\<not> has_trailing_separator p"
    and "policy \<noteq> FollowAcrossScope"
  shows "case resolve_rooted_path_allow_root_with_scope_and_deadline root p policy follow_final op scope None w of
     (Ok q, w') \<Rightarrow>
       (\<exists>q'. resolve_without_budget (rooted_request root p policy follow_final op None) p
               (session_new (rt_contract root) scope) w = (Ok q', w') \<and> components q = components q')
   | (Err e, w') \<Rightarrow>
       resolve_without_budget (rooted_request root p policy follow_final op None) p
         (session_new (rt_contract root) scope) w = (Err e, w')
   | (Panic, w') \<Rightarrow>
       resolve_without_budget (rooted_request root p policy follow_final op None) p
         (session_new (rt_contract root) scope) w = (Panic, w')"
proof -
  let ?rq = "rooted_request root p policy follow_final op None"
  let ?session = "session_new (rt_contract root) scope"
  obtain names where "components p = map Normal names"
    using assms(2) by (rule relative_path_names)
  then have normal: "has_only_normal_components p"
    by (simp add: has_only_normal_components_def list_all_iff)
  have "p \<noteq> []" "rooted_path p op = Ok p"
    using assms(2) by (auto simp: relative_path_new_def rooted_path_def map_err_def)
  then have entry: "resolve_rooted_path_allow_root_with_scope_and_deadline root p policy follow_final op scope None w =
      (case try_resolve_without_symlinks ?rq p ?session w of
         (Ok (Some q), w') \<Rightarrow> (Ok q, w')
       | (Ok None, w') \<Rightarrow> resolve_without_budget ?rq p ?session w'
       | (Err e, w') \<Rightarrow> (Err e, w')
       | (Panic, w') \<Rightarrow> (Panic, w'))"
    using normal assms(4)
    by (simp add: resolve_rooted_path_allow_root_with_scope_and_deadline_def Let_def deadline_of_def
        check_resolution_deadline_def seq_def bind_def answer_def ret_def split: prod.split result.split option.split)
  obtain r w' where tried: "try_resolve_without_symlinks ?rq p ?session w = (r, w')" by force
  have "w' = w \<and>
    (case r of
       Ok None \<Rightarrow> True
     | Ok (Some q) \<Rightarrow> \<exists>q'. resolve_without_budget ?rq p ?session w = (Ok q', w) \<and> components q = components q'
     | Err e \<Rightarrow> resolve_without_budget ?rq p ?session w = (Err e, w)
     | Panic \<Rightarrow> resolve_without_budget ?rq p ?session w = (Panic, w))"
    using static_root.fast_transparent [OF assms(1) _ _ _ _ assms(2,3) tried] assms(4) by simp
  then show ?thesis
    using entry tried by (auto split: result.splits option.splits prod.splits)
qed

theorem rooted_fast_path_transparent_witness:
  "\<exists>q. resolve_without_budget
     (rooted_request (tree_root sample_contract sample_tree) [108, 47, 98] FollowWithinScope True OpMetadata None)
     [108, 47, 98] (session_new sample_contract Descendant) () = (Ok q, ()) \<and> components q = components [97, 47, 98]"
proof -
  have contract: "rt_contract (tree_root sample_contract sample_tree) = sample_contract"
    by (simp add: tree_root_def)
  have path: "relative_path_new [108, 47, 98] = Ok [108, 47, 98]" "\<not> has_trailing_separator [108, 47, 98]"
    by (simp_all add: session_defs components_def body_components_def redundant_def as_component_def)
  show ?thesis
    using rooted_fast_path_transparent [OF tree.static_root_axioms path, where policy = FollowWithinScope and
        contract1 = sample_contract and t1 = sample_tree and follow_final = True and op = OpMetadata and
        scope = Descendant and w = "()"] contract
    by (simp add: sample_follow) metis
qed

text \<open>
  C31: rejecting links makes resolution lexical. Where the policy rejects links, a successful resolution
  gives exactly the names that the spelling of the path gives: parts in order, dots dropped, each parent
  removing the part before it. No answer of the namespace can lead elsewhere.
\<close>

theorem rooted_reject_lexical:
  assumes "resolve_rooted_path_allow_root_with_scope_and_deadline root p SymlinkReject follow_final op scope deadline w =
    (Ok q, w')"
  shows "components q = map Normal (lexical_names p)"
proof -
  let ?rq = "rooted_request root p SymlinkReject follow_final op deadline"
  let ?session = "session_new (rt_contract root) scope"
  have lexical: "components q = map Normal (lexical_names p)" if "resolve_without_budget ?rq p ?session w1 = (Ok q, w')" for w1
    using resolve_without_budget_lexical [OF that] by (simp add: session_new_def)
  consider (root) "p = []" "q = []" | (fast) "rooted_path p op = Ok p" "q = p"
    | (slow) w1 where "resolve_without_budget ?rq p ?session w1 = (Ok q, w')"
    using assms rooted_path_Ok [of p op] outcomeD(1) [OF try_resolve_outcome [of p p ?rq ?session]]
    by (fastforce simp: resolve_rooted_path_allow_root_with_scope_and_deadline_def Let_def seq_def bind_def answer_def
        ret_def fail_def split: prod.splits result.splits option.splits if_splits)
  then show ?thesis
  proof cases
    case root
    then show ?thesis
      by (simp add: lexical_names_def path_parts_def components_def body_components_def redundant_def)
  next
    case fast
    then have "relative_path_new p = Ok p"
      using rooted_path_Ok by blast
    moreover from this obtain names where "components p = map Normal names" "list_all proper_name names"
      by (rule relative_path_names)
    ultimately show ?thesis
      using lexical_relative fast(2) by blast
  next
    case slow
    then show ?thesis
      by (rule lexical)
  qed
qed

theorem rooted_reject_lexical_witness:
  "lexical_names [97, 47, 46, 46, 47, 97, 47, 98] = [[97], [98]] \<and>
   components [97, 47, 98] = map Normal (lexical_names [97, 47, 46, 46, 47, 97, 47, 98])"
proof -
  have "resolve_rooted_path_allow_root_with_scope_and_deadline (tree_root contract_unrestricted sample_tree)
      [97, 47, 46, 46, 47, 97, 47, 98] SymlinkReject True OpMetadata Descendant None () = (Ok [97, 47, 98], ())"
    by (simp add: resolver_defs fast_defs session_defs monad_defs tree_root_def contract_unrestricted_def
        resolution_limits_new_def sample_tree_def tree_look_def tree_descend_def tree_read_link_def checked_add_def
        usize_max_def components_def body_components_def redundant_def as_component_def is_absolute_def path_join_def Let_def)
  from rooted_reject_lexical [OF this] show ?thesis
    by (simp add: lexical_names_def path_parts_def)
qed

text \<open>
  C32: the resolver is the worklist machine. Every successful resolution is a run of the machine from the
  steps of the path to the empty worklist; at its end every link that was expanded is closed again, no
  more links were followed than the limit allows, and the result is spelled by the names the machine
  resolved. The loop always returns, and panics only if a call of the root does.
\<close>

theorem rooted_resolver_refines_machine:
  assumes "rs_hops session = 0" and "steps_from_path rq p OriginInput session = Ok steps"
  shows "case resolve_loop rq (resolve_start steps budget session w) of
      (Ok q, s') \<Rightarrow>
        (advance rq session)\<^sup>*\<^sup>* (steps, [], [], 0) ([], rv_resolved s', [], rs_hops (rv_session s')) \<and>
        q = join_slash (rv_resolved s') \<and> rv_active s' = [] \<and>
        (\<forall>lim. rl_symlink_hops (rc_limits (rs_contract session)) = Some lim \<longrightarrow> rs_hops (rv_session s') \<le> lim)
    | (Err _, _) \<Rightarrow> True
    | (Panic, _) \<Rightarrow> \<not> returning (rq_root rq)"
proof -
  obtain r s' where run: "resolve_loop rq (resolve_start steps budget session w) = (r, s')" by force
  show ?thesis
    using resolve_loop_start [OF assms(1) steps_from_path_proper [OF assms(2)], of rq budget w] run
    by (cases r) (auto simp: resolution_safe_def hops_within_def)
qed

theorem rooted_resolver_refines_machine_witness:
  "case resolve_loop (rooted_request (tree_root sample_contract sample_tree) [108] FollowWithinScope True OpMetadata None)
      (resolve_start [StepNormal [108] OriginInput] None (session_new sample_contract Descendant) ()) of
     (Ok q, s') \<Rightarrow> q = [97] \<and> rv_active s' = [] \<and> rs_hops (rv_session s') \<le> 1
   | (Err _, _) \<Rightarrow> False
   | (Panic, _) \<Rightarrow> False"
proof -
  let ?rq = "rooted_request (tree_root sample_contract sample_tree) [108] FollowWithinScope True OpMetadata None"
  let ?session = "session_new sample_contract Descendant"
  have steps: "steps_from_path ?rq [108] OriginInput ?session = Ok [StepNormal [108] OriginInput]"
    by (simp add: steps_from_path_def session_defs tree_root_def sample_contract_def checked_add_def usize_max_def
        rooted_request_def is_absolute_def)
  obtain s' where run: "resolve_loop ?rq (resolve_start [StepNormal [108] OriginInput] None ?session ()) = (Ok [97], s')"
    by (simp add: resolver_defs fast_defs session_defs monad_defs tree_root_def sample_contract_def sample_tree_def
        tree_look_def tree_descend_def tree_read_link_def checked_add_def usize_max_def components_def body_components_def
        redundant_def as_component_def is_absolute_def path_join_def Let_def)
  show ?thesis
    using rooted_resolver_refines_machine [OF _ steps, of None "()"] run
    by (simp add: session_new_def) (simp add: sample_contract_def)
qed

end
