(* ===== verification/Path_Binding.thy ===== *)
theory Path_Binding
  imports Rooted_Correct Path_Codec
begin

text \<open>
  Binding of operation paths to a namespace (\<^verbatim>\<open>src/path/local_path_resolver.rs\<close> and
  \<^verbatim>\<open>local_namespace_path.rs\<close>) and the conversion between native paths and canonical components
  (\<^verbatim>\<open>src/path/local_paths.rs\<close>), on Unix, where paths have no native prefix. A host operand keeps its
  spelling; a rooted operand is normalized lexically against the current directory of the instance.
\<close>

datatype fs_scope = HostScope | RootedScope

section \<open>Binding\<close>

record namespace_path =
  np_namespace_absolute :: path
  np_authority_relative :: path
  np_directory_required :: bool

record path_resolver =
  pr_scope :: fs_scope
  pr_current_directory :: "path option"
  pr_current_components :: "byte list list"

definition invalid_path :: "path \<Rightarrow> string \<Rightarrow> file_error" where
  "invalid_path p reason = with_reason reason (with_path p (error_new KInvalidPath OpBindPath))"

definition reject_native_nul :: "path \<Rightarrow> (unit, file_error) result" where
  "reject_native_nul p =
     (if contains_nul p then Err (from_path_codec OpBindPath (Some p) NativeNul) else Ok ())"

definition has_trailing_separator_or_dot :: "path \<Rightarrow> bool" where
  "has_trailing_separator_or_dot p =
     (if p \<noteq> [] \<and> last p = 47 then True
      else (let final = last (split_slash p) in final = [46] \<or> final = [46, 46]))"

definition directory_required :: "path \<Rightarrow> bool" where
  "directory_required p = (p = [] \<or> has_trailing_separator_or_dot p)"

fun normal_names :: "component list \<Rightarrow> byte list list option" where
  "normal_names [] = Some []"
| "normal_names (RootDir # cs) = normal_names cs"
| "normal_names (Normal name # cs) = map_option (Cons name) (normal_names cs)"
| "normal_names (_ # cs) = None"

definition parse_current_directory :: "path \<Rightarrow> (byte list list, file_error) result" where
  "parse_current_directory cwd =
     (if \<not> is_absolute cwd then Err (invalid_path cwd ''filesystem current directory must be namespace-absolute'')
      else
        (case normal_names (components cwd) of
           Some names \<Rightarrow> Ok names
         | None \<Rightarrow> Err (invalid_path cwd ''filesystem current directory is not normalized'')))"

definition path_resolver_new :: "fs_scope \<Rightarrow> path \<Rightarrow> (path_resolver, file_error) result" where
  "path_resolver_new scope cwd =
     (case reject_native_nul cwd of
        Ok _ \<Rightarrow>
          (case parse_current_directory cwd of
             Ok names \<Rightarrow>
               Ok \<lparr>pr_scope = scope, pr_current_directory = Some cwd, pr_current_components = names\<rparr>
           | Err e \<Rightarrow> Err e
           | Panic \<Rightarrow> Panic)
      | Err e \<Rightarrow> Err e
      | Panic \<Rightarrow> Panic)"

definition absolute_host :: path_resolver where
  "absolute_host = \<lparr>pr_scope = HostScope, pr_current_directory = None, pr_current_components = []\<rparr>"

definition snapshot_error :: "path \<Rightarrow> file_error" where
  "snapshot_error p =
     with_reason ''a relative Host path requires a process current directory snapshot''
       (with_path p (error_new KInvalidState OpBindPath))"

definition bind_host_operand :: "path \<Rightarrow> path option \<Rightarrow> (path, file_error) result" where
  "bind_host_operand p pwd =
     (if is_absolute p then Ok p
      else
        (case pwd of
           None \<Rightarrow> Err (snapshot_error p)
         | Some pwd \<Rightarrow> Ok (if p = [] then pwd else pwd @ 47 # p)))"

text \<open>The loop over the components of a rooted operand; \<open>None\<close> is a parent above the root.\<close>

fun apply_components :: "byte list list \<Rightarrow> component list \<Rightarrow> byte list list option" where
  "apply_components names [] = Some names"
| "apply_components names (ParentDir # cs) = (if names = [] then None else apply_components (butlast names) cs)"
| "apply_components names (Normal name # cs) = apply_components (names @ [name]) cs"
| "apply_components names (_ # cs) = apply_components names cs"

definition namespace_absolute :: "byte list list \<Rightarrow> path" where
  "namespace_absolute names = fold (\<lambda>name p. path_join p name) names [47]"

definition resolve_path :: "path_resolver \<Rightarrow> path \<Rightarrow> (namespace_path, file_error) result" where
  "resolve_path r p =
     (case reject_native_nul p of
        Err e \<Rightarrow> Err e
      | Panic \<Rightarrow> Panic
      | Ok _ \<Rightarrow>
          if pr_current_directory r = None \<and> \<not> is_absolute p then Err (snapshot_error p)
          else if pr_scope r = HostScope then
            (case bind_host_operand p (pr_current_directory r) of
               Ok bound \<Rightarrow>
                 Ok \<lparr>np_namespace_absolute = bound, np_authority_relative = bound,
                     np_directory_required = directory_required p\<rparr>
             | Err e \<Rightarrow> Err e
             | Panic \<Rightarrow> Panic)
          else
            (case apply_components (if is_absolute p then [] else pr_current_components r) (components p) of
               None \<Rightarrow> Err (invalid_path p ''path traversal escaped the filesystem namespace root'')
             | Some names \<Rightarrow>
                 Ok \<lparr>np_namespace_absolute = namespace_absolute names,
                     np_authority_relative = path_from_components names,
                     np_directory_required = directory_required p\<rparr>))"

section \<open>Canonical components\<close>

definition path_codec_error :: "codec_error \<Rightarrow> file_error" where
  "path_codec_error e = from_path_codec OpComposePath None e"

definition encode_native_component :: "byte list \<Rightarrow> (byte list, file_error) result" where
  "encode_native_component name = map_err path_codec_error (encode_component unix_encode_native_text name)"

definition decode_canonical_component :: "byte list \<Rightarrow> (byte list, file_error) result" where
  "decode_canonical_component t =
     map_err path_codec_error (decode_component unix_encode_native_text unix_decode_canonical_text t)"

definition invalid_path_error :: file_error where
  "invalid_path_error = error_new KInvalidPath OpComposePath"

definition is_normal_native_component :: "byte list \<Rightarrow> bool" where
  "is_normal_native_component name =
     (47 \<notin> set name \<and> (case components name of Normal _ # _ \<Rightarrow> True | _ \<Rightarrow> False) \<and> length (components name) = 1)"

definition decode_normal_component :: "byte list \<Rightarrow> (byte list, file_error) result" where
  "decode_normal_component t =
     (case decode_canonical_component t of
        Ok native \<Rightarrow> if is_normal_native_component native then Ok native else Err invalid_path_error
      | Err e \<Rightarrow> Err e
      | Panic \<Rightarrow> Panic)"

text \<open>Both scopes build the path from the root, pushing one decoded component after the other.\<close>

fun push_decoded :: "path \<Rightarrow> byte list list \<Rightarrow> (path, file_error) result" where
  "push_decoded p [] = Ok p"
| "push_decoded p (t # ts) =
     (case decode_normal_component t of
        Ok name \<Rightarrow> push_decoded (path_join p name) ts
      | Err e \<Rightarrow> Err e
      | Panic \<Rightarrow> Panic)"

definition from_canonical_components :: "fs_scope \<Rightarrow> byte list list \<Rightarrow> (path, file_error) result" where
  "from_canonical_components scope ts = (case scope of HostScope \<Rightarrow> push_decoded [47] ts | RootedScope \<Rightarrow> push_decoded [47] ts)"

definition has_raw_dot_component :: "path \<Rightarrow> bool" where
  "has_raw_dot_component p = list_ex (\<lambda>part. part = [46] \<or> part = [46, 46]) (split_slash p)"

definition has_disallowed_component :: "path \<Rightarrow> bool" where
  "has_disallowed_component p =
     (list_ex (\<lambda>c. c = CurDir \<or> c = ParentDir) (components p) \<or> has_raw_dot_component p)"

fun encode_names :: "component list \<Rightarrow> (byte list list, file_error) result" where
  "encode_names [] = Ok []"
| "encode_names (Normal name # cs) =
     (case encode_native_component name of
        Ok t \<Rightarrow> (case encode_names cs of Ok ts \<Rightarrow> Ok (t # ts) | Err e \<Rightarrow> Err e | Panic \<Rightarrow> Panic)
      | Err e \<Rightarrow> Err e
      | Panic \<Rightarrow> Panic)"
| "encode_names (_ # cs) = Err invalid_path_error"

definition encode_absolute :: "path \<Rightarrow> (byte list list, file_error) result" where
  "encode_absolute p =
     (if \<not> is_absolute p \<or> has_disallowed_component p then Err invalid_path_error
      else
        (case components p of
           RootDir # cs \<Rightarrow> encode_names cs
         | _ \<Rightarrow> Err invalid_path_error))"

text \<open>
  The host conversion ends with a debug assertion that the components decode to the same path, where
  paths are compared by their components.
\<close>

definition to_canonical_components :: "fs_scope \<Rightarrow> path \<Rightarrow> (byte list list, file_error) result" where
  "to_canonical_components scope p =
     (case scope of
        RootedScope \<Rightarrow> encode_absolute p
      | HostScope \<Rightarrow>
          (case encode_absolute p of
             Ok ts \<Rightarrow>
               (case from_canonical_components HostScope ts of
                  Ok q \<Rightarrow> if components q = components p then Ok ts else Panic
                | _ \<Rightarrow> Panic)
           | r \<Rightarrow> r))"

section \<open>Names and absolute paths\<close>

definition native_name :: "byte list \<Rightarrow> bool" where
  "native_name name \<longleftrightarrow> proper_name name \<and> 0 \<notin> set name"

lemma join_slash_bytes: "part \<in> set parts \<Longrightarrow> set part \<subseteq> set (join_slash parts)"
  by (induction parts rule: join_slash.induct) auto

lemma split_slash_bytes: "part \<in> set (split_slash p) \<Longrightarrow> set part \<subseteq> set p"
  using join_slash_bytes [of part "split_slash p"] by (simp add: join_split_slash)

lemma body_components_proper: "list_all proper_name names \<Longrightarrow> body_components names = map Normal names"
  by (induction names) (auto simp: body_components_def redundant_def as_component_def proper_name_def)

lemma components_bytes:
  assumes "Normal name \<in> set (components p)"
  shows "set name \<subseteq> set p"
proof -
  obtain c cs where p: "split_slash p = c # cs"
    by (cases "split_slash p") simp_all
  have "Normal name \<in> set (body_components (split_slash p))"
    using assms by (auto simp: components_def p body_components_def redundant_def split: if_splits)
  then show ?thesis
    by (auto simp: body_components_def as_component_def split: if_splits dest: split_slash_bytes)
qed

lemma component_native: "Normal name \<in> set (components p) \<Longrightarrow> \<not> contains_nul p \<Longrightarrow> native_name name"
  using components_normal_proper components_bytes by (fastforce simp: native_name_def contains_nul_def)

lemma namespace_absolute_join: "list_all proper_name names \<Longrightarrow> namespace_absolute names = 47 # join_slash names"
proof (induction names rule: rev_induct)
  case (snoc name names)
  then have "\<not> is_absolute name"
    by (cases name) (auto simp: is_absolute_def proper_name_def)
  then show ?case
    using snoc join_slash_last [of names]
    by (auto simp: namespace_absolute_def path_join_def join_slash_snoc)
qed (simp add: namespace_absolute_def)

lemma components_absolute:
  assumes "list_all proper_name names"
  shows "components (47 # join_slash names) = RootDir # map Normal names"
proof -
  have "body_components (split_slash (join_slash names)) = map Normal names"
  proof (cases "names = []")
    case False
    then have "split_slash (join_slash names) = names"
      using assms by (intro split_join_slash) (auto simp: list_all_iff proper_name_def)
    then show ?thesis
      using assms by (simp add: body_components_proper)
  qed (simp add: body_components_def redundant_def)
  then show ?thesis
    by (simp add: components_def)
qed

lemma apply_components_native:
  assumes "apply_components names cs = Some names'" and "list_all native_name names"
    and "\<And>name. Normal name \<in> set cs \<Longrightarrow> native_name name"
  shows "list_all native_name names'"
  using assms
proof (induction names cs rule: apply_components.induct)
  case (2 names cs)
  then show ?case
    by (auto split: if_splits simp: list_all_iff dest: in_set_butlastD)
qed auto

lemma apply_components_normal: "apply_components names (map Normal names') = Some (names @ names')"
  by (induction names' arbitrary: names) simp_all

lemma last_split_slash: "last (split_slash p) = [] \<longleftrightarrow> p = [] \<or> last p = 47"
proof (induction p)
  case (Cons b bs)
  have "split_slash bs = [[]] \<Longrightarrow> bs = []"
    using join_split_slash [of bs] by simp
  with Cons show ?case
    by (cases "split_slash bs") (auto split: list.splits)
qed simp

lemma normal_names_native:
  assumes "normal_names cs = Some names" and "\<And>name. Normal name \<in> set cs \<Longrightarrow> native_name name"
  shows "list_all native_name names"
  using assms by (induction cs arbitrary: names rule: normal_names.induct) auto

lemma resolver_components_native:
  assumes "path_resolver_new scope cwd = Ok r"
  shows "list_all native_name (pr_current_components r) \<and> pr_scope r = scope \<and> pr_current_directory r = Some cwd"
  using assms normal_names_native [of "components cwd"] component_native [of _ cwd]
  by (auto simp: path_resolver_new_def parse_current_directory_def reject_native_nul_def
      split: if_splits option.splits result.splits)

lemma native_relative_path:
  assumes "list_all native_name names" and "names \<noteq> []"
  shows "relative_path_new (join_slash names) = Ok (join_slash names)"
proof -
  have proper: "list_all proper_name names"
    using assms(1) by (auto simp: list_all_iff native_name_def)
  have "split_slash (join_slash names) = names"
    using assms(2) proper by (intro split_join_slash) (auto simp: list_all_iff proper_name_def)
  moreover have "0 \<notin> set (join_slash names)"
    using assms(1) by (induction names rule: join_slash.induct) (auto simp: native_name_def)
  ultimately show ?thesis
    using join_slash_last [OF assms(2) proper] components_join_all [OF proper] proper
    by (auto simp: relative_path_new_def contains_nul_def contains_explicit_dot_component_def list_ex_iff list_all_iff
        proper_name_def)
qed

section \<open>Canonical components and names\<close>

lemma is_normal_native_component_eq: "is_normal_native_component name \<longleftrightarrow> proper_name name"
proof
  assume normal: "is_normal_native_component name"
  then have "name \<noteq> []" "name \<noteq> [46]" "name \<noteq> [46, 46]"
    by (auto simp: is_normal_native_component_def components_def body_components_def redundant_def as_component_def)
  with normal show "proper_name name"
    by (simp add: is_normal_native_component_def proper_name_def)
next
  assume "proper_name name"
  then show "is_normal_native_component name"
    by (auto simp: is_normal_native_component_def proper_name_def components_single)
qed

lemma decode_canonical_iff: "decode_canonical_component t = Ok name \<longleftrightarrow> encode_native_component name = Ok t"
  by (simp add: decode_canonical_component_def encode_native_component_def map_err_eq_Ok unix_codec.decode_component_iff)

lemma decode_normal_component_eq:
  "decode_normal_component t = Ok name \<longleftrightarrow> encode_native_component name = Ok t \<and> proper_name name"
  unfolding decode_canonical_iff [symmetric]
  by (cases "decode_canonical_component t") (auto simp: decode_normal_component_def is_normal_native_component_eq)

lemma push_decoded_eq:
  "push_decoded p ts = Ok q \<longleftrightarrow>
   (\<exists>names. list_all2 (\<lambda>t name. encode_native_component name = Ok t \<and> proper_name name) ts names \<and>
      q = fold (\<lambda>name p. path_join p name) names p)"
proof (induction ts arbitrary: p)
  case (Cons t ts)
  have head: "encode_native_component name = Ok t \<and> proper_name name \<longleftrightarrow> decode_normal_component t = Ok name" for name
    by (simp add: decode_normal_component_eq)
  show ?case
    unfolding list_all2_Cons1 head by (cases "decode_normal_component t") (auto simp: Cons.IH)
qed auto

lemma encode_names_eq:
  "encode_names cs = Ok ts \<longleftrightarrow>
   (\<exists>names. cs = map Normal names \<and> list_all2 (\<lambda>t name. encode_native_component name = Ok t) ts names)"
proof (induction cs arbitrary: ts)
  case (Cons c cs)
  show ?case
  proof (cases c)
    case (Normal name)
    have "encode_names (c # cs) = Ok ts \<longleftrightarrow>
        (\<exists>t us. ts = t # us \<and> encode_native_component name = Ok t \<and> encode_names cs = Ok us)"
      unfolding Normal by (cases "encode_native_component name"; cases "encode_names cs") auto
    also have "\<dots> \<longleftrightarrow> (\<exists>t us names. ts = t # us \<and> encode_native_component name = Ok t \<and> cs = map Normal names \<and>
        list_all2 (\<lambda>t name. encode_native_component name = Ok t) us names)"
      by (simp add: Cons.IH)
    finally show ?thesis
      unfolding Normal by (auto simp: Cons_eq_map_conv list_all2_Cons2)
  qed auto
qed auto

lemma from_canonical_eq:
  "from_canonical_components scope ts = Ok q \<longleftrightarrow>
   (\<exists>names. list_all2 (\<lambda>t name. encode_native_component name = Ok t \<and> proper_name name) ts names \<and>
      q = namespace_absolute names)"
  by (cases scope) (simp_all add: from_canonical_components_def push_decoded_eq namespace_absolute_def)

lemma encode_absolute_eq:
  "encode_absolute p = Ok ts \<longleftrightarrow>
   \<not> has_raw_dot_component p \<and>
   (\<exists>names. components p = RootDir # map Normal names \<and>
      list_all2 (\<lambda>t name. encode_native_component name = Ok t) ts names)"
proof -
  have "body_components parts \<noteq> RootDir # cs" for parts cs
    by (auto simp: body_components_def as_component_def map_eq_Cons_conv split: if_splits)
  then have "is_absolute p" if "components p = RootDir # cs" for cs
    using that by (cases p) (auto simp: components_def is_absolute_def split: if_splits list.splits)
  moreover have "\<not> list_ex (\<lambda>c. c = CurDir \<or> c = ParentDir) (RootDir # map Normal names)" for names
    by (simp add: list_ex_iff)
  ultimately show ?thesis
    unfolding encode_absolute_def has_disallowed_component_def
    by (cases "components p"; cases "hd (components p)") (auto simp: encode_names_eq)
qed

lemma encode_absolute_rebuilt:
  assumes "encode_absolute p = Ok ts"
  shows "\<exists>q. from_canonical_components scope ts = Ok q \<and> components q = components p"
proof -
  obtain names where names: "components p = RootDir # map Normal names"
    "list_all2 (\<lambda>t name. encode_native_component name = Ok t) ts names"
    using assms by (auto simp: encode_absolute_eq)
  have proper: "list_all proper_name names"
    using components_normal_proper [of _ p] names(1) by (auto simp: list_all_iff)
  then have "list_all2 (\<lambda>t name. encode_native_component name = Ok t \<and> proper_name name) ts names"
    using names(2) by (auto simp: list_all2_conv_all_nth list_all_length)
  then show ?thesis
    using names(1) proper
    by (intro exI [of _ "namespace_absolute names"])
      (auto simp: from_canonical_eq namespace_absolute_join components_absolute)
qed

lemma to_canonical_eq: "to_canonical_components scope p = encode_absolute p"
proof (cases scope)
  case HostScope
  show ?thesis
    unfolding HostScope to_canonical_components_def
    by (cases "encode_absolute p") (use encode_absolute_rebuilt [of p _ HostScope] in fastforce)+
qed (simp add: to_canonical_components_def)

lemma encode_native_component_returns [simp]: "encode_native_component name \<noteq> Panic"
proof (cases "0 \<in> set name")
  case True
  then show ?thesis
    by (simp add: encode_native_component_def encode_component_def unix_encode_native_text_def)
next
  case False
  then show ?thesis
    using unix_codec.component_roundtrip [of name] by (auto simp: encode_native_component_def)
qed

lemma encode_absolute_returns: "encode_absolute p \<noteq> Panic"
proof -
  have "encode_names cs \<noteq> Panic" for cs
    by (induction cs rule: encode_names.induct) (auto split: result.splits)
  then show ?thesis
    by (simp add: encode_absolute_def split: list.split component.split)
qed

lemma from_canonical_encodes:
  assumes "from_canonical_components scope ts = Ok p"
  shows "encode_absolute p = Ok ts"
proof -
  obtain names where names: "list_all2 (\<lambda>t name. encode_native_component name = Ok t \<and> proper_name name) ts names"
    "p = namespace_absolute names"
    using assms by (auto simp: from_canonical_eq)
  have proper: "list_all proper_name names"
    using names(1) by (auto simp: list_all2_conv_all_nth list_all_length)
  have p: "p = 47 # join_slash names"
    using names(2) namespace_absolute_join [OF proper] by simp
  have "\<not> has_raw_dot_component p"
  proof (cases "names = []")
    case False
    then have "split_slash (join_slash names) = names"
      using proper by (intro split_join_slash) (auto simp: list_all_iff proper_name_def)
    then show ?thesis
      using proper by (auto simp: has_raw_dot_component_def p list_ex_iff list_all_iff proper_name_def)
  qed (simp add: has_raw_dot_component_def p)
  moreover have "list_all2 (\<lambda>t name. encode_native_component name = Ok t) ts names"
    using names(1) by (auto elim: list_all2_mono)
  ultimately show ?thesis
    using components_absolute [OF proper] by (auto simp: encode_absolute_eq p)
qed

section \<open>Properties\<close>

text \<open>
  C33: a rooted operand is bound inside its namespace, and binding is stable. Against a valid current
  directory a bound operand is a list of ordinary names without NUL: its authority path is those names
  joined, empty or a valid relative path, and its absolute path is the same names below the root. Binding
  the absolute path again gives the same binding. The binding demands a directory exactly when the operand
  ends in nothing, a dot or two dots.
\<close>

theorem rooted_binding_stable:
  assumes "path_resolver_new RootedScope cwd = Ok r" and "resolve_path r p = Ok ns"
  shows "\<exists>names. components (np_authority_relative ns) = map Normal names \<and>
    np_authority_relative ns = join_slash names \<and> np_namespace_absolute ns = 47 # join_slash names \<and>
    (names \<noteq> [] \<longrightarrow> relative_path_new (np_authority_relative ns) = Ok (np_authority_relative ns)) \<and>
    resolve_path r (np_namespace_absolute ns) = Ok (ns\<lparr>np_directory_required := (names = [])\<rparr>) \<and>
    (np_directory_required ns \<longleftrightarrow> last (split_slash p) \<in> {[], [46], [46, 46]})"
proof -
  note resolver = resolver_components_native [OF assms(1)]
  obtain names where names: "apply_components (if is_absolute p then [] else pr_current_components r) (components p) = Some names"
    and ns: "ns = \<lparr>np_namespace_absolute = namespace_absolute names, np_authority_relative = path_from_components names,
      np_directory_required = directory_required p\<rparr>" and nul: "\<not> contains_nul p"
    using assms(2) resolver
    by (auto simp: resolve_path_def reject_native_nul_def split: if_splits option.splits result.splits)
  have native: "list_all native_name names"
    by (rule apply_components_native [OF names]) (use resolver component_native nul in auto)
  then have proper: "list_all proper_name names"
    by (auto simp: list_all_iff native_name_def)
  have absolute: "namespace_absolute names = 47 # join_slash names"
    using proper by (rule namespace_absolute_join)
  have "0 \<notin> set (join_slash names)"
    using native by (induction names rule: join_slash.induct) (auto simp: native_name_def)
  then have nul': "\<not> contains_nul (47 # join_slash names)"
    by (simp add: contains_nul_def)
  have "last (split_slash (47 # join_slash names)) = last (split_slash (join_slash names))"
    by simp
  moreover have "split_slash (join_slash names) = names" if "names \<noteq> []"
    using that proper by (intro split_join_slash) (auto simp: list_all_iff proper_name_def)
  moreover have "proper_name (last names)" if "names \<noteq> []"
    using that proper by (simp add: list_all_iff)
  ultimately have required: "directory_required (47 # join_slash names) \<longleftrightarrow> names = []"
    using join_slash_last [OF _ proper]
    by (cases "names = []") (auto simp: directory_required_def has_trailing_separator_or_dot_def proper_name_def)
  have again: "resolve_path r (47 # join_slash names) = Ok (ns\<lparr>np_directory_required := (names = [])\<rparr>)"
    using resolver nul' required proper
    by (simp add: resolve_path_def reject_native_nul_def is_absolute_def components_absolute
        apply_components_normal [of "[]"] ns)
  have "directory_required p \<longleftrightarrow> last (split_slash p) \<in> {[], [46], [46, 46]}"
    using last_split_slash [of p]
    by (auto simp: directory_required_def has_trailing_separator_or_dot_def Let_def)
  then show ?thesis
    using again absolute proper native_relative_path [OF native]
    by (intro exI [of _ names]) (simp add: ns path_from_components_join components_join_all)
qed

theorem rooted_binding_stable_witness:
  "\<exists>r ns. path_resolver_new RootedScope [47, 97] = Ok r \<and> resolve_path r [46, 46, 47, 98, 47] = Ok ns \<and>
     np_authority_relative ns = [98] \<and> np_directory_required ns \<and>
     resolve_path r (np_namespace_absolute ns) = Ok (ns\<lparr>np_directory_required := False\<rparr>)"
proof -
  let ?r = "\<lparr>pr_scope = RootedScope, pr_current_directory = Some [47, 97], pr_current_components = [[97]]\<rparr>"
  let ?ns = "\<lparr>np_namespace_absolute = [47, 98], np_authority_relative = [98], np_directory_required = True\<rparr>"
  have r: "path_resolver_new RootedScope [47, 97] = Ok ?r"
    by (simp add: path_resolver_new_def reject_native_nul_def contains_nul_def parse_current_directory_def is_absolute_def
        components_def body_components_def redundant_def as_component_def)
  have ns: "resolve_path ?r [46, 46, 47, 98, 47] = Ok ?ns"
    by (simp add: resolve_path_def reject_native_nul_def contains_nul_def is_absolute_def components_def
        body_components_def redundant_def as_component_def namespace_absolute_def path_from_components_def path_join_def
        directory_required_def has_trailing_separator_or_dot_def)
  obtain names where "join_slash names = [98]" "resolve_path ?r [47, 98] = Ok (?ns\<lparr>np_directory_required := (names = [])\<rparr>)"
    using rooted_binding_stable [OF r ns] by auto
  then show ?thesis
    using r ns by (cases names) auto
qed

text \<open>
  C34: canonical components and native paths correspond one to one. A path built from canonical components
  is taken apart into the same components; a path that has canonical components is rebuilt from them up to
  redundant separators; both scopes agree; and no conversion panics, so the debug assertion of the host
  conversion never fails.
\<close>

theorem canonical_components_roundtrip:
  "(from_canonical_components scope ts = Ok p \<longrightarrow> to_canonical_components scope p = Ok ts) \<and>
   (to_canonical_components scope p = Ok ts \<longrightarrow>
      (\<exists>q. from_canonical_components scope ts = Ok q \<and> components q = components p)) \<and>
   to_canonical_components HostScope p = to_canonical_components RootedScope p \<and>
   to_canonical_components scope p \<noteq> Panic"
  using from_canonical_encodes encode_absolute_rebuilt encode_absolute_returns by (auto simp: to_canonical_eq)

theorem canonical_components_roundtrip_witness:
  "\<exists>q. from_canonical_components HostScope [[97], [98, 99]] = Ok q \<and>
     to_canonical_components HostScope q = Ok [[97], [98, 99]]"
proof -
  have "encode_native_component [97] = Ok [97]" "encode_native_component [98, 99] = Ok [98, 99]"
    unfolding encode_native_component_def encode_component_def by code_simp+
  then have "from_canonical_components HostScope [[97], [98, 99]] = Ok [47, 97, 47, 98, 99]"
    by (auto simp: from_canonical_eq namespace_absolute_def path_join_def is_absolute_def proper_name_def
        intro!: exI [of _ "[[97], [98, 99]]"])
  then show ?thesis
    using canonical_components_roundtrip [of HostScope "[[97], [98, 99]]" "[47, 97, 47, 98, 99]"] by auto
qed

end
