(* ===== verification/File_Metadata.thy ===== *)
theory File_Metadata
  imports Rooted_Paths
begin

text \<open>
  Metadata observations on Unix: the host view of \<^verbatim>\<open>src/local_file_metadata.rs\<close> with its kinds and
  permissions, and the descriptor-relative view of \<^verbatim>\<open>src/rooted/metadata.rs\<close>, which is built from a
  \<open>stat\<close> structure and converted by \<open>rooted_metadata\<close> of
  \<^verbatim>\<open>src/rooted_local_file_system/path_support.rs\<close>. A mode is a 32-bit word, seconds and sizes are
  signed 64-bit values, and a \<open>SystemTime\<close> is its distance from the epoch in nanoseconds, with the range
  of a \<open>timespec\<close>.
\<close>

type_synonym u32 = "32 word"
type_synonym system_time = int

section \<open>The native structure and the accessors of the standard library\<close>

record native_stat =
  ns_mode :: u32
  ns_size :: int
  ns_atime :: int
  ns_atime_nsec :: int
  ns_mtime :: int
  ns_mtime_nsec :: int
  ns_btime :: "(int \<times> int) option"
  ns_dev :: u64
  ns_ino :: u64

definition nanos_per_second :: int where
  "nanos_per_second = 1000000000"

definition i64_value :: "int \<Rightarrow> bool" where
  "i64_value n = (- (2 ^ 63) \<le> n \<and> n < 2 ^ 63)"

definition i128_value :: "int \<Rightarrow> bool" where
  "i128_value n = (- (2 ^ 127) \<le> n \<and> n < 2 ^ 127)"

definition s_ifmt :: u32 where "s_ifmt = 0xF000"
definition s_ifsock :: u32 where "s_ifsock = 0xC000"
definition s_iflnk :: u32 where "s_iflnk = 0xA000"
definition s_ifreg :: u32 where "s_ifreg = 0x8000"
definition s_ifblk :: u32 where "s_ifblk = 0x6000"
definition s_ifdir :: u32 where "s_ifdir = 0x4000"
definition s_ifchr :: u32 where "s_ifchr = 0x2000"
definition s_ififo :: u32 where "s_ififo = 0x1000"

text \<open>\<open>FileType::is_file\<close> and its siblings compare the type bits of the mode.\<close>

definition is_type :: "u32 \<Rightarrow> native_stat \<Rightarrow> bool" where
  "is_type t st = (ns_mode st AND s_ifmt = t)"

definition std_len :: "native_stat \<Rightarrow> u64" where
  "std_len st = nat (ns_size st)"

definition timespec_new :: "int \<Rightarrow> int \<Rightarrow> system_time option" where
  "timespec_new sec nsec =
     (if 0 \<le> nsec \<and> nsec < nanos_per_second then Some (sec * nanos_per_second + nsec) else None)"

definition std_created :: "native_stat \<Rightarrow> system_time option" where
  "std_created st = (case ns_btime st of Some (sec, nsec) \<Rightarrow> timespec_new sec nsec | None \<Rightarrow> None)"

definition std_readonly :: "native_stat \<Rightarrow> bool" where
  "std_readonly st = (ns_mode st AND 0x92 = 0)"

text \<open>\<open>UNIX_EPOCH.checked_add\<close> and \<open>checked_sub\<close>: the seconds of the result are an \<open>i64\<close>.\<close>

definition epoch_plus :: "int \<Rightarrow> system_time option" where
  "epoch_plus n = (if i64_value (n div nanos_per_second) then Some n else None)"

section \<open>The host view\<close>

datatype local_file_kind =
    LkFile | LkDirectory | LkSymlink | LkFifo | LkSocket | LkBlockDevice | LkCharDevice | LkOther

record file_permissions =
  fp_read_only :: bool
  fp_unix_mode :: "u32 option"

record file_metadata =
  lm_kind :: local_file_kind
  lm_len :: u64
  lm_accessed_at :: "system_time option"
  lm_modified_at :: "system_time option"
  lm_created_at :: "system_time option"
  lm_permissions :: file_permissions

definition local_file_permissions :: "native_stat \<Rightarrow> file_permissions" where
  "local_file_permissions st =
     \<lparr>fp_read_only = std_readonly st, fp_unix_mode = Some (ns_mode st AND 0xFFF)\<rparr>"

definition local_file_kind_of :: "native_stat \<Rightarrow> local_file_kind" where
  "local_file_kind_of st =
     (if is_type s_ifreg st then LkFile
      else if is_type s_ifdir st then LkDirectory
      else if is_type s_iflnk st then LkSymlink
      else if is_type s_ififo st then LkFifo
      else if is_type s_ifsock st then LkSocket
      else if is_type s_ifblk st then LkBlockDevice
      else if is_type s_ifchr st then LkCharDevice
      else LkOther)"

definition file_metadata_from_native :: "native_stat \<Rightarrow> file_metadata" where
  "file_metadata_from_native st =
     \<lparr>lm_kind = local_file_kind_of st, lm_len = std_len st,
      lm_accessed_at = timespec_new (ns_atime st) (ns_atime_nsec st),
      lm_modified_at = timespec_new (ns_mtime st) (ns_mtime_nsec st),
      lm_created_at = std_created st, lm_permissions = local_file_permissions st\<rparr>"

section \<open>The descriptor-relative view\<close>

record permissions =
  pm_read_only :: bool
  pm_unix_mode :: "u32 option"

definition permissions_from_unix_mode :: "u32 \<Rightarrow> permissions" where
  "permissions_from_unix_mode m =
     (let mode = m AND 0xFFF in \<lparr>pm_read_only = (mode AND 0x92 = 0), pm_unix_mode = Some mode\<rparr>)"

definition permissions_from_read_only :: "bool \<Rightarrow> permissions" where
  "permissions_from_read_only r = \<lparr>pm_read_only = r, pm_unix_mode = None\<rparr>"

definition resolve_unix_mode :: "permissions \<Rightarrow> u32 \<Rightarrow> u32" where
  "resolve_unix_mode p current =
     (case pm_unix_mode p of
        Some mode \<Rightarrow> mode
      | None \<Rightarrow> if pm_read_only p then current AND NOT 0x92 else current OR 0x80)"

record full_metadata = entry_metadata +
  fm_len :: u64
  fm_accessed_at :: "system_time option"
  fm_modified_at :: "system_time option"
  fm_created_at :: "system_time option"
  fm_permissions :: permissions

definition entry_kind_from_mode :: "u32 \<Rightarrow> entry_kind" where
  "entry_kind_from_mode mode =
     (let file_type = mode AND s_ifmt
      in if file_type = s_ifreg then EntFile
         else if file_type = s_ifdir then EntDirectory
         else if file_type = s_iflnk then EntSymlink
         else if file_type = s_ififo then EntFifo
         else if file_type = s_ifsock then EntSocket
         else if file_type = s_ifblk then EntBlockDevice
         else if file_type = s_ifchr then EntCharDevice
         else EntOther)"

definition system_time :: "int \<Rightarrow> int \<Rightarrow> system_time option" where
  "system_time seconds nanoseconds =
     (if \<not> (0 \<le> nanoseconds \<and> nanoseconds < nanos_per_second) then None
      else if \<not> i128_value (seconds * nanos_per_second) then None
      else if \<not> i128_value (seconds * nanos_per_second + nanoseconds) then None
      else
        (let whole = seconds * nanos_per_second + nanoseconds; magnitude = \<bar>whole\<bar>
         in if \<not> i128_value magnitude then None
            else if 2 ^ 64 \<le> magnitude div nanos_per_second then None
            else if whole < 0 then epoch_plus (- magnitude) else epoch_plus magnitude))"

definition stat_times :: "native_stat \<Rightarrow> system_time option \<times> system_time option \<times> system_time option" where
  "stat_times st =
     (system_time (ns_atime st) (ns_atime_nsec st), system_time (ns_mtime st) (ns_mtime_nsec st), None)"

definition permission_mode :: "u32 \<Rightarrow> u32" where
  "permission_mode mode = mode AND 0xFFF"

definition metadata_from_stat :: "native_stat \<Rightarrow> full_metadata" where
  "metadata_from_stat st =
     (case stat_times st of
        (accessed, modified, created) \<Rightarrow>
          \<lparr>em_kind = entry_kind_from_mode (ns_mode st), em_identity = Some (ns_dev st, ns_ino st),
           fm_len = (if 0 \<le> ns_size st then nat (ns_size st) else 0),
           fm_accessed_at = accessed, fm_modified_at = modified, fm_created_at = created,
           fm_permissions = permissions_from_unix_mode (permission_mode (ns_mode st))\<rparr>)"

definition metadata_from_native :: "native_stat \<Rightarrow> full_metadata" where
  "metadata_from_native st =
     \<lparr>em_kind = entry_kind_from_mode (ns_mode st), em_identity = Some (ns_dev st, ns_ino st),
      fm_len = std_len st, fm_accessed_at = timespec_new (ns_atime st) (ns_atime_nsec st),
      fm_modified_at = timespec_new (ns_mtime st) (ns_mtime_nsec st), fm_created_at = std_created st,
      fm_permissions = permissions_from_unix_mode (ns_mode st)\<rparr>"

definition is_same_file :: "'a entry_metadata_scheme \<Rightarrow> 'b entry_metadata_scheme \<Rightarrow> bool" where
  "is_same_file a b =
     (case (em_identity a, em_identity b) of
        (Some (d, i), Some (d', i')) \<Rightarrow> d = d' \<and> i = i'
      | _ \<Rightarrow> False)"

definition kind_of_entry :: "entry_kind \<Rightarrow> local_file_kind" where
  "kind_of_entry k =
     (case k of
        EntFile \<Rightarrow> LkFile
      | EntDirectory \<Rightarrow> LkDirectory
      | EntSymlink \<Rightarrow> LkSymlink
      | EntFifo \<Rightarrow> LkFifo
      | EntSocket \<Rightarrow> LkSocket
      | EntBlockDevice \<Rightarrow> LkBlockDevice
      | EntCharDevice \<Rightarrow> LkCharDevice
      | EntOther \<Rightarrow> LkOther)"

definition rooted_metadata :: "full_metadata \<Rightarrow> file_metadata" where
  "rooted_metadata m =
     \<lparr>lm_kind = kind_of_entry (em_kind m), lm_len = fm_len m, lm_accessed_at = fm_accessed_at m,
      lm_modified_at = fm_modified_at m, lm_created_at = fm_created_at m,
      lm_permissions =
        \<lparr>fp_read_only = pm_read_only (fm_permissions m), fp_unix_mode = pm_unix_mode (fm_permissions m)\<rparr>\<rparr>"

section \<open>The two views agree\<close>

lemma kind_views_agree: "kind_of_entry (entry_kind_from_mode (ns_mode st)) = local_file_kind_of st"
  by (simp add: entry_kind_from_mode_def local_file_kind_of_def is_type_def kind_of_entry_def Let_def)

lemma read_only_mask: "((m :: u32) AND 0xFFF) AND 0x92 = m AND 0x92"
  by (simp add: and.assoc)

lemma permission_views_agree:
  "\<lparr>fp_read_only = pm_read_only (permissions_from_unix_mode (ns_mode st)),
    fp_unix_mode = pm_unix_mode (permissions_from_unix_mode (ns_mode st))\<rparr> = local_file_permissions st"
  by (simp add: permissions_from_unix_mode_def local_file_permissions_def std_readonly_def Let_def
      read_only_mask)

lemma permission_mode_idem: "permissions_from_unix_mode (permission_mode m) = permissions_from_unix_mode m"
  by (simp add: permissions_from_unix_mode_def permission_mode_def Let_def and.assoc)

lemma system_time_is_timespec:
  assumes "i64_value s"
  shows "system_time s n = timespec_new s n"
proof (cases "0 \<le> n \<and> n < nanos_per_second")
  case False
  then show ?thesis by (auto simp: system_time_def timespec_new_def)
next
  case True
  define t where "t = s * nanos_per_second + n"
  have t: "t div nanos_per_second = s"
    using True by (simp add: t_def nanos_per_second_def)
  have range: "- (2 ^ 63) * nanos_per_second \<le> t" "t < 2 ^ 63 * nanos_per_second"
    using assms True by (auto simp: t_def i64_value_def nanos_per_second_def)
  then have "i128_value (s * nanos_per_second)" "i128_value t" "i128_value \<bar>t\<bar>"
    using assms by (auto simp: i64_value_def i128_value_def nanos_per_second_def)
  moreover have "\<bar>t\<bar> div nanos_per_second < 2 ^ 64"
    using range by (auto simp: nanos_per_second_def)
  ultimately show ?thesis
    using True assms t
    by (simp add: system_time_def timespec_new_def epoch_plus_def Let_def flip: t_def)
qed

text \<open>What a \<open>stat\<close> structure of the platform satisfies: its seconds are signed 64-bit values.\<close>

definition stat_times_native :: "native_stat \<Rightarrow> bool" where
  "stat_times_native st = (i64_value (ns_atime st) \<and> i64_value (ns_mtime st))"

lemma rooted_view_from_stat:
  assumes "stat_times_native st"
  shows "rooted_metadata (metadata_from_stat st) = (file_metadata_from_native st)\<lparr>lm_created_at := None\<rparr>"
  using assms
  by (simp add: rooted_metadata_def metadata_from_stat_def file_metadata_from_native_def stat_times_def
      stat_times_native_def system_time_is_timespec kind_views_agree permission_mode_idem
      permission_views_agree std_len_def)

lemma rooted_view_from_native: "rooted_metadata (metadata_from_native st) = file_metadata_from_native st"
  by (simp add: rooted_metadata_def metadata_from_native_def file_metadata_from_native_def
      kind_views_agree permission_views_agree)

lemma is_same_file_from_stat:
  "is_same_file (metadata_from_stat st) (metadata_from_native st') \<longleftrightarrow>
     (ns_dev st, ns_ino st) = (ns_dev st', ns_ino st')"
  by (simp add: is_same_file_def metadata_from_stat_def metadata_from_native_def split: prod.split)

end
