(* ===== verification/Directory_Walk.thy ===== *)
theory Directory_Walk
  imports File_Metadata Copy_Budget Unix_Calls
begin

text \<open>
  The lazy directory walker of the Host, \<^verbatim>\<open>src/walk/local_directory_walker.rs\<close> with its support code and
  its options \<^verbatim>\<open>src/options/local_list_options.rs\<close>. A walker keeps one frame per directory on the active
  path; the stack keeps the end of the Rust vector first. The calls on the file system are a record of
  operations over a world \<open>'w\<close> with directory streams \<open>'r\<close>, and the pool of open directories belongs to
  the budget crate: permits \<open>'t\<close> are released when their owner is dropped. Each of the two loops of
  \<open>next_entry\<close> has fuel, and \<open>Unfinished\<close> is the value of a call that has not returned with it. The depth
  of a frame is its position in the stack, so adding one never leaves \<open>usize\<close>.
\<close>

section \<open>Options\<close>

datatype reopen_policy = ReopenFail | Reopen

datatype walk_error_policy = FailFast | ContinueWalk

record list_options =
  lo_max_open_directories :: "usize option"
  lo_reopen_policy :: reopen_policy
  lo_recursive :: bool
  lo_symlink_policy :: "symlink_policy option"
  lo_max_depth :: "usize option"
  lo_max_entries :: "usize option"
  lo_max_seen_name_bytes :: "usize option"
  lo_deadline :: "duration option"
  lo_error_policy :: walk_error_policy

definition list_options_new :: list_options where
  "list_options_new =
     \<lparr>lo_max_open_directories = None, lo_reopen_policy = Reopen, lo_recursive = False,
      lo_symlink_policy = None, lo_max_depth = None, lo_max_entries = None, lo_max_seen_name_bytes = None,
      lo_deadline = None, lo_error_policy = FailFast\<rparr>"

definition list_tighten_resource_limits :: "list_options \<Rightarrow> list_options \<Rightarrow> list_options" where
  "list_tighten_resource_limits opts ceilings =
     opts\<lparr>lo_max_depth := tighter (lo_max_depth opts) (lo_max_depth ceilings),
          lo_max_entries := tighter (lo_max_entries opts) (lo_max_entries ceilings),
          lo_max_open_directories :=
            tighter (lo_max_open_directories opts) (lo_max_open_directories ceilings),
          lo_max_seen_name_bytes :=
            tighter (lo_max_seen_name_bytes opts) (lo_max_seen_name_bytes ceilings),
          lo_deadline := tighter (lo_deadline opts) (lo_deadline ceilings)\<rparr>"

section \<open>Identities, entries and frames\<close>

datatype directory_identity = NativeDirectory u64 u64 | CanonicalDirectory path

definition identity_from_metadata :: "native_stat \<Rightarrow> path \<Rightarrow> directory_identity" where
  "identity_from_metadata metadata canonical_path = NativeDirectory (ns_dev metadata) (ns_ino metadata)"

definition identity_from_rooted_metadata :: "'m entry_metadata_scheme \<Rightarrow> path \<Rightarrow> directory_identity" where
  "identity_from_rooted_metadata metadata fallback =
     (case em_identity metadata of
        Some (fs, file) \<Rightarrow> NativeDirectory fs file
      | None \<Rightarrow> CanonicalDirectory fallback)"

record directory_entry =
  de_path :: path
  de_diagnostic_path :: "path option"
  de_relative_path :: path
  de_metadata :: file_metadata

definition directory_entry_new :: "path \<Rightarrow> path \<Rightarrow> path option \<Rightarrow> file_metadata \<Rightarrow> directory_entry" where
  "directory_entry_new p relative diagnostic metadata =
     \<lparr>de_path = p, de_diagnostic_path = diagnostic, de_relative_path = relative, de_metadata = metadata\<rparr>"

text \<open>An open \<open>ReadDir\<close> keeps the path it was opened with, which \<open>DirEntry::path\<close> joins with the name.\<close>

record ('r, 't) walk_frame =
  wf_entries :: "(path \<times> 'r) option"
  wf_permit :: "'t option"
  wf_seen :: "byte list list option"
  wf_relative :: path
  wf_identity :: "directory_identity option"
  wf_entry_depth :: usize

record ('r, 't, 'b, 'q) walker =
  wk_root :: path
  wk_backend_root :: path
  wk_current_directory :: "path option"
  wk_options :: list_options
  wk_stack :: "('r, 't) walk_frame list"
  wk_pool :: "'q option"
  wk_followed :: "directory_identity list"
  wk_terminated :: bool
  wk_symlink_policy :: symlink_policy
  wk_entry_budget :: "'b option"
  wk_seen_name_budget :: "'b option"
  wk_deadline :: "instant option"

text \<open>The walker together with the world that its calls act on.\<close>

record ('r, 't, 'b, 'q, 'w) walk_state = "('r, 't, 'b, 'q) walker" +
  ws_world :: 'w

section \<open>What the walker calls\<close>

text \<open>
  \<open>ManagedResourcePool\<close> hands out permits; dropping a permit returns its amount to the pool.
\<close>

record ('q, 't) permit_pool = "('q, 't) managed_pool" +
  mp_release :: "'t \<Rightarrow> 'q \<Rightarrow> 'q"
  mp_available :: "'q \<Rightarrow> nat"
  mp_amount :: "'t \<Rightarrow> nat"

text \<open>The clock has the last instant \<open>wc_latest\<close>; \<open>Instant::checked_add\<close> fails beyond it.\<close>

record ('w, 'r) walk_calls =
  wc_symlink_metadata :: "path \<Rightarrow> ('w, native_stat) native"
  wc_metadata :: "path \<Rightarrow> ('w, native_stat) native"
  wc_read_dir :: "path \<Rightarrow> ('w, 'r) native"
  wc_next :: "'r \<Rightarrow> 'w \<Rightarrow> (byte list option, io_error) result \<times> 'r \<times> 'w"
  wc_now :: "'w \<Rightarrow> instant \<times> 'w"
  wc_latest :: instant

record ('r, 't, 'b, 'q, 'w) walk_env =
  we_calls :: "('w, 'r) walk_calls"
  we_budget :: "'b resource_budget"
  we_pool :: "('q, 't) permit_pool"

type_synonym ('r, 't, 'b, 'q, 'w, 'x) walk_m =
  "(('r, 't, 'b, 'q, 'w) walk_state, file_error, 'x) prog"

definition on_files :: "('w, 'e, 'x) prog \<Rightarrow> (('r, 't, 'b, 'q, 'w) walk_state, 'e, 'x) prog" where
  "on_files m s = (case m (ws_world s) of (r, w) \<Rightarrow> (r, s\<lparr>ws_world := w\<rparr>))"

section \<open>Support\<close>

definition walk_io_error :: "path \<Rightarrow> io_error \<Rightarrow> file_error" where
  "walk_io_error p e = from_io OpList (Some p) None e"

definition directory_limit_error :: "path \<Rightarrow> insufficient_budget \<Rightarrow> file_error" where
  "directory_limit_error p e =
     from_resource_limit OpList (Some p)
       (limit_error_new (ib_resource e) (ib_limit e) (ib_remaining e) (ib_requested e))"

definition validate_options :: "path \<Rightarrow> list_options \<Rightarrow> (unit, file_error) result" where
  "validate_options root opts =
     (if lo_max_open_directories opts = Some 0 then
        Err (with_reason ''maximum open directory count must be greater than zero''
               (with_path root (error_new KInvalidOptions OpList)))
      else Ok ())"

definition walker_deadline ::
  "instant \<Rightarrow> path \<Rightarrow> list_options \<Rightarrow> instant \<Rightarrow> (instant option, file_error) result" where
  "walker_deadline latest root opts started =
     (case lo_deadline opts of
        None \<Rightarrow> Ok None
      | Some d \<Rightarrow>
          if started + d \<le> latest then Ok (Some (started + d))
          else Err (with_reason ''listing deadline exceeds the monotonic clock range''
                      (with_path root (error_new KInvalidOptions OpList))))"

definition directory_pool :: "('q, 't) permit_pool \<Rightarrow> list_options \<Rightarrow> 'q option" where
  "directory_pool mp opts = map_option (mp_new mp OpenDirectory) (lo_max_open_directories opts)"

definition name_bytes :: "byte list \<Rightarrow> usize" where
  "name_bytes name = length name"

fun error_io :: "file_error \<Rightarrow> io_error option" where
  "error_io (FileError k op cwd p t r d s eff c rec) =
     (case s of
        Some (IoSource source) \<Rightarrow> Some source
      | Some (RecoverySource error) \<Rightarrow> error_io error
      | _ \<Rightarrow> None)"

definition is_terminal_walk_error :: "file_error \<Rightarrow> walk_error_policy \<Rightarrow> bool" where
  "is_terminal_walk_error e policy =
     (if policy = FailFast then True
      else
        (case resource_limit_error e of
           Some l \<Rightarrow> le_resource l \<noteq> OpenDirectory
         | None \<Rightarrow> False) \<or>
        (case error_io e of Some source \<Rightarrow> ioe_kind source = IoTimedOut | None \<Rightarrow> False))"

definition needs_seen_names :: "list_options \<Rightarrow> bool" where
  "needs_seen_names opts =
     (let explicit_name_budget = lo_max_seen_name_bytes opts \<noteq> None;
          can_descend = lo_recursive opts \<and>
            (case lo_max_depth opts of None \<Rightarrow> True | Some max_depth \<Rightarrow> 1 < max_depth);
          can_reopen = can_descend \<and> lo_max_open_directories opts \<noteq> None \<and>
            lo_reopen_policy opts = Reopen
      in explicit_name_budget \<or> can_reopen)"

section \<open>Frames and their permits\<close>

text \<open>Dropping an optional permit.\<close>

definition drop_permit :: "('q, 't) permit_pool \<Rightarrow> 't option \<Rightarrow> 'q option \<Rightarrow> 'q option" where
  "drop_permit mp permit pool =
     (case permit of None \<Rightarrow> pool | Some t \<Rightarrow> map_option (mp_release mp t) pool)"

definition close_host_frame ::
  "('q, 't) permit_pool \<Rightarrow> ('r, 't) walk_frame \<Rightarrow> 'q option \<Rightarrow> ('r, 't) walk_frame \<times> 'q option" where
  "close_host_frame mp f pool =
     (f\<lparr>wf_entries := None, wf_permit := None\<rparr>, drop_permit mp (wf_permit f) pool)"

fun close_frames ::
  "('q, 't) permit_pool \<Rightarrow> ('r, 't) walk_frame list \<Rightarrow> 'q option \<Rightarrow> ('r, 't) walk_frame list \<times> 'q option" where
  "close_frames mp [] pool = ([], pool)"
| "close_frames mp (f # fs) pool =
     (case close_frames mp fs pool of
        (fs', pool') \<Rightarrow> (case close_host_frame mp f pool' of (f', pool'') \<Rightarrow> (f' # fs', pool'')))"

definition close_all_host_frames ::
  "('q, 't) permit_pool \<Rightarrow> ('r, 't, 'b, 'q, 'w) walk_state \<Rightarrow> ('r, 't, 'b, 'q, 'w) walk_state" where
  "close_all_host_frames mp s =
     (case close_frames mp (wk_stack s) (wk_pool s) of
        (fs, pool) \<Rightarrow> s\<lparr>wk_stack := fs, wk_pool := pool\<rparr>)"

text \<open>\<open>pop_host_frame\<close>, followed by the removal of the frame's identity from the active path.\<close>

definition pop_host_frame ::
  "('q, 't) permit_pool \<Rightarrow> ('r, 't, 'b, 'q, 'w) walk_state \<Rightarrow>
   ('r, 't) walk_frame option \<times> ('r, 't, 'b, 'q, 'w) walk_state" where
  "pop_host_frame mp s =
     (case wk_stack s of
        [] \<Rightarrow> (None, s)
      | f # fs \<Rightarrow>
          (case close_host_frame mp f (wk_pool s) of
             (f', pool) \<Rightarrow> (Some f', s\<lparr>wk_stack := fs, wk_pool := pool\<rparr>)))"

definition forget_identity ::
  "('r, 't) walk_frame option \<Rightarrow> ('r, 't, 'b, 'q, 'w) walk_state \<Rightarrow> ('r, 't, 'b, 'q, 'w) walk_state" where
  "forget_identity frame s =
     (case frame of
        Some f \<Rightarrow>
          (case wf_identity f of
             Some identity \<Rightarrow> s\<lparr>wk_followed := removeAll identity (wk_followed s)\<rparr>
           | None \<Rightarrow> s)
      | None \<Rightarrow> s)"

definition drop_held ::
  "('q, 't) permit_pool \<Rightarrow> 't option \<Rightarrow> ('r, 't, 'b, 'q, 'w) walk_state \<Rightarrow> ('r, 't, 'b, 'q, 'w) walk_state" where
  "drop_held mp permit s = s\<lparr>wk_pool := drop_permit mp permit (wk_pool s)\<rparr>"

text \<open>\<open>pool.try_acquire(1)\<close> on the configured pool.\<close>

definition try_acquire_slot ::
  "('q, 't) permit_pool \<Rightarrow> (('r, 't, 'b, 'q, 'w) walk_state, insufficient_budget, 't) prog" where
  "try_acquire_slot mp s =
     (case wk_pool s of
        None \<Rightarrow> (Panic, s)
      | Some pool \<Rightarrow> (case mp_try_acquire mp pool 1 of (r, pool') \<Rightarrow> (r, s\<lparr>wk_pool := Some pool'\<rparr>)))"

definition acquire_host_directory ::
  "('q, 't) permit_pool \<Rightarrow> path \<Rightarrow> ('r, 't, 'b, 'q, 'w, 't option) walk_m" where
  "acquire_host_directory mp p =
     bind (gets (\<lambda>s. (wk_pool s, wk_options s))) (\<lambda>(pool, opts).
       case pool of
         None \<Rightarrow> ret None
       | Some _ \<Rightarrow>
           bind (caught (try_acquire_slot mp)) (\<lambda>acquired.
             case acquired of
               Ok t \<Rightarrow> ret (Some t)
             | Panic \<Rightarrow> panic
             | Err e \<Rightarrow>
                 if lo_reopen_policy opts = Reopen then
                   seq (modify (close_all_host_frames mp))
                     (bind (or_fail (\<lambda>_. directory_limit_error p) id (try_acquire_slot mp)) (\<lambda>t. ret (Some t)))
                 else fail (directory_limit_error p e)))"

definition new_frame ::
  "list_options \<Rightarrow> path \<times> 'r \<Rightarrow> 't option \<Rightarrow> path \<Rightarrow> directory_identity \<Rightarrow> usize \<Rightarrow> ('r, 't) walk_frame" where
  "new_frame opts entries permit relative identity entry_depth =
     \<lparr>wf_entries = Some entries, wf_permit = permit,
      wf_seen = (if needs_seen_names opts then Some [] else None), wf_relative = relative,
      wf_identity = Some identity, wf_entry_depth = entry_depth\<rparr>"

section \<open>Opening a walker\<close>

definition native_directory_identity :: "native_stat \<Rightarrow> path \<Rightarrow> (directory_identity, file_error) result" where
  "native_directory_identity metadata p = Ok (identity_from_metadata metadata p)"

text \<open>The walker that \<open>open_with_diagnostic\<close> builds once the root is open.\<close>

definition opened_walker ::
  "('r, 't, 'b, 'q, 'w) walk_env \<Rightarrow> path \<Rightarrow> path \<Rightarrow> list_options \<Rightarrow> symlink_policy \<Rightarrow> instant option \<Rightarrow>
   'q option \<Rightarrow> 't option \<Rightarrow> 'r \<Rightarrow> directory_identity \<Rightarrow> 'w \<Rightarrow> ('r, 't, 'b, 'q, 'w) walk_state" where
  "opened_walker env backend_root diagnostic_root opts policy deadline pool permit entries identity w =
     (let zero_depth = lo_max_depth opts = Some 0
      in \<lparr>wk_root = diagnostic_root, wk_backend_root = backend_root, wk_current_directory = None,
          wk_options = opts,
          wk_stack = (if zero_depth then []
                      else [new_frame opts (backend_root, entries) permit [] identity 1]),
          wk_pool = (if zero_depth then drop_permit (we_pool env) permit pool else pool),
          wk_followed = (if zero_depth then [] else [identity]),
          wk_terminated = False, wk_symlink_policy = policy,
          wk_entry_budget = map_option (rb_new (we_budget env) Entry) (lo_max_entries opts),
          wk_seen_name_budget =
            map_option (rb_new (we_budget env) SeenNameBytes) (lo_max_seen_name_bytes opts),
          wk_deadline = deadline, ws_world = w\<rparr>)"

text \<open>\<open>open_directories.as_ref().map(|pool| pool.try_acquire(1).expect(..))\<close>.\<close>

definition acquire_root :: "('q, 't) permit_pool \<Rightarrow> 'q option \<Rightarrow> ('t option, file_error) result \<times> 'q option" where
  "acquire_root mp pool =
     (case pool of
        None \<Rightarrow> (Ok None, None)
      | Some q \<Rightarrow>
          (case mp_try_acquire mp q 1 of
             (Ok t, q') \<Rightarrow> (Ok (Some t), Some q')
           | (_, q') \<Rightarrow> (Panic, Some q')))"

definition open_with_diagnostic ::
  "('r, 't, 'b, 'q, 'w) walk_env \<Rightarrow> path \<Rightarrow> path \<Rightarrow> list_options \<Rightarrow> symlink_policy \<Rightarrow> instant \<Rightarrow>
   ('w, file_error, ('r, 't, 'b, 'q, 'w) walk_state) prog" where
  "open_with_diagnostic env backend_root diagnostic_root opts policy started =
     bind (answer (validate_options diagnostic_root opts)) (\<lambda>_.
     bind (answer (walker_deadline (wc_latest (we_calls env)) diagnostic_root opts started)) (\<lambda>deadline.
     bind (or_fail (\<lambda>_. walk_io_error diagnostic_root) id (wc_symlink_metadata (we_calls env) backend_root))
       (\<lambda>metadata.
        if \<not> is_type s_ifdir metadata then
          fail (with_path diagnostic_root (error_new KTypeConflict OpList))
        else
          (case acquire_root (we_pool env) (directory_pool (we_pool env) opts) of
             (permit, pool) \<Rightarrow>
               bind (answer permit) (\<lambda>directory_permit.
               bind (or_fail (\<lambda>_. walk_io_error diagnostic_root) id (wc_read_dir (we_calls env) backend_root))
                 (\<lambda>entries.
               bind (answer (native_directory_identity metadata backend_root)) (\<lambda>identity.
               \<lambda>w. (Ok (opened_walker env backend_root diagnostic_root opts policy deadline pool
                          directory_permit entries identity w), w))))))))"

definition bind_current_directory ::
  "path option \<Rightarrow> ('r, 't, 'b, 'q, 'w) walk_state \<Rightarrow> ('r, 't, 'b, 'q, 'w) walk_state" where
  "bind_current_directory cwd s = s\<lparr>wk_current_directory := cwd\<rparr>"

section \<open>Descending and reopening\<close>

definition may_descend :: "list_options \<Rightarrow> usize \<Rightarrow> bool" where
  "may_descend opts entry_depth =
     (lo_recursive opts \<and>
      (case lo_max_depth opts of None \<Rightarrow> True | Some max_depth \<Rightarrow> entry_depth < max_depth))"

definition cycle_error :: "path \<Rightarrow> file_error" where
  "cycle_error p =
     with_path p (with_reason ''directory identity cycle detected'' (error_new KInvalidPath OpList))"

definition push_frame ::
  "('r, 't) walk_frame \<Rightarrow> directory_identity \<Rightarrow> ('r, 't, 'b, 'q, 'w) walk_state \<Rightarrow>
   ('r, 't, 'b, 'q, 'w) walk_state" where
  "push_frame f identity s =
     s\<lparr>wk_followed := List.insert identity (wk_followed s), wk_stack := f # wk_stack s\<rparr>"

definition descend ::
  "('r, 't, 'b, 'q, 'w) walk_env \<Rightarrow> path \<Rightarrow> native_stat \<Rightarrow> path \<Rightarrow> usize \<Rightarrow> ('r, 't, 'b, 'q, 'w, unit) walk_m" where
  "descend env p metadata relative entry_depth =
     bind (answer (native_directory_identity metadata p)) (\<lambda>identity.
     bind (gets (\<lambda>s. (wk_followed s, wk_options s))) (\<lambda>(followed, opts).
       if identity \<in> set followed then fail (cycle_error p)
       else
         bind (acquire_host_directory (we_pool env) p) (\<lambda>permit.
         bind (or_fail (\<lambda>_. walk_io_error p) (drop_held (we_pool env) permit)
                 (on_files (wc_read_dir (we_calls env) p))) (\<lambda>entries.
           modify (push_frame (new_frame opts (p, entries) permit relative identity (entry_depth + 1))
                     identity)))))"

definition terminate :: "('r, 't, 'b, 'q, 'w) walk_state \<Rightarrow> ('r, 't, 'b, 'q, 'w) walk_state" where
  "terminate s = s\<lparr>wk_terminated := True\<rparr>"

definition handle_reopen_error ::
  "('q, 't) permit_pool \<Rightarrow> ('r, 't, 'b, 'q, 'w) walk_state \<Rightarrow> ('r, 't, 'b, 'q, 'w) walk_state" where
  "handle_reopen_error mp s =
     (if lo_error_policy (wk_options s) = FailFast then terminate s
      else (case pop_host_frame mp s of (removed, s') \<Rightarrow> forget_identity removed s'))"

definition reopen_error :: "string \<Rightarrow> path \<Rightarrow> file_error" where
  "reopen_error reason p = with_path p (with_reason reason (error_new KInvalidPath OpList))"

definition install_reader ::
  "path \<times> 'r \<Rightarrow> 't option \<Rightarrow> ('r, 't, 'b, 'q, 'w, unit) walk_m" where
  "install_reader entries permit s =
     (case wk_stack s of
        [] \<Rightarrow> (Panic, s)
      | f # fs \<Rightarrow> (Ok (), s\<lparr>wk_stack := f\<lparr>wf_entries := Some entries, wf_permit := permit\<rparr> # fs\<rparr>))"

definition top_identity :: "('r, 't, 'b, 'q, 'w) walk_state \<Rightarrow> directory_identity option" where
  "top_identity s = (case wk_stack s of [] \<Rightarrow> None | f # _ \<Rightarrow> wf_identity f)"

definition reopen_host_frame ::
  "('r, 't, 'b, 'q, 'w) walk_env \<Rightarrow> path \<Rightarrow> ('r, 't, 'b, 'q, 'w, unit) walk_m" where
  "reopen_host_frame env relative_parent =
     (let mp = we_pool env; calls = we_calls env; refuse = handle_reopen_error mp
      in bind (gets (\<lambda>s. (path_join (wk_backend_root s) relative_parent,
                          path_join (wk_root s) relative_parent, wk_symlink_policy s)))
           (\<lambda>(directory, diagnostic_directory, policy).
         bind (or_fail (\<lambda>_. walk_io_error diagnostic_directory) refuse
                 (on_files (if symlink_follows policy then wc_metadata calls directory
                            else wc_symlink_metadata calls directory))) (\<lambda>metadata.
         if \<not> is_type s_ifdir metadata then
           seq (modify refuse)
             (fail (reopen_error ''directory entry changed while reopening walker frame'' diagnostic_directory))
         else
           bind (or_fail (\<lambda>_ e. e) refuse (answer (native_directory_identity metadata directory))) (\<lambda>identity.
           bind (gets top_identity) (\<lambda>expected.
             if expected \<noteq> Some identity then
               seq (modify refuse)
                 (fail (reopen_error ''directory identity changed while reopening walker frame''
                          diagnostic_directory))
             else
               bind (or_fail (\<lambda>_ e. e) refuse (acquire_host_directory mp directory)) (\<lambda>permit.
               bind (or_fail (\<lambda>_. walk_io_error diagnostic_directory) (drop_held mp permit \<circ> refuse)
                       (on_files (wc_read_dir calls directory))) (\<lambda>entries.
                 install_reader (directory, entries) permit)))))))"

section \<open>The next entry\<close>

definition check_walk_deadline ::
  "('r, 't, 'b, 'q, 'w) walk_env \<Rightarrow> ('r, 't, 'b, 'q, 'w, unit) walk_m" where
  "check_walk_deadline env s =
     (case wk_deadline s of
        None \<Rightarrow> (Ok (), s)
      | Some deadline \<Rightarrow>
          (case wc_now (we_calls env) (ws_world s) of
             (t, w) \<Rightarrow>
               (if deadline \<le> t then
                  (Err (walk_io_error (wk_root s) (io_error_of IoTimedOut)), terminate (s\<lparr>ws_world := w\<rparr>))
                else (Ok (), s\<lparr>ws_world := w\<rparr>))))"

text \<open>\<open>if error_policy == FailFast { self.terminated = true }\<close> before an error is returned.\<close>

definition stop_on_error :: "('r, 't, 'b, 'q, 'w) walk_state \<Rightarrow> ('r, 't, 'b, 'q, 'w) walk_state" where
  "stop_on_error s = (if lo_error_policy (wk_options s) = FailFast then terminate s else s)"

datatype read_next = ReadEntry path "byte list" | ReadFailed io_error | ReadEnd | ReadUnfinished

text \<open>\<open>frame.entries.as_mut().expect(..).next()\<close> on the frame on top of the stack.\<close>

definition read_top ::
  "('r, 't, 'b, 'q, 'w) walk_env \<Rightarrow> ('r, 't, 'b, 'q, 'w, read_next) walk_m" where
  "read_top env s =
     (case wk_stack s of
        [] \<Rightarrow> (Panic, s)
      | f # fs \<Rightarrow>
          (case wf_entries f of
             None \<Rightarrow> (Panic, s)
           | Some (dir, reader) \<Rightarrow>
               (case wc_next (we_calls env) reader (ws_world s) of
                  (r, reader', w) \<Rightarrow>
                    (case r of
                       Ok (Some name) \<Rightarrow> Ok (ReadEntry dir name)
                     | Ok None \<Rightarrow> Ok ReadEnd
                     | Err e \<Rightarrow> Ok (ReadFailed e)
                     | Panic \<Rightarrow> Panic,
                     s\<lparr>wk_stack := f\<lparr>wf_entries := Some (dir, reader')\<rparr> # fs, ws_world := w\<rparr>))))"

text \<open>\<open>seen.insert(name)\<close> on the top frame: whether the name is new there.\<close>

definition insert_seen ::
  "byte list \<Rightarrow> ('r, 't, 'b, 'q, 'w) walk_state \<Rightarrow> bool \<times> ('r, 't, 'b, 'q, 'w) walk_state" where
  "insert_seen name s =
     (case wk_stack s of
        [] \<Rightarrow> (True, s)
      | f # fs \<Rightarrow>
          (case wf_seen f of
             None \<Rightarrow> (True, s)
           | Some seen \<Rightarrow>
               (name \<notin> set seen, s\<lparr>wk_stack := f\<lparr>wf_seen := Some (List.insert name seen)\<rparr> # fs\<rparr>)))"

fun read_unseen ::
  "('r, 't, 'b, 'q, 'w) walk_env \<Rightarrow> nat \<Rightarrow> ('r, 't, 'b, 'q, 'w, read_next) walk_m" where
  "read_unseen env 0 = ret ReadUnfinished"
| "read_unseen env (Suc fuel) =
     seq (check_walk_deadline env)
       (bind (read_top env) (\<lambda>next.
          case next of
            ReadEntry dir name \<Rightarrow>
              (\<lambda>s. case insert_seen name s of
                     (new, s') \<Rightarrow> if new then (Ok (ReadEntry dir name), s') else read_unseen env fuel s')
          | other \<Rightarrow> ret other))"

text \<open>\<open>budget.try_consume(n)\<close> on an optional budget of the walker; exhaustion ends the walk.\<close>

definition charge_entry ::
  "('r, 't, 'b, 'q, 'w) walk_env \<Rightarrow> path \<Rightarrow> ('r, 't, 'b, 'q, 'w, unit) walk_m" where
  "charge_entry env p s =
     (case wk_entry_budget s of
        None \<Rightarrow> (Ok (), s)
      | Some budget \<Rightarrow>
          (case rb_try_consume (we_budget env) budget 1 of
             (Ok _, budget') \<Rightarrow> (Ok (), s\<lparr>wk_entry_budget := Some budget'\<rparr>)
           | (Err e, budget') \<Rightarrow>
               (Err (directory_limit_error p e), terminate (s\<lparr>wk_entry_budget := Some budget'\<rparr>))
           | (Panic, budget') \<Rightarrow> (Panic, s\<lparr>wk_entry_budget := Some budget'\<rparr>)))"

definition charge_name ::
  "('r, 't, 'b, 'q, 'w) walk_env \<Rightarrow> path \<Rightarrow> byte list \<Rightarrow> ('r, 't, 'b, 'q, 'w, unit) walk_m" where
  "charge_name env p name s =
     (case wk_seen_name_budget s of
        None \<Rightarrow> (Ok (), s)
      | Some budget \<Rightarrow>
          (case rb_try_consume (we_budget env) budget (name_bytes name) of
             (Ok _, budget') \<Rightarrow> (Ok (), s\<lparr>wk_seen_name_budget := Some budget'\<rparr>)
           | (Err e, budget') \<Rightarrow>
               (Err (directory_limit_error p e), terminate (s\<lparr>wk_seen_name_budget := Some budget'\<rparr>))
           | (Panic, budget') \<Rightarrow> (Panic, s\<lparr>wk_seen_name_budget := Some budget'\<rparr>)))"

datatype walk_turn = Yields directory_entry | Finished | NextTurn | Unfinished

definition beyond_depth :: "list_options \<Rightarrow> usize \<Rightarrow> bool" where
  "beyond_depth opts entry_depth =
     (case lo_max_depth opts of Some max_depth \<Rightarrow> max_depth < entry_depth | None \<Rightarrow> False)"

text \<open>
  The part of the loop body that handles one admitted entry: its metadata, the descent and the value.
\<close>

definition observe_entry ::
  "('r, 't, 'b, 'q, 'w) walk_env \<Rightarrow> path \<Rightarrow> list_options \<Rightarrow> symlink_policy \<Rightarrow> path \<Rightarrow> usize \<Rightarrow> path \<Rightarrow>
   ('r, 't, 'b, 'q, 'w, walk_turn) walk_m" where
  "observe_entry env root opts policy relative entry_depth p =
     (let descends = may_descend opts entry_depth
      in bind (or_fail (\<lambda>_. walk_io_error p) stop_on_error
                 (on_files (wc_symlink_metadata (we_calls env) p))) (\<lambda>entry_metadata.
         bind (if is_type s_iflnk entry_metadata \<and> descends \<and> symlink_follows policy
               then or_fail (\<lambda>_. walk_io_error p) stop_on_error
                      (on_files (wc_metadata (we_calls env) p))
               else ret entry_metadata) (\<lambda>descent_metadata.
         let metadata = file_metadata_from_native entry_metadata
         in seq (whenever (is_type s_ifdir descent_metadata \<and> descends)
                   (or_fail (\<lambda>_ e. e) stop_on_error
                      (descend env p descent_metadata relative entry_depth)))
              (ret (Yields (directory_entry_new (path_join root relative) relative (Some p) metadata))))))"

text \<open>The part of the loop body that handles one entry read from the directory \<open>dir\<close>.\<close>

definition visit_entry ::
  "('r, 't, 'b, 'q, 'w) walk_env \<Rightarrow> path \<Rightarrow> usize \<Rightarrow> path \<Rightarrow> byte list \<Rightarrow>
   ('r, 't, 'b, 'q, 'w, walk_turn) walk_m" where
  "visit_entry env relative_parent entry_depth dir name =
     bind (gets (\<lambda>s. (wk_root s, wk_options s, wk_symlink_policy s))) (\<lambda>(root, opts, policy).
       if beyond_depth opts entry_depth then ret NextTurn
       else
         seq (charge_entry env (path_join root relative_parent))
         (seq (charge_name env (path_join root relative_parent) name)
           (observe_entry env root opts policy (path_join relative_parent name) entry_depth
              (path_join dir name))))"

definition complete_frame ::
  "('r, 't, 'b, 'q, 'w) walk_env \<Rightarrow> ('r, 't, 'b, 'q, 'w, walk_turn) walk_m" where
  "complete_frame env s =
     (case pop_host_frame (we_pool env) s of
        (None, s') \<Rightarrow> (Panic, s')
      | (Some f, s') \<Rightarrow> (Ok NextTurn, forget_identity (Some f) s'))"

text \<open>The match on what the inner loop has read.\<close>

definition handle_read ::
  "('r, 't, 'b, 'q, 'w) walk_env \<Rightarrow> path \<Rightarrow> usize \<Rightarrow> read_next \<Rightarrow> ('r, 't, 'b, 'q, 'w, walk_turn) walk_m" where
  "handle_read env relative_parent entry_depth next =
     (case next of
        ReadUnfinished \<Rightarrow> ret Unfinished
      | ReadFailed e \<Rightarrow>
          seq (modify stop_on_error)
            (bind (gets wk_root) (\<lambda>root. fail (walk_io_error (path_join root relative_parent) e)))
      | ReadEnd \<Rightarrow> complete_frame env
      | ReadEntry dir name \<Rightarrow> visit_entry env relative_parent entry_depth dir name)"

definition turn_frame ::
  "('r, 't, 'b, 'q, 'w) walk_env \<Rightarrow> nat \<Rightarrow> ('r, 't) walk_frame \<Rightarrow> ('r, 't, 'b, 'q, 'w, walk_turn) walk_m" where
  "turn_frame env fuel frame =
     seq (whenever (wf_entries frame = None) (reopen_host_frame env (wf_relative frame)))
       (bind (read_unseen env fuel) (handle_read env (wf_relative frame) (wf_entry_depth frame)))"

text \<open>One iteration of the outer loop of \<open>next_entry\<close>.\<close>

definition turn ::
  "('r, 't, 'b, 'q, 'w) walk_env \<Rightarrow> nat \<Rightarrow> ('r, 't, 'b, 'q, 'w, walk_turn) walk_m" where
  "turn env fuel =
     seq (check_walk_deadline env)
       (bind (gets wk_stack) (\<lambda>stack.
          case stack of
            [] \<Rightarrow> ret Finished
          | frame # _ \<Rightarrow> turn_frame env fuel frame))"

fun walk_loop ::
  "('r, 't, 'b, 'q, 'w) walk_env \<Rightarrow> nat \<Rightarrow> nat \<Rightarrow> ('r, 't, 'b, 'q, 'w, walk_turn) walk_m" where
  "walk_loop env read_fuel 0 = ret Unfinished"
| "walk_loop env read_fuel (Suc fuel) =
     bind (turn env read_fuel) (\<lambda>t. if t = NextTurn then walk_loop env read_fuel fuel else ret t)"

definition next_entry ::
  "('r, 't, 'b, 'q, 'w) walk_env \<Rightarrow> nat \<Rightarrow> nat \<Rightarrow> ('r, 't, 'b, 'q, 'w, walk_turn) walk_m" where
  "next_entry env read_fuel fuel =
     bind (gets wk_terminated) (\<lambda>terminated.
       if terminated then ret Finished
       else seq (check_walk_deadline env) (walk_loop env read_fuel fuel))"

text \<open>\<open>Iterator::next\<close>: the entry, the end or the error with the current directory of the walker.\<close>

definition walker_next ::
  "('r, 't, 'b, 'q, 'w) walk_env \<Rightarrow> nat \<Rightarrow> nat \<Rightarrow> ('r, 't, 'b, 'q, 'w, walk_turn) walk_m" where
  "walker_next env read_fuel fuel s =
     (case next_entry env read_fuel fuel s of
        (Err e, s') \<Rightarrow>
          (Err (case wk_current_directory s of Some cwd \<Rightarrow> with_current_directory cwd e | None \<Rightarrow> e), s')
      | other \<Rightarrow> other)"

end
