(* ===== verification/Walk_Invariant.thy ===== *)
theory Walk_Invariant
  imports Directory_Walk
begin

text \<open>
  The invariant of the Host walker and that every operation of \<open>Directory_Walk\<close> keeps it, whatever the
  calls of the file system answer. \<open>pool_laws\<close> and \<open>calls_return\<close> state what the walker relies on; the
  locale \<open>walk_host\<close> collects them with the laws of the budgets, and every lemma on the operations is proved
  in it once. \<open>walk_inv env opts x n b s\<close> says that the stack of \<open>s\<close> is a path of directories with
  different identities at increasing depths, that the readers hold the slots missing from the pool
  (\<open>x\<close> of them are in the hands of the current call), and that \<open>n\<close> entries with \<open>b\<close> bytes of names have been
  charged.
\<close>

section \<open>Relative paths\<close>

text \<open>The names a directory stream returns: not empty and without a separator.\<close>

definition entry_name_ok :: "byte list \<Rightarrow> bool" where
  "entry_name_ok x = (x \<noteq> [] \<and> 47 \<notin> set x)"

definition entry_name :: "directory_entry \<Rightarrow> byte list" where
  "entry_name e = last (split_slash (de_relative_path e))"

definition entry_level :: "directory_entry \<Rightarrow> nat" where
  "entry_level e = length (split_slash (de_relative_path e))"

lemma join_names_snoc: "ns \<noteq> [] \<Longrightarrow> join_slash (ns @ [x]) = join_slash ns @ 47 # x"
  by (induction ns rule: join_slash.induct) simp_all

lemma join_names_last:
  "ns \<noteq> [] \<Longrightarrow> list_all entry_name_ok ns \<Longrightarrow> join_slash ns \<noteq> [] \<and> last (join_slash ns) \<noteq> 47"
proof (induction ns rule: rev_induct)
  case (snoc x ns)
  then have x: "x \<noteq> []" "last x \<noteq> 47"
    by (auto simp: entry_name_ok_def dest: last_in_set)
  then show ?case by (cases "ns = []") (simp_all add: join_names_snoc)
qed simp

lemma path_join_name:
  assumes "list_all entry_name_ok ns" and "entry_name_ok x"
  shows "path_join (join_slash ns) x = join_slash (ns @ [x])"
proof -
  have "\<not> is_absolute x"
    using assms(2) by (cases x) (auto simp: entry_name_ok_def is_absolute_def)
  then show ?thesis
    using assms join_names_last [of ns] by (cases "ns = []") (auto simp: path_join_def join_names_snoc)
qed

lemma split_slash_append: "47 \<notin> set x \<Longrightarrow> split_slash (x @ 47 # p) = x # split_slash p"
  by (induction x) auto

lemma split_join_names: "ns \<noteq> [] \<Longrightarrow> list_all entry_name_ok ns \<Longrightarrow> split_slash (join_slash ns) = ns"
  by (induction ns rule: join_slash.induct)
    (auto simp: entry_name_ok_def split_slash_append split_slash_no_slash)

section \<open>What the walker relies on\<close>

definition pool_laws :: "('q, 't) permit_pool \<Rightarrow> bool" where
  "pool_laws mp \<longleftrightarrow>
     (\<forall>k n. mp_available mp (mp_new mp k n) = n) \<and>
     (\<forall>q n. n \<le> mp_available mp q \<longrightarrow>
        (\<exists>t q'. mp_try_acquire mp q n = (Ok t, q') \<and> mp_amount mp t = n \<and>
                mp_available mp q' = mp_available mp q - n)) \<and>
     (\<forall>q n. mp_available mp q < n \<longrightarrow> (\<exists>e. mp_try_acquire mp q n = (Err e, q))) \<and>
     (\<forall>t q. mp_available mp (mp_release mp t q) = mp_available mp q + mp_amount mp t)"

definition calls_return :: "('w, 'r) walk_calls \<Rightarrow> bool" where
  "calls_return calls \<longleftrightarrow>
     (\<forall>p w. fst (wc_symlink_metadata calls p w) \<noteq> Panic) \<and>
     (\<forall>p w. fst (wc_metadata calls p w) \<noteq> Panic) \<and>
     (\<forall>p w. fst (wc_read_dir calls p w) \<noteq> Panic) \<and>
     (\<forall>r w. fst (wc_next calls r w) \<noteq> Panic) \<and>
     (\<forall>r w x. fst (wc_next calls r w) = Ok (Some x) \<longrightarrow> entry_name_ok x)"

section \<open>The invariant\<close>

definition frame_at :: "list_options \<Rightarrow> usize \<Rightarrow> ('r, 't) walk_frame \<Rightarrow> bool" where
  "frame_at opts d f \<longleftrightarrow>
     wf_entry_depth f = d \<and> wf_identity f \<noteq> None \<and>
     (wf_entries f = None \<longrightarrow> wf_permit f = None \<and> wf_seen f \<noteq> None) \<and>
     (\<exists>names. wf_relative f = join_slash names \<and> list_all entry_name_ok names \<and> Suc (length names) = d) \<and>
     (if d = 1 then lo_max_depth opts \<noteq> Some 0 else may_descend opts (d - 1)) \<and>
     (wf_seen f \<noteq> None \<longleftrightarrow> needs_seen_names opts)"

fun frames_at :: "list_options \<Rightarrow> ('r, 't) walk_frame list \<Rightarrow> bool" where
  "frames_at opts [] = True"
| "frames_at opts (f # fs) = (frame_at opts (Suc (length fs)) f \<and> frames_at opts fs)"

text \<open>The slots a stack holds, and whether every reader of it has one.\<close>

definition held_slots :: "('q, 't) permit_pool \<Rightarrow> ('r, 't) walk_frame list \<Rightarrow> nat" where
  "held_slots mp fs = (\<Sum>f\<leftarrow>fs. case wf_permit f of Some t \<Rightarrow> mp_amount mp t | None \<Rightarrow> 0)"

definition paid :: "('q, 't) permit_pool \<Rightarrow> ('r, 't) walk_frame \<Rightarrow> bool" where
  "paid mp f \<longleftrightarrow> (wf_entries f \<noteq> None \<longrightarrow> (\<exists>t. wf_permit f = Some t \<and> mp_amount mp t = 1))"

definition pool_ok ::
  "('q, 't) permit_pool \<Rightarrow> usize option \<Rightarrow> ('r, 't) walk_frame list \<Rightarrow> 'q option \<Rightarrow> nat \<Rightarrow> bool" where
  "pool_ok mp max_open fs pool extra =
     (case max_open of
        None \<Rightarrow> pool = None \<and> extra = 0 \<and> list_all (\<lambda>f. wf_permit f = None) fs
      | Some lim \<Rightarrow>
          (\<exists>q. pool = Some q \<and> mp_available mp q + held_slots mp fs + extra = lim) \<and>
          list_all (paid mp) fs)"

definition budget_ok :: "'b resource_budget \<Rightarrow> usize option \<Rightarrow> 'b option \<Rightarrow> nat \<Rightarrow> bool" where
  "budget_ok rb lim b used =
     (case lim of
        None \<Rightarrow> b = None
      | Some m \<Rightarrow> (\<exists>x. b = Some x \<and> rb_remaining rb x + used \<le> m))"

definition identities :: "('r, 't) walk_frame list \<Rightarrow> directory_identity list" where
  "identities fs = List.map_filter wf_identity fs"

definition walk_inv ::
  "('r, 't, 'b, 'q, 'w) walk_env \<Rightarrow> list_options \<Rightarrow> nat \<Rightarrow> nat \<Rightarrow> nat \<Rightarrow> ('r, 't, 'b, 'q, 'w) walk_state \<Rightarrow> bool" where
  "walk_inv env opts extra entries bytes s \<longleftrightarrow>
     wk_options s = opts \<and>
     frames_at opts (wk_stack s) \<and>
     pool_ok (we_pool env) (lo_max_open_directories opts) (wk_stack s) (wk_pool s) extra \<and>
     distinct (identities (wk_stack s)) \<and> distinct (wk_followed s) \<and>
     set (wk_followed s) = set (identities (wk_stack s)) \<and>
     budget_ok (we_budget env) (lo_max_entries opts) (wk_entry_budget s) entries \<and>
     budget_ok (we_budget env) (lo_max_seen_name_bytes opts) (wk_seen_name_budget s) bytes"

lemma walk_inv_world [simp]: "walk_inv env opts x n b (s\<lparr>ws_world := w\<rparr>) = walk_inv env opts x n b s"
  by (simp add: walk_inv_def)

lemma walk_inv_terminated [simp]: "walk_inv env opts x n b (terminate s) = walk_inv env opts x n b s"
  by (simp add: walk_inv_def terminate_def)

locale walk_host =
  fixes env :: "('r, 't, 'b, 'q, 'w) walk_env"
  assumes budget: "budget_laws (we_budget env)"
    and pool: "pool_laws (we_pool env)"
    and returns: "calls_return (we_calls env)"
begin

lemma release_available:
  "mp_available (we_pool env) (mp_release (we_pool env) t q) = mp_available (we_pool env) q + mp_amount (we_pool env) t"
  using pool by (simp add: pool_laws_def)

lemma acquire_slot_cases:
  assumes "wk_pool s = Some q"
  obtains (granted) t q' where "try_acquire_slot (we_pool env) s = (Ok t, s\<lparr>wk_pool := Some q'\<rparr>)"
      "mp_amount (we_pool env) t = 1" "mp_available (we_pool env) q' + 1 = mp_available (we_pool env) q"
    | (refused) e where "try_acquire_slot (we_pool env) s = (Err e, s)" "mp_available (we_pool env) q = 0"
proof (cases "1 \<le> mp_available (we_pool env) q")
  case True
  then obtain t q' where "mp_try_acquire (we_pool env) q 1 = (Ok t, q')" "mp_amount (we_pool env) t = 1"
      "mp_available (we_pool env) q' = mp_available (we_pool env) q - 1"
    using pool by (metis pool_laws_def)
  then show thesis
    using True assms by (intro granted [of t q']) (simp_all add: try_acquire_slot_def)
next
  case False
  then obtain e where "mp_try_acquire (we_pool env) q 1 = (Err e, q)"
    using pool by (metis pool_laws_def not_le)
  then show thesis
    using False assms by (intro refused [of e]) (simp_all add: try_acquire_slot_def)
qed

lemma close_frames_stack:
  "fst (close_frames (we_pool env) fs pool) = map (\<lambda>f. f\<lparr>wf_entries := None, wf_permit := None\<rparr>) fs"
  by (induction fs) (auto simp: close_host_frame_def split: prod.split)

lemma close_frames_pool:
  "\<exists>q'. snd (close_frames (we_pool env) fs (Some q)) = Some q' \<and>
        mp_available (we_pool env) q' = mp_available (we_pool env) q + held_slots (we_pool env) fs"
proof (induction fs)
  case (Cons f fs)
  then obtain q' where "snd (close_frames (we_pool env) fs (Some q)) = Some q'"
      "mp_available (we_pool env) q' = mp_available (we_pool env) q + held_slots (we_pool env) fs"
    by blast
  then show ?case
    by (cases "close_frames (we_pool env) fs (Some q)"; cases "wf_permit f")
      (auto simp: close_host_frame_def drop_permit_def held_slots_def release_available)
qed (simp add: held_slots_def)

end

lemma identities_map [simp]:
  "(\<And>f. wf_identity (g f) = wf_identity f) \<Longrightarrow> identities (map g fs) = identities fs"
  by (induction fs) (simp_all add: identities_def map_filter_simps split: option.split)

lemma identities_Cons: "identities (f # fs) = (case wf_identity f of Some i \<Rightarrow> [i] | None \<Rightarrow> []) @ identities fs"
  by (simp add: identities_def map_filter_simps split: option.split)

lemma held_slots_closed [simp]:
  "held_slots mp (map (\<lambda>f. f\<lparr>wf_entries := None, wf_permit := None\<rparr>) fs) = 0"
  by (induction fs) (simp_all add: held_slots_def)

lemma terminate_terminated [simp]: "wk_terminated (terminate s)"
  by (simp add: terminate_def)

lemma frames_at_seen:
  "frames_at opts fs \<Longrightarrow> needs_seen_names opts \<Longrightarrow> f \<in> set fs \<Longrightarrow> wf_seen f \<noteq> None"
  by (induction fs) (auto simp: frame_at_def)

lemma frames_at_closed:
  "frames_at opts fs \<Longrightarrow> needs_seen_names opts \<Longrightarrow>
   frames_at opts (map (\<lambda>f. f\<lparr>wf_entries := None, wf_permit := None\<rparr>) fs)"
  by (induction fs) (auto simp: frame_at_def)

text \<open>What stays of a state while slots are acquired and readers closed.\<close>

definition closed_frame :: "('r, 't) walk_frame \<Rightarrow> ('r, 't) walk_frame" where
  "closed_frame f = f\<lparr>wf_entries := None, wf_permit := None\<rparr>"

definition same_shape :: "('r, 't, 'b, 'q, 'w) walk_state \<Rightarrow> ('r, 't, 'b, 'q, 'w) walk_state \<Rightarrow> bool" where
  "same_shape s s' \<longleftrightarrow>
     list_all2 (\<lambda>f f'. f' = f \<or> f' = closed_frame f) (wk_stack s) (wk_stack s') \<and>
     wk_root s' = wk_root s \<and> wk_backend_root s' = wk_backend_root s \<and>
     wk_current_directory s' = wk_current_directory s \<and> wk_options s' = wk_options s \<and>
     wk_followed s' = wk_followed s \<and> wk_terminated s' = wk_terminated s \<and>
     wk_symlink_policy s' = wk_symlink_policy s \<and> wk_entry_budget s' = wk_entry_budget s \<and>
     wk_seen_name_budget s' = wk_seen_name_budget s \<and> wk_deadline s' = wk_deadline s"

definition slot :: "('q, 't) permit_pool \<Rightarrow> 't option \<Rightarrow> nat" where
  "slot mp permit = (case permit of Some t \<Rightarrow> mp_amount mp t | None \<Rightarrow> 0)"

definition granted :: "('q, 't) permit_pool \<Rightarrow> list_options \<Rightarrow> 't option \<Rightarrow> bool" where
  "granted mp opts permit \<longleftrightarrow>
     (if lo_max_open_directories opts = None then permit = None
      else (\<exists>t. permit = Some t \<and> mp_amount mp t = 1))"

lemma same_shape_refl [simp]: "same_shape s s"
  by (simp add: same_shape_def list_all2_refl)

lemma same_shape_world [simp]: "same_shape (s\<lparr>ws_world := w\<rparr>) s' = same_shape s s'"
  by (simp add: same_shape_def)

lemma same_shape_length: "same_shape s s' \<Longrightarrow> length (wk_stack s') = length (wk_stack s)"
  by (auto simp: same_shape_def dest: list_all2_lengthD)

definition walk_kept :: "('r, 't, 'b, 'q, 'w) walk_state \<Rightarrow> ('r, 't, 'b, 'q, 'w) walk_state \<Rightarrow> bool" where
  "walk_kept s s' \<longleftrightarrow>
     wk_root s' = wk_root s \<and> wk_backend_root s' = wk_backend_root s \<and> wk_options s' = wk_options s \<and>
     wk_current_directory s' = wk_current_directory s \<and> wk_symlink_policy s' = wk_symlink_policy s \<and>
     wk_deadline s' = wk_deadline s"

lemma walk_kept_refl [simp]: "walk_kept s s"
  by (simp add: walk_kept_def)

lemma walk_kept_trans [trans]: "walk_kept s s' \<Longrightarrow> walk_kept s' s'' \<Longrightarrow> walk_kept s s''"
  by (simp add: walk_kept_def)

lemma same_shape_kept: "same_shape s s' \<Longrightarrow> walk_kept s s'"
  by (simp add: same_shape_def walk_kept_def)

lemma walk_kept_simps [simp]:
  "walk_kept s (s'\<lparr>ws_world := w\<rparr>) = walk_kept s s'" "walk_kept (s\<lparr>ws_world := w\<rparr>) s' = walk_kept s s'"
  "walk_kept s (terminate s') = walk_kept s s'"
  "walk_kept s (stop_on_error s') = walk_kept s s'" "walk_kept s (s'\<lparr>wk_stack := fs\<rparr>) = walk_kept s s'"
  "walk_kept s (s'\<lparr>wk_pool := q\<rparr>) = walk_kept s s'" "walk_kept s (s'\<lparr>wk_followed := ids\<rparr>) = walk_kept s s'"
  "walk_kept s (s'\<lparr>wk_entry_budget := eb\<rparr>) = walk_kept s s'" "walk_kept s (s'\<lparr>wk_seen_name_budget := eb\<rparr>) = walk_kept s s'"
  "walk_kept s (drop_held mp permit s') = walk_kept s s'" "walk_kept s (push_frame f i s') = walk_kept s s'"
  by (simp_all add: walk_kept_def terminate_def stop_on_error_def drop_held_def
      push_frame_def)

lemma drop_held_terminated [simp]: "wk_terminated (drop_held mp permit s) = wk_terminated s"
  by (simp add: drop_held_def)

lemma walk_inv_stop [simp]: "walk_inv env opts x n b (stop_on_error s) = walk_inv env opts x n b s"
  by (simp add: stop_on_error_def)

text \<open>The relative paths and depths of the frames, which reading does not change.\<close>

definition places :: "('r, 't) walk_frame list \<Rightarrow> (path \<times> usize) list" where
  "places fs = map (\<lambda>f. (wf_relative f, wf_entry_depth f)) fs"

lemma same_shape_places: "same_shape s s' \<Longrightarrow> places (wk_stack s') = places (wk_stack s)"
proof -
  assume "same_shape s s'"
  then have "list_all2 (\<lambda>f f'. f' = f \<or> f' = closed_frame f) (wk_stack s) (wk_stack s')"
    by (simp add: same_shape_def)
  then show ?thesis
    by induction (auto simp: places_def closed_frame_def)
qed

lemma outcome_answer [simp]:
  "outcome (answer (Ok x)) Q E P s = Q x s" "outcome (answer (Err e)) Q E P s = E e s"
  by (simp_all add: outcome_def answer_def)

lemma outcome_on_files:
  assumes "\<And>w. fst (m w) \<noteq> Panic" and "\<And>x w. Q x (s\<lparr>ws_world := w\<rparr>)" and "\<And>e w. E e (s\<lparr>ws_world := w\<rparr>)"
  shows "outcome (on_files m) Q E P s"
  using assms(1) [of "ws_world s"] assms(2,3)
  by (auto simp: outcome_def on_files_def split: prod.splits result.splits)

text \<open>What a yielded entry satisfies: its path, its level below the root and its name.\<close>

definition entry_fits :: "list_options \<Rightarrow> path \<Rightarrow> directory_entry \<Rightarrow> bool" where
  "entry_fits opts root e \<longleftrightarrow>
     de_path e = path_join root (de_relative_path e) \<and>
     entry_name_ok (entry_name e) \<and>
     (case lo_max_depth opts of Some m \<Rightarrow> entry_level e \<le> m | None \<Rightarrow> True) \<and>
     (lo_recursive opts \<or> entry_level e = 1)"

lemma entry_fits_new:
  assumes "list_all entry_name_ok names" and "entry_name_ok x"
    and "if names = [] then lo_max_depth opts \<noteq> Some 0 else may_descend opts (length names)"
  shows "entry_fits opts root (directory_entry_new (path_join root (join_slash (names @ [x])))
           (join_slash (names @ [x])) diagnostic metadata)"
    and "entry_name (directory_entry_new p (join_slash (names @ [x])) diagnostic metadata) = x"
proof -
  have split: "split_slash (join_slash (names @ [x])) = names @ [x]"
    using assms by (intro split_join_names) simp_all
  then show "entry_name (directory_entry_new p (join_slash (names @ [x])) diagnostic metadata) = x"
    by (simp add: entry_name_def directory_entry_new_def)
  show "entry_fits opts root (directory_entry_new (path_join root (join_slash (names @ [x])))
           (join_slash (names @ [x])) diagnostic metadata)"
    using assms split
    by (auto simp: entry_fits_def entry_name_def entry_level_def directory_entry_new_def may_descend_def
        split: option.splits if_splits)
qed

lemma budget_ok_mono: "budget_ok rb lim x m \<Longrightarrow> n \<le> m \<Longrightarrow> budget_ok rb lim x n"
  by (auto simp: budget_ok_def split: option.splits)

lemma walk_inv_mono: "walk_inv env opts x n' b' s \<Longrightarrow> n \<le> n' \<Longrightarrow> b \<le> b' \<Longrightarrow> walk_inv env opts x n b s"
  unfolding walk_inv_def using budget_ok_mono by blast

lemma outcome_deadline:
  assumes "\<And>w. Q () (s\<lparr>ws_world := w\<rparr>)" and "\<And>e w. E e (terminate (s\<lparr>ws_world := w\<rparr>))"
  shows "outcome (check_walk_deadline env) Q E P s"
  using assms(1) [of "ws_world s"] assms
  by (auto simp: outcome_def check_walk_deadline_def split: option.split prod.split)

context walk_host
begin

lemma close_all_inv:
  assumes "walk_inv env opts 0 n b s" and "needs_seen_names opts" and "wk_pool s = Some q"
  shows "walk_inv env opts 0 n b (close_all_host_frames (we_pool env) s)"
    and "wk_pool (close_all_host_frames (we_pool env) s) \<noteq> None"
    and "lo_max_open_directories opts = Some lim \<Longrightarrow>
      \<exists>q'. wk_pool (close_all_host_frames (we_pool env) s) = Some q' \<and> mp_available (we_pool env) q' = lim"
proof -
  obtain q' where q': "snd (close_frames (we_pool env) (wk_stack s) (Some q)) = Some q'"
      "mp_available (we_pool env) q' = mp_available (we_pool env) q + held_slots (we_pool env) (wk_stack s)"
    using close_frames_pool by blast
  have eq: "close_all_host_frames (we_pool env) s =
      s\<lparr>wk_stack := map (\<lambda>f. f\<lparr>wf_entries := None, wf_permit := None\<rparr>) (wk_stack s), wk_pool := Some q'\<rparr>"
    using q' close_frames_stack [of "wk_stack s" "Some q"] assms(3)
    by (cases "close_frames (we_pool env) (wk_stack s) (Some q)") (simp add: close_all_host_frames_def)
  show "walk_inv env opts 0 n b (close_all_host_frames (we_pool env) s)"
    using assms q' unfolding eq
    by (auto simp: walk_inv_def frames_at_closed pool_ok_def paid_def list_all_iff split: option.splits)
  show "wk_pool (close_all_host_frames (we_pool env) s) \<noteq> None"
    by (simp add: eq)
  show "\<exists>q'. wk_pool (close_all_host_frames (we_pool env) s) = Some q' \<and> mp_available (we_pool env) q' = lim"
    if "lo_max_open_directories opts = Some lim"
    using assms q' that unfolding eq by (auto simp: walk_inv_def pool_ok_def)
qed

lemma acquire_inv:
  assumes inv: "walk_inv env opts 0 n b s"
    and seen: "lo_reopen_policy opts = Reopen \<Longrightarrow> lo_max_open_directories opts \<noteq> None \<Longrightarrow> needs_seen_names opts"
  shows "outcome (acquire_host_directory (we_pool env) p)
    (\<lambda>permit s'. walk_inv env opts (slot (we_pool env) permit) n b s' \<and> granted (we_pool env) opts permit \<and>
                 same_shape s s')
    (\<lambda>_ s'. walk_inv env opts 0 n b s' \<and> same_shape s s') (\<lambda>_. False) s"
proof (cases "lo_max_open_directories opts")
  case None
  with inv show ?thesis
    by (simp add: acquire_host_directory_def walk_inv_def pool_ok_def granted_def slot_def)
next
  case (Some lim)
  with inv obtain q where q: "wk_pool s = Some q" and opts: "wk_options s = opts"
    by (auto simp: walk_inv_def pool_ok_def)
  have granted: "walk_inv env opts 1 n b (s'\<lparr>wk_pool := Some q2\<rparr>)"
    if "walk_inv env opts 0 n b s'" "wk_pool s' = Some q1"
      "mp_available (we_pool env) q2 + 1 = mp_available (we_pool env) q1" for s' q1 q2
    using that Some by (auto simp: walk_inv_def pool_ok_def)
  show ?thesis
  proof (cases rule: acquire_slot_cases [OF q])
    case (1 t q')
    then show ?thesis
      using granted [OF inv q 1(3)] q Some
      by (simp add: acquire_host_directory_def outcome_def bind_def gets_def caught_def ret_def slot_def
          granted_def same_shape_def list_all2_refl)
  next
    case (2 e)
    show ?thesis
    proof (cases "lo_reopen_policy opts = Reopen")
      case False
      then show ?thesis
        using 2 inv q opts
        by (simp add: acquire_host_directory_def outcome_def bind_def gets_def caught_def fail_def)
    next
      case True
      let ?s = "close_all_host_frames (we_pool env) s"
      note closed = close_all_inv [OF inv seen [OF True] q]
      obtain q1 where q1: "wk_pool ?s = Some q1" "mp_available (we_pool env) q1 = lim"
        using closed(3) Some by auto
      have shape: "same_shape s (?s\<lparr>wk_pool := z\<rparr>)" for z
        using q close_frames_stack [of "wk_stack s" "Some q"]
        by (cases "close_frames (we_pool env) (wk_stack s) (Some q)")
          (simp add: same_shape_def close_all_host_frames_def closed_frame_def list_all2_map2
            list_all2_refl)
      have shape0: "same_shape s ?s"
        using shape [of "wk_pool ?s"] by simp
      show ?thesis
      proof (cases rule: acquire_slot_cases [OF q1(1)])
        case (1 t q')
        then show ?thesis
          using 2 granted [OF closed(1) q1(1) 1(3)] q opts True Some shape [of "Some q'"]
          by (simp add: acquire_host_directory_def outcome_def bind_def gets_def caught_def ret_def slot_def
              granted_def seq_def modify_def or_fail_def)
      next
        case (2 e')
        then show ?thesis
          using \<open>try_acquire_slot (we_pool env) s = (Err e, s)\<close> closed(1) q opts True Some shape0
          by (simp add: acquire_host_directory_def outcome_def bind_def gets_def caught_def fail_def
              seq_def modify_def or_fail_def)
      qed
    qed
  qed
qed

lemma drop_held_inv:
  assumes "walk_inv env opts (slot (we_pool env) permit) n b s" and "granted (we_pool env) opts permit"
  shows "walk_inv env opts 0 n b (drop_held (we_pool env) permit s)"
  using assms
  by (cases permit)
    (auto simp: walk_inv_def drop_held_def drop_permit_def pool_ok_def granted_def slot_def
      release_available split: option.splits if_splits)

lemma push_inv:
  assumes inv: "walk_inv env opts (slot (we_pool env) permit) n b s" and permit: "granted (we_pool env) opts permit"
    and fresh: "identity \<notin> set (wk_followed s)" and depth: "length (wk_stack s) = d" "0 < d"
    and names: "list_all entry_name_ok names" "length names = d" and descends: "may_descend opts d"
  shows "walk_inv env opts 0 n b
    (push_frame (new_frame opts (p, entries) permit (join_slash names) identity (d + 1)) identity s)"
proof -
  let ?f = "new_frame opts (p, entries) permit (join_slash names) identity (d + 1)"
  have "frame_at opts (Suc (length (wk_stack s))) ?f"
    using depth names descends by (auto simp: frame_at_def new_frame_def)
  moreover have "pool_ok (we_pool env) (lo_max_open_directories opts) (?f # wk_stack s) (wk_pool s) 0"
    using inv permit
    by (auto simp: walk_inv_def pool_ok_def granted_def slot_def held_slots_def paid_def new_frame_def
        split: option.splits if_splits)
  moreover have "identities (?f # wk_stack s) = identity # identities (wk_stack s)"
    by (simp add: identities_Cons new_frame_def)
  ultimately show ?thesis
    using inv fresh by (simp add: walk_inv_def push_frame_def)
qed

lemma read_dir_outcome:
  assumes "\<And>x w. Q x (s\<lparr>ws_world := w\<rparr>)" and "\<And>e w. E e (s\<lparr>ws_world := w\<rparr>)"
  shows "outcome (on_files (wc_read_dir (we_calls env) p)) Q E P s"
  using returns assms by (intro outcome_on_files) (auto simp: calls_return_def)

lemma metadata_outcome:
  assumes "\<And>x w. Q x (s\<lparr>ws_world := w\<rparr>)" and "\<And>e w. E e (s\<lparr>ws_world := w\<rparr>)"
  shows "outcome (on_files (wc_metadata (we_calls env) p)) Q E P s"
    and "outcome (on_files (wc_symlink_metadata (we_calls env) p)) Q E P s"
  using returns assms by (auto intro!: outcome_on_files simp: calls_return_def)

lemma descend_inv:
  assumes inv: "walk_inv env opts 0 n b s" and depth: "length (wk_stack s) = d" "0 < d"
    and names: "list_all entry_name_ok names" "length names = d" and descends: "may_descend opts d"
  shows "outcome (descend env p metadata (join_slash names) d)
    (\<lambda>_ s'. walk_inv env opts 0 n b s' \<and> walk_kept s s')
    (\<lambda>_ s'. walk_inv env opts 0 n b s' \<and> walk_kept s s') (\<lambda>_. False) s"
proof (cases "identity_from_metadata metadata p \<in> set (wk_followed s)")
  case True
  then show ?thesis
    using inv by (simp add: descend_def native_directory_identity_def answer_def outcome_def bind_def
        gets_def fail_def)
next
  case False
  let ?i = "identity_from_metadata metadata p"
  have opts: "wk_options s = opts"
    using inv by (simp add: walk_inv_def)
  have seen: "lo_reopen_policy opts = Reopen \<Longrightarrow> lo_max_open_directories opts \<noteq> None \<Longrightarrow> needs_seen_names opts"
    using descends depth(2) by (auto simp: may_descend_def needs_seen_names_def Let_def split: option.splits)
  have rest: "outcome (on_files (wc_read_dir (we_calls env) p))
      (\<lambda>entries s'. walk_inv env opts 0 n b
           (push_frame (new_frame opts (p, entries) permit (join_slash names) ?i (Suc d)) ?i s') \<and> walk_kept s s')
      (\<lambda>_ s'. walk_inv env opts 0 n b (drop_held (we_pool env) permit s') \<and> walk_kept s s') (\<lambda>_. False) s1"
    if "walk_inv env opts (slot (we_pool env) permit) n b s1" "granted (we_pool env) opts permit"
      "same_shape s s1" for permit s1
  proof -
    have "?i \<notin> set (wk_followed s1)" "length (wk_stack s1) = d"
      using that(3) False depth same_shape_length by (auto simp: same_shape_def)
    then have "walk_inv env opts 0 n b (push_frame
        (new_frame opts (p, entries) permit (join_slash names) ?i (d + 1)) ?i (s1\<lparr>ws_world := w\<rparr>))" for entries w
      using that depth(2) names descends by (intro push_inv) auto
    then show ?thesis
      using that drop_held_inv same_shape_kept by (auto intro!: read_dir_outcome)
  qed
  show ?thesis
    using False opts rest same_shape_kept
    by (auto simp: descend_def native_directory_identity_def
        intro!: outcome_conseq [OF acquire_inv [OF inv seen]])
qed

lemma pop_inv:
  assumes inv: "walk_inv env opts x n b s" and top: "wk_stack s = f # fs"
  shows "\<exists>s'. pop_host_frame (we_pool env) s = (Some (closed_frame f), s') \<and> walk_kept s s' \<and>
    walk_inv env opts x n b (forget_identity (Some (closed_frame f)) s') \<and>
    wk_terminated s' = wk_terminated s"
proof -
  from inv top obtain i where i: "wf_identity f = Some i"
    by (auto simp: walk_inv_def frame_at_def)
  let ?s = "s\<lparr>wk_stack := fs, wk_pool := drop_permit (we_pool env) (wf_permit f) (wk_pool s)\<rparr>"
  have "pool_ok (we_pool env) (lo_max_open_directories opts) fs (drop_permit (we_pool env) (wf_permit f) (wk_pool s)) x"
    using inv top
    by (cases "wf_permit f")
      (auto simp: walk_inv_def pool_ok_def drop_permit_def held_slots_def release_available split: option.splits)
  moreover have "set (wk_followed s) = insert i (set (identities fs))" "i \<notin> set (identities fs)"
    using inv top i by (auto simp: walk_inv_def identities_Cons)
  ultimately have "walk_inv env opts x n b (forget_identity (Some (closed_frame f)) ?s)"
    using inv top i by (auto simp: walk_inv_def forget_identity_def closed_frame_def identities_Cons distinct_removeAll)
  then show ?thesis
    using top by (auto simp: pop_host_frame_def close_host_frame_def closed_frame_def)
qed

lemma forget_identity_kept [simp]: "walk_kept s (forget_identity f s') = walk_kept s s'"
  by (simp add: forget_identity_def split: option.split)

lemma handle_reopen_error_inv:
  assumes "walk_inv env opts x n b s"
  shows "walk_inv env opts x n b (handle_reopen_error (we_pool env) s)"
    and "walk_kept s (handle_reopen_error (we_pool env) s)"
    and "lo_error_policy opts = FailFast \<Longrightarrow> wk_terminated (handle_reopen_error (we_pool env) s)"
proof -
  have "walk_inv env opts x n b (handle_reopen_error (we_pool env) s) \<and>
      walk_kept s (handle_reopen_error (we_pool env) s) \<and>
      (lo_error_policy opts = FailFast \<longrightarrow> wk_terminated (handle_reopen_error (we_pool env) s))"
  proof (cases "wk_stack s")
    case Nil
    with assms show ?thesis
      by (auto simp: handle_reopen_error_def pop_host_frame_def forget_identity_def walk_inv_def terminate_def
          walk_kept_def)
  next
    case (Cons f fs)
    from pop_inv [OF assms Cons] assms show ?thesis
      by (auto simp: handle_reopen_error_def walk_inv_def terminate_def walk_kept_def forget_identity_def
          split: option.splits)
  qed
  then show "walk_inv env opts x n b (handle_reopen_error (we_pool env) s)"
    and "walk_kept s (handle_reopen_error (we_pool env) s)"
    and "lo_error_policy opts = FailFast \<Longrightarrow> wk_terminated (handle_reopen_error (we_pool env) s)"
    by auto
qed

text \<open>What an error leaves behind, and what a reader that was opened again looks like.\<close>

definition failed_at ::
  "list_options \<Rightarrow> nat \<Rightarrow> nat \<Rightarrow> ('r, 't, 'b, 'q, 'w) walk_state \<Rightarrow> ('r, 't, 'b, 'q, 'w) walk_state \<Rightarrow> bool" where
  "failed_at opts n b s s' \<longleftrightarrow>
     walk_inv env opts 0 n b s' \<and> walk_kept s s' \<and> (lo_error_policy opts = FailFast \<longrightarrow> wk_terminated s')"

definition reading ::
  "list_options \<Rightarrow> nat \<Rightarrow> nat \<Rightarrow> ('r, 't, 'b, 'q, 'w) walk_state \<Rightarrow> ('r, 't, 'b, 'q, 'w) walk_state \<Rightarrow> bool" where
  "reading opts n b s s' \<longleftrightarrow>
     walk_inv env opts 0 n b s' \<and> walk_kept s s' \<and> places (wk_stack s') = places (wk_stack s) \<and>
     (\<exists>f fs. wk_stack s' = f # fs \<and> wf_entries f \<noteq> None)"

lemma failed_world [simp]: "failed_at opts n b s (s'\<lparr>ws_world := w\<rparr>) = failed_at opts n b s s'"
  by (simp add: failed_at_def)

lemma install_reader_inv:
  assumes inv: "walk_inv env opts (slot (we_pool env) permit) n b s" and permit: "granted (we_pool env) opts permit"
    and top: "wk_stack s = f # fs" "wf_entries f = None"
  shows "outcome (install_reader entries permit) (\<lambda>_. reading opts n b s) E P s"
proof -
  let ?f = "f\<lparr>wf_entries := Some entries, wf_permit := permit\<rparr>"
  have "pool_ok (we_pool env) (lo_max_open_directories opts) (?f # fs) (wk_pool s) 0"
    using inv permit top
    by (auto simp: walk_inv_def pool_ok_def granted_def slot_def held_slots_def paid_def frame_at_def
        split: option.splits if_splits)
  moreover have "frame_at opts (Suc (length fs)) ?f"
    using inv top by (auto simp: walk_inv_def frame_at_def)
  moreover have "identities (?f # fs) = identities (f # fs)"
    by (simp add: identities_Cons)
  ultimately have "walk_inv env opts 0 n b (s\<lparr>wk_stack := ?f # fs\<rparr>)"
    using inv top by (simp add: walk_inv_def)
  then show ?thesis
    using top by (simp add: outcome_def install_reader_def reading_def places_def)
qed

lemma reopen_inv:
  assumes inv: "walk_inv env opts 0 n b s" and top: "wk_stack s = f # fs" "wf_entries f = None"
  shows "outcome (reopen_host_frame env rel) (\<lambda>_. reading opts n b s) (\<lambda>_. failed_at opts n b s) (\<lambda>_. False) s"
proof -
  have seen: "needs_seen_names opts"
    using inv top by (auto simp: walk_inv_def frame_at_def)
  have refused: "failed_at opts n b s (handle_reopen_error (we_pool env) s')"
    if "walk_inv env opts 0 n b s'" "walk_kept s s'" for s'
    using handle_reopen_error_inv [OF that(1)] that(2) walk_kept_trans by (auto simp: failed_at_def)
  have dropped: "failed_at opts n b s (drop_held (we_pool env) permit (handle_reopen_error (we_pool env) s'))"
    if "walk_inv env opts (slot (we_pool env) permit) n b s'" "granted (we_pool env) opts permit" "walk_kept s s'"
    for s' permit
    using handle_reopen_error_inv [OF that(1)] that(2,3) drop_held_inv walk_kept_trans
    by (auto simp: failed_at_def)
  have install: "outcome (install_reader e permit) (\<lambda>_. reading opts n b s) E P (s1\<lparr>ws_world := w\<rparr>)"
    if s1: "walk_inv env opts (slot (we_pool env) permit) n b s1" "granted (we_pool env) opts permit"
      "same_shape s s1" for e permit s1 w E P
  proof -
    from s1(3) top obtain f1 fs1 where f1: "wk_stack s1 = f1 # fs1" "wf_entries f1 = None"
      by (auto simp: same_shape_def list_all2_Cons1 closed_frame_def)
    have "outcome (install_reader e permit) (\<lambda>_. reading opts n b (s1\<lparr>ws_world := w\<rparr>)) E P (s1\<lparr>ws_world := w\<rparr>)"
      using s1 f1 by (intro install_reader_inv) auto
    moreover have "walk_kept s s1" "places (wk_stack s1) = places (wk_stack s)"
      using same_shape_kept [OF s1(3)] same_shape_places [OF s1(3)] by simp_all
    ultimately show ?thesis
      by (auto simp: reading_def elim!: outcome_conseq intro: walk_kept_trans)
  qed
  have acquire: "outcome (acquire_host_directory (we_pool env) p)
      (\<lambda>permit s'. outcome (on_files (wc_read_dir (we_calls env) p))
          (\<lambda>entries s'. outcome (install_reader (p, entries) permit) (\<lambda>_. reading opts n b s)
             (\<lambda>_. failed_at opts n b s) (\<lambda>_. False) s')
          (\<lambda>_ s'. failed_at opts n b s (drop_held (we_pool env) permit (handle_reopen_error (we_pool env) s')))
          (\<lambda>_. False) s')
      (\<lambda>_ s'. failed_at opts n b s (handle_reopen_error (we_pool env) s')) (\<lambda>_. False) (s\<lparr>ws_world := w\<rparr>)"
    for p w
    using inv seen
    by (intro outcome_conseq [OF acquire_inv [of opts n b]] read_dir_outcome)
      (auto intro!: install dropped refused simp: same_shape_kept)
  show ?thesis
    using inv
    by (auto simp: reopen_host_frame_def Let_def native_directory_identity_def
        intro!: metadata_outcome refused acquire)
qed

lemma read_top_inv:
  assumes "reading opts n b s0 s"
  shows "outcome (read_top env)
    (\<lambda>r s'. reading opts n b s0 s' \<and> (\<forall>dir x. r = ReadEntry dir x \<longrightarrow> entry_name_ok x)) E (\<lambda>_. False) s"
proof -
  from assms obtain f fs dir reader where top: "wk_stack s = f # fs" "wf_entries f = Some (dir, reader)"
    by (auto simp: reading_def)
  obtain r reader' w where next_eq: "wc_next (we_calls env) reader (ws_world s) = (r, reader', w)"
    by (metis prod_cases3)
  have r: "r \<noteq> Panic" "\<And>x. r = Ok (Some x) \<Longrightarrow> entry_name_ok x"
    using returns next_eq by (auto simp: calls_return_def) (metis fst_conv)+
  let ?f = "f\<lparr>wf_entries := Some (dir, reader')\<rparr>"
  let ?s = "s\<lparr>wk_stack := ?f # fs, ws_world := w\<rparr>"
  have "frame_at opts (Suc (length fs)) ?f" if "frame_at opts (Suc (length fs)) f"
    using that top by (auto simp: frame_at_def)
  moreover have "pool_ok mp lim (?f # fs) q 0" if "pool_ok mp lim (f # fs) q 0" for mp lim q
    using that top by (auto simp: pool_ok_def held_slots_def paid_def split: option.splits)
  moreover have "identities (?f # fs) = identities (f # fs)"
    by (simp add: identities_Cons)
  ultimately have "reading opts n b s0 ?s"
    using assms top by (auto simp: reading_def walk_inv_def places_def)
  then show ?thesis
    using top next_eq r by (auto simp: outcome_def read_top_def split: result.split option.split)
qed

lemma insert_seen_inv:
  assumes "reading opts n b s0 s"
  shows "reading opts n b s0 (snd (insert_seen x s))"
proof -
  from assms obtain f fs where top: "wk_stack s = f # fs" "wf_entries f \<noteq> None"
    by (auto simp: reading_def)
  show ?thesis
  proof (cases "wf_seen f")
    case None
    with assms top show ?thesis by (simp add: insert_seen_def)
  next
    case (Some seen)
    let ?f = "f\<lparr>wf_seen := Some (List.insert x seen)\<rparr>"
    have "frame_at opts (Suc (length fs)) ?f" if "frame_at opts (Suc (length fs)) f"
      using that top Some by (auto simp: frame_at_def)
    moreover have "pool_ok mp lim (?f # fs) q 0" if "pool_ok mp lim (f # fs) q 0" for mp lim q
      using that by (auto simp: pool_ok_def held_slots_def paid_def split: option.splits)
    moreover have "identities (?f # fs) = identities (f # fs)"
      by (simp add: identities_Cons)
    ultimately show ?thesis
      using assms top Some by (auto simp: insert_seen_def reading_def walk_inv_def places_def)
  qed
qed

lemma reading_world [simp]: "reading opts n b s0 (s\<lparr>ws_world := w\<rparr>) = reading opts n b s0 s"
  by (simp add: reading_def)

lemma reading_failed: "reading opts n b s0 s \<Longrightarrow> failed_at opts n b s0 (terminate s)"
  by (simp add: reading_def failed_at_def)

lemma read_unseen_inv:
  assumes "reading opts n b s0 s"
  shows "outcome (read_unseen env fuel)
    (\<lambda>r s'. reading opts n b s0 s' \<and> (\<forall>dir x. r = ReadEntry dir x \<longrightarrow> entry_name_ok x))
    (\<lambda>_. failed_at opts n b s0) (\<lambda>_. False) s"
  using assms
proof (induction fuel arbitrary: s)
  case (Suc fuel)
  have step: "outcome (read_top env) (\<lambda>next s'. outcome
       (case next of
          ReadEntry dir name \<Rightarrow>
            (\<lambda>s. case insert_seen name s of
                   (new, s') \<Rightarrow> if new then (Ok (ReadEntry dir name), s') else read_unseen env fuel s')
        | other \<Rightarrow> ret other)
       (\<lambda>r s'. reading opts n b s0 s' \<and> (\<forall>dir x. r = ReadEntry dir x \<longrightarrow> entry_name_ok x))
       (\<lambda>_. failed_at opts n b s0) (\<lambda>_. False) s')
     (\<lambda>_. failed_at opts n b s0) (\<lambda>_. False) s'" if "reading opts n b s0 s'" for s'
  proof (rule outcome_conseq [OF read_top_inv [OF that]], goal_cases)
    case (1 r s1)
    show ?case
    proof (cases r)
      case (ReadEntry dir x)
      obtain new s2 where s2: "insert_seen x s1 = (new, s2)" by fastforce
      then have "reading opts n b s0 s2"
        using insert_seen_inv 1 by (metis snd_conv)
      then show ?thesis
        using 1 ReadEntry s2 Suc.IH [of s2] by (cases new) (auto simp: outcome_def)
    qed (use 1 in auto)
  qed auto
  show ?case
    using Suc.prems step reading_failed by (auto intro!: outcome_deadline)
qed simp

lemma consume_cases:
  assumes "budget_ok (we_budget env) lim (Some x) used"
  obtains (spent) x' where "rb_try_consume (we_budget env) x k = (Ok (), x')"
      "budget_ok (we_budget env) lim (Some x') (used + k)"
    | (refused) e where "rb_try_consume (we_budget env) x k = (Err e, x)"
proof (cases "k \<le> rb_remaining (we_budget env) x")
  case True
  obtain r x' where x': "rb_try_consume (we_budget env) x k = (r, x')" by fastforce
  with True have "r = Ok ()" "rb_remaining (we_budget env) x' = rb_remaining (we_budget env) x - k"
    using budget by (metis budget_laws_def fst_conv snd_conv)+
  with True assms x' show thesis
    by (intro spent [of x']) (auto simp: budget_ok_def split: option.splits)
next
  case False
  then show thesis
    using budget refused by (auto simp: budget_laws_def not_le)
qed

lemma budget_ok_None: "budget_ok rb lim None used \<Longrightarrow> budget_ok rb lim None used'"
  by (simp add: budget_ok_def split: option.splits)

lemma charge_entry_inv:
  assumes inv: "walk_inv env opts 0 n b s"
  shows "outcome (charge_entry env p)
    (\<lambda>_ s'. walk_inv env opts 0 (Suc n) b s' \<and> walk_kept s s' \<and> wk_stack s' = wk_stack s)
    (\<lambda>_. failed_at opts n b s) (\<lambda>_. False) s"
proof (cases "wk_entry_budget s")
  case None
  with inv show ?thesis
    by (auto simp: outcome_def charge_entry_def walk_inv_def intro: budget_ok_None)
next
  case (Some x)
  with inv have "budget_ok (we_budget env) (lo_max_entries opts) (Some x) n"
    by (simp add: walk_inv_def)
  then show ?thesis
    by (cases rule: consume_cases [where k = 1])
      (use inv Some in \<open>auto simp: outcome_def charge_entry_def failed_at_def walk_inv_def terminate_def walk_kept_def\<close>)
qed

lemma charge_name_inv:
  assumes inv: "walk_inv env opts 0 n b s"
  shows "outcome (charge_name env p x)
    (\<lambda>_ s'. walk_inv env opts 0 n (b + length x) s' \<and> walk_kept s s' \<and> wk_stack s' = wk_stack s)
    (\<lambda>_. failed_at opts n b s) (\<lambda>_. False) s"
proof (cases "wk_seen_name_budget s")
  case None
  with inv show ?thesis
    by (auto simp: outcome_def charge_name_def walk_inv_def intro: budget_ok_None)
next
  case (Some y)
  with inv have "budget_ok (we_budget env) (lo_max_seen_name_bytes opts) (Some y) b"
    by (simp add: walk_inv_def)
  then show ?thesis
    by (cases rule: consume_cases [where k = "name_bytes x"])
      (use inv Some in \<open>auto simp: outcome_def charge_name_def name_bytes_def failed_at_def walk_inv_def
         terminate_def walk_kept_def\<close>)
qed

definition visited ::
  "list_options \<Rightarrow> nat \<Rightarrow> nat \<Rightarrow> ('r, 't, 'b, 'q, 'w) walk_state \<Rightarrow> walk_turn \<Rightarrow> ('r, 't, 'b, 'q, 'w) walk_state \<Rightarrow> bool" where
  "visited opts n b s t s' \<longleftrightarrow>
     walk_kept s s' \<and>
     (case t of
        Yields e \<Rightarrow> walk_inv env opts 0 (Suc n) (b + length (entry_name e)) s' \<and> entry_fits opts (wk_root s) e
      | _ \<Rightarrow> walk_inv env opts 0 n b s')"

lemma failed_at_stop: "walk_inv env opts 0 n b s' \<Longrightarrow> walk_kept s s' \<Longrightarrow> failed_at opts n b s (stop_on_error s')"
  by (simp add: failed_at_def) (simp add: stop_on_error_def terminate_def walk_inv_def)

lemma failed_at_weaken:
  "walk_kept s s' \<Longrightarrow> n \<le> n' \<Longrightarrow> b \<le> b' \<Longrightarrow> failed_at opts n' b' s' s'' \<Longrightarrow> failed_at opts n b s s''"
  unfolding failed_at_def using walk_kept_trans walk_inv_mono by blast

lemma frame_names:
  assumes "walk_inv env opts x n b s" and "wk_stack s = f # fs"
  obtains names where "wf_relative f = join_slash names" "list_all entry_name_ok names"
    "wf_entry_depth f = Suc (length names)" "length (wk_stack s) = Suc (length names)"
    "if names = [] then lo_max_depth opts \<noteq> Some 0 else may_descend opts (length names)"
proof -
  have frame: "frame_at opts (Suc (length fs)) f"
    using assms by (simp add: walk_inv_def)
  then obtain names where names: "wf_relative f = join_slash names" "list_all entry_name_ok names"
      "length names = length fs"
    by (auto simp: frame_at_def)
  then have "names = [] \<longleftrightarrow> fs = []"
    by auto
  with frame names assms(2) show thesis
    by (intro that [of names]) (auto simp: frame_at_def split: if_splits)
qed

lemma observe_entry_inv:
  assumes inv: "walk_inv env opts 0 (Suc n) (b + length x) s" and s0: "walk_kept s0 s"
    and stack: "length (wk_stack s) = Suc (length names)" and names: "list_all entry_name_ok names" "entry_name_ok x"
    and level: "if names = [] then lo_max_depth opts \<noteq> Some 0 else may_descend opts (length names)"
  shows "outcome (observe_entry env (wk_root s0) opts policy (join_slash (names @ [x])) (Suc (length names)) p)
    (visited opts n b s0) (\<lambda>_. failed_at opts n b s0) (\<lambda>_. False) s"
proof -
  let ?rel = "join_slash (names @ [x])" and ?d = "Suc (length names)"
  let ?n = "Suc n" and ?b = "b + length x"
  have yields: "visited opts n b s0 (Yields (directory_entry_new (path_join (wk_root s0) ?rel) ?rel (Some p) m)) s'"
    if "walk_inv env opts 0 ?n ?b s'" "walk_kept s0 s'" for m s'
    using that entry_fits_new [OF names level] by (simp add: visited_def)
  have failed: "failed_at opts n b s0 (stop_on_error s')"
    if "walk_inv env opts 0 ?n ?b s'" "walk_kept s0 s'" for s'
    using that walk_inv_mono by (intro failed_at_stop) fastforce+
  have inside: "outcome (descend env p m ?rel ?d)
      (\<lambda>_. visited opts n b s0 (Yields (directory_entry_new (path_join (wk_root s0) ?rel) ?rel (Some p) m')))
      (\<lambda>_ s'. failed_at opts n b s0 (stop_on_error s')) (\<lambda>_. False) (s\<lparr>ws_world := w\<rparr>)"
    if "may_descend opts ?d" for m m' w
    using that inv s0 stack names
    by (auto intro!: outcome_conseq [OF descend_inv [of opts ?n ?b]] yields failed intro: walk_kept_trans)
  show ?thesis
    using inv s0 by (auto simp: observe_entry_def Let_def intro!: metadata_outcome failed inside yields)
qed

lemma visit_entry_inv:
  assumes inv: "walk_inv env opts 0 n b s" and top: "wk_stack s = f # fs" and x: "entry_name_ok x"
  shows "outcome (visit_entry env (wf_relative f) (wf_entry_depth f) dir x)
    (visited opts n b s) (\<lambda>_. failed_at opts n b s) (\<lambda>_. False) s"
proof -
  obtain names where names: "wf_relative f = join_slash names" "list_all entry_name_ok names"
      "wf_entry_depth f = Suc (length names)" "length (wk_stack s) = Suc (length names)"
      "if names = [] then lo_max_depth opts \<noteq> Some 0 else may_descend opts (length names)"
    using frame_names [OF inv top] by blast
  have opts: "wk_options s = opts"
    using inv by (simp add: walk_inv_def)
  have rel: "path_join (join_slash names) x = join_slash (names @ [x])"
    using names x by (simp add: path_join_name)
  have shallow: "\<not> beyond_depth opts (Suc (length names))"
    using names(5) by (auto simp: beyond_depth_def may_descend_def split: option.splits if_splits)
  have name: "outcome (charge_name env q x)
      (\<lambda>_ s'. outcome (observe_entry env (wk_root s) opts policy (join_slash (names @ [x])) (Suc (length names)) p)
         (visited opts n b s) (\<lambda>_. failed_at opts n b s) (\<lambda>_. False) s')
      (\<lambda>_. failed_at opts n b s) (\<lambda>_. False) s'"
    if "walk_inv env opts 0 (Suc n) b s'" "walk_kept s s'" "wk_stack s' = wk_stack s" for s' q p policy
    using that names x failed_at_weaken [of s s' n "Suc n" b b]
    by (auto intro!: outcome_conseq [OF charge_name_inv [OF that(1)]] observe_entry_inv intro: walk_kept_trans)
  show ?thesis
    unfolding visit_entry_def names(1,3) rel
    by (auto simp: opts shallow intro!: outcome_conseq [OF charge_entry_inv [OF inv]] name)
qed

lemma visited_trans:
  "walk_kept s s' \<Longrightarrow> visited opts n b s' t s'' \<Longrightarrow> visited opts n b s t s''"
  by (auto simp: visited_def walk_kept_def split: walk_turn.splits)

lemma failed_at_trans: "walk_kept s s' \<Longrightarrow> failed_at opts n b s' s'' \<Longrightarrow> failed_at opts n b s s''"
  by (rule failed_at_weaken) simp_all

lemma complete_frame_inv:
  assumes "walk_inv env opts 0 n b s" and "wk_stack s = f # fs"
  shows "outcome (complete_frame env) (visited opts n b s) E (\<lambda>_. False) s"
  using pop_inv [OF assms] by (auto simp: outcome_def complete_frame_def visited_def)

lemma reading_top:
  assumes "reading opts n b s0 s" and "wk_stack s0 = f0 # fs0"
  obtains f fs where "wk_stack s = f # fs" "wf_relative f = wf_relative f0"
    "wf_entry_depth f = wf_entry_depth f0"
  using assms by (auto simp: reading_def places_def)

lemma handle_read_inv:
  assumes read: "reading opts n b s0 s" and top: "wk_stack s0 = f0 # fs0"
    and name: "\<And>dir x. r = ReadEntry dir x \<Longrightarrow> entry_name_ok x"
  shows "outcome (handle_read env (wf_relative f0) (wf_entry_depth f0) r)
    (visited opts n b s0) (\<lambda>_. failed_at opts n b s0) (\<lambda>_. False) s"
proof -
  obtain f fs where f: "wk_stack s = f # fs" "wf_relative f = wf_relative f0" "wf_entry_depth f = wf_entry_depth f0"
    using reading_top [OF read top] by blast
  have inv: "walk_inv env opts 0 n b s" and s0: "walk_kept s0 s"
    using read by (simp_all add: reading_def)
  show ?thesis
  proof (cases r)
    case (ReadEntry dir x)
    from visit_entry_inv [OF inv f(1) name [OF this], of dir] ReadEntry f(2,3) show ?thesis
      by (auto simp: handle_read_def elim!: outcome_conseq intro: visited_trans [OF s0] failed_at_trans [OF s0])
  next
    case ReadEnd
    from complete_frame_inv [OF inv f(1), of "\<lambda>_ _. False"] ReadEnd show ?thesis
      by (auto simp: handle_read_def elim!: outcome_conseq intro: visited_trans [OF s0])
  qed (use inv s0 failed_at_stop in \<open>auto simp: handle_read_def visited_def\<close>)
qed

lemma turn_frame_inv:
  assumes inv: "walk_inv env opts 0 n b s" and top: "wk_stack s = f # fs"
  shows "outcome (turn_frame env fuel f) (visited opts n b s) (\<lambda>_. failed_at opts n b s) (\<lambda>_. False) s"
proof -
  have "outcome (whenever (wf_entries f = None) (reopen_host_frame env (wf_relative f)))
      (\<lambda>_. reading opts n b s) (\<lambda>_. failed_at opts n b s) (\<lambda>_. False) s"
    using reopen_inv [OF inv top] inv top by (auto simp: reading_def)
  then show ?thesis
    unfolding turn_frame_def
    by (rule outcome_seqI) (rule outcome_bindI [OF read_unseen_inv], auto intro: handle_read_inv [OF _ top])
qed

lemma origin_world [simp]:
  "visited opts n b (s\<lparr>ws_world := w\<rparr>) = visited opts n b s"
  "failed_at opts n b (s\<lparr>ws_world := w\<rparr>) = failed_at opts n b s"
  by (auto simp: visited_def failed_at_def fun_eq_iff split: walk_turn.split)

lemma turn_inv:
  assumes inv: "walk_inv env opts 0 n b s"
  shows "outcome (turn env fuel) (visited opts n b s) (\<lambda>_. failed_at opts n b s) (\<lambda>_. False) s"
proof -
  have "outcome (case wk_stack s of [] \<Rightarrow> ret Finished | f # fs \<Rightarrow> turn_frame env fuel f)
      (visited opts n b s) (\<lambda>_. failed_at opts n b s) (\<lambda>_. False) (s\<lparr>ws_world := w\<rparr>)" for w
    using inv turn_frame_inv [of opts n b "s\<lparr>ws_world := w\<rparr>"]
    by (auto simp: visited_def split: list.split)
  then show ?thesis
    using inv by (auto simp: turn_def failed_at_def intro!: outcome_deadline)
qed

lemma walk_loop_inv:
  assumes "walk_inv env opts 0 n b s"
  shows "outcome (walk_loop env rf fuel) (visited opts n b s) (\<lambda>_. failed_at opts n b s) (\<lambda>_. False) s"
  using assms
proof (induction fuel arbitrary: s)
  case (Suc fuel)
  have "outcome (if t = NextTurn then walk_loop env rf fuel else ret t) (visited opts n b s)
      (\<lambda>_. failed_at opts n b s) (\<lambda>_. False) s'" if t: "visited opts n b s t s'" for t s'
  proof (cases "t = NextTurn")
    case True
    with t have "walk_inv env opts 0 n b s'" "walk_kept s s'"
      by (simp_all add: visited_def)
    with True Suc.IH [of s'] show ?thesis
      by (auto elim!: outcome_conseq intro: visited_trans failed_at_trans)
  qed (use t in simp)
  then show ?case
    by (auto intro: outcome_conseq [OF turn_inv [OF Suc.prems]])
qed (simp add: visited_def)

lemma next_entry_inv:
  assumes "walk_inv env opts 0 n b s"
  shows "outcome (next_entry env rf fuel) (visited opts n b s) (\<lambda>_. failed_at opts n b s) (\<lambda>_. False) s"
  using assms walk_loop_inv [of opts n b "s\<lparr>ws_world := _\<rparr>" rf fuel]
  by (auto simp: next_entry_def visited_def failed_at_def intro!: outcome_deadline)

lemma walker_next_inv:
  assumes "walk_inv env opts 0 n b s"
  shows "outcome (walker_next env rf fuel) (visited opts n b s) (\<lambda>_. failed_at opts n b s) (\<lambda>_. False) s"
  using next_entry_inv [OF assms, of rf fuel]
  by (auto simp: outcome_def walker_next_def split: prod.splits result.splits)

end

section \<open>Sequences of calls\<close>

text \<open>The results of \<open>k\<close> calls of \<open>Iterator::next\<close> in order, and the entries among them.\<close>

fun walk_items ::
  "('r, 't, 'b, 'q, 'w) walk_env \<Rightarrow> nat \<Rightarrow> nat \<Rightarrow> nat \<Rightarrow> ('r, 't, 'b, 'q, 'w) walk_state \<Rightarrow>
   (walk_turn, file_error) result list \<times> ('r, 't, 'b, 'q, 'w) walk_state" where
  "walk_items env rf fuel 0 s = ([], s)"
| "walk_items env rf fuel (Suc k) s =
     (case walker_next env rf fuel s of
        (r, s') \<Rightarrow> (case walk_items env rf fuel k s' of (rs, s'') \<Rightarrow> (r # rs, s'')))"

fun yielded :: "(walk_turn, file_error) result list \<Rightarrow> directory_entry list" where
  "yielded [] = []"
| "yielded (Ok (Yields e) # rs) = e # yielded rs"
| "yielded (_ # rs) = yielded rs"

definition open_readers :: "('r, 't) walk_frame list \<Rightarrow> nat" where
  "open_readers fs = length (filter (\<lambda>f. wf_entries f \<noteq> None) fs)"

context walk_host
begin

lemma walk_items_inv:
  assumes "walk_inv env opts 0 n b s" and "walk_items env rf fuel k s = (rs, s')"
  shows "walk_inv env opts 0 (n + length (yielded rs)) (b + (\<Sum>e\<leftarrow>yielded rs. length (entry_name e))) s' \<and>
    Panic \<notin> set rs \<and> (\<forall>e \<in> set (yielded rs). entry_fits opts (wk_root s) e)"
  using assms
proof (induction k arbitrary: n b s rs)
  case (Suc k)
  obtain r s1 rs1 where r: "walker_next env rf fuel s = (r, s1)" "walk_items env rf fuel k s1 = (rs1, s')"
      "rs = r # rs1"
    using Suc.prems(2) by (auto split: prod.splits)
  have out: "outcome (walker_next env rf fuel) (visited opts n b s) (\<lambda>_. failed_at opts n b s) (\<lambda>_. False) s"
    by (rule walker_next_inv [OF Suc.prems(1)])
  show ?case
  proof (cases r)
    case (Ok t)
    with out r have t: "visited opts n b s t s1"
      by (simp add: outcome_def)
    then have root: "wk_root s1 = wk_root s"
      by (simp add: visited_def walk_kept_def)
    show ?thesis
      using Suc.IH [OF _ r(2)] t r(3) Ok root by (cases t) (fastforce simp: visited_def add.assoc)+
  next
    case (Err e)
    with out r have "walk_inv env opts 0 n b s1" "wk_root s1 = wk_root s"
      by (simp_all add: outcome_def failed_at_def walk_kept_def)
    with Suc.IH [OF _ r(2)] r(3) Err show ?thesis by auto
  next
    case Panic
    with out r show ?thesis by (simp add: outcome_def)
  qed
qed simp

lemma acquire_root_ok:
  assumes "lo_max_open_directories opts \<noteq> Some 0"
  shows "\<exists>permit q. acquire_root (we_pool env) (directory_pool (we_pool env) opts) = (Ok permit, q) \<and>
    granted (we_pool env) opts permit \<and>
    (case lo_max_open_directories opts of
       None \<Rightarrow> q = None
     | Some lim \<Rightarrow> \<exists>q'. q = Some q' \<and> mp_available (we_pool env) q' + slot (we_pool env) permit = lim)"
proof (cases "lo_max_open_directories opts")
  case None
  then show ?thesis
    by (simp add: acquire_root_def directory_pool_def granted_def slot_def)
next
  case (Some lim)
  let ?q = "mp_new (we_pool env) OpenDirectory lim"
  have lim: "mp_available (we_pool env) ?q = lim" "1 \<le> lim"
    using pool assms Some by (auto simp: pool_laws_def)
  then obtain t q' where "mp_try_acquire (we_pool env) ?q 1 = (Ok t, q')" "mp_amount (we_pool env) t = 1"
      "mp_available (we_pool env) q' = lim - 1"
    using pool by (metis pool_laws_def)
  then show ?thesis
    using Some lim by (auto simp: acquire_root_def directory_pool_def granted_def slot_def)
qed

lemma open_inv:
  assumes "open_with_diagnostic env backend root opts policy started w = (Ok s, w')"
  shows "walk_inv env opts 0 0 0 s \<and> wk_root s = root"
proof -
  have valid: "lo_max_open_directories opts \<noteq> Some 0"
    using assms by (auto simp: open_with_diagnostic_def validate_options_def bind_def answer_def)
  obtain permit q where q: "acquire_root (we_pool env) (directory_pool (we_pool env) opts) = (Ok permit, q)"
      "granted (we_pool env) opts permit"
      "case lo_max_open_directories opts of
         None \<Rightarrow> q = None
       | Some lim \<Rightarrow> \<exists>q'. q = Some q' \<and> mp_available (we_pool env) q' + slot (we_pool env) permit = lim"
    using acquire_root_ok [OF valid] by blast
  obtain deadline entries identity where s: "s = opened_walker env backend root opts policy deadline q permit entries identity w'"
    using assms q(1)
    by (auto simp: open_with_diagnostic_def bind_def answer_def or_fail_def fail_def
        native_directory_identity_def split: prod.splits result.splits if_splits)
  have budgets: "budget_ok (we_budget env) lim (map_option (rb_new (we_budget env) k) lim) 0" for lim k
    using budget by (auto simp: budget_ok_def budget_laws_def split: option.split)
  show ?thesis
    unfolding s using q(2,3) budgets
    by (auto simp: walk_inv_def opened_walker_def Let_def new_frame_def frame_at_def pool_ok_def
        identities_Cons identities_def map_filter_simps drop_permit_def granted_def slot_def held_slots_def paid_def
        release_available split: option.splits if_splits intro!: exI [of _ "[]"])
qed

lemma bind_current_directory_inv [simp]:
  "walk_inv env opts x n b (bind_current_directory cwd s) = walk_inv env opts x n b s"
  by (simp add: walk_inv_def bind_current_directory_def)

lemma terminated_items:
  assumes "wk_terminated s"
  shows "walk_items env rf fuel k s = (replicate k (Ok Finished), s)"
  using assms
  by (induction k) (simp_all add: walker_next_def next_entry_def bind_def gets_def ret_def)

lemma fail_fast_items:
  assumes "walk_inv env opts 0 n b s" and "lo_error_policy opts = FailFast"
    and "walk_items env rf fuel k s = (xs @ Err e # ys, s')"
  shows "set ys \<subseteq> {Ok Finished}"
  using assms(1,3)
proof (induction xs arbitrary: k n b s)
  case Nil
  then obtain k' s1 where k: "k = Suc k'" "walker_next env rf fuel s = (Err e, s1)"
      "walk_items env rf fuel k' s1 = (ys, s')"
    by (cases k) (auto split: prod.splits)
  then have "wk_terminated s1"
    using outcomeD(2) [OF walker_next_inv [OF Nil.prems(1)]] assms(2) by (fastforce simp: failed_at_def)
  with k(3) terminated_items show ?case by auto
next
  case (Cons x xs)
  then obtain k' s1 where k: "k = Suc k'" "walker_next env rf fuel s = (x, s1)"
      "walk_items env rf fuel k' s1 = (xs @ Err e # ys, s')"
    by (cases k) (auto split: prod.splits)
  have "\<exists>n b. walk_inv env opts 0 n b s1"
    using walk_items_inv [OF Cons.prems(1), of rf fuel 1 "[x]" s1] k(2) by auto
  with Cons.IH k(3) show ?case by blast
qed

end

end
