(* ===== verification/Walk_Static.thy ===== *)
theory Walk_Static
  imports Walk_Invariant Host_Files "HOL-Library.Sublist"
begin

text \<open>
  The Host walker on the quiescent namespace of \<open>Host_Files\<close>. The locale \<open>static_walk\<close> fixes a world whose
  directories have different inode numbers; a walker there owes, for every directory on its stack, a suffix of
  the directory's entries, whether its reader is open or was closed to free a slot. Each turn of the walker's
  loop pays the next owed entry or pops a directory that owes nothing, so that a whole run is \<open>listing\<close>.
\<close>

section \<open>The calls of a walker on the host namespace\<close>

definition names_of :: "path \<Rightarrow> host_path" where
  "names_of p = filter (\<lambda>c. c \<noteq> []) (split_slash p)"

definition node_mode :: "node \<Rightarrow> u32" where
  "node_mode n = (case n of FileNode _ \<Rightarrow> s_ifreg | LinkNode _ \<Rightarrow> s_iflnk | DirNode _ \<Rightarrow> s_ifdir)"

definition node_stat :: "u64 \<Rightarrow> node \<Rightarrow> native_stat" where
  "node_stat ino n =
     \<lparr>ns_mode = node_mode n, ns_size = (case n of FileNode c \<Rightarrow> int (length c) | _ \<Rightarrow> 0),
      ns_atime = 0, ns_atime_nsec = 0, ns_mtime = 0, ns_mtime_nsec = 0, ns_btime = None,
      ns_dev = 1, ns_ino = ino\<rparr>"

definition host_stat :: "(host_path \<Rightarrow> u64) \<Rightarrow> path \<Rightarrow> (host_world, native_stat) native" where
  "host_stat ino p w =
     (case symlink_metadata (names_of p) w of
        (Ok n, w') \<Rightarrow> (Ok (node_stat (ino (names_of p)) n), w')
      | (Err e, w') \<Rightarrow> (Err e, w')
      | (Panic, w') \<Rightarrow> (Panic, w'))"

text \<open>The links of this namespace lead nowhere.\<close>

definition host_follow :: "(host_path \<Rightarrow> u64) \<Rightarrow> path \<Rightarrow> (host_world, native_stat) native" where
  "host_follow ino p =
     bind (host_stat ino p) (\<lambda>st. if is_type s_iflnk st then fail (io_error_of IoNotFound) else ret st)"

text \<open>A name that is no component of a path is reported as a corrupt directory.\<close>

fun host_next_name :: "name list \<Rightarrow> host_world \<Rightarrow> (name option, io_error) result \<times> name list \<times> host_world" where
  "host_next_name [] w = (Ok None, [], w)"
| "host_next_name (x # xs) w =
     (if entry_name_ok x then Ok (Some x) else Err (io_error_of IoInvalidData), xs, w)"

definition host_walk_calls :: "(host_path \<Rightarrow> u64) \<Rightarrow> (host_world, name list) walk_calls" where
  "host_walk_calls ino =
     \<lparr>wc_symlink_metadata = host_stat ino,
      wc_metadata = host_follow ino,
      wc_read_dir = (\<lambda>p. read_dir (names_of p)),
      wc_next = host_next_name,
      wc_now = host_now,
      wc_latest = usize_max\<rparr>"

fun listing :: "list_options \<Rightarrow> host_path \<Rightarrow> (name \<times> node) list \<Rightarrow> (host_path \<times> node) list" where
  "listing opts names [] = []"
| "listing opts names ((x, n) # es) =
     (names @ [x], n) #
     (case n of
        DirNode cs \<Rightarrow> if may_descend opts (Suc (length names)) then listing opts (names @ [x]) cs else []
      | _ \<Rightarrow> []) @ listing opts names es"

lemma split_slash_append_slash: "split_slash (p @ 47 # q) = split_slash p @ split_slash q"
  by (induction p) (auto split: list.split)

lemma names_of_append: "names_of (p @ 47 # q) = names_of p @ names_of q"
  by (simp add: names_of_def split_slash_append_slash)

lemma names_of_join: "list_all entry_name_ok ns \<Longrightarrow> names_of (join_slash ns) = ns"
  by (cases "ns = []")
    (auto simp: names_of_def split_join_names list_all_iff entry_name_ok_def intro!: filter_True)

lemma join_slash_relative: "list_all entry_name_ok ns \<Longrightarrow> \<not> is_absolute (join_slash ns)"
  by (cases ns rule: join_slash.cases)
    (auto simp: is_absolute_def entry_name_ok_def neq_Nil_conv split: list.splits)

lemma names_of_path_join:
  assumes "list_all entry_name_ok ns"
  shows "names_of (path_join r (join_slash ns)) = names_of r @ ns"
proof -
  have plain: "names_of (join_slash ns) = ns"
    by (rule names_of_join [OF assms])
  show ?thesis
  proof (cases "r = [] \<or> last r \<noteq> 47")
    case True
    then show ?thesis
      using join_slash_relative [OF assms] plain
      by (auto simp: path_join_def names_of_append) (simp_all add: names_of_def)
  next
    case False
    then obtain r' where r': "r = r' @ [47]"
      by (metis append_butlast_last_id)
    then have "names_of r = names_of r'"
      using names_of_append [of r' "[]"] by (simp add: names_of_def)
    then show ?thesis
      using r' join_slash_relative [OF assms] plain names_of_append [of r' "join_slash ns"]
      by (simp add: path_join_def)
  qed
qed

lemma path_join_join:
  assumes "list_all entry_name_ok ns" and "entry_name_ok x" and "ns \<noteq> []"
  shows "path_join (path_join r (join_slash ns)) x = path_join r (join_slash (ns @ [x]))"
proof -
  have "\<not> is_absolute x"
    using assms(2) by (cases x) (auto simp: entry_name_ok_def is_absolute_def)
  moreover have "list_all entry_name_ok (ns @ [x])"
    using assms by simp
  then have "\<not> is_absolute (join_slash ns @ 47 # x)"
    using join_slash_relative [of "ns @ [x]"] assms(3) by (simp add: join_names_snoc)
  ultimately show ?thesis
    using join_slash_relative [OF assms(1)] assms join_names_last [OF assms(3,1)]
    by (auto simp: path_join_def join_names_snoc)
qed

lemma path_join_empty_join:
  assumes "entry_name_ok x"
  shows "path_join (path_join r []) x = path_join r x"
proof -
  have "\<not> is_absolute x"
    using assms by (cases x) (auto simp: entry_name_ok_def is_absolute_def)
  then show ?thesis
    by (simp add: path_join_def is_absolute_def)
qed


definition host_walk_env ::
  "'b resource_budget \<Rightarrow> ('q, 't) permit_pool \<Rightarrow> (host_path \<Rightarrow> u64) \<Rightarrow> (name list, 't, 'b, 'q, host_world) walk_env" where
  "host_walk_env rb mp ino = \<lparr>we_calls = host_walk_calls ino, we_budget = rb, we_pool = mp\<rparr>"

lemma host_walk_env_simps [simp]:
  "we_calls (host_walk_env rb mp ino) = host_walk_calls ino"
  "we_budget (host_walk_env rb mp ino) = rb" "we_pool (host_walk_env rb mp ino) = mp"
  by (simp_all add: host_walk_env_def)

lemma node_types [simp]:
  "is_type s_ifdir (node_stat i n) \<longleftrightarrow> is_dir n" "is_type s_iflnk (node_stat i n) \<longleftrightarrow> (\<exists>t. n = LinkNode t)"
  by (cases n; simp add: is_type_def node_stat_def node_mode_def is_dir_def s_ifmt_def s_ifdir_def s_ifreg_def
      s_iflnk_def)+

lemma host_stat_returns: "fst (host_stat ino p w) \<noteq> Panic"
  by (simp add: host_stat_def symlink_metadata_def split: option.split)

lemma host_follow_returns: "fst (host_follow ino p w) \<noteq> Panic"
  using host_stat_returns [of ino p w]
  by (auto simp: host_follow_def bind_def fail_def ret_def split: prod.splits result.splits)

lemma host_next_name_returns:
  "fst (host_next_name r w) \<noteq> Panic" "fst (host_next_name r w) = Ok (Some x) \<Longrightarrow> entry_name_ok x"
  by (cases r; auto split: if_splits)+

lemma host_calls_return: "calls_return (host_walk_calls ino)"
  by (auto simp: calls_return_def host_walk_calls_def host_stat_returns host_follow_returns read_dir_def
      host_next_name_returns split: option.splits node.splits)

text \<open>The entry that a walker yields for the node with the given names below its root.\<close>

definition host_entry :: "(host_path \<Rightarrow> u64) \<Rightarrow> path \<Rightarrow> path \<Rightarrow> host_path \<times> node \<Rightarrow> directory_entry" where
  "host_entry ino base root e =
     directory_entry_new (path_join root (join_slash (fst e))) (join_slash (fst e))
       (Some (path_join base (join_slash (fst e))))
       (file_metadata_from_native (node_stat (ino (names_of base @ fst e)) (snd e)))"

lemma host_calls [simp]:
  "wc_symlink_metadata (host_walk_calls ino) = host_stat ino"
  "wc_read_dir (host_walk_calls ino) p = read_dir (names_of p)"
  "wc_next (host_walk_calls ino) = host_next_name"
  by (simp_all add: host_walk_calls_def)

lemma host_stat_at:
  "lookup (hw_root w) (names_of p) = Some n \<Longrightarrow> host_stat ino p w = (Ok (node_stat (ino (names_of p)) n), w)"
  by (simp add: host_stat_def symlink_metadata_def)

lemma read_dir_at:
  "lookup (hw_root w) q = Some (DirNode es) \<Longrightarrow> read_dir q w = (Ok (map fst es), w)"
  by (simp add: read_dir_def)

lemma identity_node [simp]: "identity_from_metadata (node_stat i n) p = NativeDirectory 1 i"
  by (simp add: identity_from_metadata_def node_stat_def)

lemma host_open:
  assumes "lookup (hw_root w) (names_of base) = Some (DirNode es)" and "lo_max_open_directories opts \<noteq> Some 0"
    and "lo_deadline opts = None" and "acquire_root mp (directory_pool mp opts) = (Ok permit, pool)"
  shows "open_with_diagnostic (host_walk_env rb mp ino) base root opts policy started w =
    (Ok (opened_walker (host_walk_env rb mp ino) base root opts policy None pool permit (map fst es)
           (NativeDirectory 1 (ino (names_of base))) w), w)"
  using assms
  by (simp add: open_with_diagnostic_def validate_options_def walker_deadline_def answer_def bind_def or_fail_def
      host_stat_at is_dir_def native_directory_identity_def read_dir_at)

section \<open>Stacks as lists of what they owe\<close>

text \<open>
  A directory on the active path is described by the names of its path below the root, its entries and
  those of them that are still to be listed.
\<close>

type_synonym owed = "host_path \<times> (name \<times> node) list \<times> (name \<times> node) list"

fun proper_tree :: "node \<Rightarrow> bool" where
  "proper_tree (DirNode es) =
     (distinct (map fst es) \<and> list_all (\<lambda>e. entry_name_ok (fst e) \<and> proper_tree (snd e)) es)"
| "proper_tree _ = True"

locale static_walk =
  fixes rb :: "'b resource_budget" and mp :: "('q, 't) permit_pool" and ino :: "host_path \<Rightarrow> u64"
    and world :: host_world and base :: path and opts :: list_options and read_fuel :: nat
  assumes budget: "budget_laws rb" and pool: "pool_laws mp"
    and inodes: "inj_on ino {p. \<exists>es. lookup (hw_root world) p = Some (DirNode es)}"
    and slots: "lo_max_open_directories opts \<noteq> Some 0"
    and policy: "lo_reopen_policy opts = Reopen \<or> lo_max_open_directories opts = None"
    and unlimited: "lo_max_entries opts = None" "lo_max_seen_name_bytes opts = None" "lo_deadline opts = None"
begin

abbreviation env where "env \<equiv> host_walk_env rb mp ino"

definition reads_from :: "host_path \<Rightarrow> path \<Rightarrow> bool" where
  "reads_from names dir \<longleftrightarrow> dir = path_join base (join_slash names) \<or> (names = [] \<and> dir = base)"

fun owes :: "owed \<Rightarrow> (name list, 't) walk_frame \<Rightarrow> bool" where
  "owes (names, es, cs) f \<longleftrightarrow>
     wf_relative f = join_slash names \<and> wf_entry_depth f = Suc (length names) \<and>
     wf_identity f = Some (NativeDirectory 1 (ino (names_of base @ names))) \<and>
     list_all entry_name_ok names \<and>
     lookup (hw_root world) (names_of base @ names) = Some (DirNode es) \<and> proper_tree (DirNode es) \<and>
     length es < read_fuel \<and> fanout_below read_fuel (DirNode es) \<and> suffix cs es \<and>
     (case wf_seen f of
        None \<Rightarrow> (\<exists>dir. wf_entries f = Some (dir, map fst cs) \<and> reads_from names dir)
      | Some seen \<Rightarrow>
          filter (\<lambda>x. x \<notin> set seen) (map fst es) = map fst cs \<and>
          (case wf_entries f of
             None \<Rightarrow> True
           | Some (dir, r) \<Rightarrow>
               filter (\<lambda>x. x \<notin> set seen) r = map fst cs \<and> length r < read_fuel \<and>
               list_all entry_name_ok r \<and> reads_from names dir))"

definition holds :: "owed list \<Rightarrow> (name list, 't, 'b, 'q, host_world) walk_state \<Rightarrow> bool" where
  "holds os s \<longleftrightarrow>
     walk_inv env opts 0 0 0 s \<and> list_all2 owes os (wk_stack s) \<and> wk_backend_root s = base \<and>
     wk_symlink_policy s = SymlinkReject \<and> wk_deadline s = None \<and> wk_terminated s = False \<and> ws_world s = world"

end

sublocale static_walk \<subseteq> walk_host "host_walk_env rb mp ino"
proof unfold_locales
  show "budget_laws (we_budget env)" "pool_laws (we_pool env)"
    using budget pool by simp_all
  show "calls_return (we_calls env)"
    by (simp add: host_calls_return)
qed

context static_walk
begin

lemma acquire_ok:
  assumes inv: "walk_inv env opts 0 n b s"
    and seen: "lo_max_open_directories opts \<noteq> None \<Longrightarrow> needs_seen_names opts"
  obtains permit s' where "acquire_host_directory mp p s = (Ok permit, s')"
    "walk_inv env opts (slot mp permit) n b s'" "granted mp opts permit" "same_shape s s'"
    "ws_world s' = ws_world s"
proof -
  have "\<exists>permit s'. acquire_host_directory mp p s = (Ok permit, s') \<and> ws_world s' = ws_world s"
  proof (cases "lo_max_open_directories opts")
    case None
    with inv show ?thesis
      by (simp add: acquire_host_directory_def walk_inv_def pool_ok_def bind_def gets_def ret_def)
  next
    case (Some lim)
    with inv obtain q where q: "wk_pool s = Some q" and opt: "wk_options s = opts"
      by (auto simp: walk_inv_def pool_ok_def)
    from policy Some have reopen: "lo_reopen_policy opts = Reopen" by simp
    obtain q1 where q1: "wk_pool (close_all_host_frames mp s) = Some q1" "mp_available mp q1 = lim"
      using close_all_inv(3) [OF inv seen q] Some by auto
    have w: "ws_world (close_all_host_frames mp s) = ws_world s"
      by (simp add: close_all_host_frames_def split: prod.split)
    show ?thesis
    proof (cases rule: acquire_slot_cases [OF q])
      case (1 t q')
      then show ?thesis
        using q opt by (simp add: acquire_host_directory_def bind_def gets_def caught_def ret_def)
    next
      case (2 e)
      note first = this
      show ?thesis
      proof (cases rule: acquire_slot_cases [OF q1(1)])
        case (1 t q')
        then show ?thesis
          using first q opt reopen w
          by (simp add: acquire_host_directory_def bind_def gets_def caught_def ret_def seq_def modify_def
              or_fail_def)
      next
        case (2 e')
        with q1 slots Some show ?thesis by simp
      qed
    qed
  qed
  then obtain permit s' where "acquire_host_directory mp p s = (Ok permit, s')" "ws_world s' = ws_world s"
    by blast
  then show thesis
    using outcomeD [OF acquire_inv [OF inv, of p]] seen that by (metis host_walk_env_simps(3))
qed

lemma owes_closed: "owes d f \<Longrightarrow> wf_seen f \<noteq> None \<Longrightarrow> owes d (closed_frame f)"
  by (cases d) (auto simp: closed_frame_def split: option.splits)

lemma frames_at_closed_seen: "frames_at opts fs \<Longrightarrow> f \<in> set fs \<Longrightarrow> wf_entries f = None \<Longrightarrow> wf_seen f \<noteq> None"
  by (induction fs) (auto simp: frame_at_def)

lemma owes_same_shape:
  assumes "list_all2 owes os (wk_stack s)" and "same_shape s s'" and "frames_at opts (wk_stack s')"
  shows "list_all2 owes os (wk_stack s')"
proof -
  have rel: "list_all2 (\<lambda>f f'. f' = f \<or> f' = closed_frame f) (wk_stack s) (wk_stack s')"
    using assms(2) by (simp add: same_shape_def)
  show ?thesis
  proof (rule list_all2_all_nthI)
    show "length os = length (wk_stack s')"
      using list_all2_lengthD [OF assms(1)] list_all2_lengthD [OF rel] by simp
  next
    fix i
    assume i: "i < length os"
    then have own: "owes (os ! i) (wk_stack s ! i)"
      and step: "wk_stack s' ! i = wk_stack s ! i \<or> wk_stack s' ! i = closed_frame (wk_stack s ! i)"
      and mem: "wk_stack s' ! i \<in> set (wk_stack s')"
      using assms(1) rel list_all2_lengthD [OF assms(1)] list_all2_lengthD [OF rel]
      by (auto simp: list_all2_conv_all_nth)
    show "owes (os ! i) (wk_stack s' ! i)"
    proof (cases "wk_stack s' ! i = wk_stack s ! i")
      case False
      with step have closed: "wk_stack s' ! i = closed_frame (wk_stack s ! i)" by blast
      then have "wf_seen (wk_stack s ! i) \<noteq> None"
        using frames_at_closed_seen [OF assms(3) mem] by (simp add: closed_frame_def)
      with closed own owes_closed show ?thesis by simp
    qed (use own in simp)
  qed
qed

lemma reopen_ok:
  assumes h: "holds ((names, es, cs) # os) s" and top: "wk_stack s = f # fs" "wf_entries f = None"
  obtains s' f' fs' where "reopen_host_frame env (wf_relative f) s = (Ok (), s')"
    "holds ((names, es, cs) # os) s'" "wk_stack s' = f' # fs'" "wf_entries f' \<noteq> None" "walk_kept s s'"
proof -
  let ?dir = "path_join base (join_slash names)"
  have inv: "walk_inv env opts 0 0 0 s" and owe: "owes (names, es, cs) f" "list_all2 owes os fs"
    and k: "wk_backend_root s = base" "wk_symlink_policy s = SymlinkReject" "wk_deadline s = None"
      "\<not> wk_terminated s" "ws_world s = world"
    using h top by (simp_all add: holds_def del: owes.simps)
  have seen: "needs_seen_names opts"
    using inv top by (auto simp: walk_inv_def frame_at_def)
  have dir: "names_of ?dir = names_of base @ names" "lookup (hw_root world) (names_of ?dir) = Some (DirNode es)"
    using owe(1) by (simp_all add: names_of_path_join)
  obtain permit s1 where s1: "acquire_host_directory mp ?dir s = (Ok permit, s1)"
      "walk_inv env opts (slot mp permit) 0 0 s1" "same_shape s s1" "ws_world s1 = world"
    using acquire_ok [OF inv, of ?dir] seen k by metis
  obtain f1 fs1 where f1: "wk_stack s1 = f1 # fs1" "f1 = f \<or> f1 = closed_frame f"
    using s1(3) top by (auto simp: same_shape_def list_all2_Cons1)
  have owe1: "list_all2 owes ((names, es, cs) # os) (wk_stack s1)"
    using owe top s1 by (intro owes_same_shape [OF _ s1(3)]) (auto simp: walk_inv_def simp del: owes.simps)
  let ?f = "f1\<lparr>wf_entries := Some (?dir, map fst es), wf_permit := permit\<rparr>"
  let ?s = "s1\<lparr>wk_stack := ?f # fs1\<rparr>"
  have same: "s\<lparr>ws_world := world\<rparr> = s" "s1\<lparr>ws_world := world\<rparr> = s1"
    using k(5) s1(4) by (auto intro: walk_state.equality)
  have eq: "reopen_host_frame env (wf_relative f) s = (Ok (), ?s)"
    using k owe(1) top s1 f1 dir
    by (simp add: same reopen_host_frame_def Let_def bind_def gets_def or_fail_def on_files_def answer_def
        native_directory_identity_def host_stat_at read_dir_at symlink_follows_def is_dir_def top_identity_def
        install_reader_def)
  have "reading opts 0 0 s ?s"
    using outcomeD(1) [OF reopen_inv [OF inv top] eq] .
  then have inv': "walk_inv env opts 0 0 0 ?s" "walk_kept s ?s"
    by (simp_all add: reading_def)
  have "owes (names, es, cs) ?f"
    using owe1 f1 top inv owe(1)
    by (auto simp: reads_from_def closed_frame_def walk_inv_def frame_at_def list_all_iff split: option.splits)
  then have "holds ((names, es, cs) # os) ?s"
    using inv' k s1(3,4) owe1 f1(1)
    by (simp add: holds_def same_shape_def del: owes.simps)
  then show thesis
    using eq inv'(2) by (intro that [of ?s ?f fs1]) simp_all
qed

definition fresh :: "(name list, 't) walk_frame \<Rightarrow> name \<Rightarrow> bool" where
  "fresh f x = (case wf_seen f of None \<Rightarrow> True | Some seen \<Rightarrow> x \<notin> set seen)"

lemma read_one:
  fixes s :: "(name list, 't, 'b, 'q, host_world) walk_state"
  assumes "wk_deadline s = None" and "wk_stack s = f # fs" and "wf_entries f = Some (dir, y # r)"
    and "entry_name_ok y"
  shows "read_unseen env (Suc fuel) s =
    (if fresh f y
     then (Ok (ReadEntry dir y), s\<lparr>wk_stack := f\<lparr>wf_entries := Some (dir, r),
             wf_seen := map_option (List.insert y) (wf_seen f)\<rparr> # fs\<rparr>)
     else read_unseen env fuel (s\<lparr>wk_stack := f\<lparr>wf_entries := Some (dir, r)\<rparr> # fs\<rparr>))"
proof -
  have known: "f\<lparr>wf_entries := e, wf_seen := Some seen\<rparr> = f\<lparr>wf_entries := e\<rparr>" if "wf_seen f = Some seen" for e seen
    using that by (auto intro: walk_frame.equality)
  show ?thesis
    using assms
    by (cases "wf_seen f")
      (auto simp: seq_def bind_def check_walk_deadline_def read_top_def insert_seen_def fresh_def known)
qed

lemma read_fresh:
  fixes s :: "(name list, 't, 'b, 'q, host_world) walk_state"
  assumes "wk_deadline s = None" and "wk_stack s = f # fs" and "wf_entries f = Some (dir, r)"
    and "list_all entry_name_ok r" and "length r < fuel" and "filter (fresh f) r = x # xs"
  shows "\<exists>r'. read_unseen env fuel s = (Ok (ReadEntry dir x), s\<lparr>wk_stack := f\<lparr>wf_entries := Some (dir, r'),
             wf_seen := map_option (List.insert x) (wf_seen f)\<rparr> # fs\<rparr>) \<and>
    filter (fresh f) r' = xs \<and> suffix r' r"
  using assms
proof (induction r arbitrary: fuel s f)
  case (Cons y r)
  obtain k where k: "fuel = Suc k" using Cons.prems(5) by (cases fuel) auto
  note one = read_one [OF Cons.prems(1-3), of k]
  show ?case
  proof (cases "fresh f y")
    case True
    with Cons.prems one k show ?thesis by (auto intro!: exI [of _ r] suffix_ConsI)
  next
    case False
    let ?f = "f\<lparr>wf_entries := Some (dir, r)\<rparr>"
    have same: "fresh ?f = fresh f"
      by (simp add: fresh_def fun_eq_iff)
    from Cons.IH [of "s\<lparr>wk_stack := ?f # fs\<rparr>" ?f k] False Cons.prems k
    obtain r' where "read_unseen env k (s\<lparr>wk_stack := ?f # fs\<rparr>) = (Ok (ReadEntry dir x),
        s\<lparr>wk_stack := ?f\<lparr>wf_entries := Some (dir, r'), wf_seen := map_option (List.insert x) (wf_seen ?f)\<rparr> # fs\<rparr>)"
      "filter (fresh f) r' = xs" "suffix r' r"
      by (auto simp: same)
    with False Cons.prems one k show ?thesis
      by (auto intro!: exI [of _ r'] suffix_ConsI)
  qed
qed simp

lemma read_end:
  fixes s :: "(name list, 't, 'b, 'q, host_world) walk_state"
  assumes "wk_deadline s = None" and "wk_stack s = f # fs" and "wf_entries f = Some (dir, r)"
    and "list_all entry_name_ok r" and "length r < fuel" and "filter (fresh f) r = []"
  shows "read_unseen env fuel s = (Ok ReadEnd, s\<lparr>wk_stack := f\<lparr>wf_entries := Some (dir, [])\<rparr> # fs\<rparr>)"
  using assms
proof (induction r arbitrary: fuel s f)
  case Nil
  then obtain k where "fuel = Suc k" by (cases fuel) auto
  with Nil show ?case
    by (simp add: seq_def bind_def check_walk_deadline_def read_top_def ret_def)
next
  case (Cons y r)
  obtain k where k: "fuel = Suc k" using Cons.prems(5) by (cases fuel) auto
  let ?f = "f\<lparr>wf_entries := Some (dir, r)\<rparr>"
  have same: "fresh ?f = fresh f"
    by (simp add: fresh_def fun_eq_iff)
  from Cons.IH [of "s\<lparr>wk_stack := ?f # fs\<rparr>" ?f k] Cons.prems k read_one [OF Cons.prems(1-3), of k]
  show ?case by (auto simp: same split: if_splits)
qed

text \<open>The directory that listing an entry opens.\<close>

definition entered :: "host_path \<Rightarrow> name \<Rightarrow> node \<Rightarrow> owed list" where
  "entered names x n =
     (case n of
        DirNode cs \<Rightarrow> if may_descend opts (Suc (length names)) then [(names @ [x], cs, cs)] else []
      | _ \<Rightarrow> [])"

lemma frames_depth:
  "frames_at opts fs \<Longrightarrow> f \<in> set fs \<Longrightarrow> wf_entry_depth f \<le> length fs"
  by (induction fs) (auto simp: frame_at_def)

lemma identities_set: "i \<in> set (identities fs) \<longleftrightarrow> (\<exists>f \<in> set fs. wf_identity f = Some i)"
  by (force simp: identities_def map_filter_def)

lemma fresh_identity:
  assumes h: "holds ((names, es, cs) # os) s"
    and child: "lookup (hw_root world) (names_of base @ names @ [x]) = Some (DirNode ds)"
  shows "NativeDirectory 1 (ino (names_of base @ names @ [x])) \<notin> set (wk_followed s)"
proof
  assume "NativeDirectory 1 (ino (names_of base @ names @ [x])) \<in> set (wk_followed s)"
  then obtain f where f: "f \<in> set (wk_stack s)"
      "wf_identity f = Some (NativeDirectory 1 (ino (names_of base @ names @ [x])))"
    using h by (auto simp: holds_def walk_inv_def identities_set)
  then obtain i where i: "i < length (wk_stack s)" "f = wk_stack s ! i"
    by (metis in_set_conv_nth)
  obtain names' es' cs' where o': "((names, es, cs) # os) ! i = (names', es', cs')"
    by (cases "((names, es, cs) # os) ! i")
  have "list_all2 owes ((names, es, cs) # os) (wk_stack s)"
    using h by (simp add: holds_def del: owes.simps)
  then have own: "owes (names', es', cs') f"
    using i o' by (auto simp: list_all2_conv_all_nth simp del: owes.simps)
  have "wf_entry_depth f \<le> length (wk_stack s)" and top: "length (wk_stack s) = Suc (length names)"
    using h f(1) frames_depth
    by (auto simp: holds_def walk_inv_def frame_at_def list_all2_Cons1)
  with own have "names' \<noteq> names @ [x]"
    by auto
  moreover have "ino (names_of base @ names') = ino (names_of base @ names @ [x])"
    using own f(2) by simp
  ultimately show False
    using inodes child own by (auto simp: inj_on_def)
qed

lemma may_descend_seen:
  "may_descend opts (Suc d) \<Longrightarrow> lo_max_open_directories opts \<noteq> None \<Longrightarrow> needs_seen_names opts"
  using policy by (auto simp: may_descend_def needs_seen_names_def Let_def split: option.splits)

lemma descend_ok:
  assumes h: "holds ((names, es, cs) # os) s" and d: "may_descend opts (Suc (length names))"
    and child: "lookup (hw_root world) (names_of base @ names @ [x]) = Some (DirNode ds)"
    and names: "list_all entry_name_ok (names @ [x])"
    and tree: "proper_tree (DirNode ds)" "length ds < read_fuel" "fanout_below read_fuel (DirNode ds)"
  obtains s' where "descend env (path_join base (join_slash (names @ [x])))
      (node_stat (ino (names_of base @ names @ [x])) (DirNode ds)) (join_slash (names @ [x])) (Suc (length names)) s =
      (Ok (), s')" "holds ((names @ [x], ds, ds) # (names, es, cs) # os) s'"
proof -
  let ?p = "path_join base (join_slash (names @ [x]))" and ?i = "NativeDirectory 1 (ino (names_of base @ names @ [x]))"
  have inv: "walk_inv env opts 0 0 0 s" and owe: "list_all2 owes ((names, es, cs) # os) (wk_stack s)"
    and k: "wk_backend_root s = base" "wk_symlink_policy s = SymlinkReject" "wk_deadline s = None"
      "\<not> wk_terminated s" "ws_world s = world"
    using h by (simp_all add: holds_def del: owes.simps)
  have stack: "length (wk_stack s) = Suc (length names)"
    using inv owe by (auto simp: walk_inv_def frame_at_def list_all2_Cons1)
  have fresh: "?i \<notin> set (wk_followed s)"
    by (rule fresh_identity [OF h child])
  have p: "names_of ?p = names_of base @ names @ [x]"
    using names names_of_path_join [of "names @ [x]" base] by simp
  obtain permit s1 where s1: "acquire_host_directory mp ?p s = (Ok permit, s1)"
      "walk_inv env opts (slot mp permit) 0 0 s1" "same_shape s s1" "ws_world s1 = world"
    using acquire_ok [OF inv, of ?p] may_descend_seen [OF d] k by metis
  let ?f = "new_frame opts (?p, map fst ds) permit (join_slash (names @ [x])) ?i (Suc (length names) + 1)"
  let ?s = "push_frame ?f ?i s1"
  have same: "s1\<lparr>ws_world := world\<rparr> = s1"
    using s1(4) by (auto intro: walk_state.equality)
  have eq: "descend env ?p (node_stat (ino (names_of base @ names @ [x])) (DirNode ds)) (join_slash (names @ [x]))
      (Suc (length names)) s = (Ok (), ?s)"
    using fresh s1 inv child p
    by (simp add: same descend_def native_directory_identity_def answer_def bind_def gets_def or_fail_def
        on_files_def read_dir_at modify_def walk_inv_def)
  have inv': "walk_inv env opts 0 0 0 ?s"
    using outcomeD(1) [OF descend_inv [OF inv stack _ names] eq] d by simp
  have "owes (names @ [x], ds, ds) ?f"
    using names child tree
    by (auto simp: new_frame_def reads_from_def list_all_iff split: option.splits)
  moreover have "list_all2 owes ((names, es, cs) # os) (wk_stack s1)"
    using owe s1 by (intro owes_same_shape [OF _ s1(3)]) (auto simp: walk_inv_def simp del: owes.simps)
  ultimately have "holds ((names @ [x], ds, ds) # (names, es, cs) # os) ?s"
    using inv' k s1(3,4) by (simp add: holds_def same_shape_def push_frame_def del: owes.simps)
  then show thesis
    using eq by (rule that [rotated])
qed

lemma reads_from_join:
  "reads_from names dir \<Longrightarrow> list_all entry_name_ok names \<Longrightarrow> entry_name_ok x \<Longrightarrow>
   path_join dir x = path_join base (join_slash (names @ [x]))"
  by (cases "names = []") (auto simp: reads_from_def path_join_join path_join_empty_join)

lemma child_at:
  assumes "lookup (hw_root world) (names_of base @ names) = Some (DirNode es)" and "distinct (map fst es)"
    and "(x, n) \<in> set es"
  shows "lookup (hw_root world) (names_of base @ names @ [x]) = Some n"
  using lookup_child [OF assms(1), of x] assms(2,3) by (simp add: map_of_eq_Some_iff)

lemma visit_ok:
  assumes h: "holds ((names, es, cs) # os) s" and dir: "reads_from names dir" and x: "(x, n) \<in> set es"
  obtains s' where "visit_entry env (join_slash names) (Suc (length names)) dir x s =
      (Ok (Yields (host_entry ino base (wk_root s) (names @ [x], n))), s')"
    "holds (entered names x n @ (names, es, cs) # os) s'"
proof -
  let ?p = "path_join base (join_slash (names @ [x]))"
  obtain f fs where top: "wk_stack s = f # fs" and own: "owes (names, es, cs) f"
    using h by (auto simp: holds_def list_all2_Cons1 simp del: owes.simps)
  have inv: "walk_inv env opts 0 0 0 s"
    and k: "wk_symlink_policy s = SymlinkReject" "ws_world s = world" "wk_options s = opts"
    using h by (simp_all add: holds_def walk_inv_def del: owes.simps)
  have names: "list_all entry_name_ok (names @ [x])" and n: "proper_tree n" "fanout_below read_fuel n"
    using own x by (auto simp: list_all_iff)
  have here: "lookup (hw_root world) (names_of base @ names @ [x]) = Some n"
    using own x by (intro child_at) auto
  have p: "names_of ?p = names_of base @ names @ [x]" "path_join dir x = ?p"
      "path_join (join_slash names) x = join_slash (names @ [x])"
    using names names_of_path_join [of "names @ [x]" base] reads_from_join [OF dir] path_join_name
    by simp_all
  have budgets: "wk_entry_budget s = None" "wk_seen_name_budget s = None"
    using inv unlimited by (simp_all add: walk_inv_def budget_ok_def)
  have shallow: "\<not> beyond_depth opts (Suc (length names))"
    using inv top own frame_names [OF inv top]
    by (auto simp: walk_inv_def frame_at_def beyond_depth_def may_descend_def split: option.splits if_splits)
  have same: "s\<lparr>ws_world := world\<rparr> = s"
    using k(2) by (auto intro: walk_state.equality)
  have observed: "visit_entry env (join_slash names) (Suc (length names)) dir x s =
      seq (whenever (is_dir n \<and> may_descend opts (Suc (length names)))
             (or_fail (\<lambda>_ e. e) stop_on_error
               (descend env ?p (node_stat (ino (names_of base @ names @ [x])) n) (join_slash (names @ [x]))
                 (Suc (length names)))))
        (ret (Yields (host_entry ino base (wk_root s) (names @ [x], n)))) s"
    using k budgets shallow p here
    by (simp add: same visit_entry_def observe_entry_def bind_def gets_def seq_def charge_entry_def charge_name_def
        or_fail_def on_files_def host_stat_at symlink_follows_def ret_def host_entry_def Let_def)
  show thesis
  proof (cases "is_dir n \<and> may_descend opts (Suc (length names))")
    case True
    then obtain ds where ds: "n = DirNode ds" by (cases n) (auto simp: is_dir_def)
    obtain s' where "descend env ?p (node_stat (ino (names_of base @ names @ [x])) (DirNode ds))
          (join_slash (names @ [x])) (Suc (length names)) s = (Ok (), s')"
        "holds ((names @ [x], ds, ds) # (names, es, cs) # os) s'"
      using descend_ok [OF h _ _ names, of ds] True here n ds by auto
    then show thesis
      using that [of s'] observed True ds
      by (simp add: seq_def bind_def whenever_def or_fail_def ret_def entered_def)
  next
    case False
    then show thesis
      using that [of s] observed h
      by (auto simp: seq_def bind_def whenever_def ret_def entered_def is_dir_def simp del: owes.simps
          split: node.splits)
  qed
qed

lemma ready:
  assumes h: "holds ((names, es, cs) # os) s" and top: "wk_stack s = f # fs"
  obtains s' f' fs' dir r where
    "whenever (wf_entries f = None) (reopen_host_frame env (wf_relative f)) s = (Ok (), s')"
    "holds ((names, es, cs) # os) s'" "wk_stack s' = f' # fs'" "wf_entries f' = Some (dir, r)" "wk_root s' = wk_root s"
proof (cases "wf_entries f = None")
  case True
  obtain s' f' fs' where "reopen_host_frame env (wf_relative f) s = (Ok (), s')"
      "holds ((names, es, cs) # os) s'" "wk_stack s' = f' # fs'" "wf_entries f' \<noteq> None" "walk_kept s s'"
    using reopen_ok [OF h top True] by blast
  with True that [of s' f' fs'] show thesis
    by (auto simp: whenever_def walk_kept_def simp del: owes.simps)
next
  case False
  with that [of s f fs] h top show thesis
    by (auto simp: whenever_def ret_def simp del: owes.simps)
qed

lemma owed_reader:
  assumes "owes (names, es, cs) f" and "wf_entries f = Some (dir, r)"
  shows "filter (fresh f) r = map fst cs" "list_all entry_name_ok r" "length r < read_fuel" "reads_from names dir"
proof -
  have "set cs \<subseteq> set es" "length cs \<le> length es"
    using assms(1) by (auto dest: set_mono_suffix suffix_length_le)
  then show "filter (fresh f) r = map fst cs" "list_all entry_name_ok r" "length r < read_fuel" "reads_from names dir"
    using assms by (fastforce simp: fresh_def [abs_def] list_all_iff split: option.splits)+
qed

lemma owes_next:
  assumes own: "owes (names, es, (x, n) # cs) f" and r: "wf_entries f = Some (dir, r)"
    and r': "filter (fresh f) r' = map fst cs" "suffix r' r"
  shows "owes (names, es, cs) (f\<lparr>wf_entries := Some (dir, r'), wf_seen := map_option (List.insert x) (wf_seen f)\<rparr>)"
proof -
  have suffix: "suffix cs es" "x \<notin> set (map fst cs)"
  proof -
    from own obtain pre where pre: "es = pre @ (x, n) # cs" by (auto simp: suffix_def)
    then show "suffix cs es" by (simp add: suffix_def)
    from own pre show "x \<notin> set (map fst cs)" by auto
  qed
  have less: "filter (\<lambda>y. y \<noteq> x \<and> y \<notin> S) l = map fst cs"
    if "filter (\<lambda>y. y \<notin> S) l = x # map fst cs \<or> filter (\<lambda>y. y \<notin> S) l = map fst cs" for S l
  proof -
    have "filter (\<lambda>y. y \<noteq> x) (filter (\<lambda>y. y \<notin> S) l) = map fst cs"
      using that suffix(2) by (elim disjE; simp only:) (auto simp: filter_id_conv)
    then show ?thesis
      by (simp add: conj_commute)
  qed
  have "list_all entry_name_ok r'" "length r' < read_fuel"
    using owed_reader [OF own r] r'(2) by (auto simp: list_all_iff dest: set_mono_suffix suffix_length_le)
  then show ?thesis
    using own r r'(1) suffix less
    by (auto simp: fresh_def [abs_def] split: option.splits)
qed

lemma holds_top:
  assumes "holds ((names, es, cs) # os) s" and "wk_stack s = f # fs"
  shows "owes (names, es, cs) f" "list_all2 owes os fs" "walk_inv env opts 0 0 0 s" "wk_deadline s = None"
  using assms by (simp_all add: holds_def del: owes.simps)

lemma holds_restack:
  assumes "holds os s" and "reading opts 0 0 s (s\<lparr>wk_stack := fs\<rparr>)" and "list_all2 owes os' fs"
  shows "holds os' (s\<lparr>wk_stack := fs\<rparr>)"
  using assms by (simp add: holds_def reading_def)

lemma turn_eq:
  assumes "wk_deadline s = None" and "wk_stack s = f # fs"
    and "whenever (wf_entries f = None) (reopen_host_frame env (wf_relative f)) s = (Ok (), s1)"
    and "read_unseen env read_fuel s1 = (Ok r, s2)"
  shows "turn env read_fuel s = handle_read env (wf_relative f) (wf_entry_depth f) r s2"
  using assms
  by (simp add: turn_def turn_frame_def seq_def bind_def check_walk_deadline_def gets_def)

lemma turn_entry:
  assumes h: "holds ((names, es, (x, n) # cs) # os) s"
  obtains s' where "turn env read_fuel s = (Ok (Yields (host_entry ino base (wk_root s) (names @ [x], n))), s')"
    "holds (entered names x n @ (names, es, cs) # os) s'" "wk_root s' = wk_root s"
proof -
  obtain f fs where top: "wk_stack s = f # fs"
    using h by (auto simp: holds_def list_all2_Cons1)
  note f = holds_top [OF h top]
  obtain s1 f1 fs1 dir r where s1:
      "whenever (wf_entries f = None) (reopen_host_frame env (wf_relative f)) s = (Ok (), s1)"
      "holds ((names, es, (x, n) # cs) # os) s1" "wk_stack s1 = f1 # fs1" "wf_entries f1 = Some (dir, r)"
      "wk_root s1 = wk_root s"
    using ready [OF h top] by metis
  note f1 = holds_top [OF s1(2,3)]
  note reader = owed_reader [OF f1(1) s1(4)]
  obtain r' where r': "read_unseen env read_fuel s1 = (Ok (ReadEntry dir x), s1\<lparr>wk_stack :=
        f1\<lparr>wf_entries := Some (dir, r'), wf_seen := map_option (List.insert x) (wf_seen f1)\<rparr> # fs1\<rparr>)"
      "filter (fresh f1) r' = map fst cs" "suffix r' r"
    using read_fresh [OF f1(4) s1(3,4) reader(2,3)] reader(1) by auto
  let ?f2 = "f1\<lparr>wf_entries := Some (dir, r'), wf_seen := map_option (List.insert x) (wf_seen f1)\<rparr>"
  let ?s2 = "s1\<lparr>wk_stack := ?f2 # fs1\<rparr>"
  have "reading opts 0 0 s1 s1"
    using f1(3) s1(3,4) by (simp add: reading_def)
  then have "reading opts 0 0 s1 ?s2"
    using outcomeD(1) [OF read_unseen_inv r'(1)] by blast
  then have h2: "holds ((names, es, cs) # os) ?s2"
    using f1(2) owes_next [OF f1(1) s1(4) r'(2,3)] by (intro holds_restack [OF s1(2)]) auto
  have "(x, n) \<in> set es"
    using f1(1) by (auto simp: suffix_def)
  then obtain s' where "visit_entry env (join_slash names) (Suc (length names)) dir x ?s2 =
      (Ok (Yields (host_entry ino base (wk_root ?s2) (names @ [x], n))), s')"
    "holds (entered names x n @ (names, es, cs) # os) s'"
    using visit_ok [OF h2 reader(4)] by blast
  then have "turn env read_fuel s = (Ok (Yields (host_entry ino base (wk_root s) (names @ [x], n))), s')"
    and "holds (entered names x n @ (names, es, cs) # os) s'"
    using turn_eq [OF f(4) top s1(1) r'(1)] f(1) s1(5) by (simp_all add: handle_read_def)
  moreover from this(1) have "wk_root s' = wk_root s"
    using outcomeD(1) [OF turn_inv [OF f(3)]] by (fastforce simp: visited_def walk_kept_def)
  ultimately show thesis
    by (rule that)
qed

lemma turn_pop:
  assumes h: "holds ((names, es, []) # os) s"
  obtains s' where "turn env read_fuel s = (Ok NextTurn, s')" "holds os s'" "wk_root s' = wk_root s"
proof -
  obtain f fs where top: "wk_stack s = f # fs"
    using h by (auto simp: holds_def list_all2_Cons1)
  note f = holds_top [OF h top]
  obtain s1 f1 fs1 dir r where s1:
      "whenever (wf_entries f = None) (reopen_host_frame env (wf_relative f)) s = (Ok (), s1)"
      "holds ((names, es, []) # os) s1" "wk_stack s1 = f1 # fs1" "wf_entries f1 = Some (dir, r)"
      "wk_root s1 = wk_root s"
    using ready [OF h top] by metis
  note f1 = holds_top [OF s1(2,3)]
  note reader = owed_reader [OF f1(1) s1(4)]
  let ?f2 = "f1\<lparr>wf_entries := Some (dir, [])\<rparr>"
  let ?s2 = "s1\<lparr>wk_stack := ?f2 # fs1\<rparr>"
  have eq: "read_unseen env read_fuel s1 = (Ok ReadEnd, ?s2)"
    using read_end [OF f1(4) s1(3,4) reader(2,3)] reader(1) by simp
  have "reading opts 0 0 s1 s1"
    using f1(3) s1(3,4) by (simp add: reading_def)
  then have "reading opts 0 0 s1 ?s2"
    using outcomeD(1) [OF read_unseen_inv eq] by blast
  then have inv2: "walk_inv env opts 0 0 0 ?s2"
    by (simp add: reading_def)
  obtain s3 where s3: "pop_host_frame mp ?s2 = (Some (closed_frame ?f2), s3)" "walk_kept ?s2 s3"
      "walk_inv env opts 0 0 0 (forget_identity (Some (closed_frame ?f2)) s3)" "wk_terminated s3 = wk_terminated ?s2"
    using pop_inv [OF inv2, of ?f2 fs1] by auto
  let ?s3 = "forget_identity (Some (closed_frame ?f2)) s3"
  have shape: "wk_stack ?s3 = fs1" "ws_world ?s3 = ws_world s1" "wk_terminated ?s3 = wk_terminated s1"
    using s3(1,4) by (auto simp: pop_host_frame_def close_host_frame_def forget_identity_def split: option.splits)
  have "walk_kept s1 ?s3"
    using s3(2) by (simp add: walk_kept_def forget_identity_def split: option.split)
  then have kept: "wk_backend_root ?s3 = wk_backend_root s1" "wk_symlink_policy ?s3 = wk_symlink_policy s1"
      "wk_deadline ?s3 = wk_deadline s1" "wk_root ?s3 = wk_root s1"
    by (simp_all add: walk_kept_def)
  have "holds os ?s3"
    using s3(3) s1(2) f1(2) shape kept by (simp add: holds_def del: owes.simps)
  moreover have "turn env read_fuel s = (Ok NextTurn, ?s3)"
    using turn_eq [OF f(4) top s1(1) eq] s3(1) by (simp add: handle_read_def complete_frame_def)
  ultimately show thesis
    using that kept(4) s1(5) by simp
qed

fun owed_listing :: "owed list \<Rightarrow> (host_path \<times> node) list" where
  "owed_listing [] = []"
| "owed_listing ((names, es, cs) # os) = listing opts names cs @ owed_listing os"

lemma listing_step:
  "owed_listing ((names, es, (x, n) # cs) # os) =
     (names @ [x], n) # owed_listing (entered names x n @ (names, es, cs) # os)"
  by (simp add: entered_def split: node.split)

lemma length_entered: "length (entered names x n) \<le> 1"
  by (simp add: entered_def split: node.split)

text \<open>One call of the loop: the next owed entry, or the end once nothing is owed.\<close>

lemma loop_next:
  assumes "holds os s" and "length os < fuel"
  shows "case owed_listing os of
      [] \<Rightarrow> \<exists>s'. walk_loop env read_fuel fuel s = (Ok Finished, s') \<and> holds [] s' \<and> wk_root s' = wk_root s
    | e # es \<Rightarrow> \<exists>s' os'. walk_loop env read_fuel fuel s = (Ok (Yields (host_entry ino base (wk_root s) e)), s') \<and>
        holds os' s' \<and> owed_listing os' = es \<and> length os' \<le> Suc (length os) \<and> wk_root s' = wk_root s"
  using assms
proof (induction os arbitrary: s fuel)
  case Nil
  then obtain k where "fuel = Suc k" by (cases fuel) auto
  with Nil show ?case
    by (auto simp: holds_def turn_def seq_def bind_def check_walk_deadline_def gets_def ret_def)
next
  case (Cons d os)
  then obtain k where k: "fuel = Suc k" "length os < k" by (cases fuel) auto
  obtain names es cs where d: "d = (names, es, cs)" by (cases d)
  show ?case
  proof (cases cs)
    case Nil
    with Cons.prems d obtain s' where s': "turn env read_fuel s = (Ok NextTurn, s')" "holds os s'"
        "wk_root s' = wk_root s"
      using turn_pop by metis
    then have "walk_loop env read_fuel fuel s = walk_loop env read_fuel k s'"
      using k by (simp add: bind_def)
    then show ?thesis
      using Cons.IH [OF s'(2) k(2)] s'(3) Nil d by (cases "owed_listing os") fastforce+
  next
    case (Cons c cs')
    obtain x n where c: "c = (x, n)" by (cases c)
    obtain s' where s': "turn env read_fuel s = (Ok (Yields (host_entry ino base (wk_root s) (names @ [x], n))), s')"
        "holds (entered names x n @ (names, es, cs') # os) s'" "wk_root s' = wk_root s"
      using turn_entry Cons.prems d Cons c by metis
    have step: "owed_listing (d # os) = (names @ [x], n) # owed_listing (entered names x n @ (names, es, cs') # os)"
      using listing_step d Cons c by simp
    have "walk_loop env read_fuel fuel s = (Ok (Yields (host_entry ino base (wk_root s) (names @ [x], n))), s')"
      using s'(1) k by (simp add: bind_def ret_def)
    then show ?thesis
      unfolding step using s' length_entered [of names x n]
      by (auto intro!: exI [of _ s'] exI [of _ "entered names x n @ (names, es, cs') # os"])
  qed
qed

lemma next_listing:
  assumes "holds os s" and "length os < fuel"
  shows "walker_next env read_fuel fuel s = walk_loop env read_fuel fuel s"
proof -
  have "\<forall>e s'. walk_loop env read_fuel fuel s \<noteq> (Err e, s')"
    using loop_next [OF assms] by (auto split: list.splits)
  moreover have "next_entry env read_fuel fuel s = walk_loop env read_fuel fuel s"
    using assms(1) by (simp add: next_entry_def holds_def bind_def gets_def seq_def check_walk_deadline_def)
  ultimately show ?thesis
    by (auto simp: walker_next_def split: prod.split result.split)
qed

lemma items_finished:
  assumes "holds [] s" and "0 < fuel"
  shows "\<exists>s'. walk_items env read_fuel fuel j s = (replicate j (Ok Finished), s') \<and> holds [] s'"
  using assms
proof (induction j arbitrary: s)
  case (Suc j)
  obtain s1 where "walker_next env read_fuel fuel s = (Ok Finished, s1)" "holds [] s1"
    using loop_next [of "[]" s fuel] next_listing [of "[]" s fuel] Suc.prems by auto
  with Suc.IH [of s1] Suc.prems show ?case by auto
qed simp

lemma items_listing:
  assumes "holds os s" and "length os + length (owed_listing os) < fuel"
  shows "\<exists>s'. walk_items env read_fuel fuel (length (owed_listing os) + j) s =
    (map (\<lambda>e. Ok (Yields (host_entry ino base (wk_root s) e))) (owed_listing os) @ replicate j (Ok Finished), s')"
  using assms
proof (induction "owed_listing os" arbitrary: os s)
  case Nil
  show ?case
  proof (cases j)
    case (Suc i)
    obtain s1 where s1: "walker_next env read_fuel fuel s = (Ok Finished, s1)" "holds [] s1"
      using loop_next [of os s fuel] next_listing [of os s fuel] Nil by (auto split: list.splits)
    moreover obtain s2 where "walk_items env read_fuel fuel i s1 = (replicate i (Ok Finished), s2)"
      using items_finished [OF s1(2), of fuel i] Nil.prems by auto
    ultimately show ?thesis
      using Suc Nil by (auto simp flip: Nil.hyps)
  qed (simp flip: Nil.hyps)
next
  case (Cons e es)
  obtain s1 os1 where s1: "walker_next env read_fuel fuel s = (Ok (Yields (host_entry ino base (wk_root s) e)), s1)"
      "holds os1 s1" "owed_listing os1 = es" "length os1 \<le> Suc (length os)" "wk_root s1 = wk_root s"
    using loop_next [of os s fuel] next_listing [of os s fuel] Cons by (auto split: list.splits)
  have "length os1 + length (owed_listing os1) < fuel"
    using s1(3,4) Cons by (simp flip: Cons.hyps(2))
  from Cons.hyps(1) [OF s1(3) [symmetric] s1(2) this] obtain s2 where
    "walk_items env read_fuel fuel (length es + j) s1 =
      (map (\<lambda>e. Ok (Yields (host_entry ino base (wk_root s) e))) es @ replicate j (Ok Finished), s2)"
    using s1(3,5) by auto
  with s1(1) show ?case
    by (auto simp flip: Cons.hyps(2))
qed

lemma open_holds:
  assumes dir: "lookup (hw_root world) (names_of base) = Some (DirNode es)" and tree: "proper_tree (DirNode es)"
    and fanout: "fanout_below read_fuel (DirNode es)"
  obtains s where "open_with_diagnostic env base root opts SymlinkReject started world = (Ok s, world)"
    "holds (if lo_max_depth opts = Some 0 then [] else [([], es, es)]) s" "wk_root s = root"
proof -
  have "\<exists>s. open_with_diagnostic env base root opts SymlinkReject started world = (Ok s, world) \<and>
      wk_root s = root \<and>
      list_all2 owes (if lo_max_depth opts = Some 0 then [] else [([], es, es)]) (wk_stack s) \<and>
      wk_backend_root s = base \<and> wk_symlink_policy s = SymlinkReject \<and> wk_deadline s = None \<and>
      wk_terminated s = False \<and> ws_world s = world"
  proof -
    obtain permit q where acq: "acquire_root mp (directory_pool mp opts) = (Ok permit, q)"
      using acquire_root_ok slots by (metis host_walk_env_simps(3))
    show ?thesis
      using assms
      by (auto simp: host_open [OF dir slots unlimited(3) acq] opened_walker_def Let_def new_frame_def reads_from_def list_all_iff)
  qed
  then obtain s where s: "open_with_diagnostic env base root opts SymlinkReject started world = (Ok s, world)"
      "wk_root s = root"
      "list_all2 owes (if lo_max_depth opts = Some 0 then [] else [([], es, es)]) (wk_stack s)"
      "wk_backend_root s = base" "wk_symlink_policy s = SymlinkReject" "wk_deadline s = None"
      "wk_terminated s = False" "ws_world s = world"
    by blast
  then have "holds (if lo_max_depth opts = Some 0 then [] else [([], es, es)]) s"
    using open_inv [OF s(1)] by (simp add: holds_def del: owes.simps)
  with s(1,2) show thesis by (intro that)
qed

end

end
