(* ===== verification/Walk_Props.thy ===== *)
theory Walk_Props
  imports Walk_Static
begin

text \<open>
  Properties of the Host directory walker: the limits hold whatever the file system answers, an error ends a
  fail-fast walk, and on a quiescent namespace the walker lists exactly the tree, also when it has to close
  and reopen its readers.
\<close>

section \<open>Concrete instances\<close>

text \<open>A pool of the external crate as a plain counter whose permits are amounts.\<close>

definition counter_pool :: "(nat, nat) permit_pool" where
  "counter_pool =
     \<lparr>mp_new = (\<lambda>k n. n),
      mp_try_acquire = (\<lambda>q n.
        if n \<le> q then (Ok n, q - n)
        else (Err \<lparr>ib_resource = OpenDirectory, ib_limit = q, ib_remaining = q, ib_requested = n\<rparr>, q)),
      mp_release = (\<lambda>t q. q + t), mp_available = id, mp_amount = id\<rparr>"

lemma counter_pool_laws: "pool_laws counter_pool"
  by (auto simp: pool_laws_def counter_pool_def)

text \<open>A directory \<open>d\<close> with a file, a directory with a file, and a link.\<close>

definition walk_world :: host_world where
  "walk_world =
     \<lparr>hw_root = DirNode [([100], DirNode [([97], FileNode [1]), ([98], DirNode [([99], FileNode [])]),
        ([101], LinkNode [47])])],
      hw_clock = id, hw_reads = 0\<rparr>"

definition walk_options :: list_options where
  "walk_options = list_options_new\<lparr>lo_recursive := True, lo_max_open_directories := Some 1\<rparr>"

abbreviation sample_env :: "(name list, nat, resource_kind \<times> nat \<times> nat, nat, host_world) walk_env" where
  "sample_env \<equiv> host_walk_env counter_budget counter_pool length"

lemma walk_world_dirs:
  "lookup (hw_root walk_world) p = Some (DirNode es) \<Longrightarrow> p \<in> {[], [[100]], [[100], [98]]}"
  by (cases p; cases "tl p"; cases "tl (tl p)"; cases "tl (tl (tl p))") (auto simp: walk_world_def split: if_splits option.splits)

interpretation sample: walk_host sample_env
  by unfold_locales (simp_all add: counter_budget_laws counter_pool_laws host_calls_return)

interpretation sample_tree: static_walk counter_budget counter_pool length walk_world "[47, 100]" walk_options 4
proof unfold_locales
  show "inj_on length {p. \<exists>es. lookup (hw_root walk_world) p = Some (DirNode es)}"
    by (rule inj_onI) (auto dest!: walk_world_dirs)
qed (simp_all add: counter_budget_laws counter_pool_laws walk_options_def list_options_new_def)

text \<open>Options with a limit of every kind, and the walker they open.\<close>

definition limited_options :: list_options where
  "limited_options = walk_options\<lparr>lo_max_entries := Some 2, lo_max_seen_name_bytes := Some 9\<rparr>"

lemma limited_open:
  assumes "opts = limited_options \<or> opts = limited_options\<lparr>lo_max_entries := Some 0\<rparr>"
  shows "open_with_diagnostic sample_env [47, 100] [47, 100] opts SymlinkReject 0 walk_world =
     (Ok (opened_walker sample_env [47, 100] [47, 100] opts SymlinkReject None (Some 0) (Some 1)
            [[97], [98], [101]] (NativeDirectory 1 1) walk_world), walk_world)"
  using assms
  by (subst host_open [where es = "[([97], FileNode [1]), ([98], DirNode [([99], FileNode [])]), ([101], LinkNode [47])]"
        and pool = "Some 0" and permit = "Some 1"])
    (auto simp: limited_options_def walk_options_def list_options_new_def walk_world_def names_of_def acquire_root_def
      directory_pool_def counter_pool_def)

lemmas next_defs = walker_next_def next_entry_def bind_def gets_def seq_def check_walk_deadline_def turn_def
  turn_frame_def whenever_def ret_def read_top_def insert_seen_def handle_read_def visit_entry_def charge_entry_def
  beyond_depth_def

section \<open>Properties\<close>

context walk_host
begin

lemma open_readers_bound:
  assumes "walk_inv env opts 0 n b s" and "lo_max_open_directories opts = Some m"
  shows "open_readers (wk_stack s) \<le> m"
proof -
  have "list_all (paid (we_pool env)) fs \<Longrightarrow> open_readers fs \<le> held_slots (we_pool env) fs"
    for fs :: "('r, 't) walk_frame list"
    by (induction fs) (auto simp: open_readers_def held_slots_def paid_def split: option.splits)
  moreover have "list_all (paid (we_pool env)) (wk_stack s)" "held_slots (we_pool env) (wk_stack s) \<le> m"
    using assms by (auto simp: walk_inv_def pool_ok_def)
  ultimately show ?thesis by fastforce
qed

end

text \<open>
  C36: whatever the file system answers, a Host walker keeps to its limits. In any sequence of calls of
  \<open>next\<close> nothing panics, at most \<open>max_entries\<close> entries are yielded, their names add up to at most
  \<open>max_seen_name_bytes\<close> bytes, every entry lies below the root at a level of at most \<open>max_depth\<close> (directly
  below it without recursion) under its reported path, and never more than \<open>max_open_directories\<close> readers
  are open; the directories on the active path are all different.
\<close>

theorem walker_within_limits:
  assumes "budget_laws (we_budget env)" and "pool_laws (we_pool env)" and "calls_return (we_calls env)"
    and "open_with_diagnostic env backend root opts policy started w = (Ok s, w')"
    and "walk_items env read_fuel fuel k (bind_current_directory cwd s) = (rs, s')"
  shows "Panic \<notin> set rs \<and>
    (case lo_max_entries opts of Some m \<Rightarrow> length (yielded rs) \<le> m | None \<Rightarrow> True) \<and>
    (case lo_max_seen_name_bytes opts of
       Some m \<Rightarrow> (\<Sum>e\<leftarrow>yielded rs. length (entry_name e)) \<le> m
     | None \<Rightarrow> True) \<and>
    list_all (entry_fits opts root) (yielded rs) \<and>
    (case lo_max_open_directories opts of Some m \<Rightarrow> open_readers (wk_stack s') \<le> m | None \<Rightarrow> True) \<and>
    distinct (identities (wk_stack s'))"
proof -
  have host: "walk_host env"
    using assms(1-3) by (rule walk_host.intro)
  have start: "walk_inv env opts 0 0 0 (bind_current_directory cwd s)"
    using walk_host.open_inv [OF host assms(4)] by (simp add: walk_host.bind_current_directory_inv [OF host])
  have root: "wk_root (bind_current_directory cwd s) = root"
    using walk_host.open_inv [OF host assms(4)] by (simp add: bind_current_directory_def)
  let ?bytes = "\<Sum>e\<leftarrow>yielded rs. length (entry_name e)"
  have inv: "walk_inv env opts 0 (length (yielded rs)) ?bytes s'" and rest: "Panic \<notin> set rs"
      "\<forall>e \<in> set (yielded rs). entry_fits opts root e"
    using walk_host.walk_items_inv [OF host start assms(5)] root by simp_all
  then show ?thesis
    using walk_host.open_readers_bound [OF host inv]
    by (auto simp: walk_inv_def budget_ok_def list_all_iff split: option.splits)
qed

theorem walker_within_limits_witness:
  "case open_with_diagnostic sample_env [47, 100] [47, 100] limited_options SymlinkReject 0 walk_world of
     (Ok s, _) \<Rightarrow>
       (case walk_items sample_env 4 4 5 (bind_current_directory (Some [47]) s) of
          (rs, s') \<Rightarrow>
            Panic \<notin> set rs \<and> length (yielded rs) \<le> 2 \<and> (\<Sum>e\<leftarrow>yielded rs. length (entry_name e)) \<le> 9 \<and>
            list_all (entry_fits limited_options [47, 100]) (yielded rs) \<and> open_readers (wk_stack s') \<le> 1 \<and>
            distinct (identities (wk_stack s')))
   | _ \<Rightarrow> False"
proof -
  obtain s where s: "open_with_diagnostic sample_env [47, 100] [47, 100] limited_options SymlinkReject 0 walk_world =
      (Ok s, walk_world)"
    using limited_open by blast
  obtain rs s' where rs: "walk_items sample_env 4 4 5 (bind_current_directory (Some [47]) s) = (rs, s')"
    by fastforce
  from walker_within_limits [OF sample.budget sample.pool sample.returns s rs] s rs show ?thesis
    by (simp add: limited_options_def walk_options_def list_options_new_def)
qed

text \<open>
  Under the fail-fast policy an error ends the walk: after a call of \<open>next\<close> that returned an error, every
  later call returns nothing.
\<close>

theorem walker_fail_fast:
  assumes "budget_laws (we_budget env)" and "pool_laws (we_pool env)" and "calls_return (we_calls env)"
    and "open_with_diagnostic env backend root opts policy started w = (Ok s, w')"
    and "lo_error_policy opts = FailFast"
    and "walk_items env read_fuel fuel k (bind_current_directory cwd s) = (before @ Err e # after, s')"
  shows "set after \<subseteq> {Ok Finished}"
proof -
  have host: "walk_host env"
    using assms(1-3) by (rule walk_host.intro)
  have "walk_inv env opts 0 0 0 (bind_current_directory cwd s)"
    using walk_host.open_inv [OF host assms(4)] by (simp add: walk_host.bind_current_directory_inv [OF host])
  then show ?thesis
    by (rule walk_host.fail_fast_items [OF host _ assms(5,6)])
qed

theorem walker_fail_fast_witness:
  "case open_with_diagnostic sample_env [47, 100] [47, 100] (limited_options\<lparr>lo_max_entries := Some 0\<rparr>)
          SymlinkReject 0 walk_world of
     (Ok s, _) \<Rightarrow>
       (case fst (walk_items sample_env 4 4 3 (bind_current_directory None s)) of
          Err _ # rest \<Rightarrow> set rest \<subseteq> {Ok Finished}
        | _ \<Rightarrow> False)
   | _ \<Rightarrow> False"
proof -
  let ?opts = "limited_options\<lparr>lo_max_entries := Some 0\<rparr>"
  let ?s = "opened_walker sample_env [47, 100] [47, 100] ?opts SymlinkReject None (Some 0) (Some 1)
            [[97], [98], [101]] (NativeDirectory 1 1) walk_world"
  have open_eq: "open_with_diagnostic sample_env [47, 100] [47, 100] ?opts SymlinkReject 0 walk_world = (Ok ?s, walk_world)"
    by (rule limited_open) simp
  obtain e s1 where first: "walker_next sample_env 4 4 (bind_current_directory None ?s) = (Err e, s1)"
    by (rule that)
      (simp add: next_defs opened_walker_def new_frame_def bind_current_directory_def counter_budget_def
        limited_options_def walk_options_def list_options_new_def entry_name_ok_def Let_def needs_seen_names_def
        read_unseen.simps(2) [of _ 3, simplified] walk_loop.simps(2) [of _ _ 3, simplified])
  obtain rest s2 where "walk_items sample_env 4 4 2 s1 = (rest, s2)"
    by fastforce
  with first have items: "walk_items sample_env 4 4 3 (bind_current_directory None ?s) = ([] @ Err e # rest, s2)"
    by (simp add: numeral_3_eq_3 numeral_2_eq_2)
  have "lo_error_policy ?opts = FailFast"
    by (simp add: limited_options_def walk_options_def list_options_new_def)
  from walker_fail_fast [OF sample.budget sample.pool sample.returns open_eq this items] show ?thesis
    by (simp only: open_eq items prod.case result.case fst_conv list.case append.simps)
qed

text \<open>
  C35: on a quiescent namespace a Host walker that rejects links lists exactly its tree. Without limits on
  entries, names and time, and with any positive number of open directories under the reopening policy,
  opening succeeds and the calls of \<open>next\<close> yield every entry down to \<open>max_depth\<close> once, parents before their
  children and siblings in the order of the directory, and then nothing more.
\<close>

theorem walker_lists_tree:
  assumes "budget_laws rb" and "pool_laws mp"
    and "inj_on ino {p. \<exists>es. lookup (hw_root w) p = Some (DirNode es)}"
    and "lo_max_open_directories opts \<noteq> Some 0"
    and "lo_reopen_policy opts = Reopen \<or> lo_max_open_directories opts = None"
    and "lo_max_entries opts = None" and "lo_max_seen_name_bytes opts = None" and "lo_deadline opts = None"
    and "lookup (hw_root w) (names_of base) = Some (DirNode es)" and "proper_tree (DirNode es)"
    and "fanout_below read_fuel (DirNode es)"
    and "expected = (if lo_max_depth opts = Some 0 then [] else listing opts [] es)"
    and "Suc (length expected) < fuel"
  shows "\<exists>s. open_with_diagnostic (host_walk_env rb mp ino) base root opts SymlinkReject started w = (Ok s, w) \<and>
    fst (walk_items (host_walk_env rb mp ino) read_fuel fuel (length expected + j) s) =
      map (\<lambda>e. Ok (Yields (host_entry ino base root e))) expected @ replicate j (Ok Finished)"
proof -
  have static: "static_walk rb mp ino w opts"
    using assms(1-8) by (rule static_walk.intro)
  obtain s where s: "open_with_diagnostic (host_walk_env rb mp ino) base root opts SymlinkReject started w = (Ok s, w)"
      "static_walk.holds rb mp ino w base opts read_fuel
         (if lo_max_depth opts = Some 0 then [] else [([], es, es)]) s" "wk_root s = root"
    using static_walk.open_holds [OF static assms(9-11)] by blast
  have listed: "static_walk.owed_listing opts (if lo_max_depth opts = Some 0 then [] else [([], es, es)]) = expected"
    using assms(12) by (simp add: static_walk.owed_listing.simps [OF static])
  have "length (if lo_max_depth opts = Some 0 then [] else [([], es, es)]) + length expected < fuel"
    using assms(13) by simp
  then obtain s' where "walk_items (host_walk_env rb mp ino) read_fuel fuel (length expected + j) s =
      (map (\<lambda>e. Ok (Yields (host_entry ino base root e))) expected @ replicate j (Ok Finished), s')"
    using static_walk.items_listing [OF static s(2), of fuel j] unfolding listed s(3) by blast
  with s(1) show ?thesis by auto
qed

theorem walker_lists_tree_witness:
  "\<exists>s. open_with_diagnostic sample_env [47, 100] [47, 100] walk_options SymlinkReject 0 walk_world = (Ok s, walk_world) \<and>
    fst (walk_items sample_env 4 6 (4 + 1) s) =
      map (\<lambda>e. Ok (Yields (host_entry length [47, 100] [47, 100] e)))
        [([[97]], FileNode [1]), ([[98]], DirNode [([99], FileNode [])]), ([[98], [99]], FileNode []), ([[101]], LinkNode [47])]
      @ replicate 1 (Ok Finished)"
proof -
  let ?es = "[([97], FileNode [1]), ([98], DirNode [([99], FileNode [])]), ([101], LinkNode [47])]"
  let ?expected = "[([[97]] :: host_path, FileNode [1]), ([[98]], DirNode [([99], FileNode [])]), ([[98], [99]], FileNode []),
      ([[101]], LinkNode [47])]"
  have len: "length ?expected = 4"
    by simp
  have "\<exists>s. open_with_diagnostic sample_env [47, 100] [47, 100] walk_options SymlinkReject 0 walk_world = (Ok s, walk_world) \<and>
    fst (walk_items sample_env 4 6 (length ?expected + 1) s) =
      map (\<lambda>e. Ok (Yields (host_entry length [47, 100] [47, 100] e))) ?expected @ replicate 1 (Ok Finished)"
    by (rule walker_lists_tree [OF counter_budget_laws counter_pool_laws sample_tree.inodes, where es = ?es])
      (simp_all add: walk_options_def list_options_new_def may_descend_def walk_world_def names_of_def
        entry_name_ok_def)
  then show ?thesis
    unfolding len .
qed

end
