(* ===== verification/Temp_Resource.thy ===== *)
theory Temp_Resource
  imports Path_Binding File_Metadata Atomic_Writer
begin

text \<open>
  The lifecycle that temporary files and directories share, \<^verbatim>\<open>src/temp/internal/local_temp_resource_core.rs\<close>, with
  the values around it (\<^verbatim>\<open>src/local/local_persist_*.rs\<close>, \<^verbatim>\<open>src/outcome/local_persist_*.rs\<close>,
  \<^verbatim>\<open>src/outcome/local_temp_*.rs\<close>), the binding of persistence targets (\<^verbatim>\<open>persist_target.rs\<close>,
  \<^verbatim>\<open>keep_target.rs\<close>, \<^verbatim>\<open>temp_parent.rs\<close>) and Host path resolution
  (\<^verbatim>\<open>src/local/internal/host_local_file_system/path_resolution.rs\<close>), on Unix. A resource is bound to
  one of two authorities: a Host path, or a path below an opened root.
\<close>

section \<open>Values\<close>

datatype temp_source_state = SourceOwned | CleanupRequired | SourceReleased | SourceIndeterminate

datatype temp_resource_state = Owned | ResourceIndeterminate | SandboxPending | Released

datatype temp_access = Writable | ReadOnly | AccessIndeterminate

datatype persist_stage =
    ResolveTarget | PrepareTargetParent | SynchronizeSource | InstallDestination | SynchronizeDestination

datatype persist_failure = PersistNotPublished | PersistPublished | PersistIndeterminate

datatype persist_method = PersistAtomicRename

datatype persist_cleanup = CleanupComplete | ResidualSandbox

record persist_options =
  ps_overwrite :: bool
  ps_create_parent :: bool
  ps_durability :: durability

definition persist_options_new :: persist_options where
  "persist_options_new = \<lparr>ps_overwrite = False, ps_create_parent = False, ps_durability = DurNotRequired\<rparr>"

record persist_outcome =
  po_path :: path
  po_method :: persist_method
  po_atomic :: bool
  po_durable :: bool
  po_cleanup_error :: "file_error option"

definition po_cleanup_state :: "persist_outcome \<Rightarrow> persist_cleanup" where
  "po_cleanup_state out = (if po_cleanup_error out \<noteq> None then ResidualSandbox else CleanupComplete)"

record 'a persist_error =
  pe_error :: file_error
  pe_resource :: 'a
  pe_requested_target :: path
  pe_resolved_target :: "path option"
  pe_stage :: persist_stage
  pe_state :: persist_failure
  pe_source_state :: temp_source_state

definition persist_error_new ::
  "io_error \<Rightarrow> 'a \<Rightarrow> path \<Rightarrow> path option \<Rightarrow> persist_stage \<Rightarrow> persist_failure \<Rightarrow> temp_source_state \<Rightarrow>
   'a persist_error" where
  "persist_error_new e resource requested resolved stage state source =
     \<lparr>pe_error = from_io OpPersistTemp (Some requested) resolved e, pe_resource = resource,
      pe_requested_target = requested, pe_resolved_target = resolved, pe_stage = stage, pe_state = state,
      pe_source_state = source\<rparr>"

definition persist_error_with_resource :: "'b \<Rightarrow> 'a persist_error \<Rightarrow> 'b persist_error" where
  "persist_error_with_resource resource e =
     \<lparr>pe_error = pe_error e, pe_resource = resource, pe_requested_target = pe_requested_target e,
      pe_resolved_target = pe_resolved_target e, pe_stage = pe_stage e, pe_state = pe_state e,
      pe_source_state = pe_source_state e\<rparr>"

definition persist_error_in_directory :: "path \<Rightarrow> 'a persist_error \<Rightarrow> 'a persist_error" where
  "persist_error_in_directory cwd e = e\<lparr>pe_error := with_current_directory cwd (pe_error e)\<rparr>"

definition persist_error_with_kind :: "file_error_kind \<Rightarrow> 'a persist_error \<Rightarrow> 'a persist_error" where
  "persist_error_with_kind kind e = e\<lparr>pe_error := with_kind kind (pe_error e)\<rparr>"

definition from_native_error :: "io_error_kind \<Rightarrow> persist_failure" where
  "from_native_error kind =
     (if kind \<in> {IoAlreadyExists, IoCrossesDevices, IoInvalidInput, IoIsADirectory, IoNotADirectory,
                 IoDirectoryNotEmpty, IoUnsupported}
      then PersistNotPublished else PersistIndeterminate)"

section \<open>Calls\<close>

text \<open>
  \<open>tc_open_reader\<close> is \<open>open_native_reader_path\<close> and \<open>tc_root_open_reader\<close> is \<open>Root::open_reader\<close>, both with the default
  options; \<open>tc_root_fstat\<close> is \<open>Metadata::from_open_file\<close>, \<open>tc_root_rename\<close> is \<open>rename_rooted_entry\<close> with its
  replacement flag, \<open>tc_root_remove\<close> is \<open>remove_rooted_entry_typed\<close>, \<open>tc_root_open_directory\<close> is an opened
  directory reader's handle. \<open>tc_observe\<close> is \<open>query_observation\<close>, whose argument says whether the
  observation is required; \<open>tc_restrict\<close> is \<open>apply_current_user_access(.., false, true)\<close>.
\<close>

record ('w, 'h, 'c, 'i) temp_calls =
  tc_fs :: "('w, 'h) unix_fs"
  tc_canonicalize :: "path \<Rightarrow> ('w, path) native"
  tc_remove_dir :: "path \<Rightarrow> ('w, unit) native"
  tc_open_reader :: "path \<Rightarrow> ('w, 'h) native"
  tc_seek :: "'h \<Rightarrow> int \<Rightarrow> ('w, u64) native"
  tc_root :: "('w, 'c) root_calls"
  tc_root_fstat :: "'h \<Rightarrow> ('w, entry_metadata) native"
  tc_root_rename :: "path \<Rightarrow> path \<Rightarrow> bool \<Rightarrow> ('w, unit) native"
  tc_root_create_dir_all :: "path \<Rightarrow> ('w, unit) native"
  tc_root_remove :: "path \<Rightarrow> bool \<Rightarrow> ('w, unit) native"
  tc_root_open_reader :: "path \<Rightarrow> ('w, 'h) native"
  tc_root_open_directory :: "path \<Rightarrow> ('w, 'h) native"
  tc_root_clone :: "('w, 'h) native"
  tc_root_sync_parent :: "path \<Rightarrow> ('w, unit) native"
  tc_observe :: "bool \<Rightarrow> 'h \<Rightarrow> ('w, file_error, 'i option) prog"
  tc_restrict :: "'h \<Rightarrow> ('w, unit) native"

text \<open>A \<open>Result\<close> of a library function turned into the error of its caller.\<close>

definition as_io :: "('s, file_error, 'x) prog \<Rightarrow> ('s, io_error, 'x) prog" where
  "as_io m = or_fail (\<lambda>_ e. into_io_error e) id m"

definition expect :: "('x, 'e) result \<Rightarrow> ('s, 'f, 'x) prog" where
  "expect r = (case r of Ok x \<Rightarrow> ret x | _ \<Rightarrow> panic)"

section \<open>Host path resolution\<close>

definition bind_host_path :: "path \<Rightarrow> (path, file_error) result" where
  "bind_host_path p =
     (if is_absolute p then Ok p
      else Err (with_path p
             (with_reason ''Host backend paths must be resolved by the public filesystem facade''
               (error_new KInvalidPath OpBindPath))))"

fun resolve_host_components ::
  "('w, 'h, 'c, 'i) temp_calls \<Rightarrow> path \<Rightarrow> symlink_policy \<Rightarrow> bool \<Rightarrow> path \<Rightarrow> component list \<Rightarrow>
   ('w, file_error, path) prog" where
  "resolve_host_components tc bound policy follow_final resolved [] = ret resolved"
| "resolve_host_components tc bound policy follow_final resolved (c # cs) =
     (let resolved = path_join resolved (component_bytes c)
      in if \<not> is_normal c then resolve_host_components tc bound policy follow_final resolved cs
         else
           bind (caught (ux_symlink_metadata (tc_fs tc) resolved)) (\<lambda>metadata.
             case metadata of
               Err e \<Rightarrow>
                 if ioe_kind e = IoNotFound then resolve_host_components tc bound policy follow_final resolved cs
                 else fail (from_io OpBindPath (Some bound) None e)
             | Panic \<Rightarrow> panic
             | Ok st \<Rightarrow>
                 if st_kind st \<noteq> Symlink \<or> (cs = [] \<and> \<not> follow_final)
                 then resolve_host_components tc bound policy follow_final resolved cs
                 else if \<not> symlink_follows policy then
                   fail (with_path bound
                     (with_reason ''path resolution requires following a symbolic link''
                       (error_new KUnsupported OpBindPath)))
                 else
                   bind (or_fail (\<lambda>_ e. from_io OpBindPath (Some bound) None e) id (tc_canonicalize tc resolved))
                     (\<lambda>resolved. resolve_host_components tc bound policy follow_final resolved cs)))"

definition resolve_host_path ::
  "('w, 'h, 'c, 'i) temp_calls \<Rightarrow> path \<Rightarrow> symlink_policy \<Rightarrow> bool \<Rightarrow> ('w, file_error, path) prog" where
  "resolve_host_path tc p policy follow_final =
     bind (answer (bind_host_path p)) (\<lambda>bound.
       resolve_host_components tc bound policy follow_final [] (components bound))"

section \<open>The resource\<close>

datatype temp_backend =
    HostTemp (ht_identity: "u64 \<times> u64") (ht_sandbox: path)
  | RootedTemp (rd_identity: entry_metadata) (rd_relative: path) (rd_sandbox: path)

record temp_core =
  tr_path :: path
  tr_creation_parent :: path
  tr_backend :: temp_backend
  tr_state :: temp_resource_state
  tr_symlink_policy :: symlink_policy
  tr_current_directory :: "path option"

definition temp_core_new :: "path \<Rightarrow> path \<Rightarrow> temp_backend \<Rightarrow> symlink_policy \<Rightarrow> temp_core" where
  "temp_core_new p parent backend policy =
     \<lparr>tr_path = p, tr_creation_parent = parent, tr_backend = backend, tr_state = Owned,
      tr_symlink_policy = policy, tr_current_directory = None\<rparr>"

fun source_state_of :: "temp_resource_state \<Rightarrow> temp_source_state" where
  "source_state_of Owned = SourceOwned"
| "source_state_of SandboxPending = CleanupRequired"
| "source_state_of Released = SourceReleased"
| "source_state_of ResourceIndeterminate = SourceIndeterminate"

definition source_state :: "temp_core \<Rightarrow> temp_source_state" where
  "source_state core = source_state_of (tr_state core)"

definition ensure_publishable :: "temp_core \<Rightarrow> (unit, io_error) result" where
  "ensure_publishable core = (if tr_state core \<noteq> Owned then Err (io_error_of IoInvalidInput) else Ok ())"

definition ensure_cleanup_safe :: "temp_core \<Rightarrow> (unit, io_error) result" where
  "ensure_cleanup_safe core =
     (if tr_state core = ResourceIndeterminate then Err (io_error_of IoInvalidInput) else Ok ())"

text \<open>The identity of the entry at the source, without following a link: \<open>matches_path\<close> and \<open>is_same_file\<close>.\<close>

definition stat_identity :: "file_stat \<Rightarrow> u64 \<times> u64" where
  "stat_identity st = (st_dev st, st_ino st)"

definition matches_source :: "('w, 'h, 'c, 'i) temp_calls \<Rightarrow> temp_core \<Rightarrow> ('w, bool) native" where
  "matches_source tc core =
     (case tr_backend core of
        HostTemp identity _ \<Rightarrow>
          bind (ux_symlink_metadata (tc_fs tc) (tr_path core)) (\<lambda>st. ret (identity = stat_identity st))
      | RootedTemp identity relative _ \<Rightarrow>
          bind (expect (relative_path_new relative)) (\<lambda>p.
          bind (rt_symlink_metadata (tc_root tc) p) (\<lambda>metadata. ret (is_same_file metadata identity))))"

text \<open>The operations below change the state of the core, which is part of a larger state.\<close>

record 'w core_state =
  cs_core :: temp_core
  cs_world :: 'w

definition on_calls :: "('w, 'e, 'x) prog \<Rightarrow> ('w core_state, 'e, 'x) prog" where
  "on_calls m s = (case m (cs_world s) of (r, w) \<Rightarrow> (r, s\<lparr>cs_world := w\<rparr>))"

definition set_state :: "temp_resource_state \<Rightarrow> ('w core_state, 'e, unit) prog" where
  "set_state st = modify (\<lambda>s. s\<lparr>cs_core := (cs_core s)\<lparr>tr_state := st\<rparr>\<rparr>)"

definition core_ensure_identity_matches ::
  "('w, 'h, 'c, 'i) temp_calls \<Rightarrow> ('w core_state, io_error, unit) prog" where
  "core_ensure_identity_matches tc =
     bind (gets cs_core) (\<lambda>core.
     seq (answer (ensure_publishable core))
     (bind (caught (on_calls (matches_source tc core))) (\<lambda>matches.
        case matches of
          Ok True \<Rightarrow> ret ()
        | Ok False \<Rightarrow> seq (set_state ResourceIndeterminate) (fail (io_error_of IoInvalidInput))
        | Err e \<Rightarrow> seq (set_state ResourceIndeterminate) (fail e)
        | Panic \<Rightarrow> panic)))"

definition core_record_native_persist_failure ::
  "('w, 'h, 'c, 'i) temp_calls \<Rightarrow> io_error \<Rightarrow> ('w core_state, 'e, persist_failure) prog" where
  "core_record_native_persist_failure tc e =
     (let publication = from_native_error (ioe_kind e)
      in if publication = PersistIndeterminate then seq (set_state ResourceIndeterminate) (ret publication)
         else
           bind (caught (core_ensure_identity_matches tc)) (\<lambda>checked.
             case checked of
               Ok _ \<Rightarrow> ret publication
             | Err _ \<Rightarrow> seq (set_state ResourceIndeterminate) (ret publication)
             | Panic \<Rightarrow> panic))"

text \<open>\<open>Root::remove_file\<close>, \<open>Root::remove_empty_dir\<close> and \<open>Root::open_probe_file\<close>.\<close>

definition root_remove_file :: "('w, 'h, 'c, 'i) temp_calls \<Rightarrow> path \<Rightarrow> ('w, unit) native" where
  "root_remove_file tc p =
     bind (rt_symlink_metadata (tc_root tc) p) (\<lambda>metadata.
       if em_kind metadata = EntDirectory then fail (io_error_of IoIsADirectory)
       else tc_root_remove tc p False)"

definition root_remove_empty_dir :: "('w, 'h, 'c, 'i) temp_calls \<Rightarrow> path \<Rightarrow> ('w, unit) native" where
  "root_remove_empty_dir tc p =
     bind (rt_symlink_metadata (tc_root tc) p) (\<lambda>metadata.
       if em_kind metadata \<noteq> EntDirectory then fail (io_error_of IoNotADirectory)
       else tc_root_remove tc p True)"

definition open_probe_file :: "('w, 'h, 'c, 'i) temp_calls \<Rightarrow> path \<Rightarrow> ('w, 'h) native" where
  "open_probe_file tc p =
     (if p = [] then tc_root_clone tc
      else
        bind (rt_symlink_metadata (tc_root tc) p) (\<lambda>metadata.
          if em_kind metadata = EntDirectory then tc_root_open_directory tc p
          else if em_kind metadata = EntFile then tc_root_open_reader tc p
          else fail (io_error_of IoInvalidInput)))"

definition core_release_sandbox :: "('w, 'h, 'c, 'i) temp_calls \<Rightarrow> temp_core \<Rightarrow> ('w, unit) native" where
  "core_release_sandbox tc core =
     (case tr_backend core of
        HostTemp _ sandbox \<Rightarrow> tc_remove_dir tc sandbox
      | RootedTemp _ _ sandbox \<Rightarrow> bind (expect (relative_path_new sandbox)) (root_remove_empty_dir tc))"

definition virtual_rooted_path :: "path \<Rightarrow> path" where
  "virtual_rooted_path p = path_join [47] p"

definition cleanup_path :: "temp_core \<Rightarrow> path" where
  "cleanup_path core =
     (case tr_backend core of
        HostTemp _ sandbox \<Rightarrow> sandbox
      | RootedTemp _ _ sandbox \<Rightarrow> virtual_rooted_path sandbox)"

definition temp_contextualize_error :: "temp_core \<Rightarrow> file_error \<Rightarrow> file_error" where
  "temp_contextualize_error core e =
     (case tr_current_directory core of Some cwd \<Rightarrow> with_current_directory cwd e | None \<Rightarrow> e)"

definition core_persist_error ::
  "temp_core \<Rightarrow> io_error \<Rightarrow> path \<Rightarrow> path option \<Rightarrow> persist_stage \<Rightarrow> persist_failure \<Rightarrow> unit persist_error" where
  "core_persist_error core e requested resolved stage publication =
     (let error = persist_error_new e () requested resolved stage publication (source_state core)
      in case tr_current_directory core of
           Some cwd \<Rightarrow> persist_error_in_directory cwd error
         | None \<Rightarrow> error)"

definition scope_of :: "temp_core \<Rightarrow> fs_scope" where
  "scope_of core = (case tr_backend core of HostTemp _ _ \<Rightarrow> HostScope | RootedTemp _ _ _ \<Rightarrow> RootedScope)"

text \<open>\<open>bind_namespace\<close>: both paths are bound to the resolver of the creating file system.\<close>

definition bind_in_namespace ::
  "path_resolver \<Rightarrow> file_operation \<Rightarrow> path \<Rightarrow> (path, file_error) result" where
  "bind_in_namespace resolver op p =
     (case resolve_path resolver p of
        Ok bound \<Rightarrow> Ok (np_namespace_absolute bound)
      | Err e \<Rightarrow>
          Err (case pr_current_directory resolver of
                 Some cwd \<Rightarrow> with_current_directory cwd (with_operation op e)
               | None \<Rightarrow> with_operation op e)
      | Panic \<Rightarrow> Panic)"

definition core_bind_namespace ::
  "path_resolver \<Rightarrow> file_operation \<Rightarrow> temp_core \<Rightarrow> (temp_core, file_error) result" where
  "core_bind_namespace resolver op core =
     (let (path_input, parent_input) =
        (case tr_backend core of
           HostTemp _ _ \<Rightarrow> (tr_path core, tr_creation_parent core)
         | RootedTemp _ _ _ \<Rightarrow>
             (virtual_rooted_path (tr_path core), virtual_rooted_path (tr_creation_parent core)))
      in case bind_in_namespace resolver op path_input of
           Err e \<Rightarrow> Err e
         | Panic \<Rightarrow> Panic
         | Ok p \<Rightarrow>
             (case bind_in_namespace resolver op parent_input of
                Err e \<Rightarrow> Err e
              | Panic \<Rightarrow> Panic
              | Ok parent \<Rightarrow>
                  Ok (core\<lparr>tr_path := p, tr_creation_parent := parent,
                          tr_current_directory := pr_current_directory resolver\<rparr>)))"

section \<open>Targets\<close>

definition invalid_target :: "path \<Rightarrow> string \<Rightarrow> file_error" where
  "invalid_target p reason = with_reason reason (with_path p (error_new KInvalidPath OpPersistTemp))"

definition contains_dot_component :: "path \<Rightarrow> bool" where
  "contains_dot_component p = list_ex (\<lambda>part. part = [46] \<or> part = [46, 46]) (split_slash p)"

definition target_anchor :: "fs_scope \<Rightarrow> (path_resolver, file_error) result" where
  "target_anchor scope =
     (case scope of HostScope \<Rightarrow> Ok absolute_host | RootedScope \<Rightarrow> path_resolver_new RootedScope [47])"

definition prepare_persist_target ::
  "fs_scope \<Rightarrow> path option \<Rightarrow> path \<Rightarrow> (namespace_path, file_error) result" where
  "prepare_persist_target scope base target =
     (if target = [] then Err (invalid_target target ''persistence target must not be empty'')
      else
        (case target_anchor scope of
           Err e \<Rightarrow> Err e
         | Panic \<Rightarrow> Panic
         | Ok anchor \<Rightarrow>
             if contains_nul target then resolve_path anchor target
             else
               (case base of
                  Some base \<Rightarrow>
                    if \<not> is_absolute base \<or> contains_dot_component base then
                      Err (invalid_target base
                        ''persistence base must be absolute without dot or parent components'')
                    else if is_absolute target then
                      Err (invalid_target target ''persist_at requires a strictly relative target'')
                    else
                      (case path_resolver_new scope base of
                         Err e \<Rightarrow> Err e
                       | Panic \<Rightarrow> Panic
                       | Ok resolver \<Rightarrow> resolve_path resolver target)
                | None \<Rightarrow>
                    if \<not> is_absolute target then
                      Err (invalid_target target
                        ''persist requires a namespace-absolute target; use persist_at for relative targets'')
                    else resolve_path anchor target)))"

definition rooted_base_is_directory ::
  "('w, 'h, 'c, 'i) temp_calls \<Rightarrow> path \<Rightarrow> symlink_policy \<Rightarrow> ('w, file_error, (bool, io_error) result) prog" where
  "rooted_base_is_directory tc relative policy =
     (if relative = [] then
        caught (bind (rt_metadata (tc_root tc)) (\<lambda>metadata. ret (em_kind metadata = EntDirectory)))
      else
        bind (resolve_rooted_path_allow_root (tc_root tc) relative policy True OpPersistTemp) (\<lambda>p.
          caught (bind (if p = [] then rt_metadata (tc_root tc)
                        else bind (answer (relative_path_new p)) (rt_symlink_metadata (tc_root tc)))
                    (\<lambda>metadata. ret (em_kind metadata = EntDirectory)))))"

definition validate_persist_base ::
  "('w, 'h, 'c, 'i) temp_calls \<Rightarrow> temp_backend \<Rightarrow> path \<Rightarrow> symlink_policy \<Rightarrow> ('w, file_error, unit) prog" where
  "validate_persist_base tc backend base policy =
     bind (case backend of
             HostTemp _ _ \<Rightarrow>
               bind (resolve_host_path tc base policy True) (\<lambda>p.
                 caught (bind (ux_metadata (tc_fs tc) p) (\<lambda>st. ret (st_kind st = Directory))))
           | RootedTemp _ _ _ \<Rightarrow>
               bind (answer (path_resolver_new RootedScope [47])) (\<lambda>resolver.
               bind (answer (resolve_path resolver base)) (\<lambda>bound.
                 rooted_base_is_directory tc (np_authority_relative bound) policy)))
       (\<lambda>found.
          case found of
            Ok True \<Rightarrow> ret ()
          | Ok False \<Rightarrow>
              fail (with_reason ''persistence base must be an existing directory''
                     (with_path base (error_new KNotDirectory OpPersistTemp)))
          | Err e \<Rightarrow> fail (from_io OpPersistTemp (Some base) None e)
          | Panic \<Rightarrow> panic)"

text \<open>\<open>keep_target.rs\<close>: the sibling of the sandbox with the resource's name.\<close>

definition generated_target :: "path \<Rightarrow> (path, io_error) result" where
  "generated_target resource =
     (case (Option.bind (path_parent resource) path_parent, path_file_name resource) of
        (Some parent, Some name) \<Rightarrow> Ok (path_join parent name)
      | _ \<Rightarrow> Err (io_error_of IoInvalidInput))"

text \<open>\<open>temp_parent.rs\<close>.\<close>

definition prepare_host_parent ::
  "('w, 'h, 'c, 'i) temp_calls \<Rightarrow> path \<Rightarrow> bool \<Rightarrow> ('w, path list) native" where
  "prepare_host_parent tc target create_parent =
     (case path_parent target of
        None \<Rightarrow> fail (io_error_of IoInvalidInput)
      | Some parent \<Rightarrow>
          if parent = [] then ret []
          else if create_parent then ensure_parent_path_with_sync_dirs (tc_fs tc) target
          else
            bind (ux_metadata (tc_fs tc) parent) (\<lambda>st.
              if st_kind st = Directory then ret [] else fail (io_error_of IoNotADirectory)))"

definition prepare_rooted_parent ::
  "('w, 'h, 'c, 'i) temp_calls \<Rightarrow> path \<Rightarrow> bool \<Rightarrow> ('w, unit) native" where
  "prepare_rooted_parent tc target create_parent =
     (case path_parent target of
        None \<Rightarrow> ret ()
      | Some parent \<Rightarrow>
          if parent = [] then ret ()
          else
            bind (answer (relative_path_new parent)) (\<lambda>parent.
              if create_parent then tc_root_create_dir_all tc parent
              else
                bind (rt_symlink_metadata (tc_root tc) parent) (\<lambda>metadata.
                  if em_kind metadata = EntDirectory then ret () else fail (io_error_of IoNotADirectory))))"

end
