(* ===== verification/Temp_File.thy ===== *)
theory Temp_File
  imports Temp_Resource Local_Writer
begin

text \<open>
  Temporary files, \<^verbatim>\<open>src/temp/local_temp_file.rs\<close> and \<^verbatim>\<open>local_sealed_temp_file.rs\<close>, on Unix: the handle, cleanup,
  publication at a target and sealing. A publication consumes the file: the error of a failed one carries it,
  and after a success it is dropped, which attempts the cleanup that is left. The action between the check of
  a closed source and its reopening is the empty one that the public operations pass.
\<close>

record ('h, 'i) temp_file =
  tf_core :: temp_core
  tf_file :: "'h option"
  tf_access :: temp_access
  tf_identity :: "'i option"

record ('w, 'h, 'i) temp_state =
  ts_file :: "('h, 'i) temp_file"
  ts_world :: 'w

type_synonym ('w, 'h, 'i, 'e, 'x) temp_m = "(('w, 'h, 'i) temp_state, 'e, 'x) prog"

definition temp_call :: "('w, 'e, 'x) prog \<Rightarrow> ('w, 'h, 'i, 'e, 'x) temp_m" where
  "temp_call m s = (case m (ts_world s) of (r, w) \<Rightarrow> (r, s\<lparr>ts_world := w\<rparr>))"

definition on_core :: "('w core_state, 'e, 'x) prog \<Rightarrow> ('w, 'h, 'i, 'e, 'x) temp_m" where
  "on_core m s =
     (case m \<lparr>cs_core = tf_core (ts_file s), cs_world = ts_world s\<rparr> of
        (r, c) \<Rightarrow> (r, s\<lparr>ts_file := (ts_file s)\<lparr>tf_core := cs_core c\<rparr>, ts_world := cs_world c\<rparr>))"

definition get_core :: "('w, 'h, 'i, 'e, temp_core) temp_m" where
  "get_core = gets (\<lambda>s. tf_core (ts_file s))"

definition move_to :: "temp_resource_state \<Rightarrow> ('w, 'h, 'i, 'e, unit) temp_m" where
  "move_to st = on_core (set_state st)"

definition closed_file_error :: io_error where
  "closed_file_error = io_error_of IoBrokenPipe"

definition sync_identity_error :: io_error where
  "sync_identity_error = io_error_of IoInvalidInput"

section \<open>Construction\<close>

definition optional_identity :: "('w, 'h, 'c, 'i) temp_calls \<Rightarrow> 'h \<Rightarrow> ('w, 'e, 'i option) prog" where
  "optional_identity tc h =
     bind (caught (tc_observe tc False h)) (\<lambda>observed.
       case observed of Ok identity \<Rightarrow> ret identity | Err _ \<Rightarrow> ret None | Panic \<Rightarrow> panic)"

definition sandbox_parent :: "path \<Rightarrow> path" where
  "sandbox_parent sandbox = (case path_parent sandbox of Some parent \<Rightarrow> parent | None \<Rightarrow> [])"

definition temp_file_host ::
  "('w, 'h, 'c, 'i) temp_calls \<Rightarrow> path \<Rightarrow> path \<Rightarrow> 'h \<Rightarrow> symlink_policy \<Rightarrow> ('w, ('h, 'i) temp_file) native" where
  "temp_file_host tc p sandbox h policy =
     bind (ux_fstat (tc_fs tc) h) (\<lambda>st.
     bind (optional_identity tc h) (\<lambda>identity.
       ret \<lparr>tf_core = temp_core_new p (sandbox_parent sandbox) (HostTemp (stat_identity st) sandbox) policy,
            tf_file = Some h, tf_access = Writable, tf_identity = identity\<rparr>))"

definition temp_file_rooted ::
  "('w, 'h, 'c, 'i) temp_calls \<Rightarrow> path \<Rightarrow> path \<Rightarrow> 'h \<Rightarrow> symlink_policy \<Rightarrow> ('w, ('h, 'i) temp_file) native" where
  "temp_file_rooted tc p sandbox h policy =
     bind (tc_root_fstat tc h) (\<lambda>metadata.
     bind (optional_identity tc h) (\<lambda>identity.
       ret \<lparr>tf_core = temp_core_new p (sandbox_parent sandbox) (RootedTemp metadata p sandbox) policy,
            tf_file = Some h, tf_access = Writable, tf_identity = identity\<rparr>))"

definition temp_file_bind_namespace ::
  "path_resolver \<Rightarrow> ('h, 'i) temp_file \<Rightarrow> (('h, 'i) temp_file, file_error) result" where
  "temp_file_bind_namespace resolver tf =
     (case core_bind_namespace resolver OpCreateTempFile (tf_core tf) of
        Ok core \<Rightarrow> Ok (tf\<lparr>tf_core := core\<rparr>)
      | Err e \<Rightarrow> Err e
      | Panic \<Rightarrow> Panic)"

section \<open>The handle\<close>

definition close_file :: "('w, 'h, 'i, 'e, unit) temp_m" where
  "close_file = modify (\<lambda>s. s\<lparr>ts_file := (ts_file s)\<lparr>tf_file := None\<rparr>\<rparr>)"

definition current_identity ::
  "('w, 'h, 'c, 'i) temp_calls \<Rightarrow> ('h, 'i) temp_file \<Rightarrow> ('w, 'e, 'i option) prog" where
  "current_identity tc tf = (case tf_file tf of None \<Rightarrow> ret None | Some h \<Rightarrow> optional_identity tc h)"

definition as_file_mut :: "('h, 'i) temp_file \<Rightarrow> ('h, io_error) result" where
  "as_file_mut tf =
     (if tf_access tf \<noteq> Writable then Err (io_error_of IoPermissionDenied)
      else
        (case ensure_publishable (tf_core tf) of
           Err e \<Rightarrow> Err e
         | Panic \<Rightarrow> Panic
         | Ok _ \<Rightarrow> (case tf_file tf of Some h \<Rightarrow> Ok h | None \<Rightarrow> Err closed_file_error)))"

definition with_handle ::
  "('h \<Rightarrow> ('w, 'x) native) \<Rightarrow> ('w, 'h, 'i, io_error, 'x) temp_m" where
  "with_handle op = bind (gets ts_file) (\<lambda>tf. bind (answer (as_file_mut tf)) (\<lambda>h. temp_call (op h)))"

definition temp_write :: "('w, 'h, 'c, 'i) temp_calls \<Rightarrow> byte list \<Rightarrow> ('w, 'h, 'i, io_error, usize) temp_m" where
  "temp_write tc bytes = with_handle (\<lambda>h. ux_write (tc_fs tc) h bytes)"

definition temp_write_vectored ::
  "('w, 'h, 'c, 'i) temp_calls \<Rightarrow> (nat \<Rightarrow> bool) \<Rightarrow> byte list list \<Rightarrow> ('w, 'h, 'i, io_error, usize) temp_m" where
  "temp_write_vectored tc reserve buffers =
     bind (gets ts_file) (\<lambda>tf.
     bind (answer (as_file_mut tf)) (\<lambda>_.
     bind (answer (byte_slices reserve buffers)) (\<lambda>slices.
       with_handle (\<lambda>h. ux_write_vectored (tc_fs tc) h slices))))"

definition temp_flush :: "('w, 'h, 'c, 'i) temp_calls \<Rightarrow> ('w, 'h, 'i, io_error, unit) temp_m" where
  "temp_flush tc = with_handle (ux_flush (tc_fs tc))"

definition temp_seek :: "('w, 'h, 'c, 'i) temp_calls \<Rightarrow> int \<Rightarrow> ('w, 'h, 'i, io_error, u64) temp_m" where
  "temp_seek tc position = with_handle (\<lambda>h. tc_seek tc h position)"

section \<open>Cleanup\<close>

definition ensure_identity_matches ::
  "('w, 'h, 'c, 'i) temp_calls \<Rightarrow> ('w, 'h, 'i, io_error, unit) temp_m" where
  "ensure_identity_matches tc =
     bind (caught (on_core (core_ensure_identity_matches tc))) (\<lambda>checked.
     bind get_core (\<lambda>core.
     seq (whenever (tr_state core = ResourceIndeterminate) close_file)
       (answer checked)))"

text \<open>The removal that follows the identity check.\<close>

definition remove_entry :: "('w, 'h, 'c, 'i) temp_calls \<Rightarrow> temp_core \<Rightarrow> ('w, unit) native" where
  "remove_entry tc core =
     (case tr_backend core of
        HostTemp _ _ \<Rightarrow> ux_unlink (tc_fs tc) (tr_path core)
      | RootedTemp _ relative _ \<Rightarrow> bind (expect (relative_path_new relative)) (root_remove_file tc))"

definition remove_resource :: "('w, 'h, 'c, 'i) temp_calls \<Rightarrow> ('w, 'h, 'i, io_error, unit) temp_m" where
  "remove_resource tc =
     seq (ensure_identity_matches tc) (bind get_core (\<lambda>core. temp_call (remove_entry tc core)))"

definition release_sandbox :: "('w, 'h, 'c, 'i) temp_calls \<Rightarrow> ('w, 'h, 'i, io_error, unit) temp_m" where
  "release_sandbox tc = bind get_core (\<lambda>core. temp_call (core_release_sandbox tc core))"

definition cleanup_error :: "temp_core \<Rightarrow> path \<Rightarrow> io_error \<Rightarrow> file_error" where
  "cleanup_error core p e = temp_contextualize_error core (from_io OpCleanup (Some p) None e)"

definition cleaning ::
  "(temp_core \<Rightarrow> path) \<Rightarrow> ('w, 'h, 'i, io_error, 'x) temp_m \<Rightarrow> ('w, 'h, 'i, file_error, 'x) temp_m" where
  "cleaning place m =
     or_fail (\<lambda>s e. cleanup_error (tf_core (ts_file s)) (place (tf_core (ts_file s))) e) id m"

definition cleanup :: "('w, 'h, 'c, 'i) temp_calls \<Rightarrow> ('w, 'h, 'i, file_error, unit) temp_m" where
  "cleanup tc =
     seq close_file
     (seq (cleaning tr_path (bind get_core (\<lambda>core. answer (ensure_cleanup_safe core))))
     (seq (bind get_core (\<lambda>core.
             whenever (tr_state core = Owned)
               (seq (cleaning tr_path (remove_resource tc)) (move_to SandboxPending))))
       (bind get_core (\<lambda>core.
          whenever (tr_state core = SandboxPending)
            (seq (cleaning cleanup_path (release_sandbox tc)) (move_to Released))))))"

definition cleanup_file ::
  "('w, 'h, 'c, 'i) temp_calls \<Rightarrow> ('h, 'i) temp_file \<Rightarrow> 'w \<Rightarrow> (unit, file_error) result \<times> ('h, 'i) temp_file \<times> 'w" where
  "cleanup_file tc tf w =
     (case cleanup tc \<lparr>ts_file = tf, ts_world = w\<rparr> of (r, s) \<Rightarrow> (r, ts_file s, ts_world s))"

text \<open>Dropping the file attempts the cleanup and discards its result.\<close>

definition drop_temp_file :: "('w, 'h, 'c, 'i) temp_calls \<Rightarrow> ('w, 'h, 'i) temp_state \<Rightarrow> 'w" where
  "drop_temp_file tc s = ts_world (snd (cleanup tc s))"

section \<open>Synchronization\<close>

definition synchronize_open_file ::
  "('w, 'h, 'c, 'i) temp_calls \<Rightarrow> temp_core \<Rightarrow> 'h \<Rightarrow> durability \<Rightarrow> ('w, bool) native" where
  "synchronize_open_file tc core h dur =
     bind (case tr_backend core of
             HostTemp identity _ \<Rightarrow> bind (ux_fstat (tc_fs tc) h) (\<lambda>st. ret (identity = stat_identity st))
           | RootedTemp identity _ _ \<Rightarrow> bind (tc_root_fstat tc h) (\<lambda>opened. ret (is_same_file identity opened)))
       (\<lambda>matches.
          if \<not> matches then fail sync_identity_error
          else
            bind (caught (ux_sync_all (tc_fs tc) h)) (\<lambda>synced.
              case synced of
                Ok _ \<Rightarrow> ret True
              | Err e \<Rightarrow> if dur = DurPreferred then ret False else fail e
              | Panic \<Rightarrow> panic))"

text \<open>\<open>LocalFileSystemCapabilities\<close> for Unix: \<open>durable_temp_file_persist\<close> is \<open>cfg!(unix)\<close> in both scopes.\<close>

definition supports_durable_temp_file_persist :: "fs_scope \<Rightarrow> bool" where
  "supports_durable_temp_file_persist scope = True"

definition synchronize_handle ::
  "('w, 'h, 'c, 'i) temp_calls \<Rightarrow> ('h, 'i) temp_file \<Rightarrow> durability \<Rightarrow> ('w, bool) native" where
  "synchronize_handle tc tf dur =
     (case tf_file tf of
        Some h \<Rightarrow> synchronize_open_file tc (tf_core tf) h dur
      | None \<Rightarrow>
          bind (case tr_backend (tf_core tf) of
                  HostTemp _ _ \<Rightarrow> tc_open_reader tc (tr_path (tf_core tf))
                | RootedTemp _ relative _ \<Rightarrow>
                    bind (answer (relative_path_new relative)) (open_probe_file tc))
            (\<lambda>h. synchronize_open_file tc (tf_core tf) h dur))"

definition synchronize_source ::
  "('w, 'h, 'c, 'i) temp_calls \<Rightarrow> ('h, 'i) temp_file \<Rightarrow> durability \<Rightarrow> ('w, bool) native" where
  "synchronize_source tc tf dur =
     (if dur = DurNotRequired then ret False
      else if \<not> supports_durable_temp_file_persist (scope_of (tf_core tf)) then
        (case dur of DurRequired \<Rightarrow> fail (io_error_of IoUnsupported) | _ \<Rightarrow> ret False)
      else
        (case dur of
           DurRequired \<Rightarrow>
             bind (synchronize_handle tc tf dur) (\<lambda>synced. if synced then ret True else fail sync_identity_error)
         | DurPreferred \<Rightarrow> synchronize_handle tc tf dur
         | DurNotRequired \<Rightarrow> ret False))"

definition synchronize_destination :: "durability \<Rightarrow> ('w, unit) native \<Rightarrow> ('w, bool) native" where
  "synchronize_destination dur m =
     (case dur of
        DurNotRequired \<Rightarrow> ret False
      | DurPreferred \<Rightarrow>
          bind (caught m) (\<lambda>r. case r of Ok _ \<Rightarrow> ret True | Err _ \<Rightarrow> ret False | Panic \<Rightarrow> panic)
      | DurRequired \<Rightarrow> seq m (ret True))"

definition synchronize_host_publication ::
  "('w, 'h, 'c, 'i) temp_calls \<Rightarrow> path \<Rightarrow> path \<Rightarrow> path list \<Rightarrow> durability \<Rightarrow> ('w, bool) native" where
  "synchronize_host_publication tc source target created dur =
     synchronize_destination dur
       (seq (sync_parent_dir (tc_fs tc) source)
       (seq (sync_parent_dir (tc_fs tc) target) (sync_parents (tc_fs tc) (rev created))))"

text \<open>The loop over the target and its ancestors.\<close>

function sync_ancestors :: "('w, 'h, 'c, 'i) temp_calls \<Rightarrow> path \<Rightarrow> ('w, unit) native" where
  "sync_ancestors tc current =
     bind (answer (relative_path_new current)) (\<lambda>relative.
     seq (tc_root_sync_parent tc relative)
       (case path_parent current of
          None \<Rightarrow> ret ()
        | Some parent \<Rightarrow> if parent = [] then ret () else sync_ancestors tc parent))"
  by pat_completeness auto
termination
  by (relation "measure (\<lambda>(tc, current). length current)") (auto dest: path_parent_shorter)

declare sync_ancestors.simps [simp del]

definition synchronize_rooted_publication ::
  "('w, 'h, 'c, 'i) temp_calls \<Rightarrow> path \<Rightarrow> path \<Rightarrow> durability \<Rightarrow> ('w, bool) native" where
  "synchronize_rooted_publication tc source target dur =
     synchronize_destination dur (seq (tc_root_sync_parent tc source) (sync_ancestors tc target))"

section \<open>Publication\<close>

definition file_persist_error ::
  "('h, 'i) temp_file \<Rightarrow> io_error \<Rightarrow> path \<Rightarrow> path option \<Rightarrow> persist_stage \<Rightarrow> persist_failure \<Rightarrow>
   ('h, 'i) temp_file persist_error" where
  "file_persist_error tf e requested resolved stage publication =
     (let error = core_persist_error (tf_core tf) e requested resolved stage publication
      in persist_error_with_resource tf
           (if stage = SynchronizeSource \<and> ioe_kind e = IoUnsupported
            then persist_error_with_kind KRequirementNotMet error else error))"

text \<open>A step whose error ends the publication, with the file as it is then.\<close>

definition persisting ::
  "path \<Rightarrow> path option \<Rightarrow> persist_stage \<Rightarrow> persist_failure \<Rightarrow> ('w, 'h, 'i, io_error, 'x) temp_m \<Rightarrow>
   ('w, 'h, 'i, ('h, 'i) temp_file persist_error, 'x) temp_m" where
  "persisting requested resolved stage publication m =
     or_fail (\<lambda>s e. file_persist_error (ts_file s) e requested resolved stage publication) id m"

definition record_native_persist_failure ::
  "('w, 'h, 'c, 'i) temp_calls \<Rightarrow> io_error \<Rightarrow> ('w, 'h, 'i, 'e, persist_failure) temp_m" where
  "record_native_persist_failure tc e = on_core (core_record_native_persist_failure tc e)"

text \<open>The installing call, and its counterpart of the root.\<close>

definition install_host ::
  "('w, 'h, 'c, 'i) temp_calls \<Rightarrow> persist_options \<Rightarrow> temp_core \<Rightarrow> path \<Rightarrow> ('w, unit) native" where
  "install_host tc opts core target =
     (if ps_overwrite opts then replace_file (tc_fs tc) (tr_path core) target
      else move_path_without_replacing (tc_fs tc) (tr_path core) target)"

definition install_rooted ::
  "('w, 'h, 'c, 'i) temp_calls \<Rightarrow> persist_options \<Rightarrow> path \<Rightarrow> path \<Rightarrow> ('w, unit) native" where
  "install_rooted tc opts source destination = tc_root_rename tc source destination (ps_overwrite opts)"

definition installing ::
  "('w, 'h, 'c, 'i) temp_calls \<Rightarrow> path \<Rightarrow> path \<Rightarrow> ('w, unit) native \<Rightarrow>
   ('w, 'h, 'i, ('h, 'i) temp_file persist_error, unit) temp_m" where
  "installing tc requested ns m =
     bind (caught (temp_call m)) (\<lambda>installed.
       case installed of
         Ok _ \<Rightarrow> move_to SandboxPending
       | Err e \<Rightarrow>
           bind (record_native_persist_failure tc e) (\<lambda>publication.
             persisting requested (Some ns) InstallDestination publication (fail e))
       | Panic \<Rightarrow> panic)"

text \<open>The end of a publication: the sandbox is released, and a failure to do so is reported with the outcome.\<close>

definition finish_persist ::
  "('w, 'h, 'c, 'i) temp_calls \<Rightarrow> path \<Rightarrow> bool \<Rightarrow> bool \<Rightarrow>
   ('w, 'h, 'i, ('h, 'i) temp_file persist_error, persist_outcome) temp_m" where
  "finish_persist tc ns file_durable parent_durable =
     bind (caught (release_sandbox tc)) (\<lambda>released.
     bind get_core (\<lambda>core.
       case released of
         Panic \<Rightarrow> panic
       | _ \<Rightarrow>
         (let failure = (case released of Err e \<Rightarrow> Some (cleanup_error core (cleanup_path core) e) | _ \<Rightarrow> None)
          in seq (move_to Released)
               (ret \<lparr>po_path = ns, po_method = PersistAtomicRename, po_atomic = True,
                     po_durable = (file_durable \<and> parent_durable), po_cleanup_error = failure\<rparr>))))"

definition persist_host ::
  "('w, 'h, 'c, 'i) temp_calls \<Rightarrow> path \<Rightarrow> path \<Rightarrow> path \<Rightarrow> persist_options \<Rightarrow> bool \<Rightarrow>
   ('w, 'h, 'i, ('h, 'i) temp_file persist_error, persist_outcome) temp_m" where
  "persist_host tc requested ns authority_target opts file_durable =
     bind get_core (\<lambda>core.
     bind (persisting requested (Some ns) ResolveTarget PersistNotPublished
             (temp_call (as_io (resolve_host_path tc authority_target (tr_symlink_policy core) False)))) (\<lambda>target.
     bind (persisting requested (Some ns) PrepareTargetParent PersistNotPublished
             (temp_call (prepare_host_parent tc target (ps_create_parent opts)))) (\<lambda>created.
     seq (installing tc requested ns (install_host tc opts core target))
     (bind (persisting requested (Some ns) SynchronizeDestination PersistPublished
              (temp_call (synchronize_host_publication tc (tr_path core) target created (ps_durability opts))))
       (\<lambda>parent_durable. finish_persist tc ns file_durable parent_durable)))))"

definition persist_rooted ::
  "('w, 'h, 'c, 'i) temp_calls \<Rightarrow> path \<Rightarrow> path \<Rightarrow> path \<Rightarrow> path \<Rightarrow> persist_options \<Rightarrow> bool \<Rightarrow>
   ('w, 'h, 'i, ('h, 'i) temp_file persist_error, persist_outcome) temp_m" where
  "persist_rooted tc requested ns authority_target relative opts file_durable =
     bind get_core (\<lambda>core.
     bind (persisting requested (Some ns) ResolveTarget PersistNotPublished
             (answer (relative_path_new authority_target))) (\<lambda>target.
     bind (expect (relative_path_new relative)) (\<lambda>source.
     bind (persisting requested (Some ns) ResolveTarget PersistNotPublished
             (temp_call (as_io (resolve_rooted_path (tc_root tc) target (tr_symlink_policy core) False OpPersistTemp))))
       (\<lambda>destination.
     seq (persisting requested (Some ns) PrepareTargetParent PersistNotPublished
            (temp_call (prepare_rooted_parent tc destination (ps_create_parent opts))))
     (seq (installing tc requested ns (install_rooted tc opts source destination))
     (bind (persisting requested (Some ns) SynchronizeDestination PersistPublished
              (temp_call (synchronize_rooted_publication tc source destination (ps_durability opts))))
       (\<lambda>parent_durable. finish_persist tc ns file_durable parent_durable)))))))"

text \<open>The checks of the bound target that come before anything is touched.\<close>

definition reject_target ::
  "temp_core \<Rightarrow> namespace_path \<Rightarrow> (unit, io_error) result" where
  "reject_target core bound =
     (if scope_of core = RootedScope \<and> np_authority_relative bound = [] then Err (io_error_of IoInvalidInput)
      else if np_directory_required bound then Err (io_error_of IoNotADirectory)
      else Ok ())"

definition require_writable :: "('w, 'h, 'i, io_error, unit) temp_m" where
  "require_writable =
     bind (gets ts_file) (\<lambda>tf.
       if tf_access tf \<noteq> Writable then fail (io_error_of IoPermissionDenied) else ret ())"

definition persist_program ::
  "('w, 'h, 'c, 'i) temp_calls \<Rightarrow> path \<Rightarrow> path option \<Rightarrow> persist_options \<Rightarrow>
   ('w, 'h, 'i, ('h, 'i) temp_file persist_error, persist_outcome) temp_m" where
  "persist_program tc target base opts =
     seq (persisting target None InstallDestination PersistNotPublished require_writable)
     (seq (persisting target None InstallDestination PersistNotPublished
             (bind get_core (\<lambda>core. answer (ensure_publishable core))))
     (bind get_core (\<lambda>core.
      bind (persisting target None ResolveTarget PersistNotPublished
              (as_io (answer (prepare_persist_target (scope_of core) base target)))) (\<lambda>bound.
      let ns = np_namespace_absolute bound
      in seq (persisting target (Some ns) ResolveTarget PersistNotPublished (answer (reject_target core bound)))
         (seq (case base of
                 None \<Rightarrow> ret ()
               | Some base \<Rightarrow>
                   persisting target (Some ns) ResolveTarget PersistNotPublished
                     (temp_call (as_io (validate_persist_base tc (tr_backend core) base (tr_symlink_policy core)))))
         (seq (persisting target (Some ns) InstallDestination PersistNotPublished (ensure_identity_matches tc))
         (bind (persisting target (Some ns) SynchronizeSource PersistNotPublished
                  (bind (gets ts_file) (\<lambda>tf. temp_call (synchronize_source tc tf (ps_durability opts)))))
            (\<lambda>file_durable.
         seq close_file
           (case tr_backend core of
              HostTemp _ _ \<Rightarrow> persist_host tc target ns (np_authority_relative bound) opts file_durable
            | RootedTemp _ relative _ \<Rightarrow>
                persist_rooted tc target ns (np_authority_relative bound) relative opts file_durable)))))))))"

definition consuming ::
  "('w, 'h, 'c, 'i) temp_calls \<Rightarrow> ('w, 'h, 'i, 'e, 'x) temp_m \<Rightarrow> ('h, 'i) temp_file \<Rightarrow> ('w, 'e, 'x) prog" where
  "consuming tc m tf w =
     (case m \<lparr>ts_file = tf, ts_world = w\<rparr> of
        (Ok x, s) \<Rightarrow> (Ok x, drop_temp_file tc s)
      | (Err e, s) \<Rightarrow> (Err e, ts_world s)
      | (Panic, s) \<Rightarrow> (Panic, drop_temp_file tc s))"

definition persist_with_path ::
  "('w, 'h, 'c, 'i) temp_calls \<Rightarrow> path \<Rightarrow> path option \<Rightarrow> persist_options \<Rightarrow> ('h, 'i) temp_file \<Rightarrow>
   ('w, ('h, 'i) temp_file persist_error, persist_outcome) prog" where
  "persist_with_path tc target base opts = consuming tc (persist_program tc target base opts)"

definition persist_with ::
  "('w, 'h, 'c, 'i) temp_calls \<Rightarrow> path \<Rightarrow> persist_options \<Rightarrow> ('h, 'i) temp_file \<Rightarrow>
   ('w, ('h, 'i) temp_file persist_error, persist_outcome) prog" where
  "persist_with tc target opts = persist_with_path tc target None opts"

definition persist ::
  "('w, 'h, 'c, 'i) temp_calls \<Rightarrow> path \<Rightarrow> ('h, 'i) temp_file \<Rightarrow>
   ('w, ('h, 'i) temp_file persist_error, persist_outcome) prog" where
  "persist tc target = persist_with tc target persist_options_new"

definition persist_at ::
  "('w, 'h, 'c, 'i) temp_calls \<Rightarrow> path \<Rightarrow> path \<Rightarrow> persist_options \<Rightarrow> ('h, 'i) temp_file \<Rightarrow>
   ('w, ('h, 'i) temp_file persist_error, persist_outcome) prog" where
  "persist_at tc base target opts tf =
     or_fail (\<lambda>_ e. persist_error_in_directory base e) id (persist_with_path tc target (Some base) opts tf)"

definition keep_program ::
  "('w, 'h, 'c, 'i) temp_calls \<Rightarrow> ('w, 'h, 'i, ('h, 'i) temp_file persist_error, persist_outcome) temp_m" where
  "keep_program tc =
     bind get_core (\<lambda>core.
     seq (persisting (tr_path core) None InstallDestination PersistNotPublished require_writable)
     (seq (persisting (tr_path core) None InstallDestination PersistNotPublished (answer (ensure_publishable core)))
     (bind (persisting (tr_path core) None ResolveTarget PersistNotPublished
              (answer (generated_target (tr_path core)))) (\<lambda>target.
        persist_program tc target None persist_options_new))))"

definition keep ::
  "('w, 'h, 'c, 'i) temp_calls \<Rightarrow> ('h, 'i) temp_file \<Rightarrow>
   ('w, ('h, 'i) temp_file persist_error, persist_outcome) prog" where
  "keep tc = consuming tc (keep_program tc)"

section \<open>Sealing\<close>

text \<open>The recovery attached to the cause of a seal error is the file itself, here a field of its own.\<close>

record ('h, 'i) seal_error =
  sl_cause :: file_error
  sl_access :: temp_access
  sl_resource :: "('h, 'i) temp_file"

definition set_access :: "temp_access \<Rightarrow> ('w, 'h, 'i, 'e, unit) temp_m" where
  "set_access access = modify (\<lambda>s. s\<lparr>ts_file := (ts_file s)\<lparr>tf_access := access\<rparr>\<rparr>)"

definition reopen_read_only :: "('w, 'h, 'c, 'i) temp_calls \<Rightarrow> temp_core \<Rightarrow> ('w, 'h) native" where
  "reopen_read_only tc core =
     (case tr_backend core of
        HostTemp _ _ \<Rightarrow> tc_open_reader tc (tr_path core)
      | RootedTemp _ relative _ \<Rightarrow> bind (answer (relative_path_new relative)) (tc_root_open_reader tc))"

definition seal_before_access ::
  "('w, 'h, 'c, 'i) temp_calls \<Rightarrow> file_sync \<Rightarrow> 'h \<Rightarrow> 'i option \<Rightarrow> ('w, unit) native" where
  "seal_before_access tc sync h expected =
     bind (as_io (tc_observe tc True h)) (\<lambda>observed.
       if expected = None then fail (io_error_of IoUnsupported)
       else if observed \<noteq> expected then fail (io_error_of IoInvalidInput)
       else if sync = SyncNotRequired then ret ()
       else
         bind (caught (ux_sync_all (tc_fs tc) h)) (\<lambda>synced.
           case synced of
             Ok _ \<Rightarrow> ret ()
           | Err e \<Rightarrow> if sync = SyncRequired then fail e else ret ()
           | Panic \<Rightarrow> panic))"

definition seal_program ::
  "('w, 'h, 'c, 'i) temp_calls \<Rightarrow> file_sync \<Rightarrow> ('w, 'h, 'i, io_error, unit) temp_m" where
  "seal_program tc sync =
     bind (gets ts_file) (\<lambda>tf.
     bind (case tf_file tf of Some h \<Rightarrow> ret h | None \<Rightarrow> fail closed_file_error) (\<lambda>h.
     seq (temp_call (seal_before_access tc sync h (tf_identity tf)))
     (seq (set_access AccessIndeterminate)
     (seq (temp_call (tc_restrict tc h))
     (seq (set_access ReadOnly)
     (seq (whenever (sync = SyncRequired) (temp_call (ux_sync_all (tc_fs tc) h)))
     (bind (temp_call (reopen_read_only tc (tf_core tf))) (\<lambda>readonly.
      bind (temp_call (as_io (tc_observe tc True readonly))) (\<lambda>reopened.
        if reopened \<noteq> tf_identity tf then
          seq (set_access AccessIndeterminate) (fail (io_error_of IoInvalidInput))
        else modify (\<lambda>s. s\<lparr>ts_file := (ts_file s)\<lparr>tf_file := Some readonly\<rparr>\<rparr>))))))))))"

definition seal_with_options ::
  "('w, 'h, 'c, 'i) temp_calls \<Rightarrow> file_sync \<Rightarrow> ('h, 'i) temp_file \<Rightarrow>
   ('w, ('h, 'i) seal_error, ('h, 'i) temp_file) prog" where
  "seal_with_options tc sync tf w =
     (case seal_program tc sync \<lparr>ts_file = tf, ts_world = w\<rparr> of
        (Ok _, s) \<Rightarrow> (Ok (ts_file s), ts_world s)
      | (Err e, s) \<Rightarrow>
          (Err \<lparr>sl_cause = from_io OpCommit (Some (tr_path (tf_core (ts_file s)))) None e,
                sl_access = tf_access (ts_file s), sl_resource = ts_file s\<rparr>, ts_world s)
      | (Panic, s) \<Rightarrow> (Panic, drop_temp_file tc s))"

text \<open>Operations of the sealed file.\<close>

definition sealed_native_path :: "('h, 'i) temp_file \<Rightarrow> path option" where
  "sealed_native_path tf =
     (case tr_backend (tf_core tf) of HostTemp _ _ \<Rightarrow> Some (tr_path (tf_core tf)) | RootedTemp _ _ _ \<Rightarrow> None)"

definition sealed_observation ::
  "('w, 'h, 'c, 'i) temp_calls \<Rightarrow> ('h, 'i) temp_file \<Rightarrow> ('w, file_error, 'i option) prog" where
  "sealed_observation tc tf =
     (case tf_file tf of
        None \<Rightarrow> fail (from_io OpMetadata (Some (tr_path (tf_core tf))) None closed_file_error)
      | Some h \<Rightarrow>
          or_fail (\<lambda>_ e. temp_contextualize_error (tf_core tf)
                     (if fe_path e = None then with_path (tr_path (tf_core tf)) e else e)) id
            (tc_observe tc True h))"

end
