(* ===== verification/World_Frame.thy ===== *)
theory World_Frame
  imports Rooted_Paths
begin

text \<open>
  Programs that leave a part of their state alone, whatever their result: \<open>unmoved v m\<close> says that the value of \<open>v\<close> is
  the same before and after \<open>m\<close>. Resolution under a root only looks: it leaves alone every part of
  the world that the root's looking calls leave alone.
\<close>

definition unmoved :: "('s \<Rightarrow> 'v) \<Rightarrow> ('s, 'e, 'x) prog \<Rightarrow> bool" where
  "unmoved v m \<longleftrightarrow> (\<forall>s. v (snd (m s)) = v s)"

named_theorems unmoved_intros

lemma unmovedD: "unmoved v m \<Longrightarrow> m s = (r, s') \<Longrightarrow> v s' = v s"
  by (metis snd_conv unmoved_def)

lemma unmoved_outcome: "unmoved v m \<Longrightarrow> outcome m (\<lambda>_ s'. v s' = v s) (\<lambda>_ s'. v s' = v s) (\<lambda>s'. v s' = v s) s"
  by (auto simp: outcome_def dest: unmovedD split: prod.splits result.splits)

lemma unmoved_basic [unmoved_intros]:
  "unmoved v (ret x)" "unmoved v (fail e)" "unmoved v (gets f)" "unmoved v panic" "unmoved v (answer r)"
  by (simp_all add: unmoved_def ret_def fail_def gets_def panic_def answer_def)

lemma unmoved_modify [unmoved_intros]: "(\<And>s. v (f s) = v s) \<Longrightarrow> unmoved v (modify f)"
  by (simp add: unmoved_def modify_def)

lemma unmoved_bind [unmoved_intros]: "unmoved v m \<Longrightarrow> (\<And>x. unmoved v (f x)) \<Longrightarrow> unmoved v (bind m f)"
  by (auto simp: unmoved_def bind_def split: prod.split result.split) (metis snd_conv)+

lemma unmoved_seq [unmoved_intros]: "unmoved v m \<Longrightarrow> unmoved v k \<Longrightarrow> unmoved v (seq m k)"
  unfolding seq_def by (rule unmoved_bind)

lemma unmoved_caught [unmoved_intros]: "unmoved v m \<Longrightarrow> unmoved v (caught m)"
  by (auto simp: unmoved_def caught_def split: prod.split result.split) (metis snd_conv)+

lemma unmoved_or_fail [unmoved_intros]: "unmoved v m \<Longrightarrow> (\<And>s. v (h s) = v s) \<Longrightarrow> unmoved v (or_fail f h m)"
  by (auto simp: unmoved_def or_fail_def split: prod.split result.split) (metis snd_conv)+

lemma unmoved_whenever [unmoved_intros]: "unmoved v m \<Longrightarrow> unmoved v (whenever c m)"
  by (simp add: whenever_def unmoved_basic)

lemma unmoved_if [unmoved_intros]: "(c \<Longrightarrow> unmoved v m) \<Longrightarrow> (\<not> c \<Longrightarrow> unmoved v k) \<Longrightarrow> unmoved v (if c then m else k)"
  by simp

lemma unmoved_option [unmoved_intros]:
  "unmoved v m \<Longrightarrow> (\<And>x. unmoved v (k x)) \<Longrightarrow> unmoved v (case u of None \<Rightarrow> m | Some x \<Rightarrow> k x)"
  by (cases u) simp_all

lemma unmoved_result [unmoved_intros]:
  "(\<And>x. unmoved v (f x)) \<Longrightarrow> (\<And>e. unmoved v (g e)) \<Longrightarrow> unmoved v h \<Longrightarrow>
   unmoved v (case r of Ok x \<Rightarrow> f x | Err e \<Rightarrow> g e | Panic \<Rightarrow> h)"
  by (cases r) simp_all

lemma unmoved_pair [unmoved_intros]: "(\<And>x y. unmoved v (f x y)) \<Longrightarrow> unmoved v (case p of (x, y) \<Rightarrow> f x y)"
  by (cases p) simp

lemma unmoved_let [unmoved_intros]: "unmoved v (f x) \<Longrightarrow> unmoved v (Let x f)"
  by simp

lemma unmoved_on_world [unmoved_intros]: "unmoved v m \<Longrightarrow> unmoved (\<lambda>s. v (rv_world s)) (on_world m)"
  by (auto simp: unmoved_def on_world_def split: prod.split) (metis snd_conv)

section \<open>Programs that return and look only\<close>

definition silent :: "('s \<Rightarrow> 'v) \<Rightarrow> ('s, 'e, 'x) prog \<Rightarrow> bool" where
  "silent v m \<longleftrightarrow> (\<forall>s. v (snd (m s)) = v s \<and> fst (m s) \<noteq> Panic)"

named_theorems silent_intros

lemma silentI: "unmoved v m \<Longrightarrow> (\<And>s. fst (m s) \<noteq> Panic) \<Longrightarrow> silent v m"
  by (simp add: silent_def unmoved_def)

lemma silentD: "silent v m \<Longrightarrow> m s = (r, s') \<Longrightarrow> v s' = v s \<and> r \<noteq> Panic"
  by (metis fst_conv silent_def snd_conv)

lemma silent_outcome:
  "silent v m \<Longrightarrow> outcome m (\<lambda>_ s'. v s' = v s) (\<lambda>_ s'. v s' = v s) (\<lambda>_. False) s"
  by (auto simp: outcome_def dest: silentD split: prod.splits result.splits)

lemma silent_basic [silent_intros]:
  "silent v (ret x)" "silent v (fail e)" "silent v (gets f)"
  by (simp_all add: silent_def ret_def fail_def gets_def)

lemma silent_answer [silent_intros]: "r \<noteq> Panic \<Longrightarrow> silent v (answer r)"
  by (simp add: silent_def answer_def)

lemma silent_bind [silent_intros]: "silent v m \<Longrightarrow> (\<And>x. silent v (f x)) \<Longrightarrow> silent v (bind m f)"
  unfolding silent_def bind_def by (auto split: prod.split result.split) (metis fst_conv snd_conv)+

lemma silent_seq [silent_intros]: "silent v m \<Longrightarrow> silent v k \<Longrightarrow> silent v (seq m k)"
  unfolding seq_def by (rule silent_bind)

lemma silent_caught_bind [silent_intros]:
  assumes "silent v m" and "\<And>r. r \<noteq> Panic \<Longrightarrow> silent v (f r)"
  shows "silent v (bind (caught m) f)"
  unfolding silent_def
proof
  fix s
  obtain r s' where run: "m s = (r, s')" by force
  then show "v (snd (bind (caught m) f s)) = v s \<and> fst (bind (caught m) f s) \<noteq> Panic"
    using silentD [OF assms(1) run] assms(2) [of r]
    by (cases r) (simp_all add: silent_def bind_def caught_def)
qed

lemma silent_or_fail [silent_intros]: "silent v m \<Longrightarrow> silent v (or_fail f id m)"
  unfolding silent_def or_fail_def by (auto split: prod.split result.split) (metis fst_conv snd_conv)+

lemma silent_if [silent_intros]: "(c \<Longrightarrow> silent v m) \<Longrightarrow> (\<not> c \<Longrightarrow> silent v k) \<Longrightarrow> silent v (if c then m else k)"
  by simp

lemma silent_option [silent_intros]:
  "silent v m \<Longrightarrow> (\<And>x. silent v (k x)) \<Longrightarrow> silent v (case u of None \<Rightarrow> m | Some x \<Rightarrow> k x)"
  by (cases u) simp_all

lemma silent_result [silent_intros]:
  "(\<And>x. silent v (f x)) \<Longrightarrow> (\<And>e. silent v (g e)) \<Longrightarrow> r \<noteq> Panic \<Longrightarrow>
   silent v (case r of Ok x \<Rightarrow> f x | Err e \<Rightarrow> g e | Panic \<Rightarrow> h)"
  by (cases r) simp_all

text \<open>A program that looks only and whose value satisfies \<open>Q\<close>.\<close>

definition answers :: "('s \<Rightarrow> 'v) \<Rightarrow> ('x \<Rightarrow> bool) \<Rightarrow> ('s, 'e, 'x) prog \<Rightarrow> bool" where
  "answers v Q m \<longleftrightarrow>
     (\<forall>s. outcome m (\<lambda>x s'. v s' = v s \<and> Q x) (\<lambda>_ s'. v s' = v s) (\<lambda>_. False) s)"

lemma answers_caught [silent_intros]: "silent v m \<Longrightarrow> answers v (\<lambda>r. r \<noteq> Panic) (caught m)"
  using silent_outcome by (fastforce simp: answers_def elim: outcome_conseq)

lemma answers_if [silent_intros]:
  "(c \<Longrightarrow> answers v Q m) \<Longrightarrow> (\<not> c \<Longrightarrow> answers v Q k) \<Longrightarrow> answers v Q (if c then m else k)"
  by simp

lemma answersD:
  "answers v Q m \<Longrightarrow> outcome m (\<lambda>x s'. v s' = v s \<and> Q x) (\<lambda>_ s'. v s' = v s) (\<lambda>_. False) s"
  by (simp add: answers_def)

lemma answers_bind [silent_intros]:
  assumes "silent v m" and "\<And>x. answers v Q (f x)"
  shows "answers v Q (bind m f)"
  unfolding answers_def
proof (intro allI outcome_bindI [OF silent_outcome [OF assms(1)]])
  show "outcome (f x) (\<lambda>x s''. v s'' = v s \<and> Q x) (\<lambda>_ s''. v s'' = v s) (\<lambda>_. False) s'"
    if "v s' = v s" for x s s'
    using answersD [OF assms(2)] by (rule outcome_conseq) (use that in auto)
qed

lemma silent_iff: "silent v m \<longleftrightarrow> answers v (\<lambda>_. True) m"
  unfolding silent_def answers_def outcome_def
  by (intro arg_cong [where f = All] ext) (simp split: prod.split result.split)

lemma silent_answers_bind:
  assumes "answers v Q m" and "\<And>x. Q x \<Longrightarrow> silent v (f x)"
  shows "silent v (bind m f)"
  unfolding silent_iff answers_def
proof (intro allI outcome_bindI [OF answersD [OF assms(1)]])
  show "outcome (f x) (\<lambda>x s''. v s'' = v s \<and> True) (\<lambda>_ s''. v s'' = v s) (\<lambda>_. False) s'"
    if "v s' = v s \<and> Q x" for x s s'
    using silent_outcome [OF assms(2)] by (rule outcome_conseq) (use that in auto)
qed

section \<open>Resolution looks only\<close>

locale looking_root =
  fixes v :: "'w \<Rightarrow> 'v" and root :: "('w, 'c) root_calls"
  assumes look_metadata: "unmoved v (rt_metadata root)"
    and look_symlink_metadata: "unmoved v (rt_symlink_metadata root p)"
    and look_cursor: "unmoved v (rt_cursor root)"
    and look_cursor_metadata: "unmoved v (rt_cursor_metadata root c name)"
    and look_descend: "unmoved v (rt_descend root c name)"
    and look_read_link: "unmoved v (rt_read_link root p maximum)"
    and look_now: "v (snd (rt_now root w)) = v w"
begin

lemma looks:
  "r = root \<Longrightarrow> unmoved v (rt_metadata r)" "r = root \<Longrightarrow> unmoved v (rt_symlink_metadata r p)"
  "r = root \<Longrightarrow> unmoved v (rt_cursor r)" "r = root \<Longrightarrow> unmoved v (rt_cursor_metadata r c name)"
  "r = root \<Longrightarrow> unmoved v (rt_descend r c name)" "r = root \<Longrightarrow> unmoved v (rt_read_link r p maximum)"
  using look_metadata look_symlink_metadata look_cursor look_cursor_metadata look_descend look_read_link by simp_all

lemma unmoved_resolution_deadline: "r = root \<Longrightarrow> unmoved v (check_resolution_deadline r deadline p op)"
  using look_now
  by (auto simp: unmoved_def check_resolution_deadline_def split: option.split prod.split) (metis snd_conv)

lemma unmoved_check_deadline: "rq_root rq = root \<Longrightarrow> unmoved (\<lambda>s. v (rv_world s)) (check_deadline rq)"
  unfolding check_deadline_def by (auto intro!: unmoved_on_world unmoved_resolution_deadline)

lemma unmoved_debit: "unmoved (\<lambda>s. v (rv_world s)) (debit_budget rq bytes)"
  by (auto simp: unmoved_def debit_budget_def split: option.split prod.split)

lemma unmoved_charge: "unmoved (\<lambda>s. v (rv_world s)) (charge_component rq name origin)"
  unfolding charge_component_def
  by (intro unmoved_intros unmoved_debit)

lemma unmoved_prefix:
  "rq_root rq = root \<Longrightarrow> unmoved (\<lambda>s. v (rv_world s)) (ensure_resolved_prefix_is_directory rq)"
  unfolding ensure_resolved_prefix_is_directory_def
  by (auto intro!: unmoved_intros looks)

lemma unmoved_pop: "unmoved (\<lambda>s. v (rv_world s)) (pop_resolved rq)"
  by (auto simp: unmoved_def pop_resolved_def Let_def split: list.split result.split)

lemma unmoved_descend:
  "rq_root rq = root \<Longrightarrow> unmoved (\<lambda>s. v (rv_world s)) (descend_components rq cursor names)"
  by (induction rq cursor names rule: descend_components.induct)
    (auto intro!: unmoved_intros looks unmoved_check_deadline)

lemma unmoved_ensure_cursor: "rq_root rq = root \<Longrightarrow> unmoved (\<lambda>s. v (rv_world s)) (ensure_cursor rq)"
  unfolding ensure_cursor_def open_resolved_cursor_def
  by (auto intro!: unmoved_intros looks unmoved_descend)

lemma unmoved_observe: "rq_root rq = root \<Longrightarrow> unmoved (\<lambda>s. v (rv_world s)) (observe_component rq name)"
  unfolding observe_component_def by (auto intro!: unmoved_intros looks)

lemma unmoved_enter:
  "rq_root rq = root \<Longrightarrow> unmoved (\<lambda>s. v (rv_world s)) (enter_component rq name metadata is_final)"
  unfolding enter_component_def drop_cursor_def
  by (auto intro!: unmoved_intros looks unmoved_check_deadline)

lemma unmoved_read_link: "r = root \<Longrightarrow> unmoved v (read_link_limited r p maximum validate)"
  unfolding read_link_limited_def by (auto intro!: unmoved_intros looks)

lemma unmoved_expand: "rq_root rq = root \<Longrightarrow> unmoved (\<lambda>s. v (rv_world s)) (expand_link rq candidate identity)"
  unfolding expand_link_def replace_pending_def
  by (auto intro!: unmoved_intros unmoved_check_deadline unmoved_read_link)

lemma unmoved_hop: "unmoved (\<lambda>s. v (rv_world s)) (count_hop rq)"
  by (auto simp: unmoved_def count_hop_def split: prod.split)

lemma unmoved_follow: "rq_root rq = root \<Longrightarrow> unmoved (\<lambda>s. v (rv_world s)) (follow_link rq name metadata)"
  unfolding follow_link_def drop_cursor_def
  by (auto intro!: unmoved_intros unmoved_hop unmoved_expand)

lemma unmoved_normal: "rq_root rq = root \<Longrightarrow> unmoved (\<lambda>s. v (rv_world s)) (normal_step rq name origin)"
  unfolding normal_step_def look_component_def observed_step_def push_resolved_def drop_cursor_def
  by (auto intro!: unmoved_intros unmoved_charge unmoved_check_deadline unmoved_ensure_cursor unmoved_observe
      unmoved_enter unmoved_follow)

lemma unmoved_parent: "rq_root rq = root \<Longrightarrow> unmoved (\<lambda>s. v (rv_world s)) (parent_step rq)"
  unfolding parent_step_def by (auto intro!: unmoved_intros unmoved_prefix unmoved_pop)

lemma unmoved_step: "rq_root rq = root \<Longrightarrow> unmoved (\<lambda>s. v (rv_world s)) (resolve_step rq step)"
  unfolding resolve_step_def reset_root_def
  by (cases step) (auto intro!: unmoved_intros unmoved_check_deadline unmoved_prefix unmoved_parent unmoved_normal)

lemma unmoved_loop:
  assumes "rq_root rq = root"
  shows "v (rv_world (snd (resolve_loop rq s))) = v (rv_world s)"
  using assms
proof (induction rq s rule: resolve_loop.induct)
  case (1 rq s)
  show ?case
  proof (cases "rv_pending s")
    case (Cons step rest)
    obtain r s' where run: "resolve_step rq step (s\<lparr>rv_pending := rest\<rparr>) = (r, s')" by force
    have same: "v (rv_world s') = v (rv_world s)"
      using unmovedD [OF unmoved_step [OF "1.prems"] run] by simp
    show ?thesis
      using "1.IH" [OF Cons run [symmetric]] "1.prems" same Cons run
      by (subst resolve_loop.simps) (cases r; simp)
  qed (subst resolve_loop.simps, simp)
qed

lemma unmoved_resolve_without_budget:
  "rq_root rq = root \<Longrightarrow> unmoved v (resolve_without_budget rq p session)"
  using unmoved_loop [of rq]
  by (auto simp: unmoved_def resolve_without_budget_def resolve_rooted_symlinks_def resolve_start_def
      split: result.split prod.split) (metis resolve_state.select_convs(1) snd_conv)

lemma unmoved_settle:
  "rq_root rq = root \<Longrightarrow> unmoved v (settle_components rq session comps bytes cursor names)"
  by (induction rq session comps bytes cursor names rule: settle_components.induct)
    (auto intro!: unmoved_intros looks unmoved_resolution_deadline simp: deadline_of_def)

lemma unmoved_fast_check: "rq_root rq = root \<Longrightarrow> unmoved v (try_resolve_without_symlinks rq p session)"
  unfolding try_resolve_without_symlinks_def deadline_of_def
  by (auto intro!: unmoved_intros looks unmoved_resolution_deadline unmoved_settle)

lemma unmoved_resolve_allow_root: "unmoved v (resolve_rooted_path_allow_root root p policy follow_final op)"
  unfolding resolve_rooted_path_allow_root_def resolve_rooted_path_allow_root_with_deadline_def
    resolve_rooted_path_allow_root_with_scope_and_deadline_def deadline_of_def rooted_request_def Let_def
  by (auto intro!: unmoved_intros unmoved_resolution_deadline unmoved_fast_check unmoved_resolve_without_budget)

lemma unmoved_resolve: "unmoved v (resolve_rooted_path root p policy follow_final op)"
  using unmoved_resolve_allow_root [of p policy follow_final op]
  unfolding resolve_rooted_path_def resolve_rooted_path_with_deadline_def resolve_rooted_path_allow_root_def
  by (auto intro!: unmoved_intros)

end

end
