(* ===== verification/Temp_Correct.thy ===== *)
theory Temp_Correct
  imports Temp_File World_Frame Rooted_Props Atomic_Correct
begin

text \<open>
  What temporary files promise, over a namespace with its documented behaviour. The Host namespace is a map
  from paths to entries as for the atomic writer, the opened root's namespace is another; a resource acts on
  the one of its authority, and \<open>name_view_of\<close> is the view of it.
\<close>

section \<open>The namespace of a resource\<close>

type_synonym name_view = "path \<Rightarrow> (file_stat + entry_metadata) option"

definition name_view_of ::
  "('w \<Rightarrow> path \<Rightarrow> file_stat option) \<Rightarrow> ('w \<Rightarrow> path \<Rightarrow> entry_metadata option) \<Rightarrow> temp_core \<Rightarrow> 'w \<Rightarrow> name_view" where
  "name_view_of hosts roots core w p =
     (case tr_backend core of
        HostTemp _ _ \<Rightarrow> map_option Inl (hosts w p)
      | RootedTemp _ _ _ \<Rightarrow> map_option Inr (roots w p))"

definition source_of :: "temp_core \<Rightarrow> path" where
  "source_of core = (case tr_backend core of HostTemp _ _ \<Rightarrow> tr_path core | RootedTemp _ relative _ \<Rightarrow> relative)"

definition sandbox_of :: "temp_core \<Rightarrow> path" where
  "sandbox_of core = (case tr_backend core of HostTemp _ sandbox \<Rightarrow> sandbox | RootedTemp _ _ sandbox \<Rightarrow> sandbox)"

fun created_entry :: "temp_backend \<Rightarrow> file_stat + entry_metadata \<Rightarrow> bool" where
  "created_entry (HostTemp identity _) (Inl st) \<longleftrightarrow> identity = stat_identity st"
| "created_entry (RootedTemp identity _ _) (Inr metadata) \<longleftrightarrow> is_same_file metadata identity"
| "created_entry _ _ \<longleftrightarrow> False"

text \<open>The source name holds the entry that was created for this resource.\<close>

definition holds_source :: "temp_core \<Rightarrow> name_view \<Rightarrow> bool" where
  "holds_source core m \<longleftrightarrow> (case m (source_of core) of Some x \<Rightarrow> created_entry (tr_backend core) x | None \<Rightarrow> False)"

text \<open>The paths of a rooted resource were validated at its creation.\<close>

definition valid_core :: "temp_core \<Rightarrow> bool" where
  "valid_core core \<longleftrightarrow>
     (case tr_backend core of
        HostTemp _ _ \<Rightarrow> True
      | RootedTemp _ relative sandbox \<Rightarrow>
          relative_path_new relative = Ok relative \<and> relative_path_new sandbox = Ok sandbox)"

definition host_directory :: "file_stat \<Rightarrow> bool" where
  "host_directory st \<longleftrightarrow> st_kind st = Directory"

definition root_directory :: "entry_metadata \<Rightarrow> bool" where
  "root_directory metadata \<longleftrightarrow> em_kind metadata = EntDirectory"

text \<open>Nothing but new directories appeared.\<close>

definition grown :: "('x \<Rightarrow> bool) \<Rightarrow> (path \<Rightarrow> 'x option) \<Rightarrow> (path \<Rightarrow> 'x option) \<Rightarrow> bool" where
  "grown directory m m' \<longleftrightarrow> (\<forall>p. m' p = m p \<or> (m p = None \<and> (case m' p of Some x \<Rightarrow> directory x | None \<Rightarrow> False)))"

definition new_directories :: "name_view \<Rightarrow> name_view \<Rightarrow> bool" where
  "new_directories = grown (case_sum host_directory root_directory)"

text \<open>A rename; two names of the same file stay.\<close>

definition renamed :: "path \<Rightarrow> path \<Rightarrow> (path \<Rightarrow> 'x option) \<Rightarrow> (path \<Rightarrow> 'x option)" where
  "renamed a b m = (if m a = m b then m else m(a := None, b := m a))"

lemma grown_refl [simp]: "grown d m m"
  by (simp add: grown_def)

lemma new_directories_refl [simp]: "new_directories m m"
  by (simp add: new_directories_def)

lemma outcome_temp_call [simp]:
  "outcome (temp_call m) Q E P s \<longleftrightarrow>
     outcome m (\<lambda>x w. Q x (s\<lparr>ts_world := w\<rparr>)) (\<lambda>e w. E e (s\<lparr>ts_world := w\<rparr>)) (\<lambda>w. P (s\<lparr>ts_world := w\<rparr>))
       (ts_world s)"
  by (auto simp: outcome_def temp_call_def split: prod.split result.split)

lemma outcome_on_calls [simp]:
  "outcome (on_calls m) Q E P c \<longleftrightarrow>
     outcome m (\<lambda>x w. Q x (c\<lparr>cs_world := w\<rparr>)) (\<lambda>e w. E e (c\<lparr>cs_world := w\<rparr>)) (\<lambda>w. P (c\<lparr>cs_world := w\<rparr>))
       (cs_world c)"
  by (auto simp: outcome_def on_calls_def split: prod.split result.split)

definition with_core :: "('w, 'h, 'i) temp_state \<Rightarrow> 'w core_state \<Rightarrow> ('w, 'h, 'i) temp_state" where
  "with_core s c = s\<lparr>ts_file := (ts_file s)\<lparr>tf_core := cs_core c\<rparr>, ts_world := cs_world c\<rparr>"

lemma outcome_on_core [simp]:
  "outcome (on_core m) Q E P s \<longleftrightarrow>
     outcome m (\<lambda>x c. Q x (with_core s c)) (\<lambda>e c. E e (with_core s c)) (\<lambda>c. P (with_core s c))
       \<lparr>cs_core = tf_core (ts_file s), cs_world = ts_world s\<rparr>"
  by (auto simp: outcome_def on_core_def with_core_def split: prod.split result.split)

lemma answer_outcome: "outcome (answer r) Q E P s \<longleftrightarrow> (case r of Ok x \<Rightarrow> Q x s | Err e \<Rightarrow> E e s | Panic \<Rightarrow> P s)"
  by (simp add: outcome_def answer_def)

lemma state_independent [simp]:
  fixes core :: temp_core
  shows "name_view_of hosts roots (core\<lparr>tr_state := st\<rparr>) = name_view_of hosts roots core"
    and "source_of (core\<lparr>tr_state := st\<rparr>) = source_of core"
    and "sandbox_of (core\<lparr>tr_state := st\<rparr>) = sandbox_of core"
    and "valid_core (core\<lparr>tr_state := st\<rparr>) = valid_core core"
  by (simp_all add: name_view_of_def source_of_def sandbox_of_def valid_core_def fun_eq_iff split: temp_backend.split)

lemma holds_source_state [simp]:
  fixes core :: temp_core
  shows "holds_source (core\<lparr>tr_state := st\<rparr>) m = holds_source core m"
  by (simp add: holds_source_def split: option.split)

text \<open>What a cleanup from the state of the core to the state \<open>st\<close> has done to the names.\<close>

definition cleanup_effect :: "temp_core \<Rightarrow> temp_resource_state \<Rightarrow> name_view \<Rightarrow> name_view \<Rightarrow> bool" where
  "cleanup_effect core st m m' \<longleftrightarrow>
     (case (tr_state core, st) of
        (Owned, SandboxPending) \<Rightarrow> holds_source core m \<and> m' = m(source_of core := None)
      | (Owned, Released) \<Rightarrow>
          holds_source core m \<and> m' = m(source_of core := None, sandbox_of core := None)
      | (SandboxPending, Released) \<Rightarrow> m' = m(sandbox_of core := None)
      | (Owned, ResourceIndeterminate) \<Rightarrow> m' = m
      | (old, new) \<Rightarrow> new = old \<and> m' = m)"

lemma law_outcome:
  assumes "\<And>x w'. m w = (Ok x, w') \<Longrightarrow> Q x w'" and "\<And>e w'. m w = (Err e, w') \<Longrightarrow> E e w'"
    and "\<And>w'. m w \<noteq> (Panic, w')"
  shows "outcome m Q E (\<lambda>_. False) w"
proof -
  obtain r w' where "m w = (r, w')" by force
  with assms(1,2) assms(3) [of w'] show ?thesis by (cases r) (simp_all add: outcome_def)
qed

lemma view_without: "(\<lambda>q. map_option f ((m(p := None)) q)) = (\<lambda>q. map_option f (m q))(p := None)"
  by (simp add: fun_eq_iff)

lemma view_renamed:
  assumes "inj f"
  shows "(\<lambda>p. map_option f (renamed a b m p)) = renamed a b (\<lambda>p. map_option f (m p))"
  using option.inj_map [OF assms] by (simp add: renamed_def fun_eq_iff inj_eq)

lemma grown_view:
  assumes "grown d m m'" and "\<And>x. d x \<Longrightarrow> d' (f x)"
  shows "grown d' (\<lambda>p. map_option f (m p)) (\<lambda>p. map_option f (m' p))"
  unfolding grown_def
proof
  fix p
  show "map_option f (m' p) = map_option f (m p) \<or>
      map_option f (m p) = None \<and> (case map_option f (m' p) of Some x \<Rightarrow> d' x | None \<Rightarrow> False)"
    using assms(1) [unfolded grown_def, rule_format, of p] assms(2) by (cases "m p"; cases "m' p") auto
qed

lemma bind_ret: "bind (ret x) f = f x"
  by (rule ext) (simp add: bind_def ret_def)

locale temp_files = unix_creation "tc_fs tc" hosts
  for tc :: "('w, 'h, 'c, 'i) temp_calls" and hosts :: "'w \<Rightarrow> path \<Rightarrow> file_stat option" +
  fixes roots :: "'w \<Rightarrow> path \<Rightarrow> entry_metadata option"
  assumes rename_same: "ux_rename (tc_fs tc) a b w = (Ok u, w') \<Longrightarrow> hosts w a = hosts w b \<Longrightarrow> hosts w' = hosts w"
    and noreplace_self: "ux_rename_noreplace (tc_fs tc) a a w \<noteq> (Ok u, w')"
    and host_dirs: "ux_create_dir_all (tc_fs tc) p w = (r, w') \<Longrightarrow>
      grown host_directory (hosts w) (hosts w') \<and> r \<noteq> Panic"
    and host_remove_dir_ok: "tc_remove_dir tc p w = (Ok u, w') \<Longrightarrow> hosts w' = (hosts w)(p := None)"
    and host_remove_dir_err: "tc_remove_dir tc p w = (Err e, w') \<Longrightarrow> hosts w' = hosts w"
    and host_remove_dir_returns: "tc_remove_dir tc p w \<noteq> (Panic, w')"
    and host_canonicalize: "silent hosts (tc_canonicalize tc p)"
    and host_reader: "silent hosts (tc_open_reader tc p)"
    and root_looks: "looking_root roots (tc_root tc)"
    and root_returns: "returning (tc_root tc)"
    and root_stat: "rt_symlink_metadata (tc_root tc) p w = (Ok metadata, w') \<Longrightarrow> roots w p = Some metadata"
    and root_rename_ok: "tc_root_rename tc a b replace w = (Ok u, w') \<Longrightarrow>
      roots w' = renamed a b (roots w) \<and> (replace \<or> roots w b = None)"
    and root_rename_err: "tc_root_rename tc a b replace w = (Err e, w') \<Longrightarrow> roots w' = roots w"
    and root_rename_returns: "tc_root_rename tc a b replace w \<noteq> (Panic, w')"
    and root_remove_ok: "tc_root_remove tc p directory w = (Ok u, w') \<Longrightarrow> roots w' = (roots w)(p := None)"
    and root_remove_err: "tc_root_remove tc p directory w = (Err e, w') \<Longrightarrow> roots w' = roots w"
    and root_remove_returns: "tc_root_remove tc p directory w \<noteq> (Panic, w')"
    and root_dirs: "tc_root_create_dir_all tc p w = (r, w') \<Longrightarrow>
      grown root_directory (roots w) (roots w') \<and> r \<noteq> Panic"
    and root_handles: "silent roots (tc_root_fstat tc h)" "silent roots (tc_root_open_reader tc p)"
      "silent roots (tc_root_open_directory tc p)" "silent roots (tc_root_clone tc)"
      "silent roots (tc_root_sync_parent tc p)" "silent roots (ux_sync_all (tc_fs tc) h)"
begin

abbreviation names :: "temp_core \<Rightarrow> 'w \<Rightarrow> name_view" where
  "names \<equiv> name_view_of hosts roots"

lemma silent_leaves: "leaves_names hosts op \<Longrightarrow> silent hosts op"
  by (auto simp: leaves_names_def silent_def) (metis prod.collapse)+

lemmas host_silent = quiet [THEN silent_leaves] quiet_metadata [THEN silent_leaves] host_canonicalize host_reader

lemma root_silent:
  "silent roots (rt_metadata (tc_root tc))" "silent roots (rt_symlink_metadata (tc_root tc) p)"
  using looking_root.looks(1,2) [OF root_looks] returning_calls [OF root_returns] by (auto intro!: silentI)

lemma silent_names:
  "tr_backend core = HostTemp i b \<Longrightarrow> silent hosts m \<Longrightarrow> silent (names core) m"
  "tr_backend core = RootedTemp j r b \<Longrightarrow> silent roots m \<Longrightarrow> silent (names core) m"
  by (simp_all add: silent_def name_view_of_def fun_eq_iff)

section \<open>Looking\<close>

lemma matches_source_outcome:
  assumes "valid_core core"
  shows "outcome (matches_source tc core)
    (\<lambda>b w'. names core w' = names core w \<and> (b \<longrightarrow> holds_source core (names core w)))
    (\<lambda>_ w'. names core w' = names core w) (\<lambda>_. False) w"
proof (cases "tr_backend core")
  case (HostTemp i b)
  obtain r w' where run: "ux_symlink_metadata (tc_fs tc) (tr_path core) w = (r, w')" by force
  have "hosts w' = hosts w" "r \<noteq> Panic"
    using silentD [OF host_silent(1) run] by simp_all
  with run stat_ok [of "tr_path core" w] HostTemp show ?thesis
    by (cases r) (auto simp: matches_source_def outcome_def bind_def ret_def name_view_of_def holds_source_def
        source_of_def fun_eq_iff)
next
  case (RootedTemp i p b)
  obtain r w' where run: "rt_symlink_metadata (tc_root tc) p w = (r, w')" by force
  have "roots w' = roots w" "r \<noteq> Panic"
    using silentD [OF root_silent(2) run] by simp_all
  with run root_stat [of p w] RootedTemp assms show ?thesis
    by (cases r) (auto simp: matches_source_def outcome_def bind_def ret_def name_view_of_def holds_source_def
        source_of_def fun_eq_iff valid_core_def expect_def)
qed

lemma silent_host_components:
  "silent hosts (resolve_host_components tc bound policy follow_final resolved cs)"
  by (induction cs arbitrary: resolved) (auto simp: Let_def intro!: silent_intros host_silent)

lemma silent_resolve_host: "silent hosts (resolve_host_path tc p policy follow_final)"
  unfolding resolve_host_path_def bind_host_path_def
  by (auto intro!: silent_intros silent_host_components)

lemma silent_resolve_allow_root:
  "silent roots (resolve_rooted_path_allow_root (tc_root tc) p policy follow_final op)"
proof (intro silentI looking_root.unmoved_resolve_allow_root root_looks)
  show "fst (resolve_rooted_path_allow_root (tc_root tc) p policy follow_final op w) \<noteq> Panic" for w
    using resolve_allow_root_outcome [of "tc_root tc" p policy follow_final op Descendant None w] root_returns
    by (auto simp: outcome_def resolve_rooted_path_allow_root_def resolve_rooted_path_allow_root_with_deadline_def
        split: prod.splits result.splits)
qed

lemma silent_resolve: "silent roots (resolve_rooted_path (tc_root tc) p policy follow_final op)"
  using silent_resolve_allow_root [of p policy follow_final op]
  unfolding resolve_rooted_path_def resolve_rooted_path_with_deadline_def resolve_rooted_path_allow_root_def
  by (auto intro!: silent_intros simp: map_err_returns)

lemma silent_as_io [silent_intros]: "silent v m \<Longrightarrow> silent v (as_io m)"
  unfolding as_io_def by (rule silent_or_fail)

lemma resolver_returns [simp]:
  "path_resolver_new scope p \<noteq> Panic" "resolve_path resolver p \<noteq> Panic" "target_anchor scope \<noteq> Panic"
  "prepare_persist_target scope base target \<noteq> Panic"
proof -
  show new: "path_resolver_new scope p \<noteq> Panic" for scope p
    by (simp add: path_resolver_new_def reject_native_nul_def parse_current_directory_def split: option.split)
  show bound: "resolve_path resolver p \<noteq> Panic" for resolver p
    by (simp add: resolve_path_def reject_native_nul_def bind_host_operand_def split: option.split)
  show anchor: "target_anchor scope \<noteq> Panic" for scope
    using new by (simp add: target_anchor_def split: fs_scope.split)
  show "prepare_persist_target scope base target \<noteq> Panic"
    using new bound anchor by (simp add: prepare_persist_target_def split: result.split option.split)
qed

lemma silent_validate_base:
  "silent (names core) (validate_persist_base tc (tr_backend core) base policy)"
proof (cases "tr_backend core")
  case (HostTemp i b)
  have "silent hosts (validate_persist_base tc (tr_backend core) base policy)"
    unfolding validate_persist_base_def HostTemp temp_backend.case
    by (rule silent_answers_bind [where Q = "\<lambda>r. r \<noteq> Panic"])
      (auto intro!: silent_intros silent_resolve_host host_silent split: bool.split)
  with HostTemp show ?thesis by (rule silent_names)
next
  case (RootedTemp i p b)
  have "silent roots (validate_persist_base tc (tr_backend core) base policy)"
    unfolding validate_persist_base_def RootedTemp temp_backend.case rooted_base_is_directory_def
    by (rule silent_answers_bind [where Q = "\<lambda>r. r \<noteq> Panic"])
      (auto intro!: silent_intros silent_resolve_allow_root root_silent split: bool.split)
  with RootedTemp show ?thesis by (rule silent_names)
qed

section \<open>Changing\<close>

lemma names_host: "tr_backend core = HostTemp i b \<Longrightarrow> names core w = (\<lambda>p. map_option Inl (hosts w p))"
  and names_rooted: "tr_backend core = RootedTemp j q b \<Longrightarrow> names core w = (\<lambda>p. map_option Inr (roots w p))"
  by (simp_all add: name_view_of_def fun_eq_iff)

lemmas name_views = names_host names_rooted view_without view_renamed

lemma unlink_outcome:
  "outcome (ux_unlink (tc_fs tc) a) (\<lambda>_ w'. hosts w' = (hosts w)(a := None)) (\<lambda>_ w'. hosts w' = hosts w)
     (\<lambda>_. False) w"
  by (rule law_outcome) (use unlink_ok unlink_err unlink_returns in blast)+

lemma remove_dir_outcome:
  "outcome (tc_remove_dir tc a) (\<lambda>_ w'. hosts w' = (hosts w)(a := None)) (\<lambda>_ w'. hosts w' = hosts w)
     (\<lambda>_. False) w"
  by (rule law_outcome) (use host_remove_dir_ok host_remove_dir_err host_remove_dir_returns in blast)+

lemma root_remove_outcome:
  "outcome (tc_root_remove tc a d) (\<lambda>_ w'. roots w' = (roots w)(a := None)) (\<lambda>_ w'. roots w' = roots w)
     (\<lambda>_. False) w"
  by (rule law_outcome) (use root_remove_ok root_remove_err root_remove_returns in blast)+

lemma root_checked_remove:
  "outcome (bind (rt_symlink_metadata (tc_root tc) a) (\<lambda>metadata. if c metadata then fail e else tc_root_remove tc a d))
     (\<lambda>_ w'. roots w' = (roots w)(a := None)) (\<lambda>_ w'. roots w' = roots w) (\<lambda>_. False) w"
proof (rule outcome_bindI [OF silent_outcome [OF root_silent(2)]])
  fix metadata w1
  assume same: "roots w1 = roots w"
  show "outcome (if c metadata then fail e else tc_root_remove tc a d)
      (\<lambda>_ w'. roots w' = (roots w)(a := None)) (\<lambda>_ w'. roots w' = roots w) (\<lambda>_. False) w1"
    using root_remove_outcome [of a d w1] same by simp
qed

lemma remove_entry_outcome:
  assumes "valid_core core"
  shows "outcome (remove_entry tc core) (\<lambda>_ w'. names core w' = (names core w)(source_of core := None))
    (\<lambda>_ w'. names core w' = names core w) (\<lambda>_. False) w"
proof (cases "tr_backend core")
  case (HostTemp i b)
  then show ?thesis
    using unlink_outcome [of "tr_path core" w]
    by (auto simp: remove_entry_def source_of_def name_views elim!: outcome_conseq)
next
  case (RootedTemp i p b)
  with assms have body: "remove_entry tc core = root_remove_file tc p"
    by (simp add: remove_entry_def valid_core_def expect_def bind_ret)
  show ?thesis
    unfolding body root_remove_file_def
    by (rule outcome_conseq [OF root_checked_remove]) (use RootedTemp in \<open>simp_all add: source_of_def name_views fun_eq_iff\<close>)
qed

lemma release_sandbox_outcome:
  assumes "valid_core core"
  shows "outcome (core_release_sandbox tc core) (\<lambda>_ w'. names core w' = (names core w)(sandbox_of core := None))
    (\<lambda>_ w'. names core w' = names core w) (\<lambda>_. False) w"
proof (cases "tr_backend core")
  case (HostTemp i b)
  then show ?thesis
    using remove_dir_outcome [of b w]
    by (auto simp: core_release_sandbox_def sandbox_of_def name_views elim!: outcome_conseq)
next
  case (RootedTemp i p b)
  with assms have body: "core_release_sandbox tc core = root_remove_empty_dir tc b"
    by (simp add: core_release_sandbox_def valid_core_def expect_def bind_ret)
  show ?thesis
    unfolding body root_remove_empty_dir_def
    by (rule outcome_conseq [OF root_checked_remove]) (use RootedTemp in \<open>simp_all add: sandbox_of_def name_views fun_eq_iff\<close>)
qed

text \<open>The installation moves the source to the target, over an entry only where that was allowed, or changes nothing.\<close>

definition installs :: "temp_core \<Rightarrow> persist_options \<Rightarrow> path \<Rightarrow> ('w, unit) native \<Rightarrow> bool" where
  "installs core opts t m \<longleftrightarrow>
     (\<forall>w. outcome m
        (\<lambda>_ w'. names core w' = renamed (source_of core) t (names core w) \<and>
           (ps_overwrite opts \<or> names core w t = None))
        (\<lambda>_ w'. names core w' = names core w) (\<lambda>_. False) w)"

lemma rename_outcome:
  "outcome (ux_rename (tc_fs tc) a b) (\<lambda>_ w'. hosts w' = renamed a b (hosts w)) (\<lambda>_ w'. hosts w' = hosts w)
     (\<lambda>_. False) w"
proof (rule law_outcome)
  fix u w' assume run: "ux_rename (tc_fs tc) a b w = (Ok u, w')"
  then show "hosts w' = renamed a b (hosts w)"
    using rename_ok [OF run] rename_same [OF run] by (cases "hosts w a = hosts w b") (auto simp: renamed_def)
qed (use rename_err rename_returns in blast)+

lemma noreplace_outcome:
  "outcome (ux_rename_noreplace (tc_fs tc) a b)
     (\<lambda>_ w'. hosts w' = renamed a b (hosts w) \<and> hosts w b = None) (\<lambda>_ w'. hosts w' = hosts w) (\<lambda>_. False) w"
proof (rule law_outcome)
  fix u w' assume run: "ux_rename_noreplace (tc_fs tc) a b w = (Ok u, w')"
  then have "a \<noteq> b"
    using noreplace_self by auto
  then show "hosts w' = renamed a b (hosts w) \<and> hosts w b = None"
    using noreplace_ok [OF run] by (auto simp: renamed_def fun_eq_iff)
qed (use noreplace_err noreplace_returns in blast)+

lemma installs_host:
  assumes "tr_backend core = HostTemp i b"
  shows "installs core opts t (install_host tc opts core t)"
proof -
  have quick: "outcome (move_path_without_replacing (tc_fs tc) (tr_path core) t)
      (\<lambda>_ w'. hosts w' = renamed (tr_path core) t (hosts w) \<and> hosts w t = None) (\<lambda>_ w'. hosts w' = hosts w)
      (\<lambda>_. False) w" for w
    using noreplace_outcome [of "tr_path core" t w]
    by (simp add: move_path_without_replacing_def native_path_def answer_def outcome_def bind_def)
  show ?thesis
  proof (cases "ps_overwrite opts")
    case True
    show ?thesis
      unfolding installs_def install_host_def replace_file_def if_P [OF True]
      by (intro allI outcome_conseq [OF rename_outcome])
        (use True assms view_renamed [of Inl] in \<open>simp_all add: source_of_def names_host inj_on_def\<close>)
  next
    case False
    show ?thesis
      unfolding installs_def install_host_def if_not_P [OF False]
      by (intro allI outcome_conseq [OF quick])
        (use False assms view_renamed [of Inl] in \<open>simp_all add: source_of_def names_host inj_on_def\<close>)
  qed
qed

lemma installs_rooted:
  assumes "tr_backend core = RootedTemp i p b"
  shows "installs core opts t (install_rooted tc opts p t)"
proof -
  have run: "outcome (tc_root_rename tc p t replace)
      (\<lambda>_ w'. roots w' = renamed p t (roots w) \<and> (replace \<or> roots w t = None)) (\<lambda>_ w'. roots w' = roots w)
      (\<lambda>_. False) w" for replace w
    by (rule law_outcome, erule root_rename_ok, erule root_rename_err, rule root_rename_returns)
  show ?thesis
    unfolding installs_def install_rooted_def
    by (intro allI outcome_conseq [OF run])
      (use assms view_renamed [of Inr] in \<open>auto simp: source_of_def names_rooted inj_on_def\<close>)
qed

section \<open>Parents and synchronization\<close>

lemma new_directories_view:
  "tr_backend core = HostTemp i b \<Longrightarrow> grown host_directory (hosts w) (hosts w') \<Longrightarrow>
   new_directories (names core w) (names core w')"
  "tr_backend core = RootedTemp j q b \<Longrightarrow> grown root_directory (roots w) (roots w') \<Longrightarrow>
   new_directories (names core w) (names core w')"
  by (simp_all add: names_host names_rooted new_directories_def grown_view)

definition makes_parents :: "temp_core \<Rightarrow> ('w, 'x) native \<Rightarrow> bool" where
  "makes_parents core m \<longleftrightarrow>
     (\<forall>w. outcome m (\<lambda>_ w'. new_directories (names core w) (names core w'))
        (\<lambda>_ w'. new_directories (names core w) (names core w')) (\<lambda>_. False) w)"

lemma silent_makes: "silent (names core) m \<Longrightarrow> makes_parents core m"
  unfolding makes_parents_def by (intro allI outcome_conseq [OF silent_outcome]) auto

lemma silent_missing_ancestors: "silent hosts (missing_ancestors (tc_fs tc) current missing)"
proof -
  have "hosts (snd (missing_ancestors (tc_fs tc) current missing w)) = hosts w \<and>
      fst (missing_ancestors (tc_fs tc) current missing w) \<noteq> Panic" for w
  proof (induction "tc_fs tc" current missing w rule: missing_ancestors.induct)
    case (1 current missing w)
    obtain r w1 where run: "ux_metadata (tc_fs tc) current w = (r, w1)" by force
    have "hosts w1 = hosts w" "r \<noteq> Panic"
      using silentD [OF silent_leaves [OF quiet_metadata] run] by simp_all
    with "1.hyps" [OF run [symmetric]] run show ?case
      by (subst (1 2) missing_ancestors.simps) (cases r; simp split: option.split)
  qed
  then show ?thesis by (simp add: silent_def)
qed

lemma makes_host_parent:
  assumes "tr_backend core = HostTemp i b"
  shows "makes_parents core (prepare_host_parent tc target create)"
proof -
  have create: "outcome (ux_create_dir_all (tc_fs tc) p) (\<lambda>_ w'. new_directories (names core w) (names core w'))
      (\<lambda>_ w'. new_directories (names core w) (names core w')) (\<lambda>_. False) w" for p w
    by (rule law_outcome) (use host_dirs new_directories_view(1) [OF assms] in blast)+
  have ensure: "makes_parents core (ensure_parent_path_with_sync_dirs (tc_fs tc) target)"
  proof (cases "path_parent target")
    case (Some parent)
    have "outcome (bind (missing_ancestors (tc_fs tc) parent []) (\<lambda>missing.
          seq (ux_create_dir_all (tc_fs tc) parent) (ret (rev missing))))
        (\<lambda>_ w'. new_directories (names core w) (names core w'))
        (\<lambda>_ w'. new_directories (names core w) (names core w')) (\<lambda>_. False) w" for w
    proof (rule outcome_bindI)
      show "outcome (missing_ancestors (tc_fs tc) parent []) (\<lambda>_ w'. hosts w' = hosts w)
          (\<lambda>_ w'. new_directories (names core w) (names core w')) (\<lambda>_. False) w"
        by (rule outcome_conseq [OF silent_outcome [OF silent_missing_ancestors]])
          (use assms in \<open>simp_all add: names_host\<close>)
      show "outcome (seq (ux_create_dir_all (tc_fs tc) parent) (ret (rev missing)))
          (\<lambda>_ w'. new_directories (names core w) (names core w'))
          (\<lambda>_ w'. new_directories (names core w) (names core w')) (\<lambda>_. False) w1"
        if "hosts w1 = hosts w" for missing w1
        using create [of parent w1] that assms by (simp add: names_host)
    qed
    with Some show ?thesis
      by (simp add: ensure_parent_path_with_sync_dirs_def makes_parents_def del: outcome_bind)
  qed (simp add: ensure_parent_path_with_sync_dirs_def makes_parents_def)
  have look: "silent hosts (bind (ux_metadata (tc_fs tc) p) (\<lambda>st.
      if st_kind st = Directory then ret ([] :: path list) else fail (io_error_of IoNotADirectory)))" for p
    by (auto intro!: silent_intros host_silent)
  show ?thesis
    using ensure silent_makes [OF silent_names(1) [OF assms look]]
    by (simp add: prepare_host_parent_def makes_parents_def del: outcome_bind split: option.split)
qed

lemma makes_rooted_parent:
  assumes "tr_backend core = RootedTemp i q b"
  shows "makes_parents core (prepare_rooted_parent tc target create)"
proof -
  have make: "makes_parents core (tc_root_create_dir_all tc p)" for p
    unfolding makes_parents_def
    by (intro allI law_outcome) (use root_dirs new_directories_view(2) [OF assms] in blast)+
  have look: "makes_parents core (bind (rt_symlink_metadata (tc_root tc) p) (\<lambda>metadata.
      if em_kind metadata = EntDirectory then ret () else fail (io_error_of IoNotADirectory)))" for p
    by (rule silent_makes, rule silent_names(2) [OF assms]) (auto intro!: silent_intros root_silent)
  have "makes_parents core (bind (answer (relative_path_new p)) (\<lambda>p. if create then tc_root_create_dir_all tc p
      else bind (rt_symlink_metadata (tc_root tc) p) (\<lambda>metadata.
        if em_kind metadata = EntDirectory then ret () else fail (io_error_of IoNotADirectory))))" for p
    using make [of p] look [of p]
    by (cases create) (auto simp: makes_parents_def relative_path_new_def outcome_def bind_def answer_def)
  then show ?thesis
    by (simp add: prepare_rooted_parent_def makes_parents_def del: outcome_bind split: option.split)
qed

lemma silent_sync_parent: "silent hosts (sync_parent_dir (tc_fs tc) p)"
  unfolding sync_parent_dir_def by (rule host_silent)

lemma silent_sync_parents: "silent hosts (sync_parents (tc_fs tc) dirs)"
  by (induction dirs) (auto intro!: silent_intros silent_sync_parent)

lemma silent_sync_ancestors: "silent roots (sync_ancestors tc p)"
proof (induction "length p" arbitrary: p rule: less_induct)
  case less
  then show ?case
    by (subst sync_ancestors.simps)
      (auto intro!: silent_intros root_handles dest: path_parent_shorter split: option.split)
qed

lemma silent_destination: "silent v m \<Longrightarrow> silent v (synchronize_destination dur m)"
  unfolding synchronize_destination_def by (auto intro!: silent_intros split: durability.split)

lemma silent_host_publication:
  "tr_backend core = HostTemp i b \<Longrightarrow> silent (names core) (synchronize_host_publication tc source target created dur)"
  unfolding synchronize_host_publication_def
  by (rule silent_names(1))
    (auto intro!: silent_destination silent_intros silent_sync_parent silent_sync_parents)

lemma silent_rooted_publication:
  "tr_backend core = RootedTemp i q b \<Longrightarrow> silent (names core) (synchronize_rooted_publication tc source target dur)"
  unfolding synchronize_rooted_publication_def
  by (rule silent_names(2)) (auto intro!: silent_destination silent_intros silent_sync_ancestors root_handles)

lemma silent_open_file: "silent (names core) (synchronize_open_file tc core h dur)"
proof (cases "tr_backend core")
  case (HostTemp i b)
  show ?thesis
    unfolding synchronize_open_file_def HostTemp temp_backend.case
    by (rule silent_names(1) [OF HostTemp]) (auto intro!: silent_intros host_silent)
next
  case (RootedTemp i q b)
  show ?thesis
    unfolding synchronize_open_file_def RootedTemp temp_backend.case
    by (rule silent_names(2) [OF RootedTemp]) (auto intro!: silent_intros root_handles)
qed

lemma silent_probe: "silent roots (open_probe_file tc p)"
  unfolding open_probe_file_def by (auto intro!: silent_intros root_silent root_handles)

lemma silent_source_handle: "silent (names (tf_core tf)) (synchronize_handle tc tf dur)"
proof (cases "tr_backend (tf_core tf)")
  case (HostTemp i b)
  show ?thesis
    unfolding synchronize_handle_def HostTemp temp_backend.case
    by (intro silent_intros silent_open_file silent_names(1) [OF HostTemp] host_silent)
next
  case (RootedTemp i q b)
  show ?thesis
    unfolding synchronize_handle_def RootedTemp temp_backend.case
    by (intro silent_intros silent_open_file silent_names(2) [OF RootedTemp] silent_probe) simp
qed

lemma silent_source: "silent (names (tf_core tf)) (synchronize_source tc tf dur)"
  unfolding synchronize_source_def
  by (cases dur) (auto intro!: silent_intros silent_source_handle)

section \<open>The lifecycle\<close>

lemma core_identity_outcome:
  assumes "valid_core (cs_core c)" and "tr_state (cs_core c) = Owned"
  shows "outcome (core_ensure_identity_matches tc)
    (\<lambda>_ c'. cs_core c' = cs_core c \<and> names (cs_core c) (cs_world c') = names (cs_core c) (cs_world c) \<and>
       holds_source (cs_core c) (names (cs_core c) (cs_world c)))
    (\<lambda>_ c'. cs_core c' = (cs_core c)\<lparr>tr_state := ResourceIndeterminate\<rparr> \<and>
       names (cs_core c) (cs_world c') = names (cs_core c) (cs_world c))
    (\<lambda>_. False) c"
  unfolding core_ensure_identity_matches_def
  using assms(2)
  by (auto simp: answer_outcome ensure_publishable_def set_state_def
      intro!: outcome_conseq [OF matches_source_outcome [OF assms(1)]] split: bool.splits)

lemma identity_outcome:
  assumes "valid_core (tf_core (ts_file s))" and "tr_state (tf_core (ts_file s)) = Owned"
  defines "core \<equiv> tf_core (ts_file s)"
  shows "outcome (ensure_identity_matches tc)
    (\<lambda>_ s'. ts_file s' = ts_file s \<and> names core (ts_world s') = names core (ts_world s) \<and>
       holds_source core (names core (ts_world s)))
    (\<lambda>_ s'. ts_file s' = (ts_file s)\<lparr>tf_core := core\<lparr>tr_state := ResourceIndeterminate\<rparr>, tf_file := None\<rparr> \<and>
       names core (ts_world s') = names core (ts_world s))
    (\<lambda>_. False) s"
proof -
  let ?c = "\<lparr>cs_core = tf_core (ts_file s), cs_world = ts_world s\<rparr>"
  note base = core_identity_outcome [of ?c, simplified, OF assms(1,2)]
  show ?thesis
    unfolding ensure_identity_matches_def
    by (auto simp: get_core_def answer_outcome with_core_def close_file_def core_def assms(2)
        intro!: outcome_conseq [OF base])
qed

lemma remove_resource_outcome:
  assumes "valid_core (tf_core (ts_file s))" and "tr_state (tf_core (ts_file s)) = Owned"
  defines "core \<equiv> tf_core (ts_file s)"
  shows "outcome (remove_resource tc)
    (\<lambda>_ s'. ts_file s' = ts_file s \<and> holds_source core (names core (ts_world s)) \<and>
       names core (ts_world s') = (names core (ts_world s))(source_of core := None))
    (\<lambda>_ s'. names core (ts_world s') = names core (ts_world s) \<and>
       (ts_file s' = ts_file s \<or>
        ts_file s' = (ts_file s)\<lparr>tf_core := core\<lparr>tr_state := ResourceIndeterminate\<rparr>, tf_file := None\<rparr>))
    (\<lambda>_. False) s"
  unfolding remove_resource_def
proof (rule outcome_seqI [where R = "\<lambda>s'. ts_file s' = ts_file s \<and>
      names core (ts_world s') = names core (ts_world s) \<and> holds_source core (names core (ts_world s))"])
  show "outcome (ensure_identity_matches tc)
      (\<lambda>_ s'. ts_file s' = ts_file s \<and> names core (ts_world s') = names core (ts_world s) \<and>
         holds_source core (names core (ts_world s)))
      (\<lambda>_ s'. names core (ts_world s') = names core (ts_world s) \<and>
         (ts_file s' = ts_file s \<or>
          ts_file s' = (ts_file s)\<lparr>tf_core := core\<lparr>tr_state := ResourceIndeterminate\<rparr>, tf_file := None\<rparr>))
      (\<lambda>_. False) s"
    unfolding core_def by (rule outcome_conseq [OF identity_outcome [OF assms(1,2)]]) auto
  fix s1 :: "('w, 'h, 'i) temp_state"
  assume now: "ts_file s1 = ts_file s \<and> names core (ts_world s1) = names core (ts_world s) \<and>
      holds_source core (names core (ts_world s))"
  then show "outcome (bind get_core (\<lambda>core. temp_call (remove_entry tc core)))
      (\<lambda>_ s'. ts_file s' = ts_file s \<and> holds_source core (names core (ts_world s)) \<and>
         names core (ts_world s') = (names core (ts_world s))(source_of core := None))
      (\<lambda>_ s'. names core (ts_world s') = names core (ts_world s) \<and>
         (ts_file s' = ts_file s \<or>
          ts_file s' = (ts_file s)\<lparr>tf_core := core\<lparr>tr_state := ResourceIndeterminate\<rparr>, tf_file := None\<rparr>))
      (\<lambda>_. False) s1"
    using remove_entry_outcome [OF assms(1), of "ts_world s1"]
    by (simp add: get_core_def core_def)
qed

lemma release_outcome:
  assumes "valid_core (tf_core (ts_file s))"
  defines "core \<equiv> tf_core (ts_file s)"
  shows "outcome (release_sandbox tc)
    (\<lambda>_ s'. ts_file s' = ts_file s \<and> names core (ts_world s') = (names core (ts_world s))(sandbox_of core := None))
    (\<lambda>_ s'. ts_file s' = ts_file s \<and> names core (ts_world s') = names core (ts_world s)) (\<lambda>_. False) s"
  using release_sandbox_outcome [OF assms(1), of "ts_world s"]
  by (simp add: release_sandbox_def get_core_def core_def)

text \<open>The two phases of a cleanup, from a closed file.\<close>

lemma cleanup_removal:
  fixes s :: "('w, 'h, 'i) temp_state"
  assumes "valid_core (tf_core (ts_file s))" and "tf_file (ts_file s) = None"
    and "tr_state (tf_core (ts_file s)) \<noteq> ResourceIndeterminate"
  defines "core \<equiv> tf_core (ts_file s)"
  shows "outcome (bind get_core (\<lambda>core. whenever (tr_state core = Owned)
      (seq (cleaning tr_path (remove_resource tc)) (move_to SandboxPending))))
    (\<lambda>_ s'. \<exists>st. st \<noteq> Owned \<and> st \<noteq> ResourceIndeterminate \<and>
       ts_file s' = (ts_file s)\<lparr>tf_core := core\<lparr>tr_state := st\<rparr>\<rparr> \<and>
       (st = Released \<longrightarrow> tr_state core = Released) \<and>
       cleanup_effect core st (names core (ts_world s)) (names core (ts_world s')))
    (\<lambda>_ s'. \<exists>st. st \<noteq> Released \<and> tf_file (ts_file s') = None \<and> tf_core (ts_file s') = core\<lparr>tr_state := st\<rparr> \<and>
       cleanup_effect core st (names core (ts_world s)) (names core (ts_world s')))
    (\<lambda>_. False) s" (is "outcome _ ?Q ?E _ _")
proof (cases "tr_state core = Owned")
  case True
  then have owned: "tr_state (tf_core (ts_file s)) = Owned"
    by (simp add: core_def)
  have "outcome (seq (cleaning tr_path (remove_resource tc)) (move_to SandboxPending)) ?Q ?E (\<lambda>_. False) s"
  proof (rule outcome_seqI [where R = "\<lambda>s'. ts_file s' = ts_file s \<and> holds_source core (names core (ts_world s)) \<and>
      names core (ts_world s') = (names core (ts_world s))(source_of core := None)"])
    have failed: "?E e s'"
      if "names core (ts_world s') = names core (ts_world s)"
        and "ts_file s' = ts_file s \<or>
          ts_file s' = (ts_file s)\<lparr>tf_core := core\<lparr>tr_state := ResourceIndeterminate\<rparr>, tf_file := None\<rparr>" for e s'
      using that(2)
    proof
      assume "ts_file s' = ts_file s"
      with that(1) True assms(2) show ?thesis
        by (intro exI [of _ Owned]) (simp add: core_def cleanup_effect_def)
    qed (use that(1) True in \<open>intro exI [of _ ResourceIndeterminate], simp add: cleanup_effect_def\<close>)
    show "outcome (cleaning tr_path (remove_resource tc))
        (\<lambda>_ s'. ts_file s' = ts_file s \<and> holds_source core (names core (ts_world s)) \<and>
           names core (ts_world s') = (names core (ts_world s))(source_of core := None)) ?E (\<lambda>_. False) s"
      unfolding cleaning_def outcome_or_fail
      by (rule outcome_conseq [OF remove_resource_outcome [OF assms(1) owned, folded core_def]])
        (use failed in auto)
    show "outcome (move_to SandboxPending) ?Q ?E (\<lambda>_. False) s1"
      if "ts_file s1 = ts_file s \<and> holds_source core (names core (ts_world s)) \<and>
        names core (ts_world s1) = (names core (ts_world s))(source_of core := None)" for s1
      using that True
      by (simp add: move_to_def set_state_def with_core_def cleanup_effect_def core_def) (rule exI [of _ SandboxPending], simp)
  qed
  then show ?thesis
    unfolding get_core_def outcome_bind outcome_gets outcome_whenever core_def [symmetric] if_P [OF True] .
next
  case False
  have "?Q () s"
    using False assms(3)
    by (intro exI [of _ "tr_state core"])
      (simp add: core_def cleanup_effect_def split: temp_resource_state.split)
  then show ?thesis
    unfolding get_core_def outcome_bind outcome_gets outcome_whenever core_def [symmetric] if_not_P [OF False] .
qed

lemma cleanup_release:
  fixes s :: "('w, 'h, 'i) temp_state"
  assumes "valid_core core" and "st \<noteq> Owned" and "st \<noteq> ResourceIndeterminate" and "tf_file (ts_file s) = None"
    and "tf_core (ts_file s) = core\<lparr>tr_state := st\<rparr>" and "st = Released \<longrightarrow> tr_state core = Released"
    and "cleanup_effect core st m (names core (ts_world s))"
  shows "outcome (bind get_core (\<lambda>core. whenever (tr_state core = SandboxPending)
      (seq (cleaning cleanup_path (release_sandbox tc)) (move_to Released))))
    (\<lambda>_ s'. tf_file (ts_file s') = None \<and> tf_core (ts_file s') = core\<lparr>tr_state := Released\<rparr> \<and>
       cleanup_effect core Released m (names core (ts_world s')))
    (\<lambda>_ s'. \<exists>st. st \<noteq> Released \<and> tf_file (ts_file s') = None \<and> tf_core (ts_file s') = core\<lparr>tr_state := st\<rparr> \<and>
       cleanup_effect core st m (names core (ts_world s')))
    (\<lambda>_. False) s" (is "outcome _ ?Q ?E _ _")
proof (cases "st = SandboxPending")
  case True
  have valid: "valid_core (tf_core (ts_file s))"
    using assms(1,5) by simp
  have "outcome (seq (cleaning cleanup_path (release_sandbox tc)) (move_to Released)) ?Q ?E (\<lambda>_. False) s"
  proof (rule outcome_seqI [where R = "\<lambda>s'. ts_file s' = ts_file s \<and>
      names core (ts_world s') = (names core (ts_world s))(sandbox_of core := None)"])
    have failed: "?E e s'"
      if "ts_file s' = ts_file s" "names core (ts_world s') = names core (ts_world s)" for e s'
      using that assms(4,5,7) True by (intro exI [of _ SandboxPending]) simp
    show "outcome (cleaning cleanup_path (release_sandbox tc))
        (\<lambda>_ s'. ts_file s' = ts_file s \<and>
           names core (ts_world s') = (names core (ts_world s))(sandbox_of core := None)) ?E (\<lambda>_. False) s"
      unfolding cleaning_def outcome_or_fail
      by (rule outcome_conseq [OF release_outcome [OF valid]]) (use failed assms(5) in auto)
    show "outcome (move_to Released) ?Q ?E (\<lambda>_. False) s1"
      if "ts_file s1 = ts_file s \<and> names core (ts_world s1) = (names core (ts_world s))(sandbox_of core := None)"
      for s1
      using that assms(4,5,7) True
      by (simp add: move_to_def set_state_def with_core_def cleanup_effect_def split: temp_resource_state.splits)
  qed
  then show ?thesis
    using True assms(5) by (simp only: get_core_def outcome_bind outcome_gets outcome_whenever) simp
next
  case False
  then have "st = Released"
    using assms(2,3) by (cases st) simp_all
  with assms show ?thesis
    by (simp add: get_core_def)
qed

lemma cleanup_outcome:
  fixes s :: "('w, 'h, 'i) temp_state"
  assumes "valid_core (tf_core (ts_file s))"
  defines "core \<equiv> tf_core (ts_file s)"
  shows "outcome (cleanup tc)
    (\<lambda>_ s'. tf_file (ts_file s') = None \<and> tf_core (ts_file s') = core\<lparr>tr_state := Released\<rparr> \<and>
       cleanup_effect core Released (names core (ts_world s)) (names core (ts_world s')))
    (\<lambda>_ s'. \<exists>st. st \<noteq> Released \<and> tf_file (ts_file s') = None \<and> tf_core (ts_file s') = core\<lparr>tr_state := st\<rparr> \<and>
       cleanup_effect core st (names core (ts_world s)) (names core (ts_world s')))
    (\<lambda>_. False) s" (is "outcome _ ?Q ?E _ _")
proof -
  let ?s = "s\<lparr>ts_file := (ts_file s)\<lparr>tf_file := None\<rparr>\<rparr>"
  let ?first = "bind get_core (\<lambda>core. whenever (tr_state core = Owned)
      (seq (cleaning tr_path (remove_resource tc)) (move_to SandboxPending)))"
  let ?second = "bind get_core (\<lambda>core. whenever (tr_state core = SandboxPending)
      (seq (cleaning cleanup_path (release_sandbox tc)) (move_to Released)))"
  have body: "outcome (seq ?first ?second) ?Q ?E (\<lambda>_. False) ?s" if "tr_state core \<noteq> ResourceIndeterminate"
  proof (rule outcome_seqI)
    show "outcome ?first (\<lambda>_ s'. \<exists>st. st \<noteq> Owned \<and> st \<noteq> ResourceIndeterminate \<and> tf_file (ts_file s') = None \<and>
        tf_core (ts_file s') = core\<lparr>tr_state := st\<rparr> \<and> (st = Released \<longrightarrow> tr_state core = Released) \<and>
        cleanup_effect core st (names core (ts_world s)) (names core (ts_world s'))) ?E (\<lambda>_. False) ?s"
      by (rule outcome_conseq [OF cleanup_removal [of ?s]]) (use assms(1) that in \<open>auto simp: core_def\<close>)
    show "outcome ?second ?Q ?E (\<lambda>_. False) s1"
      if "\<exists>st. st \<noteq> Owned \<and> st \<noteq> ResourceIndeterminate \<and> tf_file (ts_file s1) = None \<and>
        tf_core (ts_file s1) = core\<lparr>tr_state := st\<rparr> \<and> (st = Released \<longrightarrow> tr_state core = Released) \<and>
        cleanup_effect core st (names core (ts_world s)) (names core (ts_world s1))" for s1
      using that cleanup_release [OF assms(1), folded core_def] by blast
  qed
  have unsafe: "?E e ?s" if "tr_state core = ResourceIndeterminate" for e
    using that by (intro exI [of _ ResourceIndeterminate]) (simp add: core_def cleanup_effect_def)
  have guard: "outcome (cleaning tr_path (bind get_core (\<lambda>core. answer (ensure_cleanup_safe core))))
      (\<lambda>_ s'. s' = ?s \<and> tr_state core \<noteq> ResourceIndeterminate) ?E (\<lambda>_. False) ?s"
    using unsafe
    by (cases "tr_state core = ResourceIndeterminate")
      (simp_all add: cleaning_def get_core_def answer_outcome ensure_cleanup_safe_def core_def)
  show ?thesis
    unfolding cleanup_def close_file_def
    by (rule outcome_seqI [where R = "\<lambda>s'. s' = ?s"], simp)
      (auto intro!: outcome_seqI [OF guard] body simp del: outcome_seq outcome_bind)
qed

end

end
