(* ===== verification/Temp_Persist.thy ===== *)
theory Temp_Persist
  imports Temp_Correct
begin

text \<open>
  The publication of a temporary file: what its outcome and its failures say is what the namespace shows, in
  both scopes and whichever calls fail.
\<close>

section \<open>What is reported\<close>

text \<open>The place \<open>t\<close> that a requested target stands for, and its path in the namespace.\<close>

definition publishes_to ::
  "('w, 'h, 'c, 'i) temp_calls \<Rightarrow> temp_core \<Rightarrow> path option \<Rightarrow> path \<Rightarrow> path \<Rightarrow> path \<Rightarrow> bool" where
  "publishes_to tc core base target t ns \<longleftrightarrow>
     (\<exists>bound w w'. prepare_persist_target (scope_of core) base target = Ok bound \<and> ns = np_namespace_absolute bound \<and>
        (case tr_backend core of
           HostTemp _ _ \<Rightarrow>
             resolve_host_path tc (np_authority_relative bound) (tr_symlink_policy core) False w = (Ok t, w')
         | RootedTemp _ _ _ \<Rightarrow>
             resolve_rooted_path (tc_root tc) (np_authority_relative bound) (tr_symlink_policy core) False
               OpPersistTemp w = (Ok t, w')))"

text \<open>The created entry was moved to \<open>t\<close>, after at most some directories were made.\<close>

definition published :: "temp_core \<Rightarrow> persist_options \<Rightarrow> path \<Rightarrow> name_view \<Rightarrow> name_view \<Rightarrow> bool" where
  "published core opts t m m' \<longleftrightarrow>
     holds_source core m \<and>
     (\<exists>n. new_directories m n \<and> (ps_overwrite opts \<or> n t = None) \<and> m' = renamed (source_of core) t n)"

definition truthful_failure ::
  "('w, 'h, 'c, 'i) temp_calls \<Rightarrow> temp_core \<Rightarrow> path option \<Rightarrow> path \<Rightarrow> persist_options \<Rightarrow> name_view \<Rightarrow>
   ('h, 'i) temp_file persist_error \<Rightarrow> name_view \<Rightarrow> bool" where
  "truthful_failure tc core base target opts m e m' \<longleftrightarrow>
     (\<exists>st. tf_core (pe_resource e) = core\<lparr>tr_state := st\<rparr> \<and> pe_source_state e = source_state_of st \<and>
        (case pe_state e of
           PersistPublished \<Rightarrow>
             st = SandboxPending \<and> pe_stage e = SynchronizeDestination \<and> ps_durability opts = DurRequired \<and>
             (\<exists>t ns. pe_resolved_target e = Some ns \<and> publishes_to tc core base target t ns \<and>
                published core opts t m m')
         | PersistIndeterminate \<Rightarrow>
             st = ResourceIndeterminate \<and> pe_stage e = InstallDestination \<and> new_directories m m'
         | PersistNotPublished \<Rightarrow>
             (st = tr_state core \<or> st = ResourceIndeterminate) \<and> pe_stage e \<noteq> SynchronizeDestination \<and>
             new_directories m m'))"

text \<open>What a successful publication has done.\<close>

definition publication_succeeded ::
  "('w, 'h, 'c, 'i) temp_calls \<Rightarrow> temp_core \<Rightarrow> path option \<Rightarrow> path \<Rightarrow> persist_options \<Rightarrow> name_view \<Rightarrow> persist_outcome \<Rightarrow>
   name_view \<Rightarrow> bool" where
  "publication_succeeded tc core base target opts m out m' \<longleftrightarrow>
     (\<exists>t n. publishes_to tc core base target t (po_path out) \<and> published core opts t m n \<and>
        m' = (if po_cleanup_error out = None then n(sandbox_of core := None) else n))"

lemma persist_error_fields [simp]:
  "pe_resource (file_persist_error tf e requested resolved stage publication) = tf"
  "pe_source_state (file_persist_error tf e requested resolved stage publication) = source_state_of (tr_state (tf_core tf))"
  "pe_stage (file_persist_error tf e requested resolved stage publication) = stage"
  "pe_state (file_persist_error tf e requested resolved stage publication) = publication"
  "pe_resolved_target (file_persist_error tf e requested resolved stage publication) = resolved"
  by (simp_all add: file_persist_error_def core_persist_error_def persist_error_new_def Let_def source_state_def
      persist_error_with_resource_def persist_error_with_kind_def persist_error_in_directory_def split: option.split)

context temp_files
begin

text \<open>A step before the installation: its failure is reported as not published.\<close>

lemma before_install:
  assumes "outcome m Q (\<lambda>_ s'. (\<exists>st. tf_core (ts_file s') = core\<lparr>tr_state := st\<rparr> \<and>
      (st = tr_state core \<or> st = ResourceIndeterminate)) \<and> new_directories n (names core (ts_world s')))
      (\<lambda>_. False) s"
    and "stage \<noteq> SynchronizeDestination"
  shows "outcome (persisting target resolved stage PersistNotPublished m) Q
    (\<lambda>e s'. truthful_failure tc core base target' opts n e (names core (ts_world s'))) (\<lambda>_. False) s"
  unfolding persisting_def outcome_or_fail
  by (rule outcome_conseq [OF assms(1)]) (use assms(2) in \<open>auto simp: truthful_failure_def\<close>)

text \<open>The same for a step that only looks.\<close>

lemma looking_step:
  assumes "silent (names core) m" and "tf_core (ts_file s) = core"
    and "new_directories n (names core (ts_world s))" and "stage \<noteq> SynchronizeDestination"
  shows "outcome (persisting target resolved stage PersistNotPublished (temp_call m))
    (\<lambda>x s'. ts_file s' = ts_file s \<and> names core (ts_world s') = names core (ts_world s) \<and>
       m (ts_world s) = (Ok x, ts_world s'))
    (\<lambda>e s'. truthful_failure tc core base target' opts n e (names core (ts_world s'))) (\<lambda>_. False) s"
proof (rule before_install)
  have run: "outcome m (\<lambda>x w'. m w = (Ok x, w')) (\<lambda>_ _. True) (\<lambda>_. True) w" for w
    by (simp add: outcome_def split: prod.split result.split)
  show "outcome (temp_call m)
      (\<lambda>x s'. ts_file s' = ts_file s \<and> names core (ts_world s') = names core (ts_world s) \<and>
         m (ts_world s) = (Ok x, ts_world s'))
      (\<lambda>_ s'. (\<exists>st. tf_core (ts_file s') = core\<lparr>tr_state := st\<rparr> \<and> (st = tr_state core \<or> st = ResourceIndeterminate)) \<and>
         new_directories n (names core (ts_world s'))) (\<lambda>_. False) s"
    unfolding outcome_temp_call
    by (rule outcome_conseq [OF outcome_conj [OF silent_outcome [OF assms(1)] run]])
      (use assms in \<open>auto intro!: exI [of _ "tr_state core"]\<close>)
qed (rule assms(4))

lemma as_io_ok: "as_io m w = (Ok x, w') \<longleftrightarrow> m w = (Ok x, w')"
  by (simp add: as_io_def or_fail_def split: prod.split result.split)

text \<open>The preparation of the parent may leave new directories behind.\<close>

lemma parent_preparation_outcome:
  assumes "makes_parents core m" and "tf_core (ts_file s) = core" and "names core (ts_world s) = n"
    and "stage \<noteq> SynchronizeDestination"
  shows "outcome (persisting target resolved stage PersistNotPublished (temp_call m))
    (\<lambda>_ s'. ts_file s' = ts_file s \<and> new_directories n (names core (ts_world s')))
    (\<lambda>e s'. truthful_failure tc core base target' opts n e (names core (ts_world s'))) (\<lambda>_. False) s"
proof (rule before_install)
  show "outcome (temp_call m)
      (\<lambda>_ s'. ts_file s' = ts_file s \<and> new_directories n (names core (ts_world s')))
      (\<lambda>_ s'. (\<exists>st. tf_core (ts_file s') = core\<lparr>tr_state := st\<rparr> \<and> (st = tr_state core \<or> st = ResourceIndeterminate)) \<and>
         new_directories n (names core (ts_world s'))) (\<lambda>_. False) s"
    unfolding outcome_temp_call
    by (rule outcome_conseq [OF assms(1) [unfolded makes_parents_def, rule_format, of "ts_world s"]])
      (use assms in \<open>auto intro!: exI [of _ "tr_state core"]\<close>)
qed (rule assms(4))

lemma record_failure_outcome:
  assumes "valid_core core" and "tf_core (ts_file s) = core" and "tr_state core = Owned"
  shows "outcome (record_native_persist_failure tc e)
    (\<lambda>p s'. p \<noteq> PersistPublished \<and> names core (ts_world s') = names core (ts_world s) \<and>
       (tf_core (ts_file s') = core\<lparr>tr_state := ResourceIndeterminate\<rparr> \<or>
        (p = PersistNotPublished \<and> tf_core (ts_file s') = core)))
    (\<lambda>_ _. False) (\<lambda>_. False) s"
proof (cases "from_native_error (ioe_kind e) = PersistIndeterminate")
  case True
  then show ?thesis
    using assms by (simp add: record_native_persist_failure_def core_record_native_persist_failure_def set_state_def
        with_core_def)
next
  case False
  let ?c = "\<lparr>cs_core = tf_core (ts_file s), cs_world = ts_world s\<rparr>"
  have "from_native_error (ioe_kind e) = PersistNotPublished"
    using False by (auto simp: from_native_error_def split: if_splits)
  then show ?thesis
    using core_identity_outcome [of ?c] assms
    by (auto simp: record_native_persist_failure_def core_record_native_persist_failure_def set_state_def
        with_core_def Let_def elim!: outcome_conseq)
qed

lemma installing_outcome:
  assumes "valid_core core" and "tf_core (ts_file s) = core" and "tr_state core = Owned"
    and "installs core opts t m" and "new_directories n (names core (ts_world s))"
  shows "outcome (installing tc target ns m)
    (\<lambda>_ s'. tf_core (ts_file s') = core\<lparr>tr_state := SandboxPending\<rparr> \<and>
       (ps_overwrite opts \<or> names core (ts_world s) t = None) \<and>
       names core (ts_world s') = renamed (source_of core) t (names core (ts_world s)))
    (\<lambda>e s'. truthful_failure tc core base target' opts n e (names core (ts_world s'))) (\<lambda>_. False) s"
    (is "outcome _ ?Q ?E _ _")
  unfolding installing_def
proof (rule outcome_bindI)
  show "outcome (caught (temp_call m))
      (\<lambda>r s'. r \<noteq> Panic \<and> ts_file s' = ts_file s \<and>
         (case r of Ok _ \<Rightarrow> (ps_overwrite opts \<or> names core (ts_world s) t = None) \<and>
              names core (ts_world s') = renamed (source_of core) t (names core (ts_world s))
          | _ \<Rightarrow> names core (ts_world s') = names core (ts_world s))) ?E (\<lambda>_. False) s"
    unfolding outcome_caught outcome_temp_call
    by (rule outcome_conseq [OF assms(4) [unfolded installs_def, rule_format, of "ts_world s"]]) auto
next
  fix r :: "(unit, io_error) result" and s1 :: "('w, 'h, 'i) temp_state"
  assume now: "r \<noteq> Panic \<and> ts_file s1 = ts_file s \<and>
      (case r of Ok _ \<Rightarrow> (ps_overwrite opts \<or> names core (ts_world s) t = None) \<and>
           names core (ts_world s1) = renamed (source_of core) t (names core (ts_world s))
       | _ \<Rightarrow> names core (ts_world s1) = names core (ts_world s))"
  show "outcome (case r of Ok _ \<Rightarrow> move_to SandboxPending
      | Err e \<Rightarrow> bind (record_native_persist_failure tc e) (\<lambda>publication.
             persisting target (Some ns) InstallDestination publication (fail e))
      | Panic \<Rightarrow> panic) ?Q ?E (\<lambda>_. False) s1"
  proof (cases r)
    case (Ok u)
    with now assms(2) show ?thesis
      by (simp add: move_to_def set_state_def with_core_def)
  next
    case (Err e)
    with now assms(2) have s1: "tf_core (ts_file s1) = core" "names core (ts_world s1) = names core (ts_world s)"
      by simp_all
    have "outcome (bind (record_native_persist_failure tc e) (\<lambda>publication.
        persisting target (Some ns) InstallDestination publication (fail e))) ?Q ?E (\<lambda>_. False) s1"
      unfolding outcome_bind persisting_def outcome_or_fail outcome_fail
      by (rule outcome_conseq [OF record_failure_outcome [OF assms(1) s1(1) assms(3), of e]])
        (use s1(2) assms(3,5) in \<open>auto simp: truthful_failure_def intro: exI [of _ Owned] split: persist_failure.split\<close>)
    with Err show ?thesis by simp
  qed (use now in simp)
qed

lemma temp_finish_outcome:
  assumes "valid_core core" and "tf_core (ts_file s) = core\<lparr>tr_state := SandboxPending\<rparr>"
  shows "outcome (finish_persist tc ns file_durable parent_durable)
    (\<lambda>out s'. po_path out = ns \<and> tf_core (ts_file s') = core\<lparr>tr_state := Released\<rparr> \<and>
       po_durable out = (file_durable \<and> parent_durable) \<and>
       names core (ts_world s') = (if po_cleanup_error out = None then (names core (ts_world s))(sandbox_of core := None)
                                   else names core (ts_world s)))
    (\<lambda>_ _. False) (\<lambda>_. False) s"
proof -
  have valid: "valid_core (tf_core (ts_file s))"
    using assms by simp
  show ?thesis
    unfolding finish_persist_def outcome_bind outcome_caught
    by (rule outcome_conseq [OF release_outcome [OF valid]])
      (use assms(2) in \<open>auto simp: get_core_def Let_def move_to_def set_state_def with_core_def\<close>)
qed

lemma destination_step:
  assumes "silent (names core) m" and "valid_core core" and "tf_core (ts_file s) = core\<lparr>tr_state := SandboxPending\<rparr>"
    and "publishes_to tc core base target t ns" and "published core opts t n (names core (ts_world s))"
  shows "outcome (bind (persisting target (Some ns) SynchronizeDestination PersistPublished
        (temp_call (synchronize_destination (ps_durability opts) m)))
      (\<lambda>parent_durable. finish_persist tc ns file_durable parent_durable))
    (\<lambda>out s'. po_path out = ns \<and> tf_core (ts_file s') = core\<lparr>tr_state := Released\<rparr> \<and>
       names core (ts_world s') = (if po_cleanup_error out = None then (names core (ts_world s))(sandbox_of core := None)
                                   else names core (ts_world s)))
    (\<lambda>e s'. truthful_failure tc core base target opts n e (names core (ts_world s'))) (\<lambda>_. False) s"
    (is "outcome _ ?Q ?E _ _")
proof (rule outcome_bindI)
  have only: "outcome (synchronize_destination dur m) (\<lambda>_ _. True) (\<lambda>_ _. dur = DurRequired) (\<lambda>_. True) w" for dur w
    by (cases dur) (simp_all add: synchronize_destination_def outcome_def bind_def caught_def ret_def panic_def
        split: prod.split result.split)
  show "outcome (persisting target (Some ns) SynchronizeDestination PersistPublished
        (temp_call (synchronize_destination (ps_durability opts) m)))
      (\<lambda>_ s'. ts_file s' = ts_file s \<and> names core (ts_world s') = names core (ts_world s)) ?E (\<lambda>_. False) s"
    unfolding persisting_def outcome_or_fail outcome_temp_call
    by (rule outcome_conseq [OF outcome_conj [OF silent_outcome [OF silent_destination [OF assms(1)]] only]])
      (use assms(3,4,5) in \<open>auto simp: truthful_failure_def\<close>)
  fix parent_durable and s1 :: "('w, 'h, 'i) temp_state"
  assume "ts_file s1 = ts_file s \<and> names core (ts_world s1) = names core (ts_world s)"
  then show "outcome (finish_persist tc ns file_durable parent_durable) ?Q ?E (\<lambda>_. False) s1"
    using assms(3) by (intro outcome_conseq [OF temp_finish_outcome [OF assms(2)]]) auto
qed

text \<open>From the prepared parent on, both scopes go the same way.\<close>

lemma install_and_finish:
  assumes "valid_core core" and "tf_core (ts_file s) = core" and "tr_state core = Owned" and "holds_source core m"
    and "installs core opts t install" and "silent (names core) syncing"
    and "new_directories m (names core (ts_world s))" and "publishes_to tc core base target t ns"
  shows "outcome (seq (installing tc target ns install)
      (bind (persisting target (Some ns) SynchronizeDestination PersistPublished
          (temp_call (synchronize_destination (ps_durability opts) syncing)))
        (\<lambda>parent_durable. finish_persist tc ns file_durable parent_durable)))
    (\<lambda>out s'. tf_core (ts_file s') = core\<lparr>tr_state := Released\<rparr> \<and>
       publication_succeeded tc core base target opts m out (names core (ts_world s')))
    (\<lambda>e s'. truthful_failure tc core base target opts m e (names core (ts_world s'))) (\<lambda>_. False) s"
proof (rule outcome_seqI [OF installing_outcome [OF assms(1,2,3,5,7)]])
  fix s1 :: "('w, 'h, 'i) temp_state"
  assume now: "tf_core (ts_file s1) = core\<lparr>tr_state := SandboxPending\<rparr> \<and>
      (ps_overwrite opts \<or> names core (ts_world s) t = None) \<and>
      names core (ts_world s1) = renamed (source_of core) t (names core (ts_world s))"
  then have moved: "published core opts t m (names core (ts_world s1))"
    using assms(4,7) by (auto simp: published_def)
  show "outcome (bind (persisting target (Some ns) SynchronizeDestination PersistPublished
          (temp_call (synchronize_destination (ps_durability opts) syncing)))
        (\<lambda>parent_durable. finish_persist tc ns file_durable parent_durable))
      (\<lambda>out s'. tf_core (ts_file s') = core\<lparr>tr_state := Released\<rparr> \<and>
         publication_succeeded tc core base target opts m out (names core (ts_world s')))
      (\<lambda>e s'. truthful_failure tc core base target opts m e (names core (ts_world s'))) (\<lambda>_. False) s1"
    by (rule outcome_conseq [OF destination_step [OF assms(6,1) _ assms(8) moved]])
      (use now assms(8) moved in \<open>auto simp: publication_succeeded_def\<close>)
qed

lemma persist_host_outcome:
  assumes "valid_core core" and "tf_core (ts_file s) = core" and "tr_state core = Owned" and "holds_source core m"
    and "tr_backend core = HostTemp i b" and "names core (ts_world s) = m"
    and "prepare_persist_target (scope_of core) base target = Ok bound"
  shows "outcome (persist_host tc target (np_namespace_absolute bound) (np_authority_relative bound) opts file_durable)
    (\<lambda>out s'. tf_core (ts_file s') = core\<lparr>tr_state := Released\<rparr> \<and>
       publication_succeeded tc core base target opts m out (names core (ts_world s')))
    (\<lambda>e s'. truthful_failure tc core base target opts m e (names core (ts_world s'))) (\<lambda>_. False) s"
    (is "outcome _ ?Q ?E _ _")
  unfolding persist_host_def
proof (rule outcome_bindI [where R = "\<lambda>c s'. c = core \<and> s' = s"])
  let ?ns = "np_namespace_absolute bound"
  show "outcome get_core (\<lambda>c s'. c = core \<and> s' = s) ?E (\<lambda>_. False) s"
    using assms(2) by (simp add: get_core_def)
  fix c s0 assume c: "c = core \<and> s0 = s"
  have look: "silent (names core) (as_io (resolve_host_path tc (np_authority_relative bound) policy False))" for policy
    by (intro silent_names(1) [OF assms(5)] silent_as_io silent_resolve_host)
  have syncs: "silent (names core) (seq (sync_parent_dir (tc_fs tc) a)
      (seq (sync_parent_dir (tc_fs tc) d) (sync_parents (tc_fs tc) (rev dirs))))" for a d dirs
    by (intro silent_names(1) [OF assms(5)] silent_intros silent_sync_parent silent_sync_parents)
  show "outcome (bind (persisting target (Some ?ns) ResolveTarget PersistNotPublished
        (temp_call (as_io (resolve_host_path tc (np_authority_relative bound) (tr_symlink_policy c) False))))
      (\<lambda>t. bind (persisting target (Some ?ns) PrepareTargetParent PersistNotPublished
          (temp_call (prepare_host_parent tc t (ps_create_parent opts))))
        (\<lambda>created. seq (installing tc target ?ns (install_host tc opts c t))
          (bind (persisting target (Some ?ns) SynchronizeDestination PersistPublished
              (temp_call (synchronize_host_publication tc (tr_path c) t created (ps_durability opts))))
            (\<lambda>parent_durable. finish_persist tc ?ns file_durable parent_durable))))) ?Q ?E (\<lambda>_. False) s0"
  proof (rule outcome_bindI [OF looking_step [OF look]])
    fix t and s1 :: "('w, 'h, 'i) temp_state"
    assume found: "ts_file s1 = ts_file s0 \<and> names core (ts_world s1) = names core (ts_world s0) \<and>
      as_io (resolve_host_path tc (np_authority_relative bound) (tr_symlink_policy c) False) (ts_world s0) =
        (Ok t, ts_world s1)"
    have to: "publishes_to tc core base target t ?ns"
      using found c assms(5,7) by (auto simp: publishes_to_def as_io_ok)
    show "outcome (bind (persisting target (Some ?ns) PrepareTargetParent PersistNotPublished
          (temp_call (prepare_host_parent tc t (ps_create_parent opts))))
        (\<lambda>created. seq (installing tc target ?ns (install_host tc opts c t))
          (bind (persisting target (Some ?ns) SynchronizeDestination PersistPublished
              (temp_call (synchronize_host_publication tc (tr_path c) t created (ps_durability opts))))
            (\<lambda>parent_durable. finish_persist tc ?ns file_durable parent_durable)))) ?Q ?E (\<lambda>_. False) s1"
      unfolding synchronize_host_publication_def
      by (rule outcome_bindI [OF parent_preparation_outcome [OF makes_host_parent [OF assms(5)]]],
          use found c assms in simp, use found c assms in simp, simp)
        (rule install_and_finish [OF assms(1) _ assms(3,4) _ syncs _ to],
          use found c assms installs_host [OF assms(5)] in auto)
  qed (use c assms in auto)
qed

lemma relative_path_ok: "relative_path_new p = Ok q \<Longrightarrow> q = p"
  by (simp add: relative_path_new_def split: if_splits)

lemma persist_rooted_outcome:
  assumes "valid_core core" and "tf_core (ts_file s) = core" and "tr_state core = Owned" and "holds_source core m"
    and "tr_backend core = RootedTemp i source b" and "names core (ts_world s) = m"
    and "prepare_persist_target (scope_of core) base target = Ok bound"
  shows "outcome (persist_rooted tc target (np_namespace_absolute bound) (np_authority_relative bound) source opts file_durable)
    (\<lambda>out s'. tf_core (ts_file s') = core\<lparr>tr_state := Released\<rparr> \<and>
       publication_succeeded tc core base target opts m out (names core (ts_world s')))
    (\<lambda>e s'. truthful_failure tc core base target opts m e (names core (ts_world s'))) (\<lambda>_. False) s"
    (is "outcome _ ?Q ?E _ _")
proof -
  let ?ns = "np_namespace_absolute bound" and ?authority = "np_authority_relative bound"
  let ?resolve = "\<lambda>p. as_io (resolve_rooted_path (tc_root tc) p (tr_symlink_policy core) False OpPersistTemp)"
  let ?place = "\<lambda>t. seq (persisting target (Some ?ns) PrepareTargetParent PersistNotPublished
            (temp_call (prepare_rooted_parent tc t (ps_create_parent opts))))
        (seq (installing tc target ?ns (install_rooted tc opts source t))
          (bind (persisting target (Some ?ns) SynchronizeDestination PersistPublished
              (temp_call (synchronize_rooted_publication tc source t (ps_durability opts))))
            (\<lambda>parent_durable. finish_persist tc ?ns file_durable parent_durable)))"
  have look: "silent (names core) (?resolve p)" for p
    by (intro silent_names(2) [OF assms(5)] silent_as_io silent_resolve)
  have syncs: "silent (names core) (seq (tc_root_sync_parent tc a) (sync_ancestors tc d))" for a d
    by (intro silent_names(2) [OF assms(5)] silent_intros silent_sync_ancestors root_handles)
  have place: "outcome (?place t) ?Q ?E (\<lambda>_. False) s1"
    if "tf_core (ts_file s1) = core" "names core (ts_world s1) = m" "publishes_to tc core base target t ?ns" for t s1
    unfolding synchronize_rooted_publication_def
    by (rule outcome_seqI [OF parent_preparation_outcome [OF makes_rooted_parent [OF assms(5)]]],
        use that in simp, use that in simp, simp)
      (rule install_and_finish [OF assms(1) _ assms(3,4) _ syncs _ that(3)],
        use that assms installs_rooted [OF assms(5)] in auto)
  have resolved: "outcome (bind (persisting target (Some ?ns) ResolveTarget PersistNotPublished
      (temp_call (?resolve ?authority))) ?place) ?Q ?E (\<lambda>_. False) s"
  proof (rule outcome_bindI [OF looking_step [OF look]])
    fix t and s1 :: "('w, 'h, 'i) temp_state"
    assume found: "ts_file s1 = ts_file s \<and> names core (ts_world s1) = names core (ts_world s) \<and>
      ?resolve ?authority (ts_world s) = (Ok t, ts_world s1)"
    have "publishes_to tc core base target t ?ns"
      using found assms(5,7) by (auto simp: publishes_to_def as_io_ok)
    with found assms show "outcome (?place t) ?Q ?E (\<lambda>_. False) s1"
      by (intro place) simp_all
  qed (use assms in auto)
  have source: "expect (relative_path_new source) = ret source"
    using assms(1,5) by (simp add: valid_core_def expect_def)
  have "outcome (bind (persisting target (Some ?ns) ResolveTarget PersistNotPublished (answer (relative_path_new ?authority)))
      (\<lambda>p. bind (persisting target (Some ?ns) ResolveTarget PersistNotPublished (temp_call (?resolve p))) ?place))
      ?Q ?E (\<lambda>_. False) s"
  proof (rule outcome_bindI [OF before_install])
    show "outcome (answer (relative_path_new ?authority)) (\<lambda>p s'. p = ?authority \<and> s' = s)
      (\<lambda>_ s'. (\<exists>st. tf_core (ts_file s') = core\<lparr>tr_state := st\<rparr> \<and> (st = tr_state core \<or> st = ResourceIndeterminate)) \<and>
         new_directories m (names core (ts_world s'))) (\<lambda>_. False) s"
      using assms(2,6) by (auto simp: answer_outcome relative_path_new_def intro!: exI [of _ "tr_state core"])
  qed (use resolved in auto)
  then show ?thesis
    using assms(2) by (simp only: persist_rooted_def get_core_def outcome_bind outcome_gets source bind_ret)
qed

text \<open>A check without calls.\<close>

lemma checking_step:
  assumes "tf_core (ts_file s) = core" and "names core (ts_world s) = m" and "stage \<noteq> SynchronizeDestination"
    and "outcome check (\<lambda>x s'. s' = s \<and> Q x) (\<lambda>_ s'. s' = s) (\<lambda>_. False) s"
  shows "outcome (persisting target resolved stage PersistNotPublished check) (\<lambda>x s'. s' = s \<and> Q x)
    (\<lambda>e s'. truthful_failure tc core base target' opts m e (names core (ts_world s'))) (\<lambda>_. False) s"
  by (rule before_install, rule outcome_conseq [OF assms(4)])
    (use assms(1,2,3) in \<open>auto intro!: exI [of _ "tr_state core"]\<close>)

lemma persisting_gets:
  "outcome (persisting target resolved stage publication (bind (gets h) f)) Q E P s \<longleftrightarrow>
   outcome (persisting target resolved stage publication (f (h s))) Q E P s"
  by (simp add: persisting_def)

text \<open>What follows the identity check.\<close>

lemma publish_verified:
  fixes s :: "('w, 'h, 'i) temp_state"
  assumes "valid_core core" and "tf_core (ts_file s) = core" and "tr_state core = Owned" and "holds_source core m"
    and "names core (ts_world s) = m" and "prepare_persist_target (scope_of core) base target = Ok bound"
  shows "outcome (bind (persisting target (Some (np_namespace_absolute bound)) SynchronizeSource PersistNotPublished
        (bind (gets ts_file) (\<lambda>tf. temp_call (synchronize_source tc tf (ps_durability opts)))))
      (\<lambda>file_durable. seq close_file
         (case tr_backend core of
            HostTemp _ _ \<Rightarrow>
              persist_host tc target (np_namespace_absolute bound) (np_authority_relative bound) opts file_durable
          | RootedTemp _ relative _ \<Rightarrow>
              persist_rooted tc target (np_namespace_absolute bound) (np_authority_relative bound) relative opts
                file_durable)))
    (\<lambda>out s'. tf_core (ts_file s') = core\<lparr>tr_state := Released\<rparr> \<and>
       publication_succeeded tc core base target opts m out (names core (ts_world s')))
    (\<lambda>e s'. truthful_failure tc core base target opts m e (names core (ts_world s'))) (\<lambda>_. False) s"
    (is "outcome _ ?Q ?E _ _")
proof (rule outcome_bindI)
  have source: "silent (names core) (synchronize_source tc (ts_file s) (ps_durability opts))"
    using silent_source [of "ts_file s"] assms(2) by simp
  show "outcome (persisting target (Some (np_namespace_absolute bound)) SynchronizeSource PersistNotPublished
        (bind (gets ts_file) (\<lambda>tf. temp_call (synchronize_source tc tf (ps_durability opts)))))
      (\<lambda>_ s'. ts_file s' = ts_file s \<and> names core (ts_world s') = m) ?E (\<lambda>_. False) s"
    unfolding persisting_gets
    by (rule outcome_conseq [OF looking_step [OF source assms(2)]]) (use assms(5) in auto)
  fix file_durable and s1 :: "('w, 'h, 'i) temp_state"
  assume now: "ts_file s1 = ts_file s \<and> names core (ts_world s1) = m"
  let ?s = "s1\<lparr>ts_file := (ts_file s1)\<lparr>tf_file := None\<rparr>\<rparr>"
  have "outcome (case tr_backend core of
            HostTemp _ _ \<Rightarrow>
              persist_host tc target (np_namespace_absolute bound) (np_authority_relative bound) opts file_durable
          | RootedTemp _ relative _ \<Rightarrow>
              persist_rooted tc target (np_namespace_absolute bound) (np_authority_relative bound) relative opts
                file_durable) ?Q ?E (\<lambda>_. False) ?s"
    using persist_host_outcome [of core ?s m _ _ base target bound opts file_durable]
      persist_rooted_outcome [of core ?s m _ _ _ base target bound opts file_durable] now assms
    by (cases "tr_backend core") simp_all
  then show "outcome (seq close_file
      (case tr_backend core of
            HostTemp _ _ \<Rightarrow>
              persist_host tc target (np_namespace_absolute bound) (np_authority_relative bound) opts file_durable
          | RootedTemp _ relative _ \<Rightarrow>
              persist_rooted tc target (np_namespace_absolute bound) (np_authority_relative bound) relative opts
                file_durable)) ?Q ?E (\<lambda>_. False) s1"
    unfolding close_file_def outcome_seq outcome_modify .
qed

text \<open>What follows the binding of the target.\<close>

lemma publish_bound:
  fixes s :: "('w, 'h, 'i) temp_state"
  assumes "valid_core core" and "tf_core (ts_file s) = core" and "tr_state core = Owned"
    and "names core (ts_world s) = m" and "prepare_persist_target (scope_of core) base target = Ok bound"
  defines "ns \<equiv> np_namespace_absolute bound"
  shows "outcome (seq (persisting target (Some ns) ResolveTarget PersistNotPublished (answer (reject_target core bound)))
         (seq (case base of
                 None \<Rightarrow> ret ()
               | Some base \<Rightarrow>
                   persisting target (Some ns) ResolveTarget PersistNotPublished
                     (temp_call (as_io (validate_persist_base tc (tr_backend core) base (tr_symlink_policy core)))))
         (seq (persisting target (Some ns) InstallDestination PersistNotPublished (ensure_identity_matches tc))
         (bind (persisting target (Some ns) SynchronizeSource PersistNotPublished
                  (bind (gets ts_file) (\<lambda>tf. temp_call (synchronize_source tc tf (ps_durability opts)))))
            (\<lambda>file_durable. seq close_file
           (case tr_backend core of
              HostTemp _ _ \<Rightarrow> persist_host tc target ns (np_authority_relative bound) opts file_durable
            | RootedTemp _ relative _ \<Rightarrow>
                persist_rooted tc target ns (np_authority_relative bound) relative opts file_durable))))))
    (\<lambda>out s'. tf_core (ts_file s') = core\<lparr>tr_state := Released\<rparr> \<and>
       publication_succeeded tc core base target opts m out (names core (ts_world s')))
    (\<lambda>e s'. truthful_failure tc core base target opts m e (names core (ts_world s'))) (\<lambda>_. False) s"
    (is "outcome (seq ?reject (seq ?base (seq ?identity ?verified))) ?Q ?E _ _")
proof (rule outcome_seqI)
  show "outcome ?reject (\<lambda>_ s'. s' = s \<and> True) ?E (\<lambda>_. False) s"
    by (rule checking_step [OF assms(2,4)]) (simp_all add: answer_outcome reject_target_def)
  fix s1 assume "s1 = s \<and> True"
  then have s1: "tf_core (ts_file s1) = core" "names core (ts_world s1) = m"
    using assms(2,4) by simp_all
  show "outcome (seq ?base (seq ?identity ?verified)) ?Q ?E (\<lambda>_. False) s1"
  proof (rule outcome_seqI)
    have look: "silent (names core) (as_io (validate_persist_base tc (tr_backend core) b policy))" for b policy
      by (intro silent_as_io silent_validate_base)
    show "outcome ?base (\<lambda>_ s'. tf_core (ts_file s') = core \<and> names core (ts_world s') = m) ?E (\<lambda>_. False) s1"
    proof (cases base)
      case (Some b)
      then show ?thesis
        unfolding Some option.case
        by (intro outcome_conseq [OF looking_step [OF look s1(1)]]) (use s1 in auto)
    qed (use s1 in simp)
    fix s2 :: "('w, 'h, 'i) temp_state"
    assume s2: "tf_core (ts_file s2) = core \<and> names core (ts_world s2) = m"
    show "outcome (seq ?identity ?verified) ?Q ?E (\<lambda>_. False) s2"
    proof (rule outcome_seqI)
      have check: "outcome (ensure_identity_matches tc)
          (\<lambda>_ s'. ts_file s' = ts_file s2 \<and> names core (ts_world s') = m \<and> holds_source core m)
          (\<lambda>_ s'. (\<exists>st. tf_core (ts_file s') = core\<lparr>tr_state := st\<rparr> \<and> (st = tr_state core \<or> st = ResourceIndeterminate)) \<and>
             new_directories m (names core (ts_world s'))) (\<lambda>_. False) s2"
        by (rule outcome_conseq [OF identity_outcome [of s2]]) (use s2 assms(1,3) in auto)
      show "outcome ?identity (\<lambda>_ s'. ts_file s' = ts_file s2 \<and> names core (ts_world s') = m \<and> holds_source core m)
          ?E (\<lambda>_. False) s2"
        by (rule before_install [OF check]) simp
      show "outcome ?verified ?Q ?E (\<lambda>_. False) s3"
        if "ts_file s3 = ts_file s2 \<and> names core (ts_world s3) = m \<and> holds_source core m" for s3
        unfolding ns_def using that s2 assms by (intro publish_verified) simp_all
    qed
  qed
qed

lemma persist_program_outcome:
  fixes s :: "('w, 'h, 'i) temp_state"
  assumes "valid_core core" and "tf_core (ts_file s) = core" and "names core (ts_world s) = m"
  shows "outcome (persist_program tc target base opts)
    (\<lambda>out s'. tr_state core = Owned \<and> tf_access (ts_file s) = Writable \<and>
       tf_core (ts_file s') = core\<lparr>tr_state := Released\<rparr> \<and>
       publication_succeeded tc core base target opts m out (names core (ts_world s')))
    (\<lambda>e s'. truthful_failure tc core base target opts m e (names core (ts_world s'))) (\<lambda>_. False) s"
    (is "outcome _ ?Q ?E _ _")
proof -
  have writable: "outcome (persisting target None InstallDestination PersistNotPublished require_writable)
      (\<lambda>_ s'. s' = s \<and> tf_access (ts_file s) = Writable) ?E (\<lambda>_. False) s"
    by (rule checking_step [OF assms(2,3)]) (simp_all add: require_writable_def)
  have publishable: "outcome (persisting target None InstallDestination PersistNotPublished
        (bind get_core (\<lambda>core. answer (ensure_publishable core))))
      (\<lambda>_ s'. s' = s \<and> tr_state core = Owned) ?E (\<lambda>_. False) s"
    by (rule checking_step [OF assms(2,3)])
      (use assms(2) in \<open>simp_all add: get_core_def answer_outcome ensure_publishable_def\<close>)
  have core: "outcome get_core (\<lambda>c s'. c = core \<and> s' = s) ?E (\<lambda>_. False) s"
    using assms(2) by (simp add: get_core_def)
  have bound: "outcome (persisting target None ResolveTarget PersistNotPublished
        (as_io (answer (prepare_persist_target (scope_of core) base target))))
      (\<lambda>bound s'. s' = s \<and> prepare_persist_target (scope_of core) base target = Ok bound) ?E (\<lambda>_. False) s"
    by (rule checking_step [OF assms(2,3)]) (simp_all add: as_io_def answer_outcome split: result.split)
  show ?thesis
    unfolding persist_program_def Let_def
    by (rule outcome_seqI [OF writable], elim conjE, hypsubst,
        rule outcome_seqI [OF publishable], elim conjE, hypsubst,
        rule outcome_bindI [OF core], elim conjE, hypsubst,
        rule outcome_bindI [OF bound], elim conjE, hypsubst,
        rule outcome_conseq [OF publish_bound [OF assms(1,2) _ assms(3)]]) simp_all
qed

section \<open>Dropping what is left\<close>

lemma drop_released: "tr_state (tf_core (ts_file s)) = Released \<Longrightarrow> drop_temp_file tc s = ts_world s"
  by (simp add: drop_temp_file_def cleanup_def seq_def bind_def close_file_def modify_def cleaning_def or_fail_def
      get_core_def gets_def ensure_cleanup_safe_def answer_def whenever_def ret_def)

lemma persist_truthful:
  assumes "valid_core (tf_core tf)"
  defines "core \<equiv> tf_core tf"
  shows "case persist_with_path tc target base opts tf w of
      (Ok out, w') \<Rightarrow> tr_state core = Owned \<and> tf_access tf = Writable \<and>
        publication_succeeded tc core base target opts (names core w) out (names core w')
    | (Err e, w') \<Rightarrow> truthful_failure tc core base target opts (names core w) e (names core w')
    | (Panic, _) \<Rightarrow> False"
proof -
  obtain r s' where run: "persist_program tc target base opts \<lparr>ts_file = tf, ts_world = w\<rparr> = (r, s')" by force
  have "outcome (persist_program tc target base opts)
    (\<lambda>out s'. tr_state core = Owned \<and> tf_access tf = Writable \<and>
       tf_core (ts_file s') = core\<lparr>tr_state := Released\<rparr> \<and>
       publication_succeeded tc core base target opts (names core w) out (names core (ts_world s')))
    (\<lambda>e s'. truthful_failure tc core base target opts (names core w) e (names core (ts_world s'))) (\<lambda>_. False)
    \<lparr>ts_file = tf, ts_world = w\<rparr>"
    using persist_program_outcome [of core "\<lparr>ts_file = tf, ts_world = w\<rparr>" "names core w"] assms by simp
  then show ?thesis
    using run drop_released [of s'] by (cases r) (simp_all add: persist_with_path_def consuming_def outcome_def)
qed

end

end
