(* ===== verification/Temp_Claims.thy ===== *)
theory Temp_Claims
  imports Temp_Persist
begin

text \<open>
  What the flags of a publication and the access state of a sealed file stand for: calls that were made and
  that succeeded. Nothing is assumed about the calls.
\<close>

section \<open>Synchronization behind a durable outcome\<close>

text \<open>A handle of the created file was verified and then synchronized.\<close>

definition source_was_synced :: "('w, 'h, 'c, 'i) temp_calls \<Rightarrow> temp_core \<Rightarrow> bool" where
  "source_was_synced tc core \<longleftrightarrow>
     (\<exists>h w w1 w2.
        (case tr_backend core of
           HostTemp identity _ \<Rightarrow> \<exists>st. ux_fstat (tc_fs tc) h w = (Ok st, w1) \<and> identity = stat_identity st
         | RootedTemp identity _ _ \<Rightarrow> \<exists>opened. tc_root_fstat tc h w = (Ok opened, w1) \<and> is_same_file identity opened) \<and>
        ux_sync_all (tc_fs tc) h w1 = (Ok (), w2))"

text \<open>
  The parents that a publication creates on the Host: \<open>created_from fs p qs\<close> says that from \<open>p\<close> upwards
  exactly \<open>qs\<close> were found missing, up to a directory that was found there or to the top of the path.
\<close>

definition found_missing :: "('w, 'h) unix_fs \<Rightarrow> path \<Rightarrow> bool" where
  "found_missing fs p \<longleftrightarrow> (\<exists>w w' e. ux_metadata fs p w = (Err e, w') \<and> ioe_kind e = IoNotFound)"

definition found_directory :: "('w, 'h) unix_fs \<Rightarrow> path \<Rightarrow> bool" where
  "found_directory fs p \<longleftrightarrow> (\<exists>w w' st. ux_metadata fs p w = (Ok st, w') \<and> st_kind st = Directory)"

inductive created_from :: "('w, 'h) unix_fs \<Rightarrow> path \<Rightarrow> path list \<Rightarrow> bool" for fs where
  there: "found_directory fs p \<Longrightarrow> created_from fs p []"
| missing: "found_missing fs p \<Longrightarrow> path_parent p = Some up \<Longrightarrow> up \<noteq> [] \<Longrightarrow> created_from fs up qs \<Longrightarrow>
    created_from fs p (p # qs)"
| missing_top: "found_missing fs p \<Longrightarrow> path_parent p \<in> {None, Some []} \<Longrightarrow> created_from fs p [p]"

lemma missing_ancestors_created:
  "missing_ancestors fs p acc w = (Ok ms, w') \<Longrightarrow> \<exists>qs. ms = acc @ qs \<and> created_from fs p qs"
proof (induction fs p acc w rule: missing_ancestors.induct)
  case (1 fs p acc w)
  obtain r w1 where r: "ux_metadata fs p w = (r, w1)" by force
  show ?case
  proof (cases r)
    case (Ok st)
    with r 1(2) have "found_directory fs p" "ms = acc"
      by (auto simp: found_directory_def missing_ancestors.simps [of fs p] split: if_splits)
    then show ?thesis by (auto intro: created_from.there)
  next
    case (Err e)
    with r 1(2) have missing: "found_missing fs p" and nf: "ioe_kind e = IoNotFound"
      by (auto simp: found_missing_def missing_ancestors.simps [of fs p] split: if_splits)
    show ?thesis
    proof (cases "\<exists>up. path_parent p = Some up \<and> up \<noteq> []")
      case True
      then obtain up where up: "path_parent p = Some up" "up \<noteq> []" by blast
      then have "missing_ancestors fs up (acc @ [p]) w1 = (Ok ms, w')"
        using 1(2) r Err nf by (simp add: missing_ancestors.simps [of fs p])
      from 1(1) [OF r [symmetric] _ nf up this] Err obtain qs where "ms = (acc @ [p]) @ qs" "created_from fs up qs"
        by blast
      with missing up show ?thesis by (auto intro: created_from.missing)
    next
      case False
      then show ?thesis
        using 1(2) r Err nf missing
        by (auto simp: missing_ancestors.simps [of fs p] split: option.splits if_splits intro: created_from.missing_top)
    qed
  qed (use r 1(2) in \<open>simp add: missing_ancestors.simps [of fs p]\<close>)
qed

definition parents_created :: "('w, 'h) unix_fs \<Rightarrow> path \<Rightarrow> bool \<Rightarrow> path list \<Rightarrow> bool" where
  "parents_created fs t create_parent qs \<longleftrightarrow>
     (case path_parent t of
        Some parent \<Rightarrow> if create_parent \<and> parent \<noteq> [] then created_from fs parent qs else qs = []
      | None \<Rightarrow> qs = [])"

lemma prepare_host_parent_created:
  assumes "prepare_host_parent tc t create_parent w = (Ok created, w')"
  shows "parents_created (tc_fs tc) t create_parent (rev created)"
  using assms
  by (auto simp: prepare_host_parent_def parents_created_def ensure_parent_path_with_sync_dirs_def bind_def ret_def
      fail_def seq_def split: option.splits if_splits prod.splits result.splits dest!: missing_ancestors_created
      simp del: missing_ancestors.simps)

text \<open>A relative path and the paths above it, down to its first component.\<close>

inductive at_or_above :: "path \<Rightarrow> path \<Rightarrow> bool" for t where
  itself: "at_or_above t t"
| up: "at_or_above t q \<Longrightarrow> path_parent q = Some p \<Longrightarrow> p \<noteq> [] \<Longrightarrow> at_or_above t p"

lemma at_or_above_cases:
  "at_or_above t q \<Longrightarrow> q = t \<or> (\<exists>p. path_parent t = Some p \<and> p \<noteq> [] \<and> at_or_above p q)"
  by (induction rule: at_or_above.induct) (auto intro: at_or_above.intros)

lemma sync_ancestors_each:
  "sync_ancestors tc t w = (Ok (), w') \<Longrightarrow> at_or_above t q \<Longrightarrow> \<exists>w1 w2. tc_root_sync_parent tc q w1 = (Ok (), w2)"
proof (induction tc t arbitrary: w rule: sync_ancestors.induct)
  case (1 tc t)
  from 1(2) obtain w1 where one: "tc_root_sync_parent tc t w = (Ok (), w1)"
    and rest: "\<And>p. path_parent t = Some p \<Longrightarrow> p \<noteq> [] \<Longrightarrow> sync_ancestors tc p w1 = (Ok (), w')"
    unfolding sync_ancestors.simps [of tc t]
    by (cases "path_parent t") (auto simp: relative_path_new_def answer_def bind_def seq_def
        split: prod.splits result.splits if_splits)
  from at_or_above_cases [OF 1(3)] show ?case
  proof
    assume "\<exists>p. path_parent t = Some p \<and> p \<noteq> [] \<and> at_or_above p q"
    then obtain p where p: "path_parent t = Some p" "p \<noteq> []" "at_or_above p q" by blast
    from 1(1) [OF p(1,2) rest [OF p(1,2)] p(3)] show ?thesis .
  qed (use one in blast)
qed

text \<open>
  The directories of the source and of the target were synchronized, and so was the directory of every
  parent that was created on the Host, and of every path above the target below a root.
\<close>

definition names_were_synced :: "('w, 'h, 'c, 'i) temp_calls \<Rightarrow> temp_core \<Rightarrow> bool \<Rightarrow> path \<Rightarrow> bool" where
  "names_were_synced tc core create_parent t \<longleftrightarrow>
     (case tr_backend core of
        HostTemp _ _ \<Rightarrow>
          \<exists>qs. parents_created (tc_fs tc) t create_parent qs \<and>
            (\<forall>q \<in> {tr_path core, t} \<union> set qs. \<exists>w w'. ux_sync_dir (tc_fs tc) (parent_dir_for q) w = (Ok (), w'))
      | RootedTemp _ relative _ \<Rightarrow>
          \<forall>q. q = relative \<or> at_or_above t q \<longrightarrow> (\<exists>w w'. tc_root_sync_parent tc q w = (Ok (), w')))"

lemma host_names_synced:
  assumes "tr_backend core = HostTemp i b" and "parents_created (tc_fs tc) t create_parent (rev created)"
    and "seq (sync_parent_dir (tc_fs tc) (tr_path core))
      (seq (sync_parent_dir (tc_fs tc) t) (sync_parents (tc_fs tc) (rev created))) w = (Ok (), w')"
  shows "names_were_synced tc core create_parent t"
proof -
  from assms(3) obtain w1 w2 where "ux_sync_dir (tc_fs tc) (parent_dir_for (tr_path core)) w = (Ok (), w1)"
    "ux_sync_dir (tc_fs tc) (parent_dir_for t) w1 = (Ok (), w2)" "sync_parents (tc_fs tc) (rev created) w2 = (Ok (), w')"
    by (auto simp: seq_def bind_def sync_parent_dir_def split: prod.splits result.splits)
  with assms(1,2) sync_parents_each [OF this(3)] show ?thesis
    by (auto simp: names_were_synced_def intro!: exI [of _ "rev created"])
qed

lemma rooted_names_synced:
  assumes "tr_backend core = RootedTemp i relative b"
    and "seq (tc_root_sync_parent tc relative) (sync_ancestors tc t) w = (Ok (), w')"
  shows "names_were_synced tc core create_parent t"
proof -
  from assms(2) obtain w1 where "tc_root_sync_parent tc relative w = (Ok (), w1)" "sync_ancestors tc t w1 = (Ok (), w')"
    by (auto simp: seq_def bind_def split: prod.splits result.splits)
  with assms(1) sync_ancestors_each show ?thesis
    by (auto simp: names_were_synced_def)
qed

abbreviation when_ok :: "('s, 'e, 'x) prog \<Rightarrow> ('x \<Rightarrow> 's \<Rightarrow> bool) \<Rightarrow> 's \<Rightarrow> bool" where
  "when_ok m Q s \<equiv> outcome m Q (\<lambda>_ _. True) (\<lambda>_. True) s"

lemma open_file_claim:
  "when_ok (synchronize_open_file tc core h dur)
     (\<lambda>synced _. (synced \<longrightarrow> source_was_synced tc core) \<and> (\<not> synced \<longrightarrow> dur = DurPreferred)) w"
  unfolding synchronize_open_file_def
proof (rule outcome_bindI)
  let ?verified = "\<lambda>w1. \<exists>w. case tr_backend core of
      HostTemp identity _ \<Rightarrow> \<exists>st. ux_fstat (tc_fs tc) h w = (Ok st, w1) \<and> identity = stat_identity st
    | RootedTemp identity _ _ \<Rightarrow> \<exists>opened. tc_root_fstat tc h w = (Ok opened, w1) \<and> is_same_file identity opened"
  show "when_ok (case tr_backend core of
        HostTemp identity _ \<Rightarrow> bind (ux_fstat (tc_fs tc) h) (\<lambda>st. ret (identity = stat_identity st))
      | RootedTemp identity _ _ \<Rightarrow> bind (tc_root_fstat tc h) (\<lambda>opened. ret (is_same_file identity opened)))
      (\<lambda>b w1. b \<longrightarrow> ?verified w1) w"
    by (cases "tr_backend core") (auto simp: outcome_def bind_def ret_def split: prod.splits result.splits)
  show "when_ok (if \<not> matches then fail sync_identity_error
      else bind (caught (ux_sync_all (tc_fs tc) h)) (\<lambda>synced.
        case synced of Ok _ \<Rightarrow> ret True | Err e \<Rightarrow> if dur = DurPreferred then ret False else fail e | Panic \<Rightarrow> panic))
      (\<lambda>synced _. (synced \<longrightarrow> source_was_synced tc core) \<and> (\<not> synced \<longrightarrow> dur = DurPreferred)) w1"
    if "matches \<longrightarrow> ?verified w1" for matches w1
  proof (cases matches)
    case True
    obtain r w2 where run: "ux_sync_all (tc_fs tc) h w1 = (r, w2)" by force
    have "source_was_synced tc core" if "r = Ok u" for u
      using run that True \<open>matches \<longrightarrow> ?verified w1\<close> unfolding source_was_synced_def by auto
    with True run show ?thesis
      by (cases r) (simp_all add: outcome_def bind_def caught_def ret_def fail_def panic_def)
  qed simp
qed

lemma handle_claim:
  "when_ok (synchronize_handle tc tf dur)
     (\<lambda>synced _. (synced \<longrightarrow> source_was_synced tc (tf_core tf)) \<and> (\<not> synced \<longrightarrow> dur = DurPreferred)) w"
proof -
  have "when_ok (bind get (\<lambda>h. synchronize_open_file tc (tf_core tf) h dur))
     (\<lambda>synced _. (synced \<longrightarrow> source_was_synced tc (tf_core tf)) \<and> (\<not> synced \<longrightarrow> dur = DurPreferred)) w" for get w
    by (rule outcome_bindI [where R = "\<lambda>_ _. True"]) (simp_all add: open_file_claim)
  then show ?thesis
    by (cases "tf_file tf") (simp_all add: synchronize_handle_def open_file_claim del: outcome_bind)
qed

lemma source_claim:
  "when_ok (synchronize_source tc tf dur)
     (\<lambda>synced _. (synced \<longrightarrow> source_was_synced tc (tf_core tf) \<and> dur \<noteq> DurNotRequired) \<and>
        (dur = DurRequired \<longrightarrow> synced)) w"
  using handle_claim [of tc tf dur w]
  by (cases dur) (auto simp: synchronize_source_def supports_durable_temp_file_persist_def elim!: outcome_conseq)

lemma destination_claim:
  "when_ok (synchronize_destination dur m)
     (\<lambda>synced _. (synced \<longrightarrow> (\<exists>w w'. m w = (Ok (), w')) \<and> dur \<noteq> DurNotRequired) \<and> (dur = DurRequired \<longrightarrow> synced)) w"
  by (cases dur) (auto simp: synchronize_destination_def outcome_def bind_def caught_def ret_def panic_def seq_def
      split: prod.splits result.splits)

lemma persisting_claim:
  "when_ok (persisting target resolved stage publication m) Q s \<longleftrightarrow> when_ok m Q s"
  by (simp add: persisting_def)

lemma value_claim: "when_ok (temp_call m) (\<lambda>x s'. ts_file s' = ts_file s \<and> m (ts_world s) = (Ok x, ts_world s')) s"
  by (simp add: outcome_def temp_call_def split: prod.split result.split)

lemma as_io_value: "as_io m w = (Ok x, w') \<longleftrightarrow> m w = (Ok x, w')"
  by (simp add: as_io_def or_fail_def split: prod.split result.split)

lemma core_claim: "when_ok get_core (\<lambda>c s'. c = tf_core (ts_file s) \<and> s' = s) s"
  by (simp add: get_core_def)

lemma finish_claim:
  "when_ok (finish_persist tc ns file_durable parent_durable)
     (\<lambda>out _. po_path out = ns \<and> po_durable out = (file_durable \<and> parent_durable)) s"
  unfolding finish_persist_def
  by (rule outcome_bindI [where R = "\<lambda>_ _. True"], simp, rule outcome_bindI [where R = "\<lambda>_ _. True"], simp)
    (auto simp: Let_def move_to_def set_state_def split: result.split)

definition durable_claim ::
  "('w, 'h, 'c, 'i) temp_calls \<Rightarrow> temp_core \<Rightarrow> path option \<Rightarrow> path \<Rightarrow> durability \<Rightarrow> bool \<Rightarrow> bool \<Rightarrow> persist_outcome \<Rightarrow> bool" where
  "durable_claim tc core base target dur cp file_durable out \<longleftrightarrow>
     (\<exists>t. publishes_to tc core base target t (po_path out) \<and>
        (po_durable out \<longrightarrow> file_durable \<and> names_were_synced tc core cp t) \<and>
        (dur = DurRequired \<and> file_durable \<longrightarrow> po_durable out))"

text \<open>The last two steps, for a synchronization \<open>syncing\<close> of the directories.\<close>

lemma publication_claim:
  assumes "publishes_to tc core base target t ns"
    and "\<And>w w'. syncing w = (Ok (), w') \<Longrightarrow> names_were_synced tc core cp t"
  shows "when_ok (bind (persisting target (Some ns) SynchronizeDestination PersistPublished
        (temp_call (synchronize_destination dur syncing)))
      (\<lambda>parent_durable. finish_persist tc ns file_durable parent_durable))
    (\<lambda>out _. durable_claim tc core base target dur cp file_durable out) s"
proof (rule outcome_bindI)
  show "when_ok (persisting target (Some ns) SynchronizeDestination PersistPublished
        (temp_call (synchronize_destination dur syncing)))
      (\<lambda>synced _. (synced \<longrightarrow> names_were_synced tc core cp t) \<and> (dur = DurRequired \<longrightarrow> synced)) s"
    unfolding persisting_claim outcome_temp_call
    by (rule outcome_conseq [OF destination_claim]) (use assms(2) in auto)
  fix parent_durable s1
  assume "(parent_durable \<longrightarrow> names_were_synced tc core cp t) \<and> (dur = DurRequired \<longrightarrow> parent_durable)"
  then show "when_ok (finish_persist tc ns file_durable parent_durable)
      (\<lambda>out _. durable_claim tc core base target dur cp file_durable out) s1"
    by (intro outcome_conseq [OF finish_claim]) (use assms(1) in \<open>auto simp: durable_claim_def\<close>)
qed

lemma persist_host_claim:
  assumes "tr_backend (tf_core (ts_file s)) = HostTemp i b"
    and "prepare_persist_target (scope_of (tf_core (ts_file s))) base target = Ok bound"
  shows "when_ok (persist_host tc target (np_namespace_absolute bound) (np_authority_relative bound) opts file_durable)
    (\<lambda>out _. durable_claim tc (tf_core (ts_file s)) base target (ps_durability opts) (ps_create_parent opts) file_durable out) s"
  unfolding persist_host_def synchronize_host_publication_def
proof (rule outcome_bindI [OF core_claim], elim conjE, hypsubst,
    rule outcome_bindI [where R = "\<lambda>t _. publishes_to tc (tf_core (ts_file s)) base target t (np_namespace_absolute bound)"],
    rule_tac [2] outcome_bindI)
  show "when_ok (persisting target (Some (np_namespace_absolute bound)) ResolveTarget PersistNotPublished
      (temp_call (as_io (resolve_host_path tc (np_authority_relative bound)
         (tr_symlink_policy (tf_core (ts_file s))) False))))
      (\<lambda>t _. publishes_to tc (tf_core (ts_file s)) base target t (np_namespace_absolute bound)) s"
    unfolding persisting_claim
    by (rule outcome_conseq [OF value_claim]) (use assms in \<open>auto simp: publishes_to_def as_io_value\<close>)
  show "when_ok (persisting target (Some (np_namespace_absolute bound)) PrepareTargetParent PersistNotPublished
      (temp_call (prepare_host_parent tc t (ps_create_parent opts))))
      (\<lambda>created _. parents_created (tc_fs tc) t (ps_create_parent opts) (rev created)) s1" for t s1
    unfolding persisting_claim
    by (rule outcome_conseq [OF value_claim]) (auto intro: prepare_host_parent_created)
qed (rule outcome_seqI [where R = "\<lambda>_. True"], simp,
    rule publication_claim, assumption, erule host_names_synced [OF assms(1)], assumption)

lemma persist_rooted_claim:
  assumes "tr_backend (tf_core (ts_file s)) = RootedTemp i source b"
    and "prepare_persist_target (scope_of (tf_core (ts_file s))) base target = Ok bound"
  shows "when_ok (persist_rooted tc target (np_namespace_absolute bound) (np_authority_relative bound) source opts file_durable)
    (\<lambda>out _. durable_claim tc (tf_core (ts_file s)) base target (ps_durability opts) (ps_create_parent opts) file_durable out) s"
  unfolding persist_rooted_def synchronize_rooted_publication_def
proof (rule outcome_bindI [OF core_claim], elim conjE, hypsubst,
    rule outcome_bindI [where R = "\<lambda>p s'. p = np_authority_relative bound \<and> s' = s"])
  show "when_ok (persisting target (Some (np_namespace_absolute bound)) ResolveTarget PersistNotPublished
      (answer (relative_path_new (np_authority_relative bound)))) (\<lambda>p s'. p = np_authority_relative bound \<and> s' = s) s"
    unfolding persisting_claim by (simp add: answer_outcome relative_path_new_def)
  have resolved: "when_ok (persisting target (Some (np_namespace_absolute bound)) ResolveTarget PersistNotPublished
      (temp_call (as_io (resolve_rooted_path (tc_root tc) (np_authority_relative bound)
         (tr_symlink_policy (tf_core (ts_file s))) False OpPersistTemp))))
      (\<lambda>t _. publishes_to tc (tf_core (ts_file s)) base target t (np_namespace_absolute bound)) s"
    unfolding persisting_claim
    by (rule outcome_conseq [OF value_claim]) (use assms in \<open>auto simp: publishes_to_def as_io_value\<close>)
  fix p s1 assume "p = np_authority_relative bound \<and> s1 = s"
  then show "when_ok (bind (expect (relative_path_new source)) (\<lambda>source.
      bind (persisting target (Some (np_namespace_absolute bound)) ResolveTarget PersistNotPublished
          (temp_call (as_io (resolve_rooted_path (tc_root tc) p (tr_symlink_policy (tf_core (ts_file s))) False
             OpPersistTemp)))) (\<lambda>destination.
        seq (persisting target (Some (np_namespace_absolute bound)) PrepareTargetParent PersistNotPublished
               (temp_call (prepare_rooted_parent tc destination (ps_create_parent opts))))
        (seq (installing tc target (np_namespace_absolute bound) (install_rooted tc opts source destination))
        (bind (persisting target (Some (np_namespace_absolute bound)) SynchronizeDestination PersistPublished
                 (temp_call (synchronize_destination (ps_durability opts)
                    (seq (tc_root_sync_parent tc source) (sync_ancestors tc destination)))))
          (\<lambda>parent_durable. finish_persist tc (np_namespace_absolute bound) file_durable parent_durable))))))
      (\<lambda>out _. durable_claim tc (tf_core (ts_file s)) base target (ps_durability opts) (ps_create_parent opts) file_durable out) s1"
    by (elim conjE, hypsubst)
      (rule outcome_bindI [where R = "\<lambda>p s'. p = source \<and> s' = s"],
       simp add: expect_def relative_path_new_def, elim conjE, hypsubst,
       rule outcome_bindI [OF resolved],
       rule outcome_seqI [where R = "\<lambda>_. True"], simp,
       rule outcome_seqI [where R = "\<lambda>_. True"], simp,
       rule publication_claim, assumption, erule rooted_names_synced [OF assms(1)])
qed

lemma identity_claim: "when_ok (ensure_identity_matches tc) (\<lambda>_ s'. ts_file s' = ts_file s) s"
proof -
  have core: "when_ok (core_ensure_identity_matches tc) (\<lambda>_ c'. cs_core c' = cs_core c \<and> tr_state (cs_core c) = Owned) c"
    for c
    unfolding core_ensure_identity_matches_def
    by (cases "tr_state (cs_core c) = Owned")
      (auto simp: outcome_def bind_def seq_def gets_def answer_def ensure_publishable_def caught_def on_calls_def
        set_state_def modify_def fail_def ret_def panic_def split: prod.splits result.splits bool.splits)
  show ?thesis
    unfolding ensure_identity_matches_def outcome_bind outcome_caught outcome_on_core
    by (rule outcome_conseq [OF core])
      (auto simp: get_core_def with_core_def answer_outcome close_file_def)
qed

definition backed_by_calls ::
  "('w, 'h, 'c, 'i) temp_calls \<Rightarrow> temp_core \<Rightarrow> path option \<Rightarrow> path \<Rightarrow> durability \<Rightarrow> bool \<Rightarrow> persist_outcome \<Rightarrow> bool" where
  "backed_by_calls tc core base target dur cp out \<longleftrightarrow>
     (\<exists>t. publishes_to tc core base target t (po_path out) \<and>
        (po_durable out \<longrightarrow> dur \<noteq> DurNotRequired \<and> source_was_synced tc core \<and> names_were_synced tc core cp t) \<and>
        (dur = DurRequired \<longrightarrow> po_durable out))"

lemma identity_step_claim:
  "when_ok (persisting target resolved stage publication (ensure_identity_matches tc)) (\<lambda>_ s'. ts_file s' = ts_file s) s"
  unfolding persisting_claim by (rule identity_claim)

lemma persist_program_claim:
  fixes s :: "('w, 'h, 'i) temp_state"
  defines "core \<equiv> tf_core (ts_file s)"
  shows "when_ok (persist_program tc target base opts)
    (\<lambda>out _. backed_by_calls tc core base target (ps_durability opts) (ps_create_parent opts) out) s"
proof -
  let ?same = "\<lambda>s' :: ('w, 'h, 'i) temp_state. ts_file s' = ts_file s"
  have bound: "when_ok (persisting target None ResolveTarget PersistNotPublished
        (as_io (answer (prepare_persist_target (scope_of core) base target))))
      (\<lambda>bound s'. s' = s1 \<and> prepare_persist_target (scope_of core) base target = Ok bound) s1" for s1
    unfolding persisting_claim by (simp add: as_io_def answer_outcome split: result.split)
  have source: "when_ok (persisting target (Some ns) SynchronizeSource PersistNotPublished
        (bind (gets ts_file) (\<lambda>tf. temp_call (synchronize_source tc tf (ps_durability opts)))))
      (\<lambda>synced s'. ts_file s' = ts_file s \<and> (synced \<longrightarrow> source_was_synced tc core \<and> ps_durability opts \<noteq> DurNotRequired) \<and>
         (ps_durability opts = DurRequired \<longrightarrow> synced)) s1" if "?same s1" for s1 ns
    unfolding persisting_claim outcome_bind outcome_gets outcome_temp_call
    by (rule outcome_conseq [OF source_claim]) (use that in \<open>auto simp: core_def\<close>)
  have tail: "when_ok (seq close_file (case tr_backend core of
        HostTemp _ _ \<Rightarrow>
          persist_host tc target (np_namespace_absolute bound) (np_authority_relative bound) opts synced
      | RootedTemp _ relative _ \<Rightarrow>
          persist_rooted tc target (np_namespace_absolute bound) (np_authority_relative bound) relative opts synced))
      (\<lambda>out _. durable_claim tc core base target (ps_durability opts) (ps_create_parent opts) synced out) s1"
    if "?same s1" "prepare_persist_target (scope_of core) base target = Ok bound" for s1 bound synced
  proof -
    let ?s = "s1\<lparr>ts_file := (ts_file s1)\<lparr>tf_file := None\<rparr>\<rparr>"
    show ?thesis
      unfolding close_file_def outcome_seq outcome_modify
      using persist_host_claim [of ?s _ _ base target bound tc opts synced]
        persist_rooted_claim [of ?s _ _ _ base target bound tc opts synced] that
      by (cases "tr_backend core") (simp_all add: core_def)
  qed
  have after: "when_ok (bind (persisting target (Some (np_namespace_absolute bound)) SynchronizeSource PersistNotPublished
        (bind (gets ts_file) (\<lambda>tf. temp_call (synchronize_source tc tf (ps_durability opts)))))
      (\<lambda>synced. seq close_file (case tr_backend core of
        HostTemp _ _ \<Rightarrow>
          persist_host tc target (np_namespace_absolute bound) (np_authority_relative bound) opts synced
      | RootedTemp _ relative _ \<Rightarrow>
          persist_rooted tc target (np_namespace_absolute bound) (np_authority_relative bound) relative opts synced)))
      (\<lambda>out _. backed_by_calls tc core base target (ps_durability opts) (ps_create_parent opts) out) s1"
    if "?same s1" "prepare_persist_target (scope_of core) base target = Ok bound" for s1 bound
    by (rule outcome_bindI [OF source [OF that(1)]], elim conjE, rule outcome_conseq [OF tail [OF _ that(2)]], assumption)
      (auto simp: durable_claim_def backed_by_calls_def)
  show ?thesis
    unfolding persist_program_def Let_def
    by (rule outcome_seqI [where R = "\<lambda>s'. s' = s"], simp add: persisting_claim require_writable_def, hypsubst,
        rule outcome_seqI [where R = "\<lambda>s'. s' = s"], simp add: persisting_claim get_core_def answer_outcome split: result.split, hypsubst,
        rule outcome_bindI [OF core_claim], elim conjE, hypsubst, fold core_def,
        rule outcome_bindI [OF bound], elim conjE, hypsubst,
        rule outcome_seqI [where R = "\<lambda>s'. s' = s"], simp add: persisting_claim answer_outcome split: result.split, hypsubst,
        rule outcome_seqI [where R = ?same])
      (auto simp: persisting_claim intro!: outcome_conseq [OF value_claim] outcome_seqI [OF identity_step_claim] after
        split: option.split simp del: outcome_bind outcome_seq)
qed

lemma persist_claims:
  assumes "persist_with_path tc target base opts tf w = (Ok out, w')"
  shows "backed_by_calls tc (tf_core tf) base target (ps_durability opts) (ps_create_parent opts) out"
proof -
  obtain s' where "persist_program tc target base opts \<lparr>ts_file = tf, ts_world = w\<rparr> = (Ok out, s')"
    using assms by (auto simp: persist_with_path_def consuming_def split: prod.splits result.splits)
  then show ?thesis
    using outcomeD(1) [OF persist_program_claim] by fastforce
qed

section \<open>Sealing\<close>

text \<open>The handle was seen to have an identity, its write access was taken away, and it was synchronized.\<close>

definition was_observed :: "('w, 'h, 'c, 'i) temp_calls \<Rightarrow> 'h \<Rightarrow> 'i option \<Rightarrow> bool" where
  "was_observed tc h identity \<longleftrightarrow> (\<exists>w w'. tc_observe tc True h w = (Ok identity, w'))"

definition was_restricted :: "('w, 'h, 'c, 'i) temp_calls \<Rightarrow> 'h \<Rightarrow> bool" where
  "was_restricted tc h \<longleftrightarrow> (\<exists>w w'. tc_restrict tc h w = (Ok (), w'))"

definition was_synced :: "('w, 'h, 'c, 'i) temp_calls \<Rightarrow> 'h \<Rightarrow> bool" where
  "was_synced tc h \<longleftrightarrow> (\<exists>w w'. ux_sync_all (tc_fs tc) h w = (Ok (), w'))"

definition restrict_failed :: "('w, 'h, 'c, 'i) temp_calls \<Rightarrow> 'h \<Rightarrow> bool" where
  "restrict_failed tc h \<longleftrightarrow> (\<exists>w w' e. tc_restrict tc h w = (Err e, w'))"

text \<open>
  What is left when sealing fails. Before the access of the file is touched only observations and
  synchronizations of handles are made; from then on the access state says how far it came: it is not
  known after a failed change and after another file was opened in the place of this one, and read-only
  otherwise.
\<close>

inductive only_looked :: "('w, 'h, 'c, 'i) temp_calls \<Rightarrow> 'w \<Rightarrow> 'w \<Rightarrow> bool" for tc w where
  nothing: "only_looked tc w w"
| observed: "only_looked tc w v \<Longrightarrow> tc_observe tc True h v = (r, v') \<Longrightarrow> only_looked tc w v'"
| synced: "only_looked tc w v \<Longrightarrow> ux_sync_all (tc_fs tc) h v = (u, v') \<Longrightarrow> only_looked tc w v'"

definition seal_stopped ::
  "('w, 'h, 'c, 'i) temp_calls \<Rightarrow> ('h, 'i) temp_file \<Rightarrow> ('h, 'i) temp_file \<Rightarrow> bool" where
  "seal_stopped tc tf tf' \<longleftrightarrow>
     (\<exists>h. tf_file tf = Some h \<and>
        (tf' = tf\<lparr>tf_access := AccessIndeterminate\<rparr> \<and>
           (restrict_failed tc h \<or>
            (was_restricted tc h \<and> (\<exists>h' other. was_observed tc h' other \<and> other \<noteq> tf_identity tf))) \<or>
         tf' = tf\<lparr>tf_access := ReadOnly\<rparr> \<and> was_restricted tc h))"

definition seal_left ::
  "('w, 'h, 'c, 'i) temp_calls \<Rightarrow> ('w, 'h, 'i) temp_state \<Rightarrow> ('w, 'h, 'i) temp_state \<Rightarrow> bool" where
  "seal_left tc s s' \<longleftrightarrow>
     ts_file s' = ts_file s \<and> only_looked tc (ts_world s) (ts_world s') \<or>
     seal_stopped tc (ts_file s) (ts_file s')"

definition sealed ::
  "('w, 'h, 'c, 'i) temp_calls \<Rightarrow> file_sync \<Rightarrow> ('h, 'i) temp_file \<Rightarrow> ('h, 'i) temp_file \<Rightarrow> bool" where
  "sealed tc sync tf tf' \<longleftrightarrow>
     (\<exists>h h' identity. tf_file tf = Some h \<and> tf_identity tf = Some identity \<and>
        tf' = tf\<lparr>tf_access := ReadOnly, tf_file := Some h'\<rparr> \<and> was_observed tc h (Some identity) \<and>
        was_restricted tc h \<and> (sync = SyncRequired \<longrightarrow> was_synced tc h) \<and> was_observed tc h' (Some identity))"

lemma before_access_claim:
  "outcome (seal_before_access tc sync h expected)
     (\<lambda>_ _. \<exists>identity. expected = Some identity \<and> was_observed tc h (Some identity))
     (\<lambda>_ w'. only_looked tc w w') (\<lambda>_. True) w"
proof -
  obtain r w1 where r: "tc_observe tc True h w = (r, w1)" by force
  then have looked: "only_looked tc w w1" by (rule only_looked.observed [OF only_looked.nothing])
  obtain u w2 where u: "ux_sync_all (tc_fs tc) h w1 = (u, w2)" by force
  then have again: "only_looked tc w w2" by (rule only_looked.synced [OF looked])
  have seen: "was_observed tc h x" if "r = Ok x" for x
    using r that by (auto simp: was_observed_def)
  show ?thesis
    using r looked u again seen
    by (cases r; cases u; cases expected)
      (auto simp: seal_before_access_def as_io_def outcome_def bind_def or_fail_def fail_def ret_def
        caught_def panic_def split: if_splits)
qed

lemma call_claim:
  "outcome (temp_call m) (\<lambda>x s'. ts_file s' = ts_file s \<and> (\<exists>w w'. m w = (Ok x, w')))
     (\<lambda>_ s'. ts_file s' = ts_file s) (\<lambda>_. True) s"
  by (auto simp: outcome_def temp_call_def split: prod.split result.split)

text \<open>A call in a sequence: the file stays as it is, and what the call's success means may be used later.\<close>

lemma call_then:
  assumes "\<And>x w w'. m w = (Ok x, w') \<Longrightarrow> R x" and "E (ts_file s)"
    and "\<And>x s'. ts_file s' = ts_file s \<Longrightarrow> R x \<Longrightarrow> outcome (f x) Q (\<lambda>_ s'. E (ts_file s')) (\<lambda>_. True) s'"
  shows "outcome (bind (temp_call m) f) Q (\<lambda>_ s'. E (ts_file s')) (\<lambda>_. True) s"
  by (rule outcome_bindI [where R = "\<lambda>x s'. ts_file s' = ts_file s \<and> R x"],
      rule outcome_conseq [OF call_claim]) (use assms in auto)

lemma seal_reopen:
  fixes tc :: "('w, 'h, 'c, 'i) temp_calls" and s :: "('w, 'h, 'i) temp_state"
  assumes "tf_file tf = Some h" and "tf_identity tf = Some identity" and "was_observed tc h (Some identity)"
    and "was_restricted tc h" and "sync = SyncRequired \<longrightarrow> was_synced tc h"
    and "ts_file s = tf\<lparr>tf_access := ReadOnly\<rparr>"
  shows "outcome (bind (temp_call (reopen_read_only tc (tf_core tf))) (\<lambda>readonly.
      bind (temp_call (as_io (tc_observe tc True readonly))) (\<lambda>reopened.
        if reopened \<noteq> tf_identity tf then
          seq (set_access AccessIndeterminate) (fail (io_error_of IoInvalidInput))
        else modify (\<lambda>s. s\<lparr>ts_file := (ts_file s)\<lparr>tf_file := Some readonly\<rparr>\<rparr>))))
    (\<lambda>_ s'. sealed tc sync tf (ts_file s')) (\<lambda>_ s'. seal_stopped tc tf (ts_file s')) (\<lambda>_. True) s"
proof (rule call_then [where R = "\<lambda>_. True"])
  show left: "seal_stopped tc tf (ts_file s)"
    using assms(1,4,6) by (auto simp: seal_stopped_def)
  fix readonly and s1 :: "('w, 'h, 'i) temp_state" assume s1: "ts_file s1 = ts_file s"
  show "outcome (bind (temp_call (as_io (tc_observe tc True readonly))) (\<lambda>reopened.
        if reopened \<noteq> tf_identity tf then
          seq (set_access AccessIndeterminate) (fail (io_error_of IoInvalidInput))
        else modify (\<lambda>s. s\<lparr>ts_file := (ts_file s)\<lparr>tf_file := Some readonly\<rparr>\<rparr>)))
    (\<lambda>_ s'. sealed tc sync tf (ts_file s')) (\<lambda>_ s'. seal_stopped tc tf (ts_file s')) (\<lambda>_. True) s1"
  proof (rule call_then [where R = "was_observed tc readonly"])
    fix reopened and s2 :: "('w, 'h, 'i) temp_state" assume "ts_file s2 = ts_file s1" "was_observed tc readonly reopened"
    with s1 assms show "outcome (if reopened \<noteq> tf_identity tf then
          seq (set_access AccessIndeterminate) (fail (io_error_of IoInvalidInput))
        else modify (\<lambda>s. s\<lparr>ts_file := (ts_file s)\<lparr>tf_file := Some readonly\<rparr>\<rparr>))
      (\<lambda>_ s'. sealed tc sync tf (ts_file s')) (\<lambda>_ s'. seal_stopped tc tf (ts_file s')) (\<lambda>_. True) s2"
      by (cases "reopened = tf_identity tf") (auto simp: set_access_def seal_stopped_def sealed_def)
  qed (use s1 left in \<open>auto simp: as_io_value was_observed_def\<close>)
qed simp

lemma seal_program_outcome:
  fixes tc :: "('w, 'h, 'c, 'i) temp_calls" and s :: "('w, 'h, 'i) temp_state"
  shows "outcome (seal_program tc sync) (\<lambda>_ s'. sealed tc sync (ts_file s) (ts_file s'))
     (\<lambda>_ s'. seal_left tc s s') (\<lambda>_. True) s"
proof (cases "tf_file (ts_file s)")
  case None
  then show ?thesis
    by (simp add: seal_program_def seal_left_def only_looked.nothing)
next
  case (Some h)
  let ?tf = "ts_file s"
  let ?Q = "\<lambda>_ s'. sealed tc sync ?tf (ts_file s')" and ?E = "\<lambda>_ s'. seal_stopped tc ?tf (ts_file s')"
  let ?L = "\<lambda>_ s'. seal_left tc s s'"
  let ?reopen = "bind (temp_call (reopen_read_only tc (tf_core ?tf))) (\<lambda>readonly.
      bind (temp_call (as_io (tc_observe tc True readonly))) (\<lambda>reopened.
        if reopened \<noteq> tf_identity ?tf then
          seq (set_access AccessIndeterminate) (fail (io_error_of IoInvalidInput))
        else modify (\<lambda>s. s\<lparr>ts_file := (ts_file s)\<lparr>tf_file := Some readonly\<rparr>\<rparr>)))"
  have synced: "outcome (seq (whenever (sync = SyncRequired) (temp_call (ux_sync_all (tc_fs tc) h))) ?reopen)
      ?Q ?E (\<lambda>_. True) s1"
    if "tf_identity ?tf = Some identity" "was_observed tc h (Some identity)" "was_restricted tc h"
      "ts_file s1 = ?tf\<lparr>tf_access := ReadOnly\<rparr>" for identity s1
  proof (rule outcome_seqI)
    show "outcome (whenever (sync = SyncRequired) (temp_call (ux_sync_all (tc_fs tc) h)))
        (\<lambda>_ s'. ts_file s' = ts_file s1 \<and> (sync = SyncRequired \<longrightarrow> was_synced tc h)) ?E (\<lambda>_. True) s1"
    proof (cases "sync = SyncRequired")
      case True
      show ?thesis
        unfolding True outcome_whenever if_P [OF refl]
        by (rule outcome_conseq [OF call_claim]) (use that Some in \<open>auto simp: was_synced_def seal_stopped_def\<close>)
    qed simp
    show "outcome ?reopen ?Q ?E (\<lambda>_. True) s2"
      if "ts_file s2 = ts_file s1 \<and> (sync = SyncRequired \<longrightarrow> was_synced tc h)" for s2
      using that \<open>ts_file s1 = _\<close> \<open>tf_identity ?tf = _\<close> \<open>was_observed tc h _\<close> \<open>was_restricted tc h\<close>
      by (intro seal_reopen [OF Some]) simp_all
  qed
  have restricted: "outcome (seq (temp_call (tc_restrict tc h)) (seq (set_access ReadOnly)
      (seq (whenever (sync = SyncRequired) (temp_call (ux_sync_all (tc_fs tc) h))) ?reopen))) ?Q ?E (\<lambda>_. True) s1"
    if "tf_identity ?tf = Some identity" "was_observed tc h (Some identity)"
      "ts_file s1 = ?tf\<lparr>tf_access := AccessIndeterminate\<rparr>" for identity s1
  proof (rule outcome_seqI [where R = "\<lambda>s'. ts_file s' = ts_file s1 \<and> was_restricted tc h"])
    show "outcome (temp_call (tc_restrict tc h)) (\<lambda>_ s'. ts_file s' = ts_file s1 \<and> was_restricted tc h) ?E (\<lambda>_. True) s1"
      using that(3) Some
      by (auto simp: outcome_def temp_call_def was_restricted_def restrict_failed_def seal_stopped_def
          split: prod.splits result.splits)
    fix s2 :: "('w, 'h, 'i) temp_state" assume "ts_file s2 = ts_file s1 \<and> was_restricted tc h"
    with that have "outcome (seq (whenever (sync = SyncRequired) (temp_call (ux_sync_all (tc_fs tc) h))) ?reopen)
        ?Q ?E (\<lambda>_. True) (s2\<lparr>ts_file := (ts_file s2)\<lparr>tf_access := ReadOnly\<rparr>\<rparr>)"
      by (intro synced) simp_all
    then show "outcome (seq (set_access ReadOnly)
        (seq (whenever (sync = SyncRequired) (temp_call (ux_sync_all (tc_fs tc) h))) ?reopen)) ?Q ?E (\<lambda>_. True) s2"
      unfolding set_access_def [of ReadOnly] outcome_seq outcome_modify .
  qed
  have "outcome (seq (temp_call (seal_before_access tc sync h (tf_identity ?tf))) (seq (set_access AccessIndeterminate)
      (seq (temp_call (tc_restrict tc h)) (seq (set_access ReadOnly)
      (seq (whenever (sync = SyncRequired) (temp_call (ux_sync_all (tc_fs tc) h))) ?reopen))))) ?Q ?L (\<lambda>_. True) s"
  proof (rule outcome_seqI [where R = "\<lambda>s'. ts_file s' = ?tf \<and>
      (\<exists>identity. tf_identity ?tf = Some identity \<and> was_observed tc h (Some identity))"])
    show "outcome (temp_call (seal_before_access tc sync h (tf_identity ?tf)))
        (\<lambda>_ s'. ts_file s' = ?tf \<and> (\<exists>identity. tf_identity ?tf = Some identity \<and> was_observed tc h (Some identity)))
        ?L (\<lambda>_. True) s"
      unfolding outcome_temp_call
      by (rule outcome_conseq [OF before_access_claim]) (auto simp: seal_left_def)
    fix s1 :: "('w, 'h, 'i) temp_state"
    assume s1: "ts_file s1 = ?tf \<and> (\<exists>identity. tf_identity ?tf = Some identity \<and> was_observed tc h (Some identity))"
    then obtain identity where "tf_identity ?tf = Some identity" "was_observed tc h (Some identity)" by blast
    with s1 have "outcome (seq (temp_call (tc_restrict tc h)) (seq (set_access ReadOnly)
        (seq (whenever (sync = SyncRequired) (temp_call (ux_sync_all (tc_fs tc) h))) ?reopen))) ?Q ?E (\<lambda>_. True)
        (s1\<lparr>ts_file := (ts_file s1)\<lparr>tf_access := AccessIndeterminate\<rparr>\<rparr>)"
      by (intro restricted) simp_all
    then have "outcome (seq (temp_call (tc_restrict tc h)) (seq (set_access ReadOnly)
        (seq (whenever (sync = SyncRequired) (temp_call (ux_sync_all (tc_fs tc) h))) ?reopen))) ?Q ?L (\<lambda>_. True)
        (s1\<lparr>ts_file := (ts_file s1)\<lparr>tf_access := AccessIndeterminate\<rparr>\<rparr>)"
      by (rule outcome_conseq) (simp_all add: seal_left_def)
    then show "outcome (seq (set_access AccessIndeterminate) (seq (temp_call (tc_restrict tc h)) (seq (set_access ReadOnly)
        (seq (whenever (sync = SyncRequired) (temp_call (ux_sync_all (tc_fs tc) h))) ?reopen)))) ?Q ?L (\<lambda>_. True) s1"
      unfolding set_access_def [of AccessIndeterminate] outcome_seq outcome_modify .
  qed
  then show ?thesis
    unfolding seal_program_def outcome_bind outcome_gets Some option.case outcome_ret .
qed

end
