(* ===== verification/Temp_Props.thy ===== *)
theory Temp_Props
  imports Temp_Claims Memory_Files
begin

text \<open>
  Properties of temporary files, with runs on a namespace in memory that serves as the Host and as the opened
  root.
\<close>

section \<open>Temporary files in memory\<close>

definition mem_metadata :: "file_stat \<Rightarrow> entry_metadata" where
  "mem_metadata st =
     \<lparr>em_kind = (case st_kind st of RegularFile \<Rightarrow> EntFile | Directory \<Rightarrow> EntDirectory | Symlink \<Rightarrow> EntSymlink
        | OtherKind \<Rightarrow> EntOther), em_identity = Some (st_dev st, st_ino st)\<rparr>"

definition mem_root_entry :: "memory_files \<Rightarrow> path \<Rightarrow> entry_metadata option" where
  "mem_root_entry w p = map_option mem_metadata (mem_entry w p)"

definition mem_root_stat :: "path \<Rightarrow> (memory_files, entry_metadata) native" where
  "mem_root_stat p = bind (mem_stat p) (\<lambda>st. ret (mem_metadata st))"

definition memory_root :: "(memory_files, path) root_calls" where
  "memory_root =
     \<lparr>rt_contract = contract_unrestricted,
      rt_metadata = faulty (ret \<lparr>em_kind = EntDirectory, em_identity = None\<rparr>),
      rt_symlink_metadata = (\<lambda>p. faulty (mem_root_stat p)),
      rt_cursor = faulty (ret []),
      rt_cursor_metadata = (\<lambda>c name. faulty (mem_root_stat (path_join c name))),
      rt_descend = (\<lambda>c name. faulty (ret (path_join c name))),
      rt_read_link = (\<lambda>p maximum. faulty (fail (io_error_of IoInvalidInput))),
      rt_now = (\<lambda>w. (0, w)), rt_reserve = (\<lambda>n. True)\<rparr>"

text \<open>A directory is removed when nothing is below it.\<close>

definition below :: "path \<Rightarrow> path \<Rightarrow> bool" where
  "below d p = (take (length d + 1) p = d @ [47])"

definition mem_remove_dir :: "path \<Rightarrow> (memory_files, unit) native" where
  "mem_remove_dir p w =
     (if list_ex (\<lambda>x. below p (fst x)) (mf_names w) then (Err (io_error_of IoDirectoryNotEmpty), w)
      else mem_unlink p w)"

definition mem_root_remove :: "path \<Rightarrow> bool \<Rightarrow> (memory_files, unit) native" where
  "mem_root_remove p directory = (if directory then mem_remove_dir p else mem_unlink p)"

definition mem_root_rename :: "path \<Rightarrow> path \<Rightarrow> bool \<Rightarrow> (memory_files, unit) native" where
  "mem_root_rename a b replace = (if replace then mem_rename a b else mem_rename_noreplace a b)"

definition memory_temp_calls :: "(memory_files, file_stat, path, file_stat) temp_calls" where
  "memory_temp_calls =
     \<lparr>tc_fs = memory_fs, tc_canonicalize = (\<lambda>p. faulty (ret p)), tc_remove_dir = (\<lambda>p. faulty (mem_remove_dir p)),
      tc_open_reader = (\<lambda>p. faulty (mem_stat p)), tc_seek = (\<lambda>h n. faulty (ret 0)), tc_root = memory_root,
      tc_root_fstat = (\<lambda>h. faulty (ret (mem_metadata h))),
      tc_root_rename = (\<lambda>a b replace. faulty (mem_root_rename a b replace)),
      tc_root_create_dir_all = (\<lambda>p. faulty (ret ())),
      tc_root_remove = (\<lambda>p directory. faulty (mem_root_remove p directory)),
      tc_root_open_reader = (\<lambda>p. faulty (mem_stat p)), tc_root_open_directory = (\<lambda>p. faulty (mem_stat p)),
      tc_root_clone = faulty (mem_stat []), tc_root_sync_parent = (\<lambda>p. faulty (ret ())),
      tc_observe = (\<lambda>required h. or_fail (\<lambda>_ e. from_io OpMetadata None None e) id (faulty (ret (Some h)))),
      tc_restrict = (\<lambda>h. faulty (ret ()))\<rparr>"

lemma mem_metadata_inj: "inj mem_metadata"
  by (rule injI) (auto simp: mem_metadata_def split: file_kind.splits intro!: file_stat.equality)

lemma faulty_silent:
  assumes "\<And>w r w'. op w = (r, w') \<Longrightarrow> mf_names w' = mf_names w \<and> r \<noteq> Panic"
  shows "silent mem_entry (faulty op)" and "silent mem_root_entry (faulty op)"
proof -
  have "mf_names (snd (faulty op w)) = mf_names w \<and> fst (faulty op w) \<noteq> Panic" for w
  proof -
    obtain r w' where run: "faulty op w = (r, w')" by force
    then show ?thesis
      by (cases rule: faulty_cases) (auto simp: run dest: assms)
  qed
  then show "silent mem_entry (faulty op)" "silent mem_root_entry (faulty op)"
    by (simp_all add: silent_def mem_entry_def mem_root_entry_def fun_eq_iff)
qed

lemma mem_root_stat_result:
  "mem_root_stat p w = (r, w') \<Longrightarrow> w' = w \<and> r \<noteq> Panic"
  "mem_root_stat p w = (Ok metadata, w') \<Longrightarrow> mem_root_entry w p = Some metadata"
  by (auto simp: mem_root_stat_def mem_stat_def bind_def ret_def mem_root_entry_def mem_entry_def split: option.splits)

lemma mem_remove_dir_result:
  "mem_remove_dir a w = (Ok u, w') \<Longrightarrow> map_of (mf_names w') = (map_of (mf_names w))(a := None)"
  "mem_remove_dir a w = (Err e, w') \<Longrightarrow> w' = w"
  "mem_remove_dir a w \<noteq> (Panic, w')"
  by (auto simp: mem_remove_dir_def dest: mem_unlink_result(1,2) split: if_splits)
    (use mem_unlink_result(3) in blast)

lemma mem_root_view: "mem_root_entry w = (\<lambda>p. map_option mem_metadata (map_of (mf_names w) p))"
  by (simp add: fun_eq_iff mem_root_entry_def mem_entry_def)

lemma mem_rename_view:
  "mem_rename a b w = (Ok u, w') \<Longrightarrow> map_of (mf_names w') = renamed a b (map_of (mf_names w))"
  by (auto simp: mem_rename_def renamed_def map_of_without_name fun_upd_twist split: option.splits if_splits)

lemma mem_root_rename_result:
  "mem_root_rename a b replace w = (Ok u, w') \<Longrightarrow>
   map_of (mf_names w') = renamed a b (map_of (mf_names w)) \<and> (replace \<or> map_of (mf_names w) b = None)"
  "mem_root_rename a b replace w = (Err e, w') \<Longrightarrow> w' = w"
  "mem_root_rename a b replace w \<noteq> (Panic, w')"
  using mem_rename_view [of a b w] mem_rename_result(2,3) [of a b w]
  by (auto simp: mem_root_rename_def mem_rename_noreplace_def split: if_splits)

lemma mem_root_remove_result:
  "mem_root_remove a directory w = (Ok u, w') \<Longrightarrow> map_of (mf_names w') = (map_of (mf_names w))(a := None)"
  "mem_root_remove a directory w = (Err e, w') \<Longrightarrow> w' = w"
  "mem_root_remove a directory w \<noteq> (Panic, w')"
  using mem_remove_dir_result [of a w] mem_unlink_result [of a w]
  by (auto simp: mem_root_remove_def split: if_splits)

lemma mem_silent:
  "silent mem_entry (faulty (ret x))" "silent mem_root_entry (faulty (ret x))"
  "silent mem_entry (faulty (fail e))" "silent mem_root_entry (faulty (fail e))"
  "silent mem_entry (faulty (mem_stat p))" "silent mem_root_entry (faulty (mem_stat p))"
  "silent mem_entry (faulty (mem_root_stat p))" "silent mem_root_entry (faulty (mem_root_stat p))"
proof -
  show "silent mem_entry (faulty (ret x))" "silent mem_root_entry (faulty (ret x))"
    by (rule faulty_silent; auto simp: ret_def)+
  show "silent mem_entry (faulty (fail e))" "silent mem_root_entry (faulty (fail e))"
    by (rule faulty_silent; auto simp: fail_def)+
  show "silent mem_entry (faulty (mem_stat p))" "silent mem_root_entry (faulty (mem_stat p))"
    by (rule faulty_silent, drule mem_stat_quiet, simp)+
  show "silent mem_entry (faulty (mem_root_stat p))" "silent mem_root_entry (faulty (mem_root_stat p))"
    by (rule faulty_silent, drule mem_root_stat_result(1), simp)+
qed

lemma silent_steady: "silent v m \<Longrightarrow> unmoved v m"
  by (simp add: silent_def unmoved_def)

lemma silent_returns: "silent v m \<Longrightarrow> fst (m w) \<noteq> Panic"
  by (simp add: silent_def)

lemma memory_root_looks: "looking_root mem_root_entry memory_root"
  by unfold_locales (simp_all add: memory_root_def mem_silent silent_steady)

lemma memory_root_returns: "returning memory_root"
  by (simp add: returning_def memory_root_def mem_silent(2,4,8) [THEN silent_returns])

interpretation memory_temp: temp_files memory_temp_calls mem_entry mem_root_entry
proof -
  have host: "unix_creation (tc_fs memory_temp_calls) mem_entry"
    using memory.unix_creation_axioms by (simp add: memory_temp_calls_def)
  have calls: "tc_fs memory_temp_calls = memory_fs" "tc_root memory_temp_calls = memory_root"
    by (simp_all add: memory_temp_calls_def)
  show "temp_files memory_temp_calls mem_entry mem_root_entry"
  proof (rule temp_files.intro [OF host], rule temp_files_axioms.intro)
    show "mem_entry w' = mem_entry w"
      if "ux_rename (tc_fs memory_temp_calls) a b w = (Ok u, w')" "mem_entry w a = mem_entry w b" for a b w u w'
      using that
      by (auto simp: calls memory_fs_def mem_entry_def renamed_def elim!: faulty_cases dest!: mem_rename_view)
    show "ux_rename_noreplace (tc_fs memory_temp_calls) a a w \<noteq> (Ok u, w')" for a w u w'
      by (auto simp: calls memory_fs_def mem_rename_noreplace_def mem_rename_def elim!: faulty_cases split: if_splits option.splits)
    show "grown host_directory (mem_entry w) (mem_entry w') \<and> r \<noteq> Panic"
      if "ux_create_dir_all (tc_fs memory_temp_calls) p w = (r, w')" for p w r w'
      using that silentD [OF mem_silent(1), of "()" w r w'] by (simp add: calls memory_fs_def)
    show "mem_entry w' = (mem_entry w)(p := None)" if "tc_remove_dir memory_temp_calls p w = (Ok u, w')" for p w u w'
      using that by (auto simp: memory_temp_calls_def mem_entry_def elim!: faulty_cases dest!: mem_remove_dir_result(1))
    show "mem_entry w' = mem_entry w" if "tc_remove_dir memory_temp_calls p w = (Err e, w')" for p w e w'
      using that by (auto simp: memory_temp_calls_def mem_entry_def elim!: faulty_cases dest!: mem_remove_dir_result(2))
    show "tc_remove_dir memory_temp_calls p w \<noteq> (Panic, w')" for p w w'
      by (auto simp: memory_temp_calls_def mem_remove_dir_result(3) elim!: faulty_cases)
    show "looking_root mem_root_entry (tc_root memory_temp_calls)" "returning (tc_root memory_temp_calls)"
      by (simp_all add: calls memory_root_looks memory_root_returns)
    show "mem_root_entry w p = Some metadata"
      if "rt_symlink_metadata (tc_root memory_temp_calls) p w = (Ok metadata, w')" for p w metadata w'
      using that
      by (auto simp: calls memory_root_def mem_root_view elim!: faulty_cases dest!: mem_root_stat_result(2))
    show "mem_root_entry w' = renamed a b (mem_root_entry w) \<and> (replace \<or> mem_root_entry w b = None)"
      if "tc_root_rename memory_temp_calls a b replace w = (Ok u, w')" for a b replace w u w'
      using that view_renamed [OF mem_metadata_inj]
      by (auto simp: memory_temp_calls_def mem_root_view elim!: faulty_cases dest!: mem_root_rename_result(1))
    show "mem_root_entry w' = mem_root_entry w"
      if "tc_root_rename memory_temp_calls a b replace w = (Err e, w')" for a b replace w e w'
      using that by (auto simp: memory_temp_calls_def mem_root_view elim!: faulty_cases dest!: mem_root_rename_result(2))
    show "tc_root_rename memory_temp_calls a b replace w \<noteq> (Panic, w')" for a b replace w w'
      by (auto simp: memory_temp_calls_def mem_root_rename_result(3) elim!: faulty_cases)
    show "mem_root_entry w' = (mem_root_entry w)(p := None)"
      if "tc_root_remove memory_temp_calls p d w = (Ok u, w')" for p d w u w'
      using that
      by (auto simp: memory_temp_calls_def mem_root_view fun_eq_iff elim!: faulty_cases dest!: mem_root_remove_result(1))
    show "mem_root_entry w' = mem_root_entry w" if "tc_root_remove memory_temp_calls p d w = (Err e, w')" for p d w e w'
      using that by (auto simp: memory_temp_calls_def mem_root_view elim!: faulty_cases dest!: mem_root_remove_result(2))
    show "tc_root_remove memory_temp_calls p d w \<noteq> (Panic, w')" for p d w w'
      by (auto simp: memory_temp_calls_def mem_root_remove_result(3) elim!: faulty_cases)
    show "grown root_directory (mem_root_entry w) (mem_root_entry w') \<and> r \<noteq> Panic"
      if "tc_root_create_dir_all memory_temp_calls p w = (r, w')" for p w r w'
      using that silentD [OF mem_silent(2), of "()" w r w'] by (simp add: memory_temp_calls_def)
  qed (simp_all add: memory_temp_calls_def memory_fs_def mem_silent)
qed

section \<open>Concrete runs\<close>

text \<open>The file \<open>/d/s/f\<close> in its sandbox \<open>/d/s\<close>; \<open>/d/g\<close> is free.\<close>

definition sample_temp_stat :: file_stat where
  "sample_temp_stat = \<lparr>st_kind = RegularFile, st_dev = 1, st_ino = 9\<rparr>"

definition sample_temp_core :: temp_core where
  "sample_temp_core =
     temp_core_new [47, 100, 47, 115, 47, 102] [47, 100] (HostTemp (1, 9) [47, 100, 47, 115]) SymlinkReject"

definition sample_temp :: "(file_stat, file_stat) temp_file" where
  "sample_temp =
     \<lparr>tf_core = sample_temp_core, tf_file = Some sample_temp_stat, tf_access = Writable,
      tf_identity = Some sample_temp_stat\<rparr>"

definition sample_temp_world :: "fault list \<Rightarrow> memory_files" where
  "sample_temp_world faults =
     \<lparr>mf_names = [([47, 100], \<lparr>st_kind = Directory, st_dev = 1, st_ino = 2\<rparr>),
                  ([47, 100, 47, 115], \<lparr>st_kind = Directory, st_dev = 1, st_ino = 5\<rparr>),
                  ([47, 100, 47, 115, 47, 102], sample_temp_stat)],
      mf_bytes = [], mf_next = 10, mf_faults = faults\<rparr>"

definition sample_durable :: persist_options where
  "sample_durable = \<lparr>ps_overwrite = False, ps_create_parent = False, ps_durability = DurRequired\<rparr>"

lemma sample_persists:
  "fst (persist_with_path memory_temp_calls [47, 100, 47, 103] None sample_durable sample_temp (sample_temp_world [])) =
   Ok \<lparr>po_path = [47, 100, 47, 103], po_method = PersistAtomicRename, po_atomic = True, po_durable = True,
       po_cleanup_error = None\<rparr>"
  by code_simp

lemma sample_loses_sync:
  "(case persist_with_path memory_temp_calls [47, 100, 47, 103] None sample_durable sample_temp
      (sample_temp_world (replicate 6 NoFault @ [NoFault, FailWith 5])) of
      (Err e, _) \<Rightarrow> Some (pe_stage e, pe_state e, pe_source_state e) | _ \<Rightarrow> None) =
   Some (SynchronizeDestination, PersistPublished, CleanupRequired)"
  by code_simp

lemma sample_cleans:
  "(case cleanup_file memory_temp_calls sample_temp (sample_temp_world [NoFault, FailWith 5]) of
      (r, tf, _) \<Rightarrow> (r = Ok (), tr_state (tf_core tf))) = (False, Owned)"
  "(case cleanup_file memory_temp_calls sample_temp (sample_temp_world []) of
      (r, tf, w) \<Rightarrow> (r = Ok (), tr_state (tf_core tf), mf_names w)) =
   (True, Released, [([47, 100], \<lparr>st_kind = Directory, st_dev = 1, st_ino = 2\<rparr>)])"
  by code_simp+

lemma sample_seals:
  "(case seal_with_options memory_temp_calls SyncRequired sample_temp (sample_temp_world []) of
      (Ok tf, _) \<Rightarrow> Some (tf_access tf) | _ \<Rightarrow> None) = Some ReadOnly"
  by code_simp

lemma sample_valid: "valid_core (tf_core sample_temp)"
  by (simp add: sample_temp_def sample_temp_core_def temp_core_new_def valid_core_def)

section \<open>Properties\<close>

text \<open>
  C37: the publication of a temporary file reports the truth, in both scopes and whichever calls fail. A
  success comes only from an owned, writable file whose name still held the entry created for it, and has
  moved that entry to the place the target stands for, over an existing entry only where replacement was asked
  for; besides new parent directories no other name changed, and the sandbox is gone unless the outcome
  carries a cleanup error. A failure returns the file. If it says published, the entry was moved just so and only
  the required synchronization failed; otherwise nothing but new parent directories appeared, and where it
  says indeterminate the file refuses every later operation. Nothing panics.
\<close>

theorem temp_persist_truthful:
  assumes "temp_files tc hosts roots" and "valid_core (tf_core tf)"
  shows "case persist_with_path tc target base opts tf w of
      (Ok out, w') \<Rightarrow>
        tr_state (tf_core tf) = Owned \<and> tf_access tf = Writable \<and>
        publication_succeeded tc (tf_core tf) base target opts (name_view_of hosts roots (tf_core tf) w) out
          (name_view_of hosts roots (tf_core tf) w')
    | (Err e, w') \<Rightarrow>
        truthful_failure tc (tf_core tf) base target opts (name_view_of hosts roots (tf_core tf) w) e
          (name_view_of hosts roots (tf_core tf) w')
    | (Panic, _) \<Rightarrow> False"
  using assms by (rule temp_files.persist_truthful)

theorem temp_persist_truthful_witness:
  "case persist_with_path memory_temp_calls [47, 100, 47, 103] None sample_durable sample_temp
      (sample_temp_world (replicate 6 NoFault @ [NoFault, FailWith 5])) of
      (Err e, w') \<Rightarrow>
        pe_state e = PersistPublished \<and>
        truthful_failure memory_temp_calls (tf_core sample_temp) None [47, 100, 47, 103] sample_durable
          (name_view_of mem_entry mem_root_entry (tf_core sample_temp)
             (sample_temp_world (replicate 6 NoFault @ [NoFault, FailWith 5]))) e
          (name_view_of mem_entry mem_root_entry (tf_core sample_temp) w')
    | _ \<Rightarrow> False"
  using temp_persist_truthful [OF memory_temp.temp_files_axioms sample_valid, where target = "[47, 100, 47, 103]"
      and base = None and opts = sample_durable
      and w = "sample_temp_world (replicate 6 NoFault @ [NoFault, FailWith 5])"] sample_loses_sync
  by (auto split: prod.splits result.splits)



text \<open>
  C39: the durable flag of a publication is backed by calls, for every behaviour of the calls. An outcome that
  says durable means that durability was asked for, that a handle which was seen to be the created file was
  synchronized, and that the directories of the source and of the place \<open>t\<close> the target stands for were
  synchronized: on the Host also the directory of each parent of \<open>t\<close> that had to be created, which are the
  ones found missing from the parent upwards to the first directory that was there; below a root the
  directories of \<open>t\<close> and of every path above it. With required durability a success is always durable.
\<close>

theorem temp_persist_sync_claims:
  assumes "persist_with_path tc target base opts tf w = (Ok out, w')"
  shows "\<exists>t. publishes_to tc (tf_core tf) base target t (po_path out) \<and>
    (po_durable out \<longrightarrow>
       ps_durability opts \<noteq> DurNotRequired \<and> source_was_synced tc (tf_core tf) \<and> names_were_synced tc (tf_core tf) (ps_create_parent opts) t) \<and>
    (ps_durability opts = DurRequired \<longrightarrow> po_durable out)"
  using persist_claims [OF assms] by (simp add: backed_by_calls_def)

theorem temp_persist_sync_claims_witness:
  "source_was_synced memory_temp_calls (tf_core sample_temp) \<and>
   (\<exists>t. publishes_to memory_temp_calls (tf_core sample_temp) None [47, 100, 47, 103] t [47, 100, 47, 103] \<and>
      names_were_synced memory_temp_calls (tf_core sample_temp) (ps_create_parent sample_durable) t)"
proof -
  obtain w' where "persist_with_path memory_temp_calls [47, 100, 47, 103] None sample_durable sample_temp (sample_temp_world []) =
      (Ok \<lparr>po_path = [47, 100, 47, 103], po_method = PersistAtomicRename, po_atomic = True, po_durable = True,
           po_cleanup_error = None\<rparr>, w')"
    using sample_persists by (metis prod.collapse)
  from temp_persist_sync_claims [OF this] show ?thesis
    by (auto simp: sample_durable_def)
qed



end
