(* ===== verification/Spec2Isabelle.thy ===== *)
theory Spec2Isabelle
  imports Host_Delete Copy_Correct Local_Writer_Props Conditional_Writer Rooted_Props Path_Binding
    Walk_Props Temp_Props
begin

text \<open>
  Verification library for \<^verbatim>\<open>qubit-local-files\<close>, a Rust crate of file operations with explicit
  limits, structured errors and truthful reports about what an operation did to the file system. The crate
  serves two scopes with the same operations: the Host, where paths are resolved by the operating system,
  and an opened root, where the crate resolves every component itself and never leaves the root. All paths
  below are relative to \<^verbatim>\<open>src/\<close> of the crate.

  The library follows the crate from the bottom up. A component has a theory with its data and operations
  as the source has them; its proofs stand in theories of their own when they are long.

  \<^bold>\<open>Foundations.\<close>
  \<^item> \<^verbatim>\<open>Prelude\<close>: Rust results with a panic branch kept apart from errors, the error kinds of
    \<^verbatim>\<open>std::io\<close>, and \<^verbatim>\<open>u64\<close> and \<^verbatim>\<open>usize\<close> arithmetic (checked, saturating, wrapping).
  \<^item> \<^verbatim>\<open>Commit_Monad\<close>: programs as functions from a state to a result and a state, with the Hoare-style
    judgement \<^verbatim>\<open>outcome\<close> that the proofs of all stateful components use. \<^verbatim>\<open>World_Frame\<close> adds the
    judgements for programs that leave a part of the state alone.
  \<^item> \<^verbatim>\<open>Utf8\<close> and \<^verbatim>\<open>Std_Path\<close>: what the crate uses of \<^verbatim>\<open>core::str\<close>, UTF-16 and \<^verbatim>\<open>std::path\<close> on Unix.

  \<^bold>\<open>Names, paths and errors.\<close>
  \<^item> \<^verbatim>\<open>Path_Codec\<close> (\<^verbatim>\<open>path/local_path_codec.rs\<close>): the reversible text form of native names. The round
    trips hold for every name without a NUL on Unix and Windows, and the decoder accepts canonical texts only.
  \<^item> \<^verbatim>\<open>Errors\<close> (\<^verbatim>\<open>error/\<close>): the structured error, its builders, its cleanup list and its conversions.
  \<^item> \<^verbatim>\<open>File_Names\<close> (\<^verbatim>\<open>path/local_file_names.rs\<close>, \<^verbatim>\<open>local/internal/file_name_*.rs\<close>): both name policies and the
    generated names; an accepted name is a single path component.
  \<^item> \<^verbatim>\<open>Path_Binding\<close> (\<^verbatim>\<open>path/local_path_resolver.rs\<close>, \<^verbatim>\<open>local_namespace_path.rs\<close>, \<^verbatim>\<open>local_paths.rs\<close>): operands bound to
    a current directory, and canonical components as native paths and back.
  \<^item> \<^verbatim>\<open>File_Metadata\<close> (\<^verbatim>\<open>local_file_metadata.rs\<close>, \<^verbatim>\<open>rooted/metadata.rs\<close>): the two views of native metadata.

  \<^bold>\<open>Rooted path resolution\<close> (\<^verbatim>\<open>rooted_local_file_system/support.rs\<close>, \<^verbatim>\<open>path_support.rs\<close>, \<^verbatim>\<open>resolution/\<close>,
  \<^verbatim>\<open>directory/local_component_policy.rs\<close>). \<^verbatim>\<open>Resolution\<close> has the data, \<^verbatim>\<open>Rooted_Resolution\<close> the worklist with its fast
  check and \<^verbatim>\<open>Rooted_Paths\<close> the entry points, over an arbitrary root. \<^verbatim>\<open>Rooted_Correct\<close> shows that the worklist
  refines an abstract machine, with the confinement invariant; \<^verbatim>\<open>Rooted_Static\<close> compares the fast check with the
  worklist on a namespace that stays as it is (locale \<^verbatim>\<open>static_root\<close>); \<^verbatim>\<open>Rooted_Props\<close> has the properties.

  \<^bold>\<open>Trees.\<close>
  \<^item> \<^verbatim>\<open>Delete_Tree\<close> (\<^verbatim>\<open>local/internal/delete_tree.rs\<close>, \<^verbatim>\<open>delete_budget.rs\<close>, \<^verbatim>\<open>options/\<close>): the post-order
    scheduler over an arbitrary backend. \<^verbatim>\<open>Host_Files\<close> has a quiescent namespace as \<^verbatim>\<open>std::fs\<close> presents it and the Host
    backend on it, \<^verbatim>\<open>Host_Delete\<close> the Host operations: exactly the requested tree is removed, no link is followed,
    and an error that says unchanged is true.
  \<^item> \<^verbatim>\<open>Copy_Budget\<close> and \<^verbatim>\<open>Copy_Correct\<close> (\<^verbatim>\<open>local/internal/copy_budget.rs\<close>): the limits of a copy and its
    bounded copy loop over the streams of the locale \<^verbatim>\<open>copy_streams\<close>.
  \<^item> \<^verbatim>\<open>Directory_Walk\<close> (\<^verbatim>\<open>walk/\<close>): the lazy walker of the Host, its frames, closed and reopened readers,
    budgets and error policies. \<^verbatim>\<open>Walk_Invariant\<close> keeps its limits whatever the file system answers, \<^verbatim>\<open>Walk_Static\<close> shows
    that on a quiescent namespace it lists exactly the tree, \<^verbatim>\<open>Walk_Props\<close> has the properties.

  \<^bold>\<open>Writers.\<close>
  \<^item> \<^verbatim>\<open>Write_Types\<close>: options, outcomes and recovery data; \<^verbatim>\<open>Unix_Calls\<close>: the calls the path-based writers make.
  \<^item> \<^verbatim>\<open>Atomic_Writer\<close> (\<^verbatim>\<open>local/local_atomic_writer.rs\<close> with \<^verbatim>\<open>local/internal/staged_file.rs\<close>, \<^verbatim>\<open>atomic_*.rs\<close>,
    \<^verbatim>\<open>file_move.rs\<close>): the same-directory atomic writer. \<^verbatim>\<open>Atomic_Correct\<close> proves, in the locale \<^verbatim>\<open>unix_namespace\<close>, that
    the reported destination state is true whichever calls fail; \<^verbatim>\<open>Memory_Files\<close> is a namespace with a fault schedule
    on which the locales are interpreted, \<^verbatim>\<open>Atomic_Runs\<close> has the properties.
  \<^item> \<^verbatim>\<open>Conditional\<close> (\<^verbatim>\<open>local/internal/conditional/\<close>): the conditional commit over an arbitrary backend.
    \<^verbatim>\<open>Conditional_Invariant\<close> gives an induction scheme for its phases (locale \<^verbatim>\<open>commit_invariant\<close>), \<^verbatim>\<open>Conditional_Correct\<close>
    what it guarantees, \<^verbatim>\<open>Memory_Backend\<close> concrete runs with a competing process.
  \<^item> \<^verbatim>\<open>Writer_Session\<close>, \<^verbatim>\<open>Local_Writer\<close>, \<^verbatim>\<open>Local_Writer_Correct\<close>, \<^verbatim>\<open>Local_Writer_Runs\<close>, \<^verbatim>\<open>Local_Writer_Props\<close>
    (\<^verbatim>\<open>writer/local_file_writer.rs\<close>): the public writer refines an abstract session with an exact byte count;
    \<^verbatim>\<open>Conditional_Writer\<close> (\<^verbatim>\<open>writer/local_conditional_writer.rs\<close>): the session in front of a conditional commit.

  \<^bold>\<open>Temporary files\<close> (\<^verbatim>\<open>temp/local_temp_file.rs\<close>, \<^verbatim>\<open>local_sealed_temp_file.rs\<close>, \<^verbatim>\<open>temp/internal/\<close>). \<^verbatim>\<open>Temp_Resource\<close> has the
  lifecycle a temporary resource keeps, \<^verbatim>\<open>Temp_File\<close> the operations of a file in both scopes. \<^verbatim>\<open>Temp_Correct\<close>
  (locale \<^verbatim>\<open>temp_files\<close>) and \<^verbatim>\<open>Temp_Persist\<close> relate the reported states to the namespace, \<^verbatim>\<open>Temp_Claims\<close> relates
  durability and access to the calls that were made and that succeeded, \<^verbatim>\<open>Temp_Props\<close> has the properties.

  \<^bold>\<open>Interfaces.\<close> Code outside the crate is a record of operations: the system calls of a writer, the calls of an
  opened root, the directory reader, the resource pools of \<^verbatim>\<open>qubit_budget\<close>, the streams of \<^verbatim>\<open>qubit_io\<close>, the
  random source and the clock. The definitions take the record as an argument and every result is allowed at
  every call. Where a property needs the documented behaviour of the calls, it is the assumptions of a locale
  (what a successful rename does to the names, that a failed call has no effect on them unless its error may hide
  one), and the locale is interpreted on a namespace in memory whose calls fail according to a schedule. A competing
  process is modelled where the code defends against one: between the checkpoints of a conditional commit, and as
  arbitrary answers in rooted resolution, in the walker and in the claims about synchronization.

  \<^bold>\<open>Loops.\<close> Rooted resolution is total: its measure is the number of link expansions left before the
  hop counter reaches \<^verbatim>\<open>usize\<close>'s end, then the pending components. Every other loop whose end depends on the
  environment takes fuel. Enough fuel is part of the properties: for a deletion a bound from the number of
  entries in the tree, for a copy more than the bytes of the source and the interruptions together, for the walker the number of entries
  read from a directory plus one and the length of the listing plus two. Out of fuel is a result of its own,
  and the properties of copies, deletions and walks show that it does not occur with that much fuel. The
  creation of a staged file has no end of its own when the source sets no limit on the tries; running out of
  fuel there is shown to mean that as many generated names were refused as taken, and the properties of the writers speak
  of the writers that were opened.

  \<^bold>\<open>Not modelled.\<close> Windows, macOS and FreeBSD variants (only the path codec has its Windows form): the proofs
  speak of Linux. The descriptor-relative calls of the opened root, the native conditional backends, metadata
  preservation, privacy and security descriptors are sequences of foreign calls; they are parameters of the
  components that use them. Copies of trees, staged directories and their publication, directory handles,
  temporary directories, the creation and the recovery of temporary resources, the rooted atomic writer and the
  rooted walker, the capability probe and the public facades that bind operands and choose a backend are not part of this
  library; they build on the components above. Display texts, accessors, fault injection and test code are left out.
\<close>

end
